(* ===== verification/Prelude.thy ===== *)
theory Prelude
  imports Main "HOL-Library.Word" "HOL-Library.Sublist"
begin

text \<open>
  Shared vocabulary of the development: the outcome of a C++ call, the exceptions the library
  throws, and the generic facts on lists and options that the component theories use.
\<close>

section \<open>Outcomes of a C++ call\<close>

text \<open>
  A call returns a value, leaves by an exception, ends the process (an exception that leaves a
  \<open>noexcept\<close> function, a failed \<open>assert\<close>), or has undefined behaviour (an access outside an array).
  The four cases are kept apart, so that a theorem that a call returns excludes the others.
\<close>

datatype exn =
    Runtime_error string
  | Out_of_range string
  | Invalid_argument string
  | Lib_error string
  | Thrown_string string

datatype 'a outcome = Ret 'a | Raise exn | Terminate | Undef

fun bind_outcome :: "'a outcome \<Rightarrow> ('a \<Rightarrow> 'b outcome) \<Rightarrow> 'b outcome" where
  "bind_outcome (Ret x) f = f x"
| "bind_outcome (Raise e) f = Raise e"
| "bind_outcome Terminate f = Terminate"
| "bind_outcome Undef f = Undef"

fun map_out :: "('a \<Rightarrow> 'b) \<Rightarrow> 'a outcome \<Rightarrow> 'b outcome" where
  "map_out f (Ret x) = Ret (f x)"
| "map_out f (Raise e) = Raise e"
| "map_out f Terminate = Terminate"
| "map_out f Undef = Undef"

text \<open>An exception that leaves a \<open>noexcept\<close> function calls \<open>std::terminate\<close>.\<close>

fun noexcept :: "'a outcome \<Rightarrow> 'a outcome" where
  "noexcept (Raise e) = Terminate"
| "noexcept r = r"

lemma bind_outcome_eq_Ret:
  "bind_outcome m f = Ret y \<longleftrightarrow> (\<exists>x. m = Ret x \<and> f x = Ret y)"
  by (cases m) auto

lemma map_out_eq_Ret: "map_out f m = Ret y \<longleftrightarrow> (\<exists>x. m = Ret x \<and> y = f x)"
  by (cases m) auto

lemma noexcept_eq_Ret [simp]: "noexcept m = Ret y \<longleftrightarrow> m = Ret y"
  by (cases m) auto

lemma noexcept_not_Raise [simp]: "noexcept m \<noteq> Raise e"
  by (cases m) auto

section \<open>Collections of simplification rules\<close>

named_theorems outcome_simps \<open>inversion rules of the outcome combinators\<close>
named_theorems layout_simps \<open>sizes of the byte representations\<close>

lemmas [outcome_simps] = bind_outcome_eq_Ret map_out_eq_Ret

section \<open>Machine types\<close>

type_synonym byte = "8 word"
type_synonym int64 = "64 word"
type_synonym int16 = "16 word"

text \<open>The values of \<open>size_t\<close> on the 64-bit targets of the build.\<close>

definition size_max :: nat where
  "size_max = 2 ^ 64"

section \<open>Generic facts on lists\<close>

lemma take_length_append [simp]: "take (length xs) (xs @ ys) = xs"
  by simp

lemma drop_length_append [simp]: "drop (length xs) (xs @ ys) = ys"
  by simp

lemma takeWhile_neq_notin: "c \<notin> set (takeWhile (\<lambda>x. x \<noteq> c) xs)"
  by (auto dest: set_takeWhileD)

lemma takeWhile_neq_id: "c \<notin> set xs \<Longrightarrow> takeWhile (\<lambda>x. x \<noteq> c) xs = xs"
  by (auto intro: takeWhile_eq_all_conv [THEN iffD2])

lemma takeWhile_neq_append: "c \<notin> set xs \<Longrightarrow> takeWhile (\<lambda>x. x \<noteq> c) (xs @ c # ys) = xs"
  by (induction xs) auto

lemma length_takeWhile_less_iff:
  "length (takeWhile P xs) < length xs \<longleftrightarrow> (\<exists>x\<in>set xs. \<not> P x)"
  by (induction xs) auto

end
