(* ===== verification/Cpp_Std.thy ===== *)
theory Cpp_Std
  imports Prelude
begin

text \<open>
  The parts of the C++ standard library that the modelled sources call: searching, erasing and
  replacing in \<open>std::string\<close>, the character classes of the C locale, decimal output of integers, and
  the binary search of \<open>std::lower_bound\<close>. \<open>C\<close> is \<open>char\<close> (string_def.hpp without \<open>WIDE_CHAR\<close>), so a
  string is a list of HOL characters, which are bytes. \<open>npos\<close> is \<open>None\<close>.
\<close>

section \<open>Searching in strings\<close>

fun find_index :: "('a \<Rightarrow> bool) \<Rightarrow> 'a list \<Rightarrow> nat option" where
  "find_index P [] = None"
| "find_index P (x # xs) = (if P x then Some 0 else map_option Suc (find_index P xs))"

lemma find_index_None: "find_index P xs = None \<longleftrightarrow> (\<forall>x\<in>set xs. \<not> P x)"
  by (induction xs) auto

lemma find_index_Some:
  "find_index P xs = Some i \<longleftrightarrow> i < length xs \<and> P (xs ! i) \<and> (\<forall>j<i. \<not> P (xs ! j))"
proof (induction xs arbitrary: i)
  case Nil
  then show ?case by simp
next
  case (Cons x xs)
  then show ?case by (cases i) (auto simp: nth_Cons split: nat.splits)
qed

lemma find_index_split:
  "find_index P xs = Some i \<Longrightarrow>
     xs = take i xs @ xs ! i # drop (Suc i) xs \<and> P (xs ! i) \<and> (\<forall>x\<in>set (take i xs). \<not> P x)"
  by (auto simp: find_index_Some id_take_nth_drop in_set_conv_nth)

text \<open>\<open>s.find (c, pos)\<close>: the first occurrence at or after \<open>pos\<close>.\<close>

definition find_char :: "string \<Rightarrow> char \<Rightarrow> nat \<Rightarrow> nat option" where
  "find_char s c pos = map_option (\<lambda>i. pos + i) (find_index (\<lambda>x. x = c) (drop pos s))"

text \<open>\<open>s.rfind (c)\<close> and \<open>s.find_last_of (c)\<close>: the last occurrence.\<close>

definition rfind_char :: "string \<Rightarrow> char \<Rightarrow> nat option" where
  "rfind_char s c = map_option (\<lambda>i. length s - 1 - i) (find_index (\<lambda>x. x = c) (rev s))"

text \<open>\<open>s.find (p)\<close>: the first position at which \<open>p\<close> occurs.\<close>

fun find_str :: "string \<Rightarrow> string \<Rightarrow> nat option" where
  "find_str p [] = (if p = [] then Some 0 else None)"
| "find_str p (c # s) = (if prefix p (c # s) then Some 0 else map_option Suc (find_str p s))"

lemma find_str_None: "find_str p s = None \<longleftrightarrow> \<not> sublist p s"
  by (induction s) (auto simp: sublist_Cons_right)

lemma find_str_Some: "find_str p s = Some i \<Longrightarrow> s = take i s @ p @ drop (i + length p) s"
proof (induction s arbitrary: i)
  case Nil
  then show ?case by (simp split: if_splits)
next
  case (Cons c s)
  show ?case
  proof (cases "prefix p (c # s)")
    case True
    with Cons.prems show ?thesis by (auto simp: prefix_def)
  next
    case False
    with Cons.prems obtain j where "find_str p s = Some j" "i = Suc j" by auto
    with Cons.IH [of j] show ?thesis by simp
  qed
qed

lemma find_str_bound: "find_str p s = Some i \<Longrightarrow> i + length p \<le> length s"
proof (induction s arbitrary: i)
  case (Cons c s)
  then show ?case by (fastforce split: if_splits dest: prefix_length_le)
qed (simp split: if_splits)

lemma find_str_Nil [simp]: "find_str [] s = Some 0"
  by (cases s) auto

section \<open>Erasing, replacing and inserting\<close>

text \<open>\<open>s.erase (pos, n)\<close> and \<open>s.replace (pos, n, r)\<close> with \<open>pos\<close> at most the length.\<close>

definition erase :: "string \<Rightarrow> nat \<Rightarrow> nat \<Rightarrow> string" where
  "erase s pos n = take pos s @ drop (pos + n) s"

definition replace :: "string \<Rightarrow> nat \<Rightarrow> nat \<Rightarrow> string \<Rightarrow> string" where
  "replace s pos n r = take pos s @ r @ drop (pos + n) s"

text \<open>\<open>s.substr (pos, n)\<close> with \<open>pos\<close> at most the length, as every modelled caller has it.\<close>

definition substr :: "string \<Rightarrow> nat \<Rightarrow> nat \<Rightarrow> string" where
  "substr s pos n = take n (drop pos s)"

definition substr_from :: "string \<Rightarrow> nat \<Rightarrow> string" where
  "substr_from s pos = drop pos s"

lemma length_erase_found:
  "find_str p s = Some i \<Longrightarrow> length (erase s i (length p)) = length s - length p"
  by (frule find_str_bound) (simp add: erase_def)

lemma length_replace_found:
  "find_str p s = Some i \<Longrightarrow> length (replace s i (length p) r) = length s - length p + length r"
  by (frule find_str_bound) (simp add: replace_def)

section \<open>Character classes of the C locale\<close>

definition code :: "char \<Rightarrow> nat" where
  "code c = of_char c"

definition isdigit :: "char \<Rightarrow> bool" where
  "isdigit c \<longleftrightarrow> 48 \<le> code c \<and> code c \<le> 57"

definition isupper :: "char \<Rightarrow> bool" where
  "isupper c \<longleftrightarrow> 65 \<le> code c \<and> code c \<le> 90"

definition islower :: "char \<Rightarrow> bool" where
  "islower c \<longleftrightarrow> 97 \<le> code c \<and> code c \<le> 122"

definition isalpha :: "char \<Rightarrow> bool" where
  "isalpha c \<longleftrightarrow> isupper c \<or> islower c"

definition isalnum :: "char \<Rightarrow> bool" where
  "isalnum c \<longleftrightarrow> isdigit c \<or> isalpha c"

text \<open>\<open>isspace\<close> and \<open>iswspace\<close>: space, tab, newline, vertical tab, form feed, carriage return.\<close>

definition isspace :: "char \<Rightarrow> bool" where
  "isspace c \<longleftrightarrow> code c = 32 \<or> (9 \<le> code c \<and> code c \<le> 13)"

definition tolower :: "char \<Rightarrow> char" where
  "tolower c = (if isupper c then char_of (code c + 32) else c)"

definition toupper :: "char \<Rightarrow> char" where
  "toupper c = (if islower c then char_of (code c - 32) else c)"

lemma code_less [simp]: "code c < 256"
  by (simp add: code_def)

lemma code_inject [simp]: "code c = code d \<longleftrightarrow> c = d"
  by (simp add: code_def)

lemma code_char_of [simp]: "code (char_of n) = n mod 256"
  by (simp add: code_def)

lemma tolower_tolower [simp]: "tolower (tolower c) = tolower c"
  by (auto simp: tolower_def isupper_def)

lemma toupper_toupper [simp]: "toupper (toupper c) = toupper c"
  by (auto simp: toupper_def islower_def)

lemma tolower_toupper [simp]: "tolower (toupper c) = tolower c"
proof -
  have "char_of (code c) = c" by (simp add: code_def)
  then show ?thesis by (auto simp: tolower_def toupper_def isupper_def islower_def)
qed

section \<open>Decimal output\<close>

text \<open>\<open>os << n\<close> for an unsigned and for a signed integer.\<close>

fun show_nat :: "nat \<Rightarrow> string" where
  "show_nat n = (if n < 10 then [char_of (48 + n)] else show_nat (n div 10) @ [char_of (48 + n mod 10)])"

declare show_nat.simps [simp del]

definition show_int :: "int \<Rightarrow> string" where
  "show_int i = (if i < 0 then CHR ''-'' # show_nat (nat (- i)) else show_nat (nat i))"

text \<open>The value a decimal string stands for, as \<open>is >> n\<close> reads it.\<close>

definition read_nat :: "string \<Rightarrow> nat" where
  "read_nat s = foldl (\<lambda>acc c. 10 * acc + (code c - 48)) 0 s"

lemma read_nat_append1: "read_nat (s @ [c]) = 10 * read_nat s + (code c - 48)"
  by (simp add: read_nat_def)

lemma read_show_nat [simp]: "read_nat (show_nat n) = n"
proof (induction n rule: show_nat.induct)
  case (1 n)
  show ?case
  proof (cases "n < 10")
    case True
    then show ?thesis by (subst show_nat.simps) (simp add: read_nat_def)
  next
    case False
    then have "n mod 10 + 48 < 256" by (simp add: trans_less_add1)
    with False 1 show ?thesis by (subst show_nat.simps) (simp add: read_nat_append1)
  qed
qed

lemma show_nat_digits: "c \<in> set (show_nat n) \<Longrightarrow> isdigit c"
proof (induction n rule: show_nat.induct)
  case (1 n)
  have "n mod 10 < 10" by simp
  with 1 show ?case
    by (subst (asm) show_nat.simps) (auto simp: isdigit_def split: if_splits)
qed

lemma show_nat_nonempty [simp]: "show_nat n \<noteq> []"
  by (subst show_nat.simps) simp

lemma show_nat_length:
  "0 < k \<Longrightarrow> n < 10 ^ k \<Longrightarrow> length (show_nat n) \<le> k"
proof (induction k arbitrary: n)
  case (Suc k)
  show ?case
  proof (cases "n < 10")
    case True
    then show ?thesis by (subst show_nat.simps) simp
  next
    case False
    then have k: "0 < k" using Suc.prems(2) by (cases k) auto
    from Suc.prems(2) have "n div 10 < 10 ^ k" by (simp add: less_mult_imp_div_less mult.commute)
    with Suc.IH [OF k] False show ?thesis by (subst show_nat.simps) simp
  qed
qed simp

section \<open>Input streams\<close>

text \<open>
  A text input stream: what is left to read and the two bits that make \<open>operator bool\<close> and \<open>good ()\<close>
  false. \<open>is >> s\<close> skips white space and takes the characters up to the next white space; at the end of
  the input, or on a stream that is not good, it reads nothing and sets the fail bit.
\<close>

record istream =
  rest :: string
  eofbit :: bool
  failbit :: bool

definition open_istream :: "string \<Rightarrow> istream" where
  "open_istream s = \<lparr>rest = s, eofbit = False, failbit = False\<rparr>"

definition good :: "istream \<Rightarrow> bool" where
  "good is \<longleftrightarrow> \<not> eofbit is \<and> \<not> failbit is"

definition read_word :: "istream \<Rightarrow> istream \<times> string" where
  "read_word is =
     (if \<not> good is then (is\<lparr>failbit := True\<rparr>, [])
      else
        let s = dropWhile isspace (rest is);
            w = takeWhile (\<lambda>c. \<not> isspace c) s;
            r = dropWhile (\<lambda>c. \<not> isspace c) s
        in (is\<lparr>rest := r, eofbit := (r = []), failbit := (w = [])\<rparr>, w))"

text \<open>\<open>is.peek ()\<close> gives the next character or \<open>EOF\<close> (\<open>None\<close>), \<open>is.ignore ()\<close> drops one character.\<close>

definition peek :: "istream \<Rightarrow> istream \<times> char option" where
  "peek is =
     (if \<not> good is then (is\<lparr>failbit := True\<rparr>, None)
      else case rest is of [] \<Rightarrow> (is\<lparr>eofbit := True\<rparr>, None) | c # _ \<Rightarrow> (is, Some c))"

definition ignore1 :: "istream \<Rightarrow> istream" where
  "ignore1 is =
     (if \<not> good is then is\<lparr>failbit := True\<rparr>
      else case rest is of [] \<Rightarrow> is\<lparr>eofbit := True\<rparr> | c # r \<Rightarrow> is\<lparr>rest := r\<rparr>)"

section \<open>Binary search\<close>

text \<open>
  \<open>std::lower_bound\<close> over \<open>[first, first + len)\<close>: halve the range, and continue to the right of the
  middle element while it compares less than the value. The result is an index.
\<close>

function lower_bound_loop :: "('a \<Rightarrow> 'a \<Rightarrow> bool) \<Rightarrow> 'a list \<Rightarrow> 'a \<Rightarrow> nat \<Rightarrow> nat \<Rightarrow> nat" where
  "lower_bound_loop cmp xs v first len =
     (if len = 0 then first
      else let half = len div 2; middle = first + half in
        if cmp (xs ! middle) v then lower_bound_loop cmp xs v (middle + 1) (len - half - 1)
        else lower_bound_loop cmp xs v first half)"
  by pat_completeness auto
termination
  by (relation "measure (\<lambda>(cmp, xs, v, first, len). len)") auto

declare lower_bound_loop.simps [simp del]

definition lower_bound :: "('a \<Rightarrow> 'a \<Rightarrow> bool) \<Rightarrow> 'a list \<Rightarrow> 'a \<Rightarrow> nat" where
  "lower_bound cmp xs v = lower_bound_loop cmp xs v 0 (length xs)"

text \<open>
  On a range that is partitioned with respect to the value (what \<open>std::lower_bound\<close> asks of its
  caller) the result separates the elements that compare less from the others.
\<close>

lemma lower_bound_loop_separates:
  assumes "first + len \<le> length xs"
    and "\<forall>i j. i < j \<longrightarrow> j < length xs \<longrightarrow> cmp (xs ! j) v \<longrightarrow> cmp (xs ! i) v"
    and "\<forall>i<first. cmp (xs ! i) v"
    and "\<forall>i. first + len \<le> i \<longrightarrow> i < length xs \<longrightarrow> \<not> cmp (xs ! i) v"
  shows "lower_bound_loop cmp xs v first len \<le> length xs
    \<and> (\<forall>i<lower_bound_loop cmp xs v first len. cmp (xs ! i) v)
    \<and> (\<forall>i. lower_bound_loop cmp xs v first len \<le> i \<longrightarrow> i < length xs \<longrightarrow> \<not> cmp (xs ! i) v)"
  using assms
proof (induction cmp xs v first len rule: lower_bound_loop.induct)
  case (1 cmp xs v first len)
  let ?half = "len div 2" and ?mid = "first + len div 2"
  show ?case
  proof (cases "len = 0")
    case True
    then have step: "lower_bound_loop cmp xs v first len = first"
      by (subst lower_bound_loop.simps) simp
    show ?thesis unfolding step using "1.prems" True by simp
  next
    case False
    then have mid: "?mid < first + len" by simp
    note unf = lower_bound_loop.simps [of cmp xs v first len]
    show ?thesis
    proof (cases "cmp (xs ! ?mid) v")
      case True
      have left: "\<forall>i<?mid + 1. cmp (xs ! i) v"
      proof (intro allI impI)
        fix i assume "i < ?mid + 1"
        then consider "i = ?mid" | "i < ?mid" by linarith
        then show "cmp (xs ! i) v"
        proof cases
          case 2
          moreover have "?mid < length xs" using mid "1.prems"(1) by linarith
          ultimately show ?thesis using True "1.prems"(2) by blast
        qed (use True in simp)
      qed
      have len: "?mid + 1 + (len - ?half - 1) = first + len" using mid by linarith
      have step: "lower_bound_loop cmp xs v first len
          = lower_bound_loop cmp xs v (?mid + 1) (len - ?half - 1)"
        using \<open>len \<noteq> 0\<close> True unf by (simp only: Let_def if_True if_False)
      show ?thesis
        unfolding step
        by (rule "1.IH"(1) [OF \<open>len \<noteq> 0\<close> refl refl True]) (use "1.prems" left in \<open>simp_all only: len\<close>)
    next
      case False
      have right: "\<forall>i. ?mid \<le> i \<longrightarrow> i < length xs \<longrightarrow> \<not> cmp (xs ! i) v"
      proof (intro allI impI notI)
        fix i assume i: "?mid \<le> i" "i < length xs" "cmp (xs ! i) v"
        then have "?mid < i" using False by (cases "?mid = i") auto
        with "1.prems"(2) i False show False by blast
      qed
      have step: "lower_bound_loop cmp xs v first len = lower_bound_loop cmp xs v first ?half"
        using \<open>len \<noteq> 0\<close> False unf by (simp only: Let_def if_False)
      have bound: "?mid \<le> length xs" using mid "1.prems"(1) by linarith
      show ?thesis
        unfolding step
        by (rule "1.IH"(2) [OF \<open>len \<noteq> 0\<close> refl refl False bound "1.prems"(2,3) right])
    qed
  qed
qed

lemma lower_bound_separates:
  assumes "\<forall>i j. i < j \<longrightarrow> j < length xs \<longrightarrow> cmp (xs ! j) v \<longrightarrow> cmp (xs ! i) v"
  shows "lower_bound cmp xs v \<le> length xs
    \<and> (\<forall>i<lower_bound cmp xs v. cmp (xs ! i) v)
    \<and> (\<forall>i. lower_bound cmp xs v \<le> i \<longrightarrow> i < length xs \<longrightarrow> \<not> cmp (xs ! i) v)"
  unfolding lower_bound_def
  by (rule lower_bound_loop_separates) (use assms in auto)

end
