(* ===== verification/Accent.thy ===== *)
theory Accent
  imports Cpp_Std
begin

text \<open>
  Accent removal for single characters (icu\_util.hpp, \<open>remove_accent_char\<close>). The ICU library is a
  parameter: the NFD normaliser as a function that fails or gives the code points of the normalised
  text, and the test for the category Mn. \<open>C\<close> is \<open>char\<close>, which is signed on the targets of the build
  (x86-64 Linux and Windows, macOS), so a character is read as a value between \<open>-128\<close> and \<open>127\<close>.
\<close>

record icu =
  nfd :: "int \<Rightarrow> int list option"
  is_non_spacing_mark :: "int \<Rightarrow> bool"

definition cval :: "char \<Rightarrow> int" where
  "cval c = (if code c < 128 then int (code c) else int (code c) - 256)"

text \<open>\<open>static_cast<CharT>(ch)\<close> keeps the low byte.\<close>

definition char_of_int :: "int \<Rightarrow> char" where
  "char_of_int i = char_of (nat (i mod 256))"

text \<open>The loop over the normalised text: the first code point that is no combining mark.\<close>

fun first_base :: "icu \<Rightarrow> int list \<Rightarrow> char \<Rightarrow> char" where
  "first_base u [] c = c"
| "first_base u (ch # chs) c =
     (if \<not> is_non_spacing_mark u ch then char_of_int ch else first_base u chs c)"

definition remove_accent_char :: "icu \<Rightarrow> char \<Rightarrow> char" where
  "remove_accent_char u c =
     (if cval c < 128 then c
      else case nfd u (cval c) of
        None \<Rightarrow> c
      | Some normalized \<Rightarrow> first_base u normalized c)"

text \<open>\<open>copy_remove_accent\<close> of cs.hpp.\<close>

definition copy_remove_accent :: "icu \<Rightarrow> char \<Rightarrow> char" where
  "copy_remove_accent u c = remove_accent_char u c"

lemma cval_bounds: "- 128 \<le> cval c \<and> cval c < 128"
  using code_less [of c] by (simp add: cval_def del: code_less)

lemma cval_inject [simp]: "cval c = cval d \<longleftrightarrow> c = d"
proof
  assume eq: "cval c = cval d"
  have "code c = code d"
    using eq code_less [of c] code_less [of d] by (simp add: cval_def del: code_less split: if_splits)
  then show "c = d" by simp
qed simp

text \<open>
  The guard \<open>*c < 128\<close> is meant as a fast path for ASCII. A signed character is never 128 or more, so
  the fast path is the only path: no accent is ever removed, whatever the ICU library answers.
\<close>

lemma remove_accent_char_id: "remove_accent_char u c = c"
  using cval_bounds [of c] by (simp add: remove_accent_char_def)

lemma copy_remove_accent_id [simp]: "copy_remove_accent u c = c"
  by (simp add: copy_remove_accent_def remove_accent_char_id)

end
