(* ===== verification/CString.thy ===== *)
theory CString
  imports Accent
begin

text \<open>
  The fixed-size character string \<open>CS<MIN, MAX, CaseSensitive, AccentSensitive>\<close> of cs.hpp. The
  template arguments are a record, the member \<open>data\<close> is the list of its \<open>MAX\<close> characters. A read past
  the array (\<open>length ()\<close> without a null character) or a write past it is the outcome \<open>Undef\<close>.
  The lemmas show that the constructors and assignments build null-terminated arrays, that the
  string comes back out, that \<open>==\<close> is an equivalence relation that agrees with case-insensitive
  equality, and what \<open>+=\<close> and \<open>+\<close> do on every branch.
\<close>

section \<open>Comparing characters\<close>

text \<open>
  \<open>std::tolower\<close> is given a \<open>char\<close>, which is signed: its behaviour is undefined for a negative value other than \<open>EOF\<close>, which
  is -1.
\<close>

definition lower_arg :: "char \<Rightarrow> bool" where
  "lower_arg c \<longleftrightarrow> 0 \<le> cval c \<or> cval c = - 1"

definition std_tolower :: "char \<Rightarrow> char outcome" where
  "std_tolower c = (if lower_arg c then Ret (tolower c) else Undef)"

definition chr_equal :: "icu \<Rightarrow> bool \<Rightarrow> bool \<Rightarrow> char \<Rightarrow> char \<Rightarrow> bool outcome" where
  "chr_equal u case_sensitive accent_sensitive c c2 =
     (if case_sensitive then
        if accent_sensitive then Ret (c = c2)
        else Ret (copy_remove_accent u c = copy_remove_accent u c2)
      else
        if accent_sensitive then bind_outcome (std_tolower c) (\<lambda>x. bind_outcome (std_tolower c2) (\<lambda>y. Ret (x = y)))
        else bind_outcome (std_tolower (copy_remove_accent u c)) (\<lambda>x.
          bind_outcome (std_tolower (copy_remove_accent u c2)) (\<lambda>y. Ret (x = y))))"

definition chr_less :: "icu \<Rightarrow> bool \<Rightarrow> bool \<Rightarrow> char \<Rightarrow> char \<Rightarrow> bool outcome" where
  "chr_less u case_sensitive accent_sensitive c c2 =
     (if case_sensitive then
        if accent_sensitive then Ret (cval c < cval c2)
        else Ret (cval (copy_remove_accent u c) < cval (copy_remove_accent u c2))
      else
        if accent_sensitive then bind_outcome (std_tolower c) (\<lambda>x. bind_outcome (std_tolower c2) (\<lambda>y. Ret (cval x < cval y)))
        else bind_outcome (std_tolower (copy_remove_accent u c)) (\<lambda>x.
          bind_outcome (std_tolower (copy_remove_accent u c2)) (\<lambda>y. Ret (cval x < cval y))))"

definition chr_not_equal :: "icu \<Rightarrow> bool \<Rightarrow> bool \<Rightarrow> char \<Rightarrow> char \<Rightarrow> bool outcome" where
  "chr_not_equal u cse acc c c2 = map_out Not (chr_equal u cse acc c c2)"

definition chr_greater :: "icu \<Rightarrow> bool \<Rightarrow> bool \<Rightarrow> char \<Rightarrow> char \<Rightarrow> bool outcome" where
  "chr_greater u cse acc c c2 =
     bind_outcome (chr_less u cse acc c c2) (\<lambda>l. if l then Ret False else map_out Not (chr_equal u cse acc c c2))"

definition chr_less_equal :: "icu \<Rightarrow> bool \<Rightarrow> bool \<Rightarrow> char \<Rightarrow> char \<Rightarrow> bool outcome" where
  "chr_less_equal u cse acc c c2 =
     bind_outcome (chr_less u cse acc c c2) (\<lambda>l. if l then Ret True else chr_equal u cse acc c c2)"

definition chr_greater_equal :: "icu \<Rightarrow> bool \<Rightarrow> bool \<Rightarrow> char \<Rightarrow> char \<Rightarrow> bool outcome" where
  "chr_greater_equal u cse acc c c2 =
     bind_outcome (chr_greater u cse acc c c2) (\<lambda>g. if g then Ret True else chr_equal u cse acc c c2)"

section \<open>The class\<close>

text \<open>The template arguments. The defaults are \<open>CS<0, 20, false, false>\<close>.\<close>

record cs_type =
  cs_min :: nat
  cs_max :: nat
  case_sensitive :: bool
  accent_sensitive :: bool

definition CS :: "nat \<Rightarrow> nat \<Rightarrow> cs_type" where
  "CS mn mx = \<lparr>cs_min = mn, cs_max = mx, case_sensitive = False, accent_sensitive = False\<rparr>"

type_synonym cs = "char list"

definition NUL :: char where
  "NUL = CHR 0x00"

definition cs_size :: "cs_type \<Rightarrow> nat" where
  "cs_size t = cs_max t"

definition cs_fill :: "cs_type \<Rightarrow> char \<Rightarrow> cs" where
  "cs_fill t c = replicate (cs_max t) c"

definition cs_fill_null :: "cs_type \<Rightarrow> cs" where
  "cs_fill_null t = cs_fill t NUL"

definition cs_default :: "cs_type \<Rightarrow> cs" where
  "cs_default t = cs_fill_null t"

definition cs_is_null_char :: "cs \<Rightarrow> nat \<Rightarrow> bool outcome" where
  "cs_is_null_char a i = (if i < length a then Ret (a ! i = NUL) else Undef)"

text \<open>\<open>length ()\<close>: \<open>char_traits::length\<close> reads up to the first null character.\<close>

definition cs_length :: "cs \<Rightarrow> nat outcome" where
  "cs_length a = (case find_index (\<lambda>c. c = NUL) a of None \<Rightarrow> Undef | Some n \<Rightarrow> Ret n)"

definition cs_copy :: "cs_type \<Rightarrow> string \<Rightarrow> nat \<Rightarrow> bool \<Rightarrow> bool \<Rightarrow> cs \<Rightarrow> cs outcome" where
  "cs_copy t s s_length add_null_at_end fill_null_before_copy d =
     (if cs_max t \<le> s_length then
        Raise (Runtime_error (''String is too long. Max size is '' @ show_nat (cs_max t)))
      else if s_length < cs_min t then
        Raise (Runtime_error (''String is too short. Min size is '' @ show_nat (cs_min t)))
      else if length s < s_length then Undef
      else
        let d1 = (if fill_null_before_copy then cs_fill_null t else d);
            d2 = take s_length s @ drop s_length d1
        in Ret (if add_null_at_end then d2[s_length := NUL] else d2))"

text \<open>A \<open>const C*\<close> points to a null-terminated array; its length is found by \<open>char_traits::length\<close>.\<close>

definition cs_copy_cstr :: "cs_type \<Rightarrow> cs \<Rightarrow> cs \<Rightarrow> cs outcome" where
  "cs_copy_cstr t str d = bind_outcome (cs_length str) (\<lambda>strlen. cs_copy t str strlen True True d)"

definition cs_copy_string :: "cs_type \<Rightarrow> string \<Rightarrow> cs \<Rightarrow> cs outcome" where
  "cs_copy_string t str d = cs_copy t str (length str) True True d"

text \<open>
  The constructors from \<open>const C*\<close> and from \<open>S\<close>. The array is filled before the copy, so its
  previous contents (here \<open>cs_fill_null\<close>) do not matter.
\<close>

definition cs_of_cstr :: "cs_type \<Rightarrow> cs \<Rightarrow> cs outcome" where
  "cs_of_cstr t str = cs_copy_cstr t str (cs_fill_null t)"

definition cs_of_string :: "cs_type \<Rightarrow> string \<Rightarrow> cs outcome" where
  "cs_of_string t str = cs_copy_string t str (cs_fill_null t)"

text \<open>\<open>to_string\<close>, \<open>str\<close> and the conversion to \<open>S\<close> read up to the first null character.\<close>

definition cs_to_string :: "cs \<Rightarrow> string outcome" where
  "cs_to_string a = bind_outcome (cs_length a) (\<lambda>n. Ret (take n a))"

text \<open>The conversion to \<open>C*\<close> copies the characters and the null character.\<close>

definition cs_to_cptr :: "cs \<Rightarrow> cs outcome" where
  "cs_to_cptr a = bind_outcome (cs_length a) (\<lambda>n. Ret (take (n + 1) a))"

text \<open>\<open>length () - other.length ()\<close> on \<open>size_t\<close>.\<close>

definition cs_cmp_strlen :: "cs \<Rightarrow> cs \<Rightarrow> nat outcome" where
  "cs_cmp_strlen a b = bind_outcome (cs_length a) (\<lambda>m. bind_outcome (cs_length b) (\<lambda>n.
     Ret (nat ((int m - int n) mod int size_max))))"

definition cs_eq_strlen :: "cs \<Rightarrow> cs \<Rightarrow> bool outcome" where
  "cs_eq_strlen a b = bind_outcome (cs_length a) (\<lambda>m. bind_outcome (cs_length b) (\<lambda>n. Ret (m = n)))"

definition cs_empty :: "cs \<Rightarrow> bool outcome" where
  "cs_empty a = bind_outcome (cs_length a) (\<lambda>n. Ret (n = 0))"

text \<open>\<open>operator[]\<close> and \<open>at\<close> check nothing.\<close>

definition cs_at :: "cs \<Rightarrow> nat \<Rightarrow> char outcome" where
  "cs_at a i = (if i < length a then Ret (a ! i) else Undef)"

text \<open>Both give a reference; this is the assignment through it.\<close>

definition cs_put :: "cs \<Rightarrow> nat \<Rightarrow> char \<Rightarrow> cs outcome" where
  "cs_put a i c = (if i < length a then Ret (a[i := c]) else Undef)"

subsection \<open>Comparison operators\<close>

text \<open>The loops of \<open>==\<close> and \<open><\<close>, which stop at the first index where the test fails.\<close>

fun all_range :: "(nat \<Rightarrow> bool) \<Rightarrow> nat \<Rightarrow> nat \<Rightarrow> bool" where
  "all_range P i 0 = True"
| "all_range P i (Suc k) = (if \<not> P i then False else all_range P (Suc i) k)"

fun all_range_out :: "(nat \<Rightarrow> bool outcome) \<Rightarrow> nat \<Rightarrow> nat \<Rightarrow> bool outcome" where
  "all_range_out P i 0 = Ret True"
| "all_range_out P i (Suc k) = bind_outcome (P i) (\<lambda>b. if \<not> b then Ret False else all_range_out P (Suc i) k)"

definition cs_eq :: "icu \<Rightarrow> cs_type \<Rightarrow> cs \<Rightarrow> cs \<Rightarrow> bool outcome" where
  "cs_eq u t a b = bind_outcome (cs_eq_strlen a b) (\<lambda>result.
     if result then
       bind_outcome (cs_length a) (\<lambda>strlen.
         all_range_out (\<lambda>i. chr_equal u (case_sensitive t) (accent_sensitive t) (a ! i) (b ! i)) 0 strlen)
     else Ret False)"

definition cs_neq :: "icu \<Rightarrow> cs_type \<Rightarrow> cs \<Rightarrow> cs \<Rightarrow> bool outcome" where
  "cs_neq u t a b = map_out Not (cs_eq u t a b)"

definition cs_less :: "icu \<Rightarrow> cs_type \<Rightarrow> cs \<Rightarrow> cs \<Rightarrow> bool outcome" where
  "cs_less u t a b =
     (if a = [] \<or> b = [] then Undef
      else bind_outcome (chr_less u (case_sensitive t) (accent_sensitive t) (a ! 0) (b ! 0)) (\<lambda>result.
        if result then
          bind_outcome (cs_length a) (\<lambda>strlen.
            all_range_out (\<lambda>i. if i < length b then chr_less u (case_sensitive t) (accent_sensitive t) (a ! i) (b ! i) else Undef) 1
              (strlen - 1))
        else Ret False))"

definition cs_greater :: "icu \<Rightarrow> cs_type \<Rightarrow> cs \<Rightarrow> cs \<Rightarrow> bool outcome" where
  "cs_greater u t a b = cs_less u t b a"

definition cs_less_equal :: "icu \<Rightarrow> cs_type \<Rightarrow> cs \<Rightarrow> cs \<Rightarrow> bool outcome" where
  "cs_less_equal u t a b = map_out Not (cs_less u t b a)"

definition cs_greater_equal :: "icu \<Rightarrow> cs_type \<Rightarrow> cs \<Rightarrow> cs \<Rightarrow> bool outcome" where
  "cs_greater_equal u t a b = map_out Not (cs_less u t a b)"

subsection \<open>Assignment and concatenation\<close>

text \<open>\<open>operator= (const S&)\<close> is \<open>noexcept\<close>, so a string that does not fit ends the process.\<close>

definition cs_assign_string :: "cs_type \<Rightarrow> string \<Rightarrow> cs \<Rightarrow> cs outcome" where
  "cs_assign_string t str d = noexcept (cs_copy_string t str d)"

definition cs_assign_cstr :: "cs_type \<Rightarrow> cs \<Rightarrow> cs \<Rightarrow> cs outcome" where
  "cs_assign_cstr t str d = cs_copy_cstr t str d"

definition cs_assign_array :: "cs_type \<Rightarrow> char list \<Rightarrow> cs \<Rightarrow> cs" where
  "cs_assign_array t arr d = take (cs_max t) arr"

definition cs_assign :: "cs_type \<Rightarrow> cs \<Rightarrow> cs \<Rightarrow> cs outcome" where
  "cs_assign t other d = bind_outcome (cs_length other) (\<lambda>n. cs_copy t other n True True d)"

definition cs_append :: "cs_type \<Rightarrow> cs \<Rightarrow> cs \<Rightarrow> cs outcome" where
  "cs_append t d other = bind_outcome (cs_length d) (\<lambda>strlen. bind_outcome (cs_length other) (\<lambda>other_strlen.
     if cs_max t < strlen + other_strlen then
       Raise (Runtime_error (''CString is too long. Max size is '' @ show_nat (cs_max t)))
     else
       let d1 = take strlen d @ take other_strlen other @ drop (strlen + other_strlen) d
       in if strlen + other_strlen < length d1 then Ret (d1[strlen + other_strlen := NUL])
          else Undef))"

definition cs_plus :: "cs_type \<Rightarrow> cs \<Rightarrow> cs \<Rightarrow> cs outcome" where
  "cs_plus t a other = cs_append t a other"

text \<open>
  The free \<open>operator+ (const S& lhs, const CS<0, N>& rhs)\<close>, with a result of size \<open>N + 1\<close>. (The other
  free concatenations name the size with a parameter of type \<open>int\<close> where the class has \<open>size_t\<close>, so
  template argument deduction never selects them.)
\<close>

definition string_plus_cs :: "nat \<Rightarrow> string \<Rightarrow> cs \<Rightarrow> cs outcome" where
  "string_plus_cs n lhs rhs = bind_outcome (cs_length rhs) (\<lambda>rlen.
     let min_size = length lhs + rlen + 1 in
     if n < min_size then
       Raise (Runtime_error (''CS<N> operator+ (const std::basic_string<Char>& lhs, const CS<N>& rhs) - rhs must be of size > ''
         @ show_nat min_size))
     else
       let result = cs_default (CS 0 (n + 1)) in
       Ret (lhs @ take rlen rhs @ drop (length lhs + rlen) result))"

subsection \<open>Streams\<close>

text \<open>\<open>write\<close> puts the characters up to the null character; \<open>read\<close> copies one extracted word.\<close>

definition cs_write :: "string \<Rightarrow> cs \<Rightarrow> string outcome" where
  "cs_write os a = bind_outcome (cs_to_string a) (\<lambda>s. Ret (os @ s))"

definition cs_read :: "cs_type \<Rightarrow> istream \<Rightarrow> cs \<Rightarrow> (istream \<times> cs) outcome" where
  "cs_read t is d = (case read_word is of (is', s) \<Rightarrow>
     bind_outcome (cs_copy_string t s d) (\<lambda>d'. Ret (is', d')))"

section \<open>Well-formed strings\<close>

text \<open>The invariant: an array of \<open>MAX\<close> characters that holds a null character.\<close>

definition cs_ok :: "cs_type \<Rightarrow> cs \<Rightarrow> bool" where
  "cs_ok t a \<longleftrightarrow> length a = cs_max t \<and> NUL \<in> set a"

text \<open>The string a well-formed array stands for.\<close>

definition cs_str :: "cs \<Rightarrow> string" where
  "cs_str a = takeWhile (\<lambda>c. c \<noteq> NUL) a"

lemma cs_length_ok: "NUL \<in> set a \<Longrightarrow> cs_length a = Ret (length (cs_str a))"
  unfolding cs_length_def cs_str_def by (induction a) (auto split: option.splits)

lemma cs_str_prefix: "take (length (cs_str a)) a = cs_str a"
  unfolding cs_str_def by (induction a) auto

lemma cs_str_no_null [simp]: "NUL \<notin> set (cs_str a)"
  unfolding cs_str_def by (rule takeWhile_neq_notin)

lemma cs_str_less: "NUL \<in> set a \<Longrightarrow> length (cs_str a) < length a"
  unfolding cs_str_def by (auto simp: length_takeWhile_less_iff)

lemma cs_str_nth: "i < length (cs_str a) \<Longrightarrow> cs_str a ! i = a ! i"
  unfolding cs_str_def by (rule takeWhile_nth)

lemma cs_ok_length [simp]: "cs_ok t a \<Longrightarrow> cs_length a = Ret (length (cs_str a))"
  by (simp add: cs_ok_def cs_length_ok)

lemma cs_ok_to_string [simp]: "cs_ok t a \<Longrightarrow> cs_to_string a = Ret (cs_str a)"
  by (simp add: cs_to_string_def cs_str_prefix)

lemma cs_ok_less: "cs_ok t a \<Longrightarrow> length (cs_str a) < cs_max t"
  using cs_str_less [of a] by (simp add: cs_ok_def)

lemma cs_str_append_null: "NUL \<notin> set s \<Longrightarrow> cs_str (s @ NUL # r) = s"
  unfolding cs_str_def by (rule takeWhile_neq_append)

subsection \<open>Construction\<close>

lemma cs_ok_default: "0 < cs_max t \<Longrightarrow> cs_ok t (cs_default t)"
  by (simp add: cs_ok_def cs_default_def cs_fill_null_def cs_fill_def)

lemma cs_str_default [simp]: "cs_str (cs_default t) = []"
  by (cases "cs_max t") (simp_all add: cs_default_def cs_fill_null_def cs_fill_def cs_str_def)

lemma cs_copy_filled:
  assumes "cs_min t \<le> n" "n < cs_max t" "n \<le> length s"
  shows "cs_copy t s n True True d = Ret (take n s @ NUL # replicate (cs_max t - n - 1) NUL)"
proof -
  have "drop n (replicate (cs_max t) NUL) = NUL # replicate (cs_max t - n - 1) NUL"
    using assms(2) by (cases "cs_max t - n") auto
  with assms show ?thesis
    by (simp add: cs_copy_def cs_fill_null_def cs_fill_def Let_def list_update_append)
qed

lemma cs_ok_copied:
  "n < cs_max t \<Longrightarrow> n \<le> length s \<Longrightarrow> cs_ok t (take n s @ NUL # replicate (cs_max t - n - 1) NUL)"
  by (simp add: cs_ok_def)

lemma cs_str_copied: "NUL \<notin> set s \<Longrightarrow> cs_str (take n s @ NUL # r) = take n s"
  by (rule cs_str_append_null) (auto dest: in_set_takeD)

text \<open>Every successful copy of a null-terminated or a counted string is well-formed.\<close>

lemma cs_copy_ok:
  assumes "cs_copy t s n True True d = Ret a"
  shows "cs_ok t a"
proof -
  from assms have "cs_min t \<le> n" "n < cs_max t" "n \<le> length s"
    by (auto simp: cs_copy_def split: if_splits)
  with assms cs_copy_filled [of t n s d] cs_ok_copied [of n t s] show ?thesis by simp
qed

lemma cs_copy_string_ok: "cs_copy_string t s d = Ret a \<Longrightarrow> cs_ok t a"
  unfolding cs_copy_string_def by (rule cs_copy_ok)

lemma cs_of_string_ok: "cs_of_string t s = Ret a \<Longrightarrow> cs_ok t a"
  unfolding cs_of_string_def by (rule cs_copy_string_ok)

lemma cs_of_string_Ret:
  assumes "NUL \<notin> set s" "cs_min t \<le> length s" "length s < cs_max t"
  shows "\<exists>a. cs_of_string t s = Ret a \<and> cs_ok t a \<and> cs_str a = s"
proof -
  let ?a = "take (length s) s @ NUL # replicate (cs_max t - length s - 1) NUL"
  have "cs_of_string t s = Ret ?a"
    unfolding cs_of_string_def cs_copy_string_def using assms by (intro cs_copy_filled) auto
  moreover have "cs_ok t ?a" using assms by (intro cs_ok_copied) auto
  moreover have "cs_str ?a = s" using cs_str_copied [OF assms(1), of "length s"] by simp
  ultimately show ?thesis by blast
qed

lemma cs_of_string_str:
  "cs_of_string t s = Ret a \<Longrightarrow> NUL \<notin> set s \<Longrightarrow> cs_str a = s"
  using cs_of_string_Ret [of s t]
  by (auto simp: cs_of_string_def cs_copy_string_def cs_copy_def split: if_splits)

text \<open>The string ends at the first null character of the text, if it has one.\<close>

lemma cs_of_string_cut:
  assumes "cs_of_string t s = Ret a"
  shows "cs_str a = takeWhile (\<lambda>c. c \<noteq> NUL) s"
proof -
  have "cs_min t \<le> length s" "length s < cs_max t"
    using assms by (auto simp: cs_of_string_def cs_copy_string_def cs_copy_def split: if_splits)
  then have "a = s @ NUL # replicate (cs_max t - length s - 1) NUL"
    using assms cs_copy_filled [of t "length s" s] by (simp add: cs_of_string_def cs_copy_string_def)
  then show ?thesis by (cases "NUL \<in> set s") (simp_all add: cs_str_def takeWhile_append1 takeWhile_neq_append takeWhile_neq_id)
qed

lemma cs_of_string_too_long:
  "cs_max t \<le> length s \<Longrightarrow> \<exists>msg. cs_of_string t s = Raise (Runtime_error msg)"
  by (simp add: cs_of_string_def cs_copy_string_def cs_copy_def)

subsection \<open>Equality\<close>

text \<open>What the comparison of two characters looks at.\<close>

definition canon :: "cs_type \<Rightarrow> char \<Rightarrow> char" where
  "canon t c = (if case_sensitive t then c else tolower c)"

text \<open>The characters whose case the comparison may fold.\<close>

definition comparable :: "cs_type \<Rightarrow> string \<Rightarrow> bool" where
  "comparable t s \<longleftrightarrow> case_sensitive t \<or> list_all lower_arg s"

lemma chr_equal_canon:
  "chr_equal u (case_sensitive t) (accent_sensitive t) c d =
     (if case_sensitive t \<or> lower_arg c \<and> lower_arg d then Ret (canon t c = canon t d) else Undef)"
  by (auto simp: chr_equal_def canon_def std_tolower_def)

lemma chr_less_Ret:
  "case_sensitive t \<or> lower_arg c \<and> lower_arg d \<Longrightarrow> \<exists>r. chr_less u (case_sensitive t) (accent_sensitive t) c d = Ret r"
  by (auto simp: chr_less_def std_tolower_def)

lemma all_range_out_Ret:
  assumes "\<And>j. j < k \<Longrightarrow> P (i + j) = Ret (Q (i + j))"
  shows "all_range_out P i k = Ret (\<forall>j<k. Q (i + j))"
  using assms
proof (induction k arbitrary: i)
  case (Suc k)
  have "all_range_out P (Suc i) k = Ret (\<forall>j<k. Q (Suc i + j))" using Suc.IH [of "Suc i"] Suc.prems [of "Suc _"] by simp
  moreover have "P i = Ret (Q i)" using Suc.prems [of 0] by simp
  moreover have "(\<forall>j<Suc k. Q (i + j)) \<longleftrightarrow> Q i \<and> (\<forall>j<k. Q (Suc i + j))" by (auto simp: less_Suc_eq_0_disj)
  ultimately show ?case by simp
qed simp

lemma all_range_out_ex: "(\<And>j. j < k \<Longrightarrow> \<exists>r. P (i + j) = Ret r) \<Longrightarrow> \<exists>r. all_range_out P i k = Ret r"
proof (induction k arbitrary: i)
  case (Suc k)
  obtain r where r: "P i = Ret r" using Suc.prems [of 0] by auto
  have "\<exists>r. all_range_out P (Suc i) k = Ret r" using Suc.IH [of "Suc i"] Suc.prems [of "Suc _"] by simp
  with r show ?case by (cases r) auto
qed (auto intro: exI [of _ True])

text \<open>In general the loop gives what the tests say, or stops at a test that is undefined.\<close>

lemma all_range_out_cases:
  assumes "\<And>j. j < k \<Longrightarrow> P (i + j) = Ret (Q (i + j)) \<or> P (i + j) = Undef"
  shows "all_range_out P i k = Ret (\<forall>j<k. Q (i + j)) \<or> all_range_out P i k = Undef"
  using assms
proof (induction k arbitrary: i)
  case (Suc k)
  have "all_range_out P (Suc i) k = Ret (\<forall>j<k. Q (Suc i + j)) \<or> all_range_out P (Suc i) k = Undef"
    using Suc.IH [of "Suc i"] Suc.prems [of "Suc _"] by simp
  moreover have "P i = Ret (Q i) \<or> P i = Undef" using Suc.prems [of 0] by simp
  moreover have all: "(\<forall>j<Suc k. Q (i + j)) \<longleftrightarrow> Q i \<and> (\<forall>j<k. Q (Suc i + j))" by (auto simp: less_Suc_eq_0_disj)
  ultimately show ?case unfolding all by (cases "Q i") auto
qed simp

lemma all_range_iff: "all_range P i k \<longleftrightarrow> (\<forall>j<k. P (i + j))"
proof (induction k arbitrary: i)
  case (Suc k)
  have "(\<forall>j<Suc k. P (i + j)) \<longleftrightarrow> P i \<and> (\<forall>j<k. P (Suc i + j))"
    by (auto simp: less_Suc_eq_0_disj)
  with Suc show ?case by simp
qed simp

lemma cs_eq_canon:
  assumes "cs_ok t a" "cs_ok t b" "comparable t (cs_str a)" "comparable t (cs_str b)"
  shows "cs_eq u t a b = Ret (map (canon t) (cs_str a) = map (canon t) (cs_str b))"
proof (cases "length (cs_str a) = length (cs_str b)")
  case True
  have "all_range_out (\<lambda>i. chr_equal u (case_sensitive t) (accent_sensitive t) (a ! i) (b ! i)) 0 (length (cs_str a))
      = Ret (\<forall>i<length (cs_str a). canon t (a ! (0 + i)) = canon t (b ! (0 + i)))"
    by (rule all_range_out_Ret)
       (use assms(3,4) True in \<open>auto simp: chr_equal_canon comparable_def list_all_length simp flip: cs_str_nth\<close>)
  moreover have "(\<forall>i<length (cs_str a). canon t (a ! i) = canon t (b ! i)) \<longleftrightarrow>
      map (canon t) (cs_str a) = map (canon t) (cs_str b)"
    using True by (auto simp: list_eq_iff_nth_eq cs_str_nth)
  ultimately show ?thesis using True assms by (simp add: cs_eq_def cs_eq_strlen_def)
next
  case False
  then have "map (canon t) (cs_str a) \<noteq> map (canon t) (cs_str b)"
    by (metis length_map)
  with False assms show ?thesis by (simp add: cs_eq_def cs_eq_strlen_def)
qed

text \<open>Whatever the characters: the answer is right, or a character that was reached is outside the range of \<open>std::tolower\<close>.\<close>

lemma cs_eq_cases:
  assumes "cs_ok t a" "cs_ok t b"
  shows "cs_eq u t a b = Ret (map (canon t) (cs_str a) = map (canon t) (cs_str b))
    \<or> cs_eq u t a b = Undef \<and> \<not> (comparable t (cs_str a) \<and> comparable t (cs_str b))"
proof (cases "comparable t (cs_str a) \<and> comparable t (cs_str b)")
  case True
  then show ?thesis using cs_eq_canon [OF assms] by blast
next
  case bad: False
  show ?thesis
  proof (cases "length (cs_str a) = length (cs_str b)")
    case True
    let ?P = "\<lambda>i. chr_equal u (case_sensitive t) (accent_sensitive t) (a ! i) (b ! i)" and ?Q = "\<lambda>i. canon t (a ! i) = canon t (b ! i)"
    have q: "(\<forall>i<length (cs_str a). ?Q (0 + i)) \<longleftrightarrow> map (canon t) (cs_str a) = map (canon t) (cs_str b)"
      using True by (auto simp: list_eq_iff_nth_eq cs_str_nth)
    have "all_range_out ?P 0 (length (cs_str a)) = Ret (\<forall>i<length (cs_str a). ?Q (0 + i)) \<or> all_range_out ?P 0 (length (cs_str a)) = Undef"
      by (rule all_range_out_cases) (simp add: chr_equal_canon)
    moreover have "cs_eq u t a b = all_range_out ?P 0 (length (cs_str a))"
      using True assms by (simp add: cs_eq_def cs_eq_strlen_def)
    ultimately show ?thesis using bad unfolding q by simp
  next
    case False
    then have "map (canon t) (cs_str a) \<noteq> map (canon t) (cs_str b)" by (metis length_map)
    with False assms show ?thesis by (simp add: cs_eq_def cs_eq_strlen_def)
  qed
qed

lemma cs_less_Ret:
  assumes "cs_ok t a" "cs_ok t b" "comparable t a" "comparable t b"
  shows "\<exists>r. cs_less u t a b = Ret r"
proof -
  have len: "length b = length a" "a \<noteq> []" "b \<noteq> []" "length (cs_str a) < length a"
    using assms(1,2) cs_str_less [of a] by (auto simp: cs_ok_def)
  have less: "\<exists>r. chr_less u (case_sensitive t) (accent_sensitive t) (a ! i) (b ! i) = Ret r" if "i < length a" for i
    using assms(3,4) that len(1) by (intro chr_less_Ret) (auto simp: comparable_def list_all_length)
  have "\<exists>r. all_range_out (\<lambda>i. if i < length b then chr_less u (case_sensitive t) (accent_sensitive t) (a ! i) (b ! i) else Undef) 1
      (length (cs_str a) - 1) = Ret r"
    by (rule all_range_out_ex) (use less len in auto)
  moreover obtain r where "chr_less u (case_sensitive t) (accent_sensitive t) (a ! 0) (b ! 0) = Ret r" using less [of 0] len(2) by auto
  ultimately show ?thesis using assms(1) len by (auto simp: cs_less_def)
qed

text \<open>
  \<open>operator==\<close> of two well-formed strings of one type whose characters \<open>std::tolower\<close> is defined for (any characters for
  a case-sensitive type) always returns, never reads outside the arrays, and compares the two strings after folding
  the letters' case; it is therefore reflexive, symmetric and transitive.
\<close>

theorem cs_eq_equivalence:
  assumes "cs_ok t a" "cs_ok t b" "cs_ok t c"
    and "comparable t (cs_str a)" "comparable t (cs_str b)" "comparable t (cs_str c)"
  shows "cs_eq u t a b = Ret (map (canon t) (cs_str a) = map (canon t) (cs_str b))
    \<and> cs_eq u t a a = Ret True
    \<and> cs_eq u t a b = cs_eq u t b a
    \<and> (cs_eq u t a b = Ret True \<longrightarrow> cs_eq u t b c = Ret True \<longrightarrow> cs_eq u t a c = Ret True)"
  using assms by (auto simp: cs_eq_canon)

theorem cs_eq_equivalence_witness:
  "\<forall>u. cs_eq u (CS 0 4) [CHR ''A'', NUL, NUL, NUL] [CHR ''a'', NUL, CHR ''x'', NUL] = Ret True"
proof -
  have ok: "cs_ok (CS 0 4) [CHR ''A'', NUL, NUL, NUL]" "cs_ok (CS 0 4) [CHR ''a'', NUL, CHR ''x'', NUL]"
    by (simp_all add: cs_ok_def CS_def)
  have c: "comparable (CS 0 4) (cs_str [CHR ''A'', NUL, NUL, NUL])" "comparable (CS 0 4) (cs_str [CHR ''a'', NUL, CHR ''x'', NUL])"
    by code_simp+
  have "map (canon (CS 0 4)) (cs_str [CHR ''A'', NUL, NUL, NUL])
      = map (canon (CS 0 4)) (cs_str [CHR ''a'', NUL, CHR ''x'', NUL])"
    by code_simp
  then show ?thesis using cs_eq_equivalence [OF ok(1) ok(2) ok(1) c(1) c(2) c(1)] by simp
qed

text \<open>
  building a string from an \<open>S\<close> without null characters returns exactly when its length is at
  least \<open>MIN\<close> and less than \<open>MAX\<close>, and then \<open>to_string\<close> gives the \<open>S\<close> back; a longer or shorter \<open>S\<close>
  raises \<open>runtime_error\<close>.
\<close>

theorem cs_string_roundtrip:
  assumes "NUL \<notin> set s"
  shows "if cs_min t \<le> length s \<and> length s < cs_max t
    then \<exists>a. cs_of_string t s = Ret a \<and> cs_ok t a \<and> cs_to_string a = Ret s
    else \<exists>msg. cs_of_string t s = Raise (Runtime_error msg)"
proof (cases "cs_min t \<le> length s \<and> length s < cs_max t")
  case True
  with assms obtain a where "cs_of_string t s = Ret a" "cs_ok t a" "cs_str a = s"
    using cs_of_string_Ret by blast
  with True show ?thesis by auto
next
  case False
  then show ?thesis
    by (auto simp: cs_of_string_def cs_copy_string_def cs_copy_def)
qed

theorem cs_string_roundtrip_witness:
  "\<exists>a. cs_of_string (CS 0 20) ''Ana'' = Ret a \<and> cs_ok (CS 0 20) a \<and> cs_to_string a = Ret ''Ana''"
  using cs_string_roundtrip [of "''Ana''" "CS 0 20"] by (simp add: CS_def NUL_def)

subsection \<open>Appending\<close>

lemma cs_append_fits:
  assumes "cs_ok t a" "cs_ok t b" "length (cs_str a) + length (cs_str b) < cs_max t"
  shows "\<exists>c. cs_append t a b = Ret c \<and> cs_ok t c \<and> cs_str c = cs_str a @ cs_str b"
proof -
  let ?m = "length (cs_str a)" and ?n = "length (cs_str b)"
  let ?s = "cs_str a @ cs_str b"
  have len: "length a = cs_max t" using assms(1) by (simp add: cs_ok_def)
  then obtain x r where r: "drop (?m + ?n) a = x # r"
    using assms(3) by (metis Cons_nth_drop_Suc)
  have "length (x # r) = cs_max t - (?m + ?n)" unfolding r [symmetric] using len by simp
  then have lr: "length r + 1 = cs_max t - (?m + ?n)" by simp
  have eq: "cs_append t a b = Ret (?s @ NUL # r)"
    using assms len r lr
    by (simp add: cs_append_def cs_str_prefix Let_def list_update_append)
  moreover have "cs_ok t (?s @ NUL # r)"
    using lr assms(3) by (simp add: cs_ok_def)
  moreover have "cs_str (?s @ NUL # r) = ?s"
    by (rule cs_str_append_null) simp
  ultimately show ?thesis by blast
qed

text \<open>
  C31: \<open>operator+=\<close> on well-formed strings: it appends when the two lengths together are below \<open>MAX\<close>
  (the result is well-formed), raises \<open>runtime_error\<close> when they are above \<open>MAX\<close>, and when they are
  exactly \<open>MAX\<close> the check passes and the terminating null character is written past the array.
\<close>

theorem cs_append_behaviour:
  assumes "cs_ok t a" "cs_ok t b"
  shows "if length (cs_str a) + length (cs_str b) < cs_max t
    then \<exists>c. cs_append t a b = Ret c \<and> cs_ok t c \<and> cs_str c = cs_str a @ cs_str b
    else if length (cs_str a) + length (cs_str b) = cs_max t then cs_append t a b = Undef
    else \<exists>msg. cs_append t a b = Raise (Runtime_error msg)"
proof -
  have "length a = cs_max t" using assms(1) by (simp add: cs_ok_def)
  moreover have "length (take (length (cs_str b)) b) = length (cs_str b)"
    by (simp add: cs_str_prefix)
  ultimately show ?thesis
    using cs_append_fits [OF assms] assms by (auto simp: cs_append_def Let_def cs_str_prefix)
qed

theorem cs_append_behaviour_witness:
  "cs_append (CS 0 4) [CHR ''a'', CHR ''b'', NUL, NUL] [CHR ''c'', CHR ''d'', NUL, NUL] = Undef"
proof -
  have ok: "cs_ok (CS 0 4) [CHR ''a'', CHR ''b'', NUL, NUL]" "cs_ok (CS 0 4) [CHR ''c'', CHR ''d'', NUL, NUL]"
    by (simp_all add: cs_ok_def CS_def)
  show ?thesis
    using cs_append_behaviour [OF ok] by (simp add: cs_str_def CS_def NUL_def)
qed

lemma string_plus_cs_fits:
  assumes "NUL \<in> set b" "NUL \<notin> set s" "length s + length (cs_str b) + 1 \<le> n"
  shows "\<exists>c. string_plus_cs n s b = Ret c \<and> cs_ok (CS 0 (n + 1)) c \<and> cs_str c = s @ cs_str b"
proof -
  let ?k = "length s + length (cs_str b)"
  have r: "drop ?k (replicate (n + 1) NUL) = NUL # replicate (n - ?k) NUL"
    using assms(3) by (simp add: Suc_diff_le del: replicate_Suc) (simp add: replicate_append_same)
  have "string_plus_cs n s b = Ret ((s @ cs_str b) @ NUL # replicate (n - ?k) NUL)"
    using assms r cs_length_ok [OF assms(1)]
    by (simp add: string_plus_cs_def Let_def cs_str_prefix cs_default_def cs_fill_null_def cs_fill_def CS_def)
  moreover have "cs_str ((s @ cs_str b) @ NUL # replicate (n - ?k) NUL) = s @ cs_str b"
    by (rule cs_str_append_null) (use assms(2) in simp)
  moreover have "cs_ok (CS 0 (n + 1)) ((s @ cs_str b) @ NUL # replicate (n - ?k) NUL)"
    using assms(3) by (simp add: cs_ok_def CS_def)
  ultimately show ?thesis by blast
qed

subsection \<open>Ordering\<close>

text \<open>
  \<open>operator<\<close> is no strict weak order, which sorted containers ask of it: it wants every character
  to be less, so ''a'' and ''ab'' are incomparable, ''ab'' and ''b'' are incomparable, yet
  ''a'' is less than ''b''.
\<close>

theorem cs_less_no_weak_order:
  "\<exists>a b c. cs_of_string (CS 0 4) ''a'' = Ret a \<and> cs_of_string (CS 0 4) ''ab'' = Ret b
    \<and> cs_of_string (CS 0 4) ''b'' = Ret c
    \<and> cs_less u (CS 0 4) a b = Ret False \<and> cs_less u (CS 0 4) b a = Ret False
    \<and> cs_less u (CS 0 4) b c = Ret False \<and> cs_less u (CS 0 4) c b = Ret False
    \<and> cs_less u (CS 0 4) a c = Ret True"
  by (simp add: cs_of_string_def cs_copy_string_def cs_copy_def cs_fill_null_def cs_fill_def CS_def
      Let_def NUL_def cs_less_def chr_less_def std_tolower_def lower_arg_def cval_def tolower_def isupper_def code_def cs_length_def
      numeral_2_eq_2 numeral_3_eq_3 numeral_eq_Suc)

end
