(* ===== verification/Result.thy ===== *)
theory Result
  imports CString
begin

text \<open>
  The three-valued truth value \<open>Bool\<close> (bool.hpp) and the result type \<open>Result<T>\<close> (code\_util.hpp), which
  carries a value, a success flag and an error message of type \<open>CS<0, 256>\<close>.
\<close>

section \<open>Bool\<close>

text \<open>The member \<open>mvalue\<close> is an \<open>int_fast8_t\<close>.\<close>

record Bool =
  mvalue :: byte

definition UNKNOWN :: byte where "UNKNOWN = - 1"
definition F :: byte where "F = 0"
definition T :: byte where "T = 1"

definition Bool_default :: Bool where
  "Bool_default = \<lparr>mvalue = UNKNOWN\<rparr>"

definition Bool_of_int :: "byte \<Rightarrow> Bool" where
  "Bool_of_int v = \<lparr>mvalue = v\<rparr>"

definition Bool_of_bool :: "bool \<Rightarrow> Bool" where
  "Bool_of_bool b = \<lparr>mvalue = (if b then T else F)\<rparr>"

definition Bool_to_bool :: "Bool \<Rightarrow> bool" where
  "Bool_to_bool b = (mvalue b = T)"

definition Bool_to_int :: "Bool \<Rightarrow> byte" where
  "Bool_to_int b = mvalue b"

definition Bool_eq :: "Bool \<Rightarrow> Bool \<Rightarrow> bool" where
  "Bool_eq a b = (mvalue a = mvalue b)"

text \<open>\<open>operator<<\<close> prints the value as an \<open>int\<close>.\<close>

definition Bool_write :: "string \<Rightarrow> Bool \<Rightarrow> string" where
  "Bool_write os b = os @ show_int (sint (mvalue b))"

lemma Bool_to_bool_of_bool [simp]: "Bool_to_bool (Bool_of_bool b) = b"
  by (simp add: Bool_to_bool_def Bool_of_bool_def T_def F_def)

lemma Bool_unknown_false [simp]: "\<not> Bool_to_bool Bool_default"
  by (simp add: Bool_to_bool_def Bool_default_def T_def UNKNOWN_def)

lemma Bool_of_T [simp]: "Bool_to_bool (Bool_of_int T)" and Bool_of_F [simp]: "\<not> Bool_to_bool (Bool_of_int F)"
  by (simp_all add: Bool_to_bool_def Bool_of_int_def T_def F_def)

section \<open>Result\<close>

abbreviation error_message_type :: cs_type where
  "error_message_type \<equiv> CS 0 256"

record 'a result =
  mresult :: 'a
  mok :: Bool
  merror_message :: cs

definition EMPTY_MESSAGE :: cs where
  "EMPTY_MESSAGE = cs_default error_message_type"

text \<open>\<open>Result (ResultType rt, Bool ok = T, ErrorMessageType err = EMPTY)\<close>.\<close>

definition result_value :: "'a \<Rightarrow> Bool \<Rightarrow> cs \<Rightarrow> 'a result" where
  "result_value rt ok err = \<lparr>mresult = rt, mok = ok, merror_message = err\<rparr>"

definition result_ok :: "'a \<Rightarrow> 'a result" where
  "result_ok rt = result_value rt (Bool_of_int T) EMPTY_MESSAGE"

text \<open>\<open>Result (ErrorMessageType err, ResultType r)\<close>.\<close>

definition result_error :: "cs \<Rightarrow> 'a \<Rightarrow> 'a result" where
  "result_error err r = \<lparr>mresult = r, mok = Bool_of_int F, merror_message = err\<rparr>"

text \<open>
  \<open>Result (const C* error_message)\<close>: the message is converted to \<open>CS<0, 256>\<close>, which raises when it has
  256 characters or more. The value part is the default of the value type.
\<close>

definition result_of_message :: "'a \<Rightarrow> string \<Rightarrow> 'a result outcome" where
  "result_of_message dflt msg = map_out (\<lambda>m. result_error m dflt) (cs_of_string error_message_type msg)"

definition result_to_Bool :: "'a result \<Rightarrow> Bool" where
  "result_to_Bool r = mok r"

definition result_to_bool :: "'a result \<Rightarrow> bool" where
  "result_to_bool r = Bool_eq (mok r) (Bool_of_int T)"

definition result_not :: "'a result \<Rightarrow> bool" where
  "result_not r = (\<not> Bool_to_bool (mok r))"

definition result_eq :: "'a result \<Rightarrow> 'a \<Rightarrow> bool" where
  "result_eq r other = (mresult r = other)"

definition result_neq :: "'a result \<Rightarrow> 'a \<Rightarrow> bool" where
  "result_neq r other = (\<not> result_eq r other)"

definition result_less :: "('a \<Rightarrow> 'a \<Rightarrow> bool) \<Rightarrow> 'a result \<Rightarrow> 'a \<Rightarrow> bool" where
  "result_less lt r other = lt (mresult r) other"

definition result_assign_value :: "'a result \<Rightarrow> 'a \<Rightarrow> 'a result" where
  "result_assign_value r other = r\<lparr>mresult := other\<rparr>"

definition result_assign_Bool :: "'a result \<Rightarrow> Bool \<Rightarrow> 'a result" where
  "result_assign_Bool r other = r\<lparr>mok := other\<rparr>"

definition result_assign_error :: "'a result \<Rightarrow> cs \<Rightarrow> 'a result" where
  "result_assign_error r other = r\<lparr>merror_message := other, mok := Bool_of_int F\<rparr>"

lemma result_not_bool: "result_not r \<longleftrightarrow> \<not> result_to_bool r"
  by (simp add: result_not_def result_to_bool_def Bool_to_bool_def Bool_eq_def Bool_of_int_def)

lemma result_ok_true [simp]: "result_to_bool (result_ok x)" "mresult (result_ok x) = x"
  by (simp_all add: result_to_bool_def result_ok_def result_value_def Bool_eq_def)

lemma result_error_false [simp]: "\<not> result_to_bool (result_error m x)" "mresult (result_error m x) = x"
  by (simp_all add: result_to_bool_def result_error_def Bool_eq_def Bool_of_int_def T_def F_def)

lemma result_assign_error_false: "\<not> result_to_bool (result_assign_error r m)"
  by (simp add: result_to_bool_def result_assign_error_def Bool_eq_def Bool_of_int_def T_def F_def)

end
