(* ===== verification/Sorted_List.thy ===== *)
theory Sorted_List
  imports Result "HOL-Library.Multiset"
begin

text \<open>
  The container \<open>SortedList<T, Compare>\<close> of sorted\_list.hpp: a vector kept in the order of a comparator,
  with an optional uniqueness mode. Iterators are indices, \<open>end ()\<close> is the length. The comparator
  contract (\<open>std::strict_weak_order\<close>) is the locale \<open>strict_weak_order\<close>, in which the correctness of
  \<open>add\<close>, \<open>find\<close>, \<open>remove\<close> and \<open>contains\<close> is proved once for every comparator.
\<close>

section \<open>The class\<close>

record 'a sorted_list =
  sl_data :: "'a list"
  sl_uniq :: bool
  sl_comp :: "'a \<Rightarrow> 'a \<Rightarrow> bool"

definition index_message :: "string \<Rightarrow> nat \<Rightarrow> nat \<Rightarrow> string" where
  "index_message ctx index sz =
     ctx @ '': Index '' @ show_nat index @ '' out of bounds for size '' @ show_nat sz"

definition validate_index :: "nat \<Rightarrow> nat \<Rightarrow> string \<Rightarrow> bool \<Rightarrow> bool result outcome" where
  "validate_index index sz ctx throws =
     (if sz \<le> index then
        if throws then Raise (Out_of_range (index_message ctx index sz))
        else map_out (\<lambda>m. result_error m False) (cs_of_string error_message_type (index_message ctx index sz))
      else Ret (result_ok True))"

definition sl_new :: "bool \<Rightarrow> ('a \<Rightarrow> 'a \<Rightarrow> bool) \<Rightarrow> 'a sorted_list" where
  "sl_new unique cmp = \<lparr>sl_data = [], sl_uniq = unique, sl_comp = cmp\<rparr>"

text \<open>\<open>sl_data.insert (it, value)\<close> and \<open>sl_data.erase (it)\<close> on vectors.\<close>

definition insert_at :: "'a list \<Rightarrow> nat \<Rightarrow> 'a \<Rightarrow> 'a list" where
  "insert_at xs i v = take i xs @ v # drop i xs"

definition erase_at :: "'a list \<Rightarrow> nat \<Rightarrow> 'a list" where
  "erase_at xs i = take i xs @ drop (Suc i) xs"

definition sl_add :: "'a sorted_list \<Rightarrow> 'a \<Rightarrow> bool \<times> 'a sorted_list" where
  "sl_add l value =
     (let it = lower_bound (sl_comp l) (sl_data l) value in
      if sl_uniq l \<and> it \<noteq> length (sl_data l) \<and> \<not> sl_comp l (sl_data l ! it) value \<and> \<not> sl_comp l value (sl_data l ! it)
      then (False, l)
      else (True, l\<lparr>sl_data := insert_at (sl_data l) it value\<rparr>))"

definition sl_find :: "'a sorted_list \<Rightarrow> 'a \<Rightarrow> nat" where
  "sl_find l value =
     (let it = lower_bound (sl_comp l) (sl_data l) value in
      if it \<noteq> length (sl_data l) \<and> \<not> sl_comp l (sl_data l ! it) value \<and> \<not> sl_comp l value (sl_data l ! it)
      then it else length (sl_data l))"

definition sl_remove :: "'a sorted_list \<Rightarrow> 'a \<Rightarrow> bool \<times> 'a sorted_list" where
  "sl_remove l value =
     (let it = sl_find l value in
      if it \<noteq> length (sl_data l) then (True, l\<lparr>sl_data := erase_at (sl_data l) it\<rparr>) else (False, l))"

definition sl_remove_at :: "'a sorted_list \<Rightarrow> nat \<Rightarrow> 'a sorted_list outcome" where
  "sl_remove_at l index =
     bind_outcome (validate_index index (length (sl_data l)) ''SortedList::remove_at'' True)
       (\<lambda>_. Ret (l\<lparr>sl_data := erase_at (sl_data l) index\<rparr>))"

definition sl_at :: "'a sorted_list \<Rightarrow> nat \<Rightarrow> 'a outcome" where
  "sl_at l index =
     bind_outcome (validate_index index (length (sl_data l)) ''SortedList::at'' True)
       (\<lambda>_. Ret (sl_data l ! index))"

definition sl_subscript :: "'a sorted_list \<Rightarrow> nat \<Rightarrow> 'a outcome" where
  "sl_subscript l index =
     bind_outcome (validate_index index (length (sl_data l)) ''SortedList::operator[]'' True)
       (\<lambda>_. Ret (sl_data l ! index))"

definition sl_contains :: "'a sorted_list \<Rightarrow> 'a \<Rightarrow> bool" where
  "sl_contains l value = (sl_find l value \<noteq> length (sl_data l))"

definition sl_size :: "'a sorted_list \<Rightarrow> nat" where
  "sl_size l = length (sl_data l)"

definition sl_empty :: "'a sorted_list \<Rightarrow> bool" where
  "sl_empty l = (sl_data l = [])"

definition sl_clear :: "'a sorted_list \<Rightarrow> 'a sorted_list" where
  "sl_clear l = l\<lparr>sl_data := []\<rparr>"

definition sl_set_unique :: "'a sorted_list \<Rightarrow> bool \<Rightarrow> 'a sorted_list" where
  "sl_set_unique l unique = l\<lparr>sl_uniq := unique\<rparr>"

definition sl_is_unique :: "'a sorted_list \<Rightarrow> bool" where
  "sl_is_unique l = sl_uniq l"

definition sl_last :: "'a sorted_list \<Rightarrow> 'a outcome" where
  "sl_last l = (if sl_data l = [] then Raise (Out_of_range ''SortedList::back: List is empty'')
     else Ret (last (sl_data l)))"

definition sl_back :: "'a sorted_list \<Rightarrow> 'a outcome" where
  "sl_back l = sl_last l"

text \<open>The initializer-list and the range constructor add the items one after the other.\<close>

definition sl_of_list :: "'a list \<Rightarrow> bool \<Rightarrow> ('a \<Rightarrow> 'a \<Rightarrow> bool) \<Rightarrow> 'a sorted_list" where
  "sl_of_list items unique cmp = foldl (\<lambda>l x. snd (sl_add l x)) (sl_new unique cmp) items"

text \<open>\<open>to_s ()\<close>, with the output of one item as a parameter.\<close>

fun sl_items :: "('a \<Rightarrow> string) \<Rightarrow> bool \<Rightarrow> 'a list \<Rightarrow> string" where
  "sl_items sh first [] = []"
| "sl_items sh first (x # xs) = (if \<not> first then '', '' else []) @ sh x @ sl_items sh False xs"

definition sl_to_s :: "('a \<Rightarrow> string) \<Rightarrow> 'a sorted_list \<Rightarrow> string" where
  "sl_to_s sh l = ''['' @ sl_items sh True (sl_data l) @ '']''"

section \<open>Invariant and vocabulary\<close>

text \<open>Two values are equivalent for a comparator when neither is less than the other.\<close>

definition equiv_by :: "('a \<Rightarrow> 'a \<Rightarrow> bool) \<Rightarrow> 'a \<Rightarrow> 'a \<Rightarrow> bool" where
  "equiv_by cmp x y \<longleftrightarrow> \<not> cmp x y \<and> \<not> cmp y x"

text \<open>In order: no element is less than an earlier one.\<close>

definition ordered_by :: "('a \<Rightarrow> 'a \<Rightarrow> bool) \<Rightarrow> 'a list \<Rightarrow> bool" where
  "ordered_by cmp xs \<longleftrightarrow> sorted_wrt (\<lambda>x y. \<not> cmp y x) xs"

definition sl_inv :: "'a sorted_list \<Rightarrow> bool" where
  "sl_inv l \<longleftrightarrow> ordered_by (sl_comp l) (sl_data l)"

lemma mset_insert_at: "mset (insert_at xs i v) = add_mset v (mset xs)"
proof -
  have "mset xs = mset (take i xs) + mset (drop i xs)"
    by (metis append_take_drop_id mset_append)
  then show ?thesis by (simp add: insert_at_def)
qed

lemma mset_erase_at: "i < length xs \<Longrightarrow> add_mset (xs ! i) (mset (erase_at xs i)) = mset xs"
proof -
  assume "i < length xs"
  then have "mset xs = mset (take i xs @ xs ! i # drop (Suc i) xs)"
    by (metis id_take_nth_drop)
  then show ?thesis by (simp add: erase_at_def)
qed

section \<open>The comparator contract\<close>

text \<open>\<open>std::strict_weak_order\<close>, which the class requires of its comparator.\<close>

locale strict_weak_order =
  fixes less :: "'a \<Rightarrow> 'a \<Rightarrow> bool"
  assumes irrefl: "\<not> less x x"
    and trans: "less x y \<Longrightarrow> less y z \<Longrightarrow> less x z"
    and incomp_trans: "\<not> less x y \<Longrightarrow> \<not> less y x \<Longrightarrow> \<not> less y z \<Longrightarrow> \<not> less z y \<Longrightarrow> \<not> less x z"
begin

lemma asym: "less x y \<Longrightarrow> \<not> less y x"
  using irrefl trans by blast

lemma neg_trans: "\<not> less x y \<Longrightarrow> \<not> less y z \<Longrightarrow> \<not> less x z"
  using asym incomp_trans trans by blast

lemma equiv_trans: "equiv_by less x y \<Longrightarrow> equiv_by less y z \<Longrightarrow> equiv_by less x z"
  unfolding equiv_by_def using neg_trans by blast

lemma partitioned:
  "ordered_by less xs \<Longrightarrow> i < j \<Longrightarrow> j < length xs \<Longrightarrow> less (xs ! j) v \<Longrightarrow> less (xs ! i) v"
  unfolding ordered_by_def by (meson neg_trans sorted_wrt_nth_less)

lemma lower_bound_index:
  assumes "ordered_by less xs"
  shows "lower_bound less xs v \<le> length xs"
    and "i < lower_bound less xs v \<Longrightarrow> less (xs ! i) v"
    and "lower_bound less xs v \<le> i \<Longrightarrow> i < length xs \<Longrightarrow> \<not> less (xs ! i) v"
proof -
  have "lower_bound less xs v \<le> length xs \<and> (\<forall>i<lower_bound less xs v. less (xs ! i) v)
      \<and> (\<forall>i. lower_bound less xs v \<le> i \<longrightarrow> i < length xs \<longrightarrow> \<not> less (xs ! i) v)"
    by (rule lower_bound_separates) (use assms partitioned in blast)
  then show "lower_bound less xs v \<le> length xs"
    and "i < lower_bound less xs v \<Longrightarrow> less (xs ! i) v"
    and "lower_bound less xs v \<le> i \<Longrightarrow> i < length xs \<Longrightarrow> \<not> less (xs ! i) v"
    by blast+
qed

lemma lower_bound_split:
  assumes "ordered_by less xs"
  shows "\<forall>x\<in>set (take (lower_bound less xs v) xs). less x v"
    and "\<forall>x\<in>set (drop (lower_bound less xs v) xs). \<not> less x v"
proof -
  show "\<forall>x\<in>set (take (lower_bound less xs v) xs). less x v"
    using lower_bound_index(1) [OF assms, of v] lower_bound_index(2) [OF assms] by (auto simp: in_set_conv_nth)
  show "\<forall>x\<in>set (drop (lower_bound less xs v) xs). \<not> less x v"
  proof
    fix x assume "x \<in> set (drop (lower_bound less xs v) xs)"
    then obtain i where "i < length xs - lower_bound less xs v" "x = xs ! (lower_bound less xs v + i)"
      by (auto simp: in_set_conv_nth)
    then show "\<not> less x v" using lower_bound_index(3) [OF assms, of v] by simp
  qed
qed

lemma ordered_insert:
  assumes "ordered_by less xs"
  shows "ordered_by less (insert_at xs (lower_bound less xs v) v)"
proof -
  let ?k = "lower_bound less xs v"
  have "sorted_wrt (\<lambda>x y. \<not> less y x) (take ?k xs @ drop ?k xs)"
    using assms by (simp add: ordered_by_def)
  then show ?thesis
    using lower_bound_split [OF assms, of v] asym unfolding ordered_by_def
    by (auto simp: insert_at_def sorted_wrt_append simp del: append_take_drop_id)
qed

lemma ordered_erase: "ordered_by less xs \<Longrightarrow> ordered_by less (erase_at xs i)"
proof -
  assume "ordered_by less xs"
  then have "sorted_wrt (\<lambda>x y. \<not> less y x) (take i xs @ drop i xs)" by (simp add: ordered_by_def)
  moreover have "set (drop (Suc i) xs) \<subseteq> set (drop i xs)" by (rule set_drop_subset_set_drop) simp
  moreover have "drop (Suc i) xs = drop 1 (drop i xs)" by simp
  ultimately show ?thesis
    unfolding erase_at_def ordered_by_def sorted_wrt_append by (metis sorted_wrt_drop subsetD)
qed

text \<open>The element at the lower bound is equivalent to the value iff some element is.\<close>

lemma lower_bound_hits:
  assumes "ordered_by less xs"
  shows "(lower_bound less xs v \<noteq> length xs \<and> equiv_by less (xs ! lower_bound less xs v) v)
    \<longleftrightarrow> (\<exists>x\<in>set xs. equiv_by less x v)"
proof
  assume "lower_bound less xs v \<noteq> length xs \<and> equiv_by less (xs ! lower_bound less xs v) v"
  with lower_bound_index(1) [OF assms, of v] show "\<exists>x\<in>set xs. equiv_by less x v" by force
next
  let ?k = "lower_bound less xs v"
  assume "\<exists>x\<in>set xs. equiv_by less x v"
  then obtain i where i: "i < length xs" "equiv_by less (xs ! i) v" by (auto simp: in_set_conv_nth)
  then have ki: "?k \<le> i"
    using lower_bound_index(2) [OF assms, of i v] by (auto simp: equiv_by_def not_le [symmetric])
  with i(1) have k: "?k < length xs" by simp
  have "\<not> less (xs ! i) (xs ! ?k)"
  proof (cases "?k = i")
    case True
    then show ?thesis by (simp add: irrefl)
  next
    case False
    with ki have "?k < i" by simp
    from sorted_wrt_nth_less [OF assms [unfolded ordered_by_def] this i(1)] show ?thesis .
  qed
  then have "\<not> less v (xs ! ?k)" using i(2) neg_trans unfolding equiv_by_def by blast
  moreover have "\<not> less (xs ! ?k) v" using lower_bound_index(3) [OF assms _ k] by simp
  ultimately show "?k \<noteq> length xs \<and> equiv_by less (xs ! ?k) v" using k by (simp add: equiv_by_def)
qed

lemma hits_iff:
  assumes "sl_inv l" "sl_comp l = less"
  shows "(lower_bound less (sl_data l) v \<noteq> length (sl_data l)
      \<and> \<not> less (sl_data l ! lower_bound less (sl_data l) v) v
      \<and> \<not> less v (sl_data l ! lower_bound less (sl_data l) v))
    \<longleftrightarrow> (\<exists>x\<in>set (sl_data l). equiv_by less x v)"
  using lower_bound_hits [of "sl_data l" v] assms by (simp add: sl_inv_def equiv_by_def)

lemma inv_add: "sl_inv l \<Longrightarrow> sl_comp l = less \<Longrightarrow> sl_inv (snd (sl_add l v))"
  by (auto simp: sl_inv_def sl_add_def Let_def ordered_insert)

lemma inv_remove: "sl_inv l \<Longrightarrow> sl_comp l = less \<Longrightarrow> sl_inv (snd (sl_remove l v))"
  by (auto simp: sl_inv_def sl_remove_def Let_def ordered_erase)

lemma inv_remove_at:
  "sl_inv l \<Longrightarrow> sl_comp l = less \<Longrightarrow> sl_remove_at l i = Ret l' \<Longrightarrow> sl_inv l'"
  using ordered_erase by (auto simp: sl_inv_def sl_remove_at_def outcome_simps)

lemma add_rejects_iff:
  "sl_inv l \<Longrightarrow> sl_comp l = less \<Longrightarrow>
     \<not> fst (sl_add l v) \<longleftrightarrow> sl_uniq l \<and> (\<exists>x\<in>set (sl_data l). equiv_by less x v)"
  using hits_iff [of l v] by (simp add: sl_add_def Let_def)

lemma contains_iff:
  "sl_inv l \<Longrightarrow> sl_comp l = less \<Longrightarrow> sl_contains l v \<longleftrightarrow> (\<exists>x\<in>set (sl_data l). equiv_by less x v)"
  using hits_iff [of l v] by (auto simp: sl_contains_def sl_find_def Let_def)

lemma find_hit:
  assumes "sl_inv l" "sl_comp l = less" "sl_find l v \<noteq> length (sl_data l)"
  shows "sl_find l v < length (sl_data l) \<and> equiv_by less (sl_data l ! sl_find l v) v
    \<and> (\<forall>j < sl_find l v. less (sl_data l ! j) v)"
proof -
  have o: "ordered_by less (sl_data l)" using assms(1,2) by (simp add: sl_inv_def)
  have "sl_find l v = lower_bound less (sl_data l) v"
    "equiv_by less (sl_data l ! lower_bound less (sl_data l) v) v"
    using assms(2,3) by (auto simp: sl_find_def Let_def equiv_by_def split: if_splits)
  with assms(3) lower_bound_index(1) [OF o, of v] lower_bound_index(2) [OF o, of _ v] show ?thesis by fastforce
qed

lemma unique_add:
  assumes "sl_comp l = less" "sl_uniq l" "sorted_wrt less (sl_data l)"
  shows "sorted_wrt less (sl_data (snd (sl_add l v)))"
proof (cases "fst (sl_add l v)")
  case False
  with assms show ?thesis by (auto simp: sl_add_def Let_def split: if_splits)
next
  case True
  let ?k = "lower_bound less (sl_data l) v"
  have o: "ordered_by less (sl_data l)"
    unfolding ordered_by_def using assms(3) by (rule sorted_wrt_mono_rel [rotated]) (use asym in blast)
  then have "sl_inv l" using assms(1) by (simp add: sl_inv_def)
  with True assms(1,2) have none: "\<forall>x\<in>set (sl_data l). \<not> equiv_by less x v"
    using add_rejects_iff [of l v] by blast
  have right: "\<forall>x\<in>set (drop ?k (sl_data l)). less v x"
    using lower_bound_split(2) [OF o, of v] none by (auto simp: equiv_by_def dest: in_set_dropD)
  have "sorted_wrt less (take ?k (sl_data l) @ drop ?k (sl_data l))" using assms(3) by simp
  with right lower_bound_split(1) [OF o, of v] have "sorted_wrt less (insert_at (sl_data l) ?k v)"
    using trans by (auto simp: insert_at_def sorted_wrt_append simp del: append_take_drop_id)
  moreover have "sl_data (snd (sl_add l v)) = insert_at (sl_data l) ?k v"
    using True assms(1) by (auto simp: sl_add_def Let_def split: if_splits)
  ultimately show ?thesis by simp
qed

end

text \<open>\<open>std::less<T>\<close>, the default comparator, on a totally ordered type.\<close>

interpretation std_less: strict_weak_order "(<) :: 'a::linorder \<Rightarrow> 'a \<Rightarrow> bool"
  by unfold_locales auto

section \<open>Correctness\<close>

lemma add_comp [simp]: "sl_comp (snd (sl_add l v)) = sl_comp l"
  and add_uniq [simp]: "sl_uniq (snd (sl_add l v)) = sl_uniq l"
  by (simp_all add: sl_add_def Let_def)

lemma add_data:
  "mset (sl_data (snd (sl_add l v)))
     = (if fst (sl_add l v) then add_mset v (mset (sl_data l)) else mset (sl_data l))"
  by (simp add: sl_add_def Let_def mset_insert_at)

lemma sl_of_list_snoc: "sl_of_list (xs @ [x]) u cmp = snd (sl_add (sl_of_list xs u cmp) x)"
  by (simp add: sl_of_list_def)

lemma sl_of_list_fields [simp]:
  "sl_comp (sl_of_list xs u cmp) = cmp" "sl_uniq (sl_of_list xs u cmp) = u"
  by (induction xs rule: rev_induct) (simp_all add: sl_of_list_snoc, simp_all add: sl_of_list_def sl_new_def)

lemma sl_of_list_inv: "strict_weak_order cmp \<Longrightarrow> sl_inv (sl_of_list xs u cmp)"
proof (induction xs rule: rev_induct)
  case Nil
  then show ?case by (simp add: sl_of_list_def sl_new_def sl_inv_def ordered_by_def)
next
  case (snoc x xs)
  then show ?case by (simp add: sl_of_list_snoc strict_weak_order.inv_add)
qed

lemma sl_of_list_mset: "mset (sl_data (sl_of_list xs False cmp)) = mset xs"
proof (induction xs rule: rev_induct)
  case Nil
  then show ?case by (simp add: sl_of_list_def sl_new_def)
next
  case (snoc x xs)
  have "fst (sl_add (sl_of_list xs False cmp) x)" by (simp add: sl_add_def Let_def)
  with snoc show ?case by (simp add: sl_of_list_snoc add_data)
qed

lemma sl_of_list_strict: "strict_weak_order cmp \<Longrightarrow> sorted_wrt cmp (sl_data (sl_of_list xs True cmp))"
proof (induction xs rule: rev_induct)
  case Nil
  then show ?case by (simp add: sl_of_list_def sl_new_def)
next
  case (snoc x xs)
  then show ?case by (simp add: sl_of_list_snoc strict_weak_order.unique_add)
qed

lemma sl_of_list_set:
  "set (sl_data (sl_of_list xs True ((<) :: 'a::linorder \<Rightarrow> _))) = set xs"
proof (induction xs rule: rev_induct)
  case Nil
  then show ?case by (simp add: sl_of_list_def sl_new_def)
next
  case (snoc x xs)
  let ?l = "sl_of_list xs True ((<) :: 'a \<Rightarrow> _)"
  have "sl_inv ?l" by (rule sl_of_list_inv) (rule std_less.strict_weak_order_axioms)
  then have "\<not> fst (sl_add ?l x) \<longleftrightarrow> x \<in> set (sl_data ?l)"
    using std_less.add_rejects_iff [of ?l x] by (auto simp: equiv_by_def)
  moreover have "set (sl_data (snd (sl_add ?l x)))
      = (if fst (sl_add ?l x) then insert x (set (sl_data ?l)) else set (sl_data ?l))"
    using add_data [of ?l x] by (simp flip: set_mset_mset)
  ultimately show ?case using snoc by (auto simp: sl_of_list_snoc)
qed

text \<open>
  C5: every operation that changes a \<open>SortedList\<close> (\<open>add\<close>, \<open>remove\<close>, \<open>remove_at\<close>, \<open>clear\<close>, \<open>set_unique\<close>)
  and both filling constructors leave the elements in the order of the comparator, for every
  comparator that is a strict weak order.
\<close>

theorem sl_inv_preserved:
  assumes "strict_weak_order (sl_comp l)" "sl_inv l"
  shows "sl_inv (snd (sl_add l v)) \<and> sl_inv (snd (sl_remove l v)) \<and> sl_inv (sl_clear l)
    \<and> sl_inv (sl_set_unique l b) \<and> (\<forall>i l'. sl_remove_at l i = Ret l' \<longrightarrow> sl_inv l')
    \<and> sl_inv (sl_of_list items b (sl_comp l))"
proof (intro conjI allI impI)
  show "sl_inv (snd (sl_add l v))" by (rule strict_weak_order.inv_add [OF assms refl])
  show "sl_inv (snd (sl_remove l v))" by (rule strict_weak_order.inv_remove [OF assms refl])
  show "sl_inv (sl_clear l)" by (simp add: sl_clear_def sl_inv_def ordered_by_def)
  show "sl_inv (sl_set_unique l b)" using assms(2) by (simp add: sl_set_unique_def sl_inv_def)
  show "sl_inv l'" if "sl_remove_at l i = Ret l'" for i l'
    using that by (rule strict_weak_order.inv_remove_at [OF assms refl])
  show "sl_inv (sl_of_list items b (sl_comp l))" using assms(1) by (rule sl_of_list_inv)
qed

theorem sl_inv_preserved_witness:
  "sl_inv (snd (sl_add \<lparr>sl_data = [1, 3], sl_uniq = False, sl_comp = (<)\<rparr> (2::int)))"
proof -
  let ?l = "\<lparr>sl_data = [1, 3], sl_uniq = False, sl_comp = (<)\<rparr> :: int sorted_list"
  have "strict_weak_order (sl_comp ?l)" by (simp add: std_less.strict_weak_order_axioms)
  moreover have "sl_inv ?l" by (simp add: sl_inv_def ordered_by_def)
  ultimately show ?thesis using sl_inv_preserved [of ?l 2] by blast
qed

text \<open>
  C2: \<open>add\<close> refines insertion into a multiset: it reports false, and changes nothing, exactly when the
  list is in unique mode and holds an equivalent element; otherwise it adds the value once.
\<close>

theorem sl_add_refines:
  assumes "strict_weak_order (sl_comp l)" "sl_inv l"
  shows "(fst (sl_add l v) \<longleftrightarrow> \<not> (sl_uniq l \<and> (\<exists>x\<in>set (sl_data l). equiv_by (sl_comp l) x v)))
    \<and> mset (sl_data (snd (sl_add l v)))
      = (if fst (sl_add l v) then add_mset v (mset (sl_data l)) else mset (sl_data l))"
  using strict_weak_order.add_rejects_iff [OF assms refl, of v] by (auto simp: add_data)

theorem sl_add_refines_witness:
  "\<not> fst (sl_add \<lparr>sl_data = [1, 3], sl_uniq = True, sl_comp = (<)\<rparr> (3::int))"
proof -
  let ?l = "\<lparr>sl_data = [1, 3], sl_uniq = True, sl_comp = (<)\<rparr> :: int sorted_list"
  have "strict_weak_order (sl_comp ?l)" by (simp add: std_less.strict_weak_order_axioms)
  moreover have "sl_inv ?l" by (simp add: sl_inv_def ordered_by_def)
  ultimately show ?thesis using sl_add_refines [of ?l 3] by (simp add: equiv_by_def)
qed

text \<open>
  C30: \<open>find\<close>, \<open>contains\<close> and \<open>remove\<close> agree with the multiset: a value is contained iff an equivalent
  element is in the list; \<open>find\<close> then gives the first such element; \<open>remove\<close> reports whether there was
  one and takes exactly that one element out.
\<close>

theorem sl_remove_refines:
  assumes "strict_weak_order (sl_comp l)" "sl_inv l"
  shows "(sl_contains l v \<longleftrightarrow> (\<exists>x\<in>set (sl_data l). equiv_by (sl_comp l) x v))
    \<and> fst (sl_remove l v) = sl_contains l v
    \<and> (if sl_contains l v
      then equiv_by (sl_comp l) (sl_data l ! sl_find l v) v
        \<and> (\<forall>j < sl_find l v. \<not> equiv_by (sl_comp l) (sl_data l ! j) v)
        \<and> add_mset (sl_data l ! sl_find l v) (mset (sl_data (snd (sl_remove l v)))) = mset (sl_data l)
      else snd (sl_remove l v) = l)"
proof (intro conjI)
  show "sl_contains l v \<longleftrightarrow> (\<exists>x\<in>set (sl_data l). equiv_by (sl_comp l) x v)"
    using strict_weak_order.contains_iff [OF assms refl] .
  show "fst (sl_remove l v) = sl_contains l v"
    by (simp add: sl_remove_def sl_contains_def Let_def)
  show "if sl_contains l v
      then equiv_by (sl_comp l) (sl_data l ! sl_find l v) v
        \<and> (\<forall>j < sl_find l v. \<not> equiv_by (sl_comp l) (sl_data l ! j) v)
        \<and> add_mset (sl_data l ! sl_find l v) (mset (sl_data (snd (sl_remove l v)))) = mset (sl_data l)
      else snd (sl_remove l v) = l"
    using strict_weak_order.find_hit [OF assms refl, of v]
    by (auto simp: sl_remove_def sl_contains_def Let_def mset_erase_at equiv_by_def)
qed

theorem sl_remove_refines_witness:
  "fst (sl_remove \<lparr>sl_data = [1, 3], sl_uniq = True, sl_comp = (<)\<rparr> (3::int))"
proof -
  let ?l = "\<lparr>sl_data = [1, 3], sl_uniq = True, sl_comp = (<)\<rparr> :: int sorted_list"
  have "strict_weak_order (sl_comp ?l)" by (simp add: std_less.strict_weak_order_axioms)
  moreover have "sl_inv ?l" by (simp add: sl_inv_def ordered_by_def)
  ultimately show ?thesis using sl_remove_refines [of ?l 3] by (simp add: equiv_by_def)
qed

text \<open>
  a \<open>SortedList\<close> with the default comparator built from a range is the sorted range, and in unique
  mode the strictly increasing list of its distinct values.
\<close>

theorem sl_of_list_sorts:
  fixes items :: "'a::linorder list"
  shows "sl_data (sl_of_list items False (<)) = sort items
    \<and> sl_data (sl_of_list items True (<)) = sorted_list_of_set (set items)"
proof
  note swo = std_less.strict_weak_order_axioms [where 'a = 'a]
  have "sorted (sl_data (sl_of_list items False (<)))"
    using sl_of_list_inv [OF swo, of items False]
    by (simp add: sl_inv_def ordered_by_def not_less)
  then show "sl_data (sl_of_list items False (<)) = sort items"
    by (simp add: sl_of_list_mset properties_for_sort [symmetric])
  have "sorted_wrt (<) (sl_data (sl_of_list items True (<)))"
    using sl_of_list_strict [OF swo] .
  then show "sl_data (sl_of_list items True (<)) = sorted_list_of_set (set items)"
    by (metis sl_of_list_set sorted_list_of_set.idem_if_sorted_distinct strict_sorted_iff)
qed

text \<open>
  the checked accesses \<open>at\<close>, \<open>operator[]\<close>, \<open>remove_at\<close> and \<open>last\<close> raise \<open>out_of_range\<close> exactly outside
  the list and otherwise give or take out the element at the index.
\<close>

theorem sl_access_checked:
  "if i < length (sl_data l)
     then sl_at l i = Ret (sl_data l ! i) \<and> sl_subscript l i = Ret (sl_data l ! i)
       \<and> (\<exists>l'. sl_remove_at l i = Ret l' \<and> add_mset (sl_data l ! i) (mset (sl_data l')) = mset (sl_data l))
       \<and> sl_last l = Ret (sl_data l ! (length (sl_data l) - 1))
     else (\<exists>m. sl_at l i = Raise (Out_of_range m)) \<and> (\<exists>m. sl_subscript l i = Raise (Out_of_range m))
       \<and> (\<exists>m. sl_remove_at l i = Raise (Out_of_range m))
       \<and> (sl_data l = [] \<longrightarrow> (\<exists>m. sl_last l = Raise (Out_of_range m)))"
  by (auto simp: sl_at_def sl_subscript_def sl_remove_at_def sl_last_def validate_index_def
      mset_erase_at last_conv_nth)

theorem sl_access_checked_witness:
  "\<exists>m. sl_at (sl_new False ((<) :: int \<Rightarrow> _)) 0 = Raise (Out_of_range m)"
  using sl_access_checked [of 0 "sl_new False ((<) :: int \<Rightarrow> _)"] by (simp add: sl_new_def)

end
