(* ===== verification/Array.thy ===== *)
theory Array
  imports Result
begin

text \<open>
  array.hpp: the heap array \<open>Array<T>\<close> and the trivially copyable \<open>CArray<Size, T>\<close>. An array is the list
  of its elements, an element its object representation, so that \<open>memcmp\<close> of whole elements is equality
  of lists. Access without a check outside the array is undefined.
\<close>

section \<open>Array\<close>

record 'a Array =
  marray :: "'a list"
  msize :: nat

text \<open>\<open>new T[size]\<close> of a class type holds default values; \<open>z\<close> is the default.\<close>

definition Array_new :: "'a \<Rightarrow> nat \<Rightarrow> 'a Array" where
  "Array_new z sz = \<lparr>marray = replicate sz z, msize = sz\<rparr>"

definition Array_at :: "'a Array \<Rightarrow> nat \<Rightarrow> 'a outcome" where
  "Array_at a index = (if index < length (marray a) then Ret (marray a ! index) else Undef)"

definition Array_data :: "'a Array \<Rightarrow> 'a list" where "Array_data a = marray a"

definition Array_size :: "'a Array \<Rightarrow> nat" where "Array_size a = msize a"

section \<open>CArray\<close>

text \<open>The zero of the element type is the argument \<open>z\<close>, \<open>Size\<close> the argument \<open>n\<close>.\<close>

definition ca_default :: "'a \<Rightarrow> nat \<Rightarrow> 'a list" where
  "ca_default z n = replicate n z"

definition ca_of_list :: "'a \<Rightarrow> nat \<Rightarrow> 'a list \<Rightarrow> 'a list" where
  "ca_of_list z n init =
     (let k = min (length init) n in take k init @ drop k (ca_default z n))"

text \<open>The constructor from \<open>Args...\<close>, of which there are at most \<open>Size\<close>.\<close>

definition ca_of_args :: "'a \<Rightarrow> nat \<Rightarrow> 'a list \<Rightarrow> 'a list" where
  "ca_of_args z n args = args @ replicate (n - length args) z"

definition ca_subscript :: "'a list \<Rightarrow> nat \<Rightarrow> 'a outcome" where
  "ca_subscript a index = (if index < length a then Ret (a ! index) else Undef)"

definition ca_at :: "'a list \<Rightarrow> nat \<Rightarrow> 'a outcome" where
  "ca_at a index =
     (if index \<ge> length a then Raise (Out_of_range ''CArray::at: index out of bounds'') else Ret (a ! index))"

definition ca_size :: "'a list \<Rightarrow> nat" where "ca_size a = length a"

text \<open>\<open>memcmp\<close> of \<open>count\<close> elements that start at offset \<open>start\<close> of both arguments.\<close>

definition memcmp_eq :: "'a list \<Rightarrow> 'a list \<Rightarrow> nat \<Rightarrow> nat \<Rightarrow> bool outcome" where
  "memcmp_eq a b start count =
     (if start + count \<le> length a \<and> start + count \<le> length b
      then Ret (take count (drop start a) = take count (drop start b)) else Undef)"

definition ca_eq :: "'a list \<Rightarrow> 'a list \<Rightarrow> bool outcome" where
  "ca_eq a other = memcmp_eq a other 0 (length a)"

definition ca_neq :: "'a list \<Rightarrow> 'a list \<Rightarrow> bool outcome" where
  "ca_neq a other = map_out Not (ca_eq a other)"

definition ca_compare_range :: "'a list \<Rightarrow> 'a list \<Rightarrow> nat \<Rightarrow> bool outcome" where
  "ca_compare_range a other count =
     (let count = (if count > length a then length a else count) in memcmp_eq a other 0 count)"

text \<open>The sum \<open>start + count\<close> is a \<open>size_t\<close>.\<close>

definition ca_compare_range_at :: "'a list \<Rightarrow> 'a list \<Rightarrow> nat \<Rightarrow> nat \<Rightarrow> bool outcome" where
  "ca_compare_range_at a other start count =
     (if start \<ge> length a then Ret False
      else if (start + count) mod size_max > length a then Ret False
      else memcmp_eq a other start count)"

definition ca_compare_range_ptr :: "'a list \<Rightarrow> 'a list \<Rightarrow> nat \<Rightarrow> bool outcome" where
  "ca_compare_range_ptr a ptr count =
     (let count = (if count > length a then length a else count) in memcmp_eq a ptr 0 count)"

fun ca_search :: "'a list \<Rightarrow> 'a \<Rightarrow> nat \<Rightarrow> nat option" where
  "ca_search [] element i = None"
| "ca_search (x # xs) element i = (if x = element then Some i else ca_search xs element (Suc i))"

definition ca_contains :: "'a list \<Rightarrow> 'a \<Rightarrow> nat result outcome" where
  "ca_contains a element =
     (case ca_search a element 0 of
        Some i \<Rightarrow> Ret (result_value i (Bool_of_bool True) EMPTY_MESSAGE)
      | None \<Rightarrow> map_out (result_value 0xffffffff (Bool_of_bool False))
          (noexcept (cs_of_string error_message_type ''Element not found in array.'')))"

definition ca_starts_with :: "'a list \<Rightarrow> 'a list \<Rightarrow> nat \<Rightarrow> bool outcome" where
  "ca_starts_with a pattern pattern_len = ca_compare_range a pattern pattern_len"

definition ca_starts_with_list :: "'a list \<Rightarrow> 'a list \<Rightarrow> bool outcome" where
  "ca_starts_with_list a pattern =
     (if length pattern > length a then Ret False else memcmp_eq a pattern 0 (length pattern))"

definition ca_fill :: "'a list \<Rightarrow> 'a \<Rightarrow> 'a list" where
  "ca_fill a value = replicate (length a) value"

definition ca_fill_count :: "'a list \<Rightarrow> 'a \<Rightarrow> nat \<Rightarrow> 'a list" where
  "ca_fill_count a value count =
     (let count = (if count > length a then length a else count) in replicate count value @ drop count a)"

definition ca_clear :: "'a \<Rightarrow> 'a list \<Rightarrow> 'a list" where
  "ca_clear z a = replicate (length a) z"

section \<open>Lemmas\<close>

lemma length_ca_ops [simp]:
  "length (ca_default z n) = n" "length (ca_of_list z n init) = n"
  "length args \<le> n \<Longrightarrow> length (ca_of_args z n args) = n"
  "length (ca_fill a v) = length a" "length (ca_fill_count a v k) = length a" "length (ca_clear z a) = length a"
  by (auto simp: ca_default_def ca_of_list_def ca_of_args_def ca_fill_def ca_fill_count_def ca_clear_def Let_def)

lemma ca_search_index: "ca_search a x i = map_option (\<lambda>k. i + k) (find_index (\<lambda>y. y = x) a)"
proof (induction a arbitrary: i)
  case (Cons y ys)
  then show ?case by (cases "find_index (\<lambda>y. y = x) ys") auto
qed simp

text \<open>
  The comparisons of a \<open>CArray\<close> decide what their names say whenever they return: full equality,
  equality of a prefix, of a range, the pattern at the start; \<open>contains\<close> gives the first index. A range
  whose end overflows \<open>size_t\<close> passes the check of \<open>compare_range\<close> and reads outside the arrays.
\<close>

theorem carray_comparisons:
  fixes a b :: "'a list"
  assumes "length a = length b" "length a < size_max"
  shows "ca_eq a b = Ret (a = b)
    \<and> ca_compare_range a b count = Ret (take count a = take count b)
    \<and> (start + count < size_max \<longrightarrow> ca_compare_range_at a b start count =
         Ret (start < length a \<and> start + count \<le> length a \<and> take count (drop start a) = take count (drop start b)))
    \<and> (start < length a \<and> size_max \<le> start + count \<and> start + count < size_max + length a \<longrightarrow>
         ca_compare_range_at a b start count = Undef)
    \<and> ca_starts_with_list a pattern = Ret (prefix pattern a)
    \<and> (case find_index (\<lambda>y. y = x) a of
         Some i \<Rightarrow> map_out mresult (ca_contains a x) = Ret i \<and> map_out result_to_bool (ca_contains a x) = Ret True
       | None \<Rightarrow> map_out result_to_bool (ca_contains a x) = Ret False)"
proof (intro conjI impI)
  obtain m where not_found: "cs_of_string error_message_type ''Element not found in array.'' = Ret m"
    using cs_of_string_Ret [of "''Element not found in array.''" error_message_type] by (auto simp: CS_def NUL_def)
  show "ca_eq a b = Ret (a = b)" using assms(1) by (simp add: ca_eq_def memcmp_eq_def)
  show "ca_compare_range a b count = Ret (take count a = take count b)"
    using assms(1) by (auto simp: ca_compare_range_def memcmp_eq_def Let_def)
  show "ca_compare_range_at a b start count =
      Ret (start < length a \<and> start + count \<le> length a \<and> take count (drop start a) = take count (drop start b))"
    if "start + count < size_max"
    using assms(1) that by (simp add: ca_compare_range_at_def memcmp_eq_def)
  show "ca_compare_range_at a b start count = Undef"
    if "start < length a \<and> size_max \<le> start + count \<and> start + count < size_max + length a"
  proof -
    have "(start + count) mod size_max = start + count - size_max"
      using that assms(2) by (subst le_mod_geq) (auto intro: mod_less)
    moreover have "\<not> length a < start + count - size_max" "\<not> start + count \<le> length a" "\<not> length a \<le> start"
      using that assms(2) by linarith+
    ultimately show ?thesis by (simp add: ca_compare_range_at_def memcmp_eq_def)
  qed
  show "ca_starts_with_list a pattern = Ret (prefix pattern a)"
    by (auto simp: ca_starts_with_list_def memcmp_eq_def prefix_def dest: sym [of pattern])
       (metis append_take_drop_id)
  show "case find_index (\<lambda>y. y = x) a of
      Some i \<Rightarrow> map_out mresult (ca_contains a x) = Ret i \<and> map_out result_to_bool (ca_contains a x) = Ret True
    | None \<Rightarrow> map_out result_to_bool (ca_contains a x) = Ret False"
    using not_found
    by (auto simp: ca_contains_def ca_search_index result_value_def result_to_bool_def Bool_eq_def
        Bool_of_bool_def Bool_of_int_def T_def F_def split: option.split)
qed

theorem carray_comparisons_witness:
  "ca_compare_range_at [1, 2, 3 :: int] [4, 2, 3] 1 2 = Ret True
   \<and> ca_compare_range_at [1, 2, 3 :: int] [4, 2, 3] 1 (size_max - 1) = Undef"
  using carray_comparisons [of "[1, 2, 3 :: int]" "[4, 2, 3]" 2 1 "[]" 1]
    carray_comparisons [of "[1, 2, 3 :: int]" "[4, 2, 3]" "size_max - 1" 1 "[]" 1]
  by (simp add: size_max_def)

end
