(* ===== verification/Bytes.thy ===== *)
theory Bytes
  imports Result
begin

text \<open>
  Object representations and byte order of scalars: the bytes of an integer in memory, \<open>std::byteswap\<close>,
  the byte-order tag of endian.hpp and the wire types \<open>Int\<close> (wire\_int.hpp) and \<open>Double\<close> (wire\_double.hpp).
  The byte order of the machine, \<open>std::endian::native\<close>, is an argument.
\<close>

section \<open>Bytes of an integer\<close>

text \<open>The \<open>n\<close> bytes of a number, least significant first, and back.\<close>

fun bytes_of_nat :: "nat \<Rightarrow> nat \<Rightarrow> byte list" where
  "bytes_of_nat 0 v = []"
| "bytes_of_nat (Suc n) v = word_of_nat v # bytes_of_nat n (v div 256)"

fun nat_of_bytes :: "byte list \<Rightarrow> nat" where
  "nat_of_bytes [] = 0"
| "nat_of_bytes (b # bs) = unat b + 256 * nat_of_bytes bs"

lemma bytes_of_nat_numeral [simp]:
  "bytes_of_nat (numeral k) v = word_of_nat v # bytes_of_nat (pred_numeral k) (v div 256)"
  by (simp only: numeral_eq_Suc [of k] bytes_of_nat.simps)

lemma length_bytes_of_nat [simp]: "length (bytes_of_nat n v) = n"
  by (induction n arbitrary: v) auto

lemma unat_byte_of_nat: "unat (word_of_nat v :: byte) = v mod 256"
  by (simp add: unat_of_nat)

lemma unat_byte_less: "unat (b :: byte) < 256"
proof -
  have "unat b < 2 ^ LENGTH(8)" by (rule unsigned_less)
  then show ?thesis by simp
qed

lemma nat_of_bytes_of_nat: "nat_of_bytes (bytes_of_nat n v) = v mod 256 ^ n"
proof (induction n arbitrary: v)
  case (Suc n)
  then show ?case by (simp add: unat_byte_of_nat mod_mult2_eq)
qed simp

lemma nat_of_bytes_less: "nat_of_bytes bs < 256 ^ length bs"
proof (induction bs)
  case (Cons b bs)
  have "unat b < 256" by (rule unat_byte_less)
  with Cons show ?case by simp
qed simp

lemma bytes_of_nat_of_bytes: "bytes_of_nat (length bs) (nat_of_bytes bs) = bs"
proof (induction bs)
  case (Cons b bs)
  have "unat b < 256" by (rule unat_byte_less)
  moreover have "word_of_nat (unat b + 256 * m) = b" for m
    by (rule word_unat_eq_iff [THEN iffD2], subst unat_byte_of_nat) (use calculation in simp)
  ultimately show ?case using Cons by simp
qed simp

text \<open>The object representation of a \<open>w\<close>-bit integer on a little-endian machine, and back.\<close>

definition word_bytes :: "'a::len word \<Rightarrow> byte list" where
  "word_bytes w = bytes_of_nat (LENGTH('a) div 8) (unat w)"

definition bytes_word :: "byte list \<Rightarrow> 'a::len word" where
  "bytes_word bs = word_of_nat (nat_of_bytes bs)"

lemma length_word_bytes: "length (word_bytes (w :: 'a::len word)) = LENGTH('a) div 8"
  by (simp add: word_bytes_def)

lemma pow256: "8 dvd n \<Longrightarrow> (256 :: nat) ^ (n div 8) = 2 ^ n"
proof -
  assume "8 dvd n"
  then obtain k where "n = 8 * k" by (elim dvdE)
  then show ?thesis by (simp add: power_mult)
qed

lemma bytes_word_bytes: "8 dvd LENGTH('a) \<Longrightarrow> bytes_word (word_bytes (w :: 'a::len word)) = w"
  unfolding word_bytes_def bytes_word_def nat_of_bytes_of_nat by (simp add: pow256)

lemma word_bytes_word:
  assumes "8 dvd LENGTH('a)" "length bs = LENGTH('a) div 8"
  shows "word_bytes (bytes_word bs :: 'a::len word) = bs"
proof -
  have "nat_of_bytes bs < 2 ^ LENGTH('a)"
    using nat_of_bytes_less [of bs] assms pow256 [OF assms(1)] by simp
  then have "unat (bytes_word bs :: 'a word) = nat_of_bytes bs"
    by (simp add: bytes_word_def unat_of_nat)
  with assms(2) bytes_of_nat_of_bytes [of bs] show ?thesis by (simp add: word_bytes_def)
qed

definition byteswap :: "'a::len word \<Rightarrow> 'a word" where
  "byteswap v = bytes_word (rev (word_bytes v))"

lemma byteswap_byteswap: "8 dvd LENGTH('a) \<Longrightarrow> byteswap (byteswap v) = (v :: 'a::len word)"
  by (simp add: byteswap_def word_bytes_word bytes_word_bytes length_word_bytes)

lemma word_bytes_byteswap: "8 dvd LENGTH('a) \<Longrightarrow> word_bytes (byteswap (v :: 'a::len word)) = rev (word_bytes v)"
  by (simp add: byteswap_def word_bytes_word length_word_bytes)

section \<open>endian.hpp\<close>

text \<open>\<open>std::endian\<close>; on a machine of mixed byte order \<open>native\<close> is neither of the two.\<close>

datatype std_endian = little | big | mixed

record Endian =
  endian_value :: int

definition NOT_APPLICABLE :: int where "NOT_APPLICABLE = - 2"

definition ENDIAN_UNKNOWN :: int where "ENDIAN_UNKNOWN = - 1"

definition LITTLE :: int where "LITTLE = 0"

definition BIG :: int where "BIG = 1"

definition NATIVE :: "std_endian \<Rightarrow> int" where
  "NATIVE native = (if native = little then LITTLE else if native = big then BIG else ENDIAN_UNKNOWN)"

definition Endian_of :: "int \<Rightarrow> Endian" where
  "Endian_of v = \<lparr>endian_value = v\<rparr>"

definition Endian_little :: Endian where "Endian_little = Endian_of LITTLE"

definition Endian_big :: Endian where "Endian_big = Endian_of BIG"

definition Endian_native :: "std_endian \<Rightarrow> Endian" where "Endian_native native = Endian_of (NATIVE native)"

definition Endian_unknown :: Endian where "Endian_unknown = Endian_of ENDIAN_UNKNOWN"

definition is_little :: "Endian \<Rightarrow> bool" where "is_little e \<longleftrightarrow> endian_value e = LITTLE"

definition is_big :: "Endian \<Rightarrow> bool" where "is_big e \<longleftrightarrow> endian_value e = BIG"

definition is_native :: "std_endian \<Rightarrow> Endian \<Rightarrow> bool" where
  "is_native native e \<longleftrightarrow> endian_value e = NATIVE native"

definition known :: "Endian \<Rightarrow> bool" where "known e \<longleftrightarrow> endian_value e \<ge> 0"

definition to_std :: "std_endian \<Rightarrow> Endian \<Rightarrow> std_endian" where
  "to_std native e =
     (if endian_value e = LITTLE then little else if endian_value e = BIG then big else native)"

definition Endian_eq :: "Endian \<Rightarrow> Endian \<Rightarrow> bool" where
  "Endian_eq a b \<longleftrightarrow> endian_value a = endian_value b"

lemmas endian_defs = NOT_APPLICABLE_def ENDIAN_UNKNOWN_def LITTLE_def BIG_def NATIVE_def Endian_of_def
  Endian_little_def Endian_big_def Endian_native_def Endian_unknown_def

section \<open>wire\_int.hpp\<close>

text \<open>\<open>Int<T, E>\<close>: an integer stored in byte order \<open>E\<close>; \<open>T\<close> is given by its width.\<close>

record 't Wire_Int =
  storage :: 't

definition int_need_swap :: "std_endian \<Rightarrow> Endian \<Rightarrow> bool" where
  "int_need_swap native e \<longleftrightarrow>
     endian_value e = LITTLE \<and> native = big \<or> endian_value e = BIG \<and> native = little"

definition int_encode :: "std_endian \<Rightarrow> Endian \<Rightarrow> 'w::len word \<Rightarrow> 'w word" where
  "int_encode native e v = (if int_need_swap native e then byteswap v else v)"

definition int_decode :: "std_endian \<Rightarrow> Endian \<Rightarrow> 'w::len word \<Rightarrow> 'w word" where
  "int_decode native e v = (if int_need_swap native e then byteswap v else v)"

definition Int_default :: "'w::len word Wire_Int" where "Int_default = \<lparr>storage = 0\<rparr>"

definition Int_of :: "std_endian \<Rightarrow> Endian \<Rightarrow> 'w::len word \<Rightarrow> 'w word Wire_Int" where
  "Int_of native e value = \<lparr>storage = int_encode native e value\<rparr>"

definition Int_value :: "std_endian \<Rightarrow> Endian \<Rightarrow> 'w::len word Wire_Int \<Rightarrow> 'w word" where
  "Int_value native e i = int_decode native e (storage i)"

definition Int_assign :: "std_endian \<Rightarrow> Endian \<Rightarrow> 'w::len word Wire_Int \<Rightarrow> 'w word \<Rightarrow> 'w word Wire_Int" where
  "Int_assign native e i v = i\<lparr>storage := int_encode native e v\<rparr>"

definition Int_eq :: "std_endian \<Rightarrow> Endian \<Rightarrow> 'w::len word Wire_Int \<Rightarrow> 'w word Wire_Int \<Rightarrow> bool" where
  "Int_eq native e a b \<longleftrightarrow> Int_value native e a = Int_value native e b"

text \<open>\<open>operator<=>\<close> for an unsigned \<open>T\<close>: the sign of the comparison of the values.\<close>

definition Int_compare :: "std_endian \<Rightarrow> Endian \<Rightarrow> 'w::len word Wire_Int \<Rightarrow> 'w word Wire_Int \<Rightarrow> int" where
  "Int_compare native e a b =
     (if Int_value native e a < Int_value native e b then - 1
      else if Int_value native e b < Int_value native e a then 1 else 0)"

section \<open>wire\_double.hpp\<close>

text \<open>
  \<open>Double<T, E>\<close>: an IEEE 754 number stored as its bits in byte order \<open>E\<close>. A value of \<open>T\<close> is the bit
  pattern that \<open>std::bit_cast\<close> gives; the floating-point operations of the machine are an argument.
\<close>

record 't Double =
  bits :: 't

record 't float_ops =
  fadd :: "'t \<Rightarrow> 't \<Rightarrow> 't"
  fsub :: "'t \<Rightarrow> 't \<Rightarrow> 't"
  fmul :: "'t \<Rightarrow> 't \<Rightarrow> 't"
  fdiv :: "'t \<Rightarrow> 't \<Rightarrow> 't"
  feq :: "'t \<Rightarrow> 't \<Rightarrow> bool"
  flt :: "'t \<Rightarrow> 't \<Rightarrow> bool"

definition double_need_swap :: "std_endian \<Rightarrow> Endian \<Rightarrow> bool" where
  "double_need_swap native e \<longleftrightarrow>
     endian_value e = LITTLE \<and> native = big \<or> endian_value e = BIG \<and> native = little"

definition double_encode :: "std_endian \<Rightarrow> Endian \<Rightarrow> 'w::len word \<Rightarrow> 'w word" where
  "double_encode native e v = (if double_need_swap native e then byteswap v else v)"

definition double_decode :: "std_endian \<Rightarrow> Endian \<Rightarrow> 'w::len word \<Rightarrow> 'w word" where
  "double_decode native e v = (if double_need_swap native e then byteswap v else v)"

definition Double_default :: "'w::len word Double" where "Double_default = \<lparr>bits = 0\<rparr>"

definition Double_of :: "std_endian \<Rightarrow> Endian \<Rightarrow> 'w::len word \<Rightarrow> 'w word Double" where
  "Double_of native e value = \<lparr>bits = double_encode native e value\<rparr>"

definition Double_of_bits :: "std_endian \<Rightarrow> Endian \<Rightarrow> 'w::len word \<Rightarrow> 'w word Double" where
  "Double_of_bits native e raw_bits = \<lparr>bits = double_encode native e raw_bits\<rparr>"

definition Double_value :: "std_endian \<Rightarrow> Endian \<Rightarrow> 'w::len word Double \<Rightarrow> 'w word" where
  "Double_value native e d = double_decode native e (bits d)"

definition Double_assign :: "std_endian \<Rightarrow> Endian \<Rightarrow> 'w::len word Double \<Rightarrow> 'w word \<Rightarrow> 'w word Double" where
  "Double_assign native e d v = d\<lparr>bits := double_encode native e v\<rparr>"

definition Double_add :: "'w word float_ops \<Rightarrow> std_endian \<Rightarrow> Endian \<Rightarrow> 'w::len word Double \<Rightarrow> 'w word Double \<Rightarrow> 'w word Double" where
  "Double_add fp native e a rhs = Double_of native e (fadd fp (Double_value native e a) (Double_value native e rhs))"

definition Double_sub :: "'w word float_ops \<Rightarrow> std_endian \<Rightarrow> Endian \<Rightarrow> 'w::len word Double \<Rightarrow> 'w word Double \<Rightarrow> 'w word Double" where
  "Double_sub fp native e a rhs = Double_of native e (fsub fp (Double_value native e a) (Double_value native e rhs))"

definition Double_mul :: "'w word float_ops \<Rightarrow> std_endian \<Rightarrow> Endian \<Rightarrow> 'w::len word Double \<Rightarrow> 'w word Double \<Rightarrow> 'w word Double" where
  "Double_mul fp native e a rhs = Double_of native e (fmul fp (Double_value native e a) (Double_value native e rhs))"

definition Double_div :: "'w word float_ops \<Rightarrow> std_endian \<Rightarrow> Endian \<Rightarrow> 'w::len word Double \<Rightarrow> 'w word Double \<Rightarrow> 'w word Double" where
  "Double_div fp native e a rhs = Double_of native e (fdiv fp (Double_value native e a) (Double_value native e rhs))"

definition Double_eq :: "'w word float_ops \<Rightarrow> std_endian \<Rightarrow> Endian \<Rightarrow> 'w::len word Double \<Rightarrow> 'w word Double \<Rightarrow> bool" where
  "Double_eq fp native e a b \<longleftrightarrow> feq fp (Double_value native e a) (Double_value native e b)"

text \<open>\<open>operator<=>\<close> gives \<open>None\<close> for unordered operands.\<close>

definition Double_compare :: "'w word float_ops \<Rightarrow> std_endian \<Rightarrow> Endian \<Rightarrow> 'w::len word Double \<Rightarrow> 'w word Double \<Rightarrow> int option" where
  "Double_compare fp native e a b =
     (let x = Double_value native e a; y = Double_value native e b in
      if feq fp x y then Some 0 else if flt fp x y then Some (- 1) else if flt fp y x then Some 1 else None)"

definition Double_hash :: "('w word \<Rightarrow> nat) \<Rightarrow> 'w::len word Double \<Rightarrow> nat" where
  "Double_hash h d = h (bits d)"

section \<open>The wire format\<close>

text \<open>The bytes of a scalar in memory, on a machine of the given byte order.\<close>

definition memory_bytes :: "std_endian \<Rightarrow> 'w::len word \<Rightarrow> byte list" where
  "memory_bytes native w = (if native = big then rev (word_bytes w) else word_bytes w)"

lemma need_swap_same: "double_need_swap native e = int_need_swap native e"
  by (simp add: double_need_swap_def int_need_swap_def)

lemma int_decode_encode: "8 dvd LENGTH('w) \<Longrightarrow> int_decode native e (int_encode native e (v :: 'w::len word)) = v"
  by (simp add: int_decode_def int_encode_def byteswap_byteswap)

lemma double_encode_int: "double_encode native e v = int_encode native e v"
  by (simp add: double_encode_def int_encode_def need_swap_same)

lemma double_decode_encode:
  "8 dvd LENGTH('w) \<Longrightarrow> double_decode native e (double_encode native e (v :: 'w::len word)) = v"
  by (simp add: double_decode_def double_encode_def byteswap_byteswap)

lemma encode_memory:
  assumes "8 dvd LENGTH('w)" "native \<noteq> mixed"
  shows "endian_value e = LITTLE \<Longrightarrow> memory_bytes native (int_encode native e (v :: 'w::len word)) = word_bytes v"
    and "endian_value e = BIG \<Longrightarrow> memory_bytes native (int_encode native e v) = rev (word_bytes v)"
  using assms(2)
  by (cases native; simp add: memory_bytes_def int_encode_def int_need_swap_def word_bytes_byteswap [OF assms(1)]
      LITTLE_def BIG_def)+

text \<open>
  C28: A wire integer gives back the value it was built from or assigned, on every machine and for every
  byte-order tag, compares by value, and its bytes in memory are those of the tag: least significant
  first for little, most significant first for big, whatever the byte order of the machine.
\<close>

theorem wire_int_roundtrip:
  assumes "8 dvd LENGTH('w)" "native \<noteq> mixed"
  shows "Int_value native e (Int_of native e (v :: 'w::len word)) = v
    \<and> Int_value native e (Int_assign native e i v) = v
    \<and> (Int_eq native e (Int_of native e v) (Int_of native e w) \<longleftrightarrow> v = w)
    \<and> memory_bytes native (storage (Int_of native Endian_little v)) = word_bytes v
    \<and> memory_bytes native (storage (Int_of native Endian_big v)) = rev (word_bytes v)"
  using encode_memory [OF assms]
  by (simp add: Int_value_def Int_of_def Int_assign_def Int_eq_def int_decode_encode [OF assms(1)]
      Endian_little_def Endian_big_def Endian_of_def)

theorem wire_int_roundtrip_witness:
  "Int_value big Endian_little (Int_of big Endian_little (258 :: 32 word)) = 258
    \<and> memory_bytes big (storage (Int_of big Endian_little (258 :: 32 word))) = [2, 1, 0, 0]"
proof -
  have "word_bytes (258 :: 32 word) = [2, 1, 0, 0]" by code_simp
  then show ?thesis
    using wire_int_roundtrip [of big Endian_little "258 :: 32 word" "Int_default" 0] by simp
qed

text \<open>
  A wire double gives back the bit pattern it was built from, whatever the machine and the tag; the
  arithmetic operators are the machine's operations on the values, and the bytes on the wire are those
  of the tag.
\<close>

theorem wire_double_roundtrip:
  assumes "8 dvd LENGTH('w)" "native \<noteq> mixed"
  shows "Double_value native e (Double_of native e (v :: 'w::len word)) = v
    \<and> Double_value native e (Double_assign native e a v) = v
    \<and> Double_value native e (Double_add fp native e a b) = fadd fp (Double_value native e a) (Double_value native e b)
    \<and> Double_value native e (Double_div fp native e a b) = fdiv fp (Double_value native e a) (Double_value native e b)
    \<and> memory_bytes native (bits (Double_of native Endian_little v)) = word_bytes v
    \<and> memory_bytes native (bits (Double_of native Endian_big v)) = rev (word_bytes v)"
  using encode_memory [OF assms]
  by (simp add: Double_value_def Double_of_def Double_assign_def Double_add_def Double_div_def
      double_decode_encode [OF assms(1)] double_encode_int [symmetric] Endian_little_def Endian_big_def Endian_of_def)

theorem wire_double_roundtrip_witness:
  "memory_bytes little (bits (Double_of little Endian_big (0x3ff0000000000000 :: 64 word))) = [63, 240, 0, 0, 0, 0, 0, 0]"
proof -
  have "rev (word_bytes (0x3ff0000000000000 :: 64 word)) = [63, 240, 0, 0, 0, 0, 0, 0]"
    by (simp add: word_bytes_def)
  then show ?thesis
    using wire_double_roundtrip [of little Endian_big "0x3ff0000000000000 :: 64 word" Double_default
        "\<lparr>fadd = (+), fsub = (-), fmul = (*), fdiv = (div), feq = (=), flt = (<)\<rparr>" Double_default] by simp
qed

end
