(* ===== verification/Encoding.thy ===== *)
theory Encoding
  imports Array Bytes
begin

text \<open>
  The text encodings of encoding.hpp and the parts of icu\_util.hpp that work on whole texts: the byte
  order mark test, the names of the encodings, the detection of a file's encoding, the code points of a
  text and the removal of accents. The ICU library is an argument, the record \<open>icu_text\<close>.
\<close>

section \<open>encoding.hpp\<close>

type_synonym BomBytes = "byte list"

definition NO_BOM :: BomBytes where "NO_BOM = ca_of_list 0 4 [0, 0, 0, 0]"

definition BOM_UTF_8 :: BomBytes where "BOM_UTF_8 = ca_of_list 0 4 [0xEF, 0xBB, 0xBF, 0x00]"

definition BOM_UTF_16_BE :: BomBytes where "BOM_UTF_16_BE = ca_of_list 0 4 [0xFE, 0xFF, 0x00, 0x00]"

definition BOM_UTF_16_LE :: BomBytes where "BOM_UTF_16_LE = ca_of_list 0 4 [0xFF, 0xFE, 0x00, 0x00]"

definition BOM_UTF_32_BE :: BomBytes where "BOM_UTF_32_BE = ca_of_list 0 4 [0x00, 0x00, 0xFE, 0xFF]"

definition BOM_UTF_32_LE :: BomBytes where "BOM_UTF_32_LE = ca_of_list 0 4 [0xFF, 0xFE, 0x00, 0x00]"

text \<open>\<open>CS<>\<close> is \<open>CS<0, 20>\<close>. A string literal is an array of characters that ends with \<open>NUL\<close>.\<close>

record Encoding =
  enc_name :: cs
  bom :: BomBytes
  endian :: Endian
  has_bom :: Bool
  bom_size :: byte

definition Encoding_default :: Encoding where
  "Encoding_default = \<lparr>enc_name = cs_default (CS 0 20), bom = NO_BOM, endian = Endian_of NOT_APPLICABLE,
     has_bom = Bool_of_int F, bom_size = 0\<rparr>"

text \<open>The constructor is \<open>noexcept\<close>: a name that does not fit ends the program.\<close>

definition Encoding_of :: "cs \<Rightarrow> BomBytes \<Rightarrow> Endian \<Rightarrow> Bool \<Rightarrow> byte \<Rightarrow> Encoding outcome" where
  "Encoding_of name_value bom_value e has_bom_value bom_size_value =
     noexcept (map_out (\<lambda>n. \<lparr>enc_name = n, bom = bom_value, endian = e, has_bom = has_bom_value,
         bom_size = bom_size_value\<rparr>) (cs_of_cstr (CS 0 20) name_value))"

definition Encoding_eq :: "icu \<Rightarrow> Encoding \<Rightarrow> Encoding \<Rightarrow> bool outcome" where
  "Encoding_eq u a other = cs_eq u (CS 0 20) (enc_name a) (enc_name other)"

text \<open>The constants; the initialisation of a static object from a call that returns.\<close>

definition enc_static :: "string \<Rightarrow> BomBytes \<Rightarrow> int \<Rightarrow> byte \<Rightarrow> byte \<Rightarrow> Encoding" where
  "enc_static n b e h sz =
     (case Encoding_of (n @ [NUL]) b (Endian_of e) (Bool_of_int h) sz of Ret x \<Rightarrow> x | _ \<Rightarrow> Encoding_default)"

definition ASCII :: Encoding where "ASCII = enc_static ''ASCII'' NO_BOM NOT_APPLICABLE F 0"

definition UTF_8 :: Encoding where "UTF_8 = enc_static ''UTF-8'' NO_BOM NOT_APPLICABLE F 0"

definition UTF_8_BOM :: Encoding where "UTF_8_BOM = enc_static ''UTF-8-BOM'' BOM_UTF_8 NOT_APPLICABLE T 3"

definition UTF_16_BE :: Encoding where "UTF_16_BE = enc_static ''UTF-16-BE'' NO_BOM BIG F 2"

definition UTF_16_BE_BOM :: Encoding where "UTF_16_BE_BOM = enc_static ''UTF-16-BE-BOM'' BOM_UTF_16_BE BIG T 2"

definition UTF_16_LE :: Encoding where "UTF_16_LE = enc_static ''UTF-16-LE'' NO_BOM LITTLE F 2"

definition UTF_16_LE_BOM :: Encoding where "UTF_16_LE_BOM = enc_static ''UTF-16-LE-BOM'' BOM_UTF_16_LE LITTLE F 2"

definition UTF_32_BE :: Encoding where "UTF_32_BE = enc_static ''UTF-32-BE'' NO_BOM BIG F 4"

definition UTF_32_BE_BOM :: Encoding where "UTF_32_BE_BOM = enc_static ''UTF-32-BE-BOM'' BOM_UTF_32_BE BIG T 4"

definition UTF_32_LE :: Encoding where "UTF_32_LE = enc_static ''UTF-32-LE'' NO_BOM LITTLE F 4"

definition UTF_32_LE_BOM :: Encoding where "UTF_32_LE_BOM = enc_static ''UTF-32-LE-BOM'' BOM_UTF_32_LE LITTLE T 4"

lemmas encoding_consts = ASCII_def UTF_8_def UTF_8_BOM_def UTF_16_BE_def UTF_16_BE_BOM_def UTF_16_LE_def
  UTF_16_LE_BOM_def UTF_32_BE_def UTF_32_BE_BOM_def UTF_32_LE_def UTF_32_LE_BOM_def

section \<open>Byte order marks\<close>

definition check_bom :: "byte list \<Rightarrow> Encoding \<Rightarrow> bool \<times> Encoding" where
  "check_bom buffer encoding =
     (if length buffer \<ge> 4 then
        (True,
         if buffer ! 0 = 0x00 \<and> buffer ! 1 = 0x00 \<and> buffer ! 2 = 0xFE \<and> buffer ! 3 = 0xFF then UTF_32_BE_BOM
         else if buffer ! 0 = 0xFF \<and> buffer ! 1 = 0xFE \<and> buffer ! 2 = 0x00 \<and> buffer ! 3 = 0x00 then UTF_32_LE_BOM
         else encoding)
      else if length buffer \<ge> 3 then
        (True, if buffer ! 0 = 0xEF \<and> buffer ! 1 = 0xBB \<and> buffer ! 2 = 0xBF then UTF_8_BOM else encoding)
      else if length buffer \<ge> 2 then
        (True,
         if buffer ! 0 = 0xFE \<and> buffer ! 1 = 0xFF then UTF_16_BE_BOM
         else if buffer ! 0 = 0xFF \<and> buffer ! 1 = 0xFE then UTF_16_LE_BOM
         else encoding)
      else (False, encoding))"

definition s_encoding_to_encoding :: "string \<Rightarrow> Encoding outcome" where
  "s_encoding_to_encoding s_encoding =
     (if s_encoding = ''ASCII'' then Ret ASCII
      else if s_encoding = ''UTF-8'' then Ret UTF_8
      else if s_encoding = ''UTF-8-BOM'' then Ret UTF_8_BOM
      else if s_encoding = ''UTF-16-BE'' then Ret UTF_16_BE
      else if s_encoding = ''UTF-16-BE-BOM'' then Ret UTF_16_BE_BOM
      else if s_encoding = ''UTF-16-LE'' then Ret UTF_16_LE
      else if s_encoding = ''UTF-16-LE-BOM'' then Ret UTF_16_LE_BOM
      else if s_encoding = ''UTF-32-BE'' then Ret UTF_32_BE
      else if s_encoding = ''UTF-32-BE-BOM'' then Ret UTF_32_BE_BOM
      else if s_encoding = ''UTF-32-LE'' then Ret UTF_32_LE
      else if s_encoding = ''UTF-32-LE-BOM'' then Ret UTF_32_LE_BOM
      else Raise (Runtime_error (''Error: Unknown encoding '' @ s_encoding)))"

text \<open>
  A file as the detection sees it, and the answer of ICU's charset detector, which is one of four
  failures or a name.
\<close>

datatype file_view = No_such_file | Read_error | Content "byte list"

datatype ucsdet = Open_failed | Set_text_failed | Detect_failed | Name_failed | Detected string

definition MAX_BYTES :: nat where "MAX_BYTES = 10000"

definition detect_encoding :: "(byte list \<Rightarrow> ucsdet) \<Rightarrow> string \<Rightarrow> file_view \<Rightarrow> Encoding outcome" where
  "detect_encoding ucsdet_detect file_name file =
     (case file of
        No_such_file \<Rightarrow> Raise (Runtime_error (''Error: Could not open file '' @ file_name))
      | Read_error \<Rightarrow> Raise (Runtime_error (''Error: Could not read file '' @ file_name))
      | Content bytes \<Rightarrow>
          let buffer = take MAX_BYTES bytes @ replicate (MAX_BYTES - length bytes) 0;
              (detected, bom_encoding) = check_bom buffer Encoding_default
          in if detected then Ret bom_encoding
             else case ucsdet_detect buffer of
                 Open_failed \<Rightarrow> Raise (Runtime_error ''Error: Could not open ICU charset detector'')
               | Set_text_failed \<Rightarrow> Raise (Runtime_error ''Error: Could not set text for ICU charset detector'')
               | Detect_failed \<Rightarrow> Raise (Runtime_error ''Error: Could not detect charset'')
               | Name_failed \<Rightarrow> Raise (Runtime_error ''Error: Could not get detected charset name'')
               | Detected s_encoding \<Rightarrow> s_encoding_to_encoding s_encoding)"

section \<open>Whole texts\<close>

text \<open>
  The ICU operations on texts. A \<open>UnicodeString\<close> is the list of its UTF-16 code units, a \<open>UChar32\<close> an
  integer.
\<close>

record icu_text =
  fromUTF8 :: "string \<Rightarrow> 16 word list"
  toUTF8String :: "16 word list \<Rightarrow> string"
  char32At :: "16 word list \<Rightarrow> nat \<Rightarrow> int"
  U16_LENGTH :: "int \<Rightarrow> nat"
  append32 :: "16 word list \<Rightarrow> int \<Rightarrow> 16 word list"
  non_spacing_mark :: "int \<Rightarrow> bool"
  getNFDInstance :: bool
  ucnv_open_utf8 :: bool
  ucnv_toUChars :: "string \<Rightarrow> 16 word list option"
  nfd_normalize :: "16 word list \<Rightarrow> 16 word list option"

text \<open>\<open>to_utf8\<close> and \<open>to_unicode_string\<close> without \<open>WIDE_CHAR\<close>.\<close>

definition to_utf8 :: "string \<Rightarrow> string" where "to_utf8 s = s"

definition to_unicode_string :: "icu_text \<Rightarrow> string \<Rightarrow> 16 word list" where
  "to_unicode_string u s = fromUTF8 u (to_utf8 s)"

text \<open>The loop of \<open>to_codepoints\<close>, which does not end when \<open>U16_LENGTH\<close> is zero.\<close>

partial_function (option) codepoints_loop :: "icu_text \<Rightarrow> 16 word list \<Rightarrow> nat \<Rightarrow> int list \<Rightarrow> int list option" where
  "codepoints_loop u ustr i codepoints =
     (if i < length ustr then
        let c = char32At u ustr i in codepoints_loop u ustr (i + U16_LENGTH u c) (codepoints @ [c])
      else Some codepoints)"

definition to_codepoints :: "icu_text \<Rightarrow> string \<Rightarrow> int list option" where
  "to_codepoints u s = (let ustr = to_unicode_string u s in codepoints_loop u ustr 0 [])"

definition max_int32_t :: nat where "max_int32_t = 2 ^ 31 - 1"

text \<open>The loop of \<open>remove_accents\<close> over the normalised text.\<close>

definition strip_marks :: "icu_text \<Rightarrow> 16 word list \<Rightarrow> 16 word list" where
  "strip_marks u normalized =
     foldl (\<lambda>result i. let c = char32At u normalized i in
              if \<not> non_spacing_mark u c then append32 u result c else result) [] [0..<length normalized]"

definition remove_accents :: "icu_text \<Rightarrow> string \<Rightarrow> string outcome" where
  "remove_accents u s =
     (if \<not> getNFDInstance u then Raise (Runtime_error ''remove_accents: Failed to get NFD normalizer instance'')
      else if length s > max_int32_t then Raise (Runtime_error ''remove_accents: String is too long'')
      else if \<not> ucnv_open_utf8 u then Raise (Runtime_error ''remove_accents: Failed to open UTF-8 converter'')
      else case ucnv_toUChars u s of
        None \<Rightarrow> Raise (Runtime_error ''remove_accents: Failed to convert to UChars'')
      | Some uchars \<Rightarrow>
          (case nfd_normalize u uchars of
             None \<Rightarrow> Raise (Runtime_error ''remove_accents: Failed to normalize string'')
           | Some normalized \<Rightarrow> Ret (toUTF8String u (strip_marks u normalized))))"

section \<open>Names of the encodings\<close>

lemma find_NUL: "NUL \<notin> set n \<Longrightarrow> find_index (\<lambda>c. c = NUL) (n @ [NUL]) = Some (length n)"
  by (induction n) auto

lemma enc_static_name:
  assumes "NUL \<notin> set n" "length n < 20"
  shows "cs_str (enc_name (enc_static n b e h sz)) = n"
  using assms find_NUL [OF assms(1)]
  by (simp add: enc_static_def Encoding_of_def cs_of_cstr_def cs_copy_cstr_def cs_length_def cs_copy_def CS_def
      cs_str_def cs_fill_null_def cs_fill_def Let_def list_update_append upd_conv_take_nth_drop takeWhile_neq_append)

text \<open>
  \<open>s_encoding_to_encoding\<close> gives the encoding of that name, for exactly the eleven names of the
  constants, and raises for every other name.
\<close>

theorem encoding_of_name:
  "(case s_encoding_to_encoding s of
      Ret e \<Rightarrow> cs_str (enc_name e) = s
    | r \<Rightarrow> r = Raise (Runtime_error (''Error: Unknown encoding '' @ s))
        \<and> s \<notin> (\<lambda>e. cs_str (enc_name e)) ` {ASCII, UTF_8, UTF_8_BOM, UTF_16_BE, UTF_16_BE_BOM, UTF_16_LE,
            UTF_16_LE_BOM, UTF_32_BE, UTF_32_BE_BOM, UTF_32_LE, UTF_32_LE_BOM})"
  by (simp add: s_encoding_to_encoding_def encoding_consts enc_static_name NUL_def)

section \<open>Detection\<close>

lemma check_bom_long:
  assumes "4 \<le> length buffer"
  shows "check_bom buffer e =
     (True, if take 4 buffer = [0x00, 0x00, 0xFE, 0xFF] then UTF_32_BE_BOM
            else if take 4 buffer = [0xFF, 0xFE, 0x00, 0x00] then UTF_32_LE_BOM else e)"
proof -
  have "take 4 buffer = [buffer ! 0, buffer ! 1, buffer ! 2, buffer ! 3]"
    using assms by (intro nth_equalityI) (auto simp: less_Suc_eq numeral_eq_Suc)
  with assms show ?thesis by (simp add: check_bom_def)
qed

lemma list4_cases:
  obtains "xs = []" | a where "xs = [a]" | a b where "xs = [a, b]" | a b c where "xs = [a, b, c]"
  | a b c d r where "xs = a # b # c # d # r"
  by (metis list.exhaust)

lemma take_pad:
  "k \<le> m \<Longrightarrow> take k (take m xs @ replicate (m - length xs) z) = take k xs @ replicate (k - length xs) z"
  by (auto simp: min_def)

text \<open>
  For every file that can be read, the detection returns without asking ICU: the buffer always has
  ten thousand bytes, so the byte order mark test reports success. Only the two UTF-32 marks are ever
  recognised, on the content padded with zero bytes; every other file, with a UTF-8 or UTF-16 mark or
  none, gives the default encoding with an empty name. A file that is just the UTF-16 little-endian
  mark is taken for UTF-32.
\<close>

theorem detect_encoding_utf32_only:
  "detect_encoding ucsdet_detect name (Content bytes) =
     Ret (if prefix [0x00, 0x00, 0xFE, 0xFF] bytes then UTF_32_BE_BOM
          else if prefix [0xFF, 0xFE, 0x00, 0x00] (bytes @ [0, 0]) then UTF_32_LE_BOM
          else Encoding_default)"
proof -
  let ?buffer = "take MAX_BYTES bytes @ replicate (MAX_BYTES - length bytes) 0"
  have len: "4 \<le> length ?buffer" by (simp add: MAX_BYTES_def)
  have pad: "take 4 ?buffer = take 4 bytes @ replicate (4 - length bytes) 0"
    by (rule take_pad) (simp add: MAX_BYTES_def)
  have zeros: "replicate 4 (0 :: byte) = [0, 0, 0, 0]" "replicate 3 (0 :: byte) = [0, 0, 0]"
      "replicate 2 (0 :: byte) = [0, 0]" by (simp_all add: numeral_eq_Suc)
  have be: "take 4 ?buffer = [0x00, 0x00, 0xFE, 0xFF] \<longleftrightarrow> prefix [0x00, 0x00, 0xFE, 0xFF] bytes"
    unfolding pad by (cases bytes rule: list4_cases) (auto simp: zeros)
  have le: "take 4 ?buffer = [0xFF, 0xFE, 0x00, 0x00] \<longleftrightarrow> prefix [0xFF, 0xFE, 0x00, 0x00] (bytes @ [0, 0])"
    unfolding pad by (cases bytes rule: list4_cases) (auto simp: zeros)
  show ?thesis
    unfolding detect_encoding_def be [symmetric] le [symmetric] by (simp add: check_bom_long [OF len] Let_def)
qed

section \<open>Code points and accents\<close>

text \<open>
  What the code relies on of ICU, for an encoding \<open>utf16\<close> of a set of code points as code units: \<open>char32At\<close> at
  the first unit of a code point gives the code point, and \<open>U16_LENGTH\<close> is its number of units.
\<close>

definition utf16_access :: "icu_text \<Rightarrow> int set \<Rightarrow> (int \<Rightarrow> 16 word list) \<Rightarrow> bool" where
  "utf16_access u points utf16 \<longleftrightarrow>
     (\<forall>c\<in>points. utf16 c \<noteq> [] \<and> U16_LENGTH u c = length (utf16 c)
        \<and> (\<forall>before after. char32At u (before @ utf16 c @ after) (length before) = c))"

lemma codepoints_loop_decodes:
  assumes "utf16_access u points utf16" "set cs \<subseteq> points"
  shows "codepoints_loop u (before @ concat (map utf16 cs)) (length before) acc = Some (acc @ cs)"
  using assms(2)
proof (induction cs arbitrary: before acc)
  case Nil
  then show ?case by (subst codepoints_loop.simps) simp
next
  case (Cons c cs)
  let ?s = "before @ utf16 c @ concat (map utf16 cs)"
  have "char32At u ?s (length before) = c" "U16_LENGTH u c = length (utf16 c)" "utf16 c \<noteq> []"
    using assms(1) Cons.prems by (simp_all add: utf16_access_def)
  then have "codepoints_loop u ?s (length before) acc
      = codepoints_loop u ?s (length (before @ utf16 c)) (acc @ [c])"
    by (subst codepoints_loop.simps) simp
  with Cons.IH [of "before @ utf16 c" "acc @ [c]"] Cons.prems show ?case by simp
qed

text \<open>
  A concrete argument for the theorems: an ICU for the texts of code points below \<open>0x10000\<close> whose UTF-8
  form is one byte each.
\<close>

definition latin_icu :: icu_text where
  "latin_icu = \<lparr>fromUTF8 = map (\<lambda>c. word_of_nat (code c)),
     toUTF8String = map (\<lambda>w. char_of (unat w)),
     char32At = (\<lambda>s i. if i < length s then uint (s ! i) else 0),
     U16_LENGTH = (\<lambda>c. 1),
     append32 = (\<lambda>s c. s @ [word_of_int c]),
     non_spacing_mark = (\<lambda>c. 0x300 \<le> c \<and> c < 0x370),
     getNFDInstance = True, ucnv_open_utf8 = True,
     ucnv_toUChars = (\<lambda>s. Some (map (\<lambda>c. word_of_nat (code c)) s)),
     nfd_normalize = (\<lambda>s. Some (concat (map (\<lambda>w. if w = 0xE9 then [0x65, 0x301] else [w]) s)))\<rparr>"

text \<open>
  \<open>to_codepoints\<close> ends and returns the code points of the text, in order, when ICU decodes it from
  UTF-8 and gives access to UTF-16 code points as documented.
\<close>

theorem to_codepoints_decodes:
  assumes "utf16_access u points utf16" "set cs \<subseteq> points" "fromUTF8 u s = concat (map utf16 cs)"
  shows "to_codepoints u s = Some cs"
  using codepoints_loop_decodes [OF assms(1,2), of "[]" "[]"] assms(3)
  by (simp add: to_codepoints_def to_unicode_string_def to_utf8_def)

theorem to_codepoints_decodes_witness: "to_codepoints latin_icu ''ab'' = Some [97, 98]"
proof (rule to_codepoints_decodes)
  show "utf16_access latin_icu {0..<65536} (\<lambda>c. [word_of_int c])"
    by (auto simp: utf16_access_def latin_icu_def unsigned_of_int take_bit_int_eq_self)
  show "fromUTF8 latin_icu ''ab'' = concat (map (\<lambda>c. [word_of_int c]) [97, 98])" by code_simp
qed simp

text \<open>
  On a normalised text in which every code unit is a code point of its own, \<open>remove_accents\<close> returns
  the text without its non-spacing marks and nothing else is changed. A code point outside that range,
  a surrogate pair, is visited at both of its units and appended twice.
\<close>

theorem remove_accents_marks:
  assumes "getNFDInstance u" "ucnv_open_utf8 u" "length s \<le> max_int32_t"
    and "ucnv_toUChars u s = Some uchars" "nfd_normalize u uchars = Some normalized"
    and "\<forall>r c. 0 \<le> c \<and> c < 2 ^ 16 \<longrightarrow> append32 u r c = r @ [word_of_int c]"
  shows "((\<forall>i<length normalized. char32At u normalized i = uint (normalized ! i)) \<longrightarrow>
      remove_accents u s = Ret (toUTF8String u (filter (\<lambda>w. \<not> non_spacing_mark u (uint w)) normalized)))
    \<and> (\<forall>lead trail c. normalized = [lead, trail] \<and> char32At u normalized 0 = c \<and> char32At u normalized 1 = c
        \<and> \<not> non_spacing_mark u c \<longrightarrow>
      remove_accents u s = Ret (toUTF8String u (append32 u (append32 u [] c) c)))"
proof -
  have run: "remove_accents u s = Ret (toUTF8String u (strip_marks u normalized))"
    using assms(1-5) by (simp add: remove_accents_def)
  have "strip_marks u normalized = filter (\<lambda>w. \<not> non_spacing_mark u (uint w)) normalized"
    if bmp: "\<forall>i<length normalized. char32At u normalized i = uint (normalized ! i)"
  proof -
    have "foldl (\<lambda>result i. let c = char32At u normalized i in
              if \<not> non_spacing_mark u c then append32 u result c else result) [] [0..<k]
        = filter (\<lambda>w. \<not> non_spacing_mark u (uint w)) (take k normalized)" if "k \<le> length normalized" for k
      using that
    proof (induction k)
      case (Suc k)
      have "uint (normalized ! k) < 2 ^ LENGTH(16)" by (rule unsigned_less)
      with Suc bmp assms(6) show ?case by (simp add: take_Suc_conv_app_nth Let_def)
    qed simp
    from this [of "length normalized"] show ?thesis by (simp add: strip_marks_def)
  qed
  moreover have "strip_marks u normalized = append32 u (append32 u [] c) c"
    if "normalized = [lead, trail] \<and> char32At u normalized 0 = c \<and> char32At u normalized 1 = c
        \<and> \<not> non_spacing_mark u c" for lead trail c
    using that by (auto simp: strip_marks_def Let_def)
  ultimately show ?thesis using run by auto
qed

theorem remove_accents_marks_witness:
  "remove_accents latin_icu (''caf'' @ [CHR 0xE9]) = Ret ''cafe''"
proof -
  let ?u = latin_icu and ?s = "''caf'' @ [CHR 0xE9]" and ?n = "[0x63, 0x61, 0x66, 0x65, 0x301] :: 16 word list"
  have "ucnv_toUChars ?u ?s = Some [0x63, 0x61, 0x66, 0xE9]" by code_simp
  moreover have "nfd_normalize ?u [0x63, 0x61, 0x66, 0xE9] = Some ?n" by code_simp
  moreover have "\<forall>i<length ?n. char32At ?u ?n i = uint (?n ! i)" by (simp add: latin_icu_def)
  ultimately have "remove_accents ?u ?s = Ret (toUTF8String ?u (filter (\<lambda>w. \<not> non_spacing_mark ?u (uint w)) ?n))"
    using remove_accents_marks [of ?u ?s "[0x63, 0x61, 0x66, 0xE9]" ?n] by (simp add: latin_icu_def max_int32_t_def)
  moreover have "toUTF8String ?u (filter (\<lambda>w. \<not> non_spacing_mark ?u (uint w)) ?n) = ''cafe''" by code_simp
  ultimately show ?thesis by simp
qed

end
