(* ===== verification/Distance.thy ===== *)
theory Distance
  imports Sorted_List Encoding
begin

text \<open>
  The edit distance of distance.hpp and the searches built on it. The code keeps three rows of the
  dynamic-programming table and lets an adjacent transposition count as one edit. The specification is
  independent of the table: the least number of insertions, deletions, substitutions and swaps of
  adjacent characters that turns one text into the other, no character being edited twice. \<open>size_t\<close>
  arithmetic is on natural numbers here: the entries are at most the sum of two string lengths, far
  below \<open>2 ^ 64\<close>; the narrowing of a distance to \<open>int\<close> in the searches is kept.
\<close>

section \<open>The code\<close>

text \<open>The body of the inner loop: it writes \<open>row3[j]\<close>.\<close>

definition dist_cell :: "'a list \<Rightarrow> 'a list \<Rightarrow> nat list \<Rightarrow> nat list \<Rightarrow> nat \<Rightarrow> nat list \<Rightarrow> nat \<Rightarrow> nat list" where
  "dist_cell source target row1 row2 i row3 j =
     (let s_i = source ! (i - 1);
          t_j = target ! (j - 1);
          cost = (if s_i = t_j then 0 else 1);
          row3 = row3[j := min (min (row3 ! (j - 1) + 1) (row2 ! j + 1)) (row2 ! (j - 1) + cost)]
      in if i > 1 \<and> j > 1 \<and> s_i = target ! (j - 2) \<and> t_j = source ! (i - 2)
         then row3[j := min (row3 ! j) (row1 ! (j - 2) + 1)]
         else row3)"

text \<open>The body of the outer loop, with the rotation of the rows.\<close>

definition dist_row :: "'a list \<Rightarrow> 'a list \<Rightarrow> nat list \<times> nat list \<times> nat list \<Rightarrow> nat \<Rightarrow> nat list \<times> nat list \<times> nat list" where
  "dist_row source target rows i =
     (case rows of (row1, row2, row3) \<Rightarrow>
        let row3 = foldl (dist_cell source target row1 row2 i) (row3[0 := i]) [1..<length target + 1]
        in (row2, row3, row3))"

definition dist_table :: "'a list \<Rightarrow> 'a list \<Rightarrow> nat" where
  "dist_table source target =
     (let n = length source; m = length target in
      if n = 0 then m
      else if m = 0 then n
      else
        let row1 = replicate (m + 1) 0;
            row2 = [0..<m + 1];
            row3 = replicate (m + 1) 0;
            (row1, row2, row3) = foldl (dist_row source target) (row1, row2, row3) [1..<n + 1]
        in row2 ! m)"

definition distance :: "string \<Rightarrow> string \<Rightarrow> nat" where
  "distance source target = dist_table source target"

text \<open>\<open>icu_distance\<close> runs the same two loops on the code points of the texts.\<close>

definition icu_distance :: "icu_text \<Rightarrow> string \<Rightarrow> string \<Rightarrow> nat option" where
  "icu_distance u source target =
     (case (to_codepoints u source, to_codepoints u target) of
        (Some src, Some tgt) \<Rightarrow> Some (dist_table src tgt)
      | _ \<Rightarrow> None)"

text \<open>\<open>LessDistance\<close>: the texts ordered by their distance to a reference.\<close>

record LessDistance =
  reference :: string

definition LessDistance_call :: "LessDistance \<Rightarrow> string \<Rightarrow> string \<Rightarrow> bool" where
  "LessDistance_call ld left right \<longleftrightarrow> distance left (reference ld) < distance right (reference ld)"

text \<open>A \<open>size_t\<close> stored in an \<open>int\<close>.\<close>

definition int_of_size :: "nat \<Rightarrow> int" where
  "int_of_size n = sint (word_of_nat n :: 32 word)"

text \<open>The loop of \<open>min_distance\<close>; \<open>key\<close> is the text of an element.\<close>

fun min_loop :: "('a \<Rightarrow> string) \<Rightarrow> string \<Rightarrow> 'a list \<Rightarrow> 'a \<Rightarrow> int \<Rightarrow> 'a \<times> int" where
  "min_loop key s [] mn min_dist = (mn, min_dist)"
| "min_loop key s (x # xs) mn min_dist =
     (let dist = int_of_size (distance (key x) s) in
      if dist < min_dist then min_loop key s xs x dist else min_loop key s xs mn min_dist)"

definition min_distance :: "string \<Rightarrow> string list \<Rightarrow> string outcome" where
  "min_distance s c =
     (if length c = 0 then Raise (Invalid_argument ''c.size () = 0'')
      else let mn = c ! 0 in Ret (fst (min_loop id s c mn (int_of_size (distance mn s)))))"

text \<open>A \<open>std::map\<close> is the list of its pairs in key order; \<open>nope\<close> is a pair of two default values.\<close>

definition min_distance_map_key :: "string \<Rightarrow> (string \<times> string) list \<Rightarrow> int \<Rightarrow> (string \<times> string) outcome" where
  "min_distance_map_key s c max_distance =
     (if length c = 0 then Raise (Invalid_argument ''c.size () = 0'')
      else
        let minimum = c ! 0;
            (minimum, min_dist) = min_loop fst s c minimum (int_of_size (distance (fst minimum) s));
            nope = ([], [])
        in Ret (if min_dist \<le> max_distance then minimum else nope))"

text \<open>
  The overload with an output container. The loop that should fill the multiset runs over the multiset
  itself, which is empty: \<open>mset_fill\<close> inserts the elements of its first argument. Incrementing an
  iterator that is at the end is undefined.
\<close>

definition mset_fill :: "string list \<Rightarrow> LessDistance \<Rightarrow> string list \<Rightarrow> string list" where
  "mset_fill elements ld ms = foldl (\<lambda>m x. insort_key (\<lambda>y. distance y (reference ld)) x m) ms elements"

definition min_distance_out :: "string \<Rightarrow> string list \<Rightarrow> string list \<Rightarrow> nat \<Rightarrow> string list outcome" where
  "min_distance_out s c out max_elements =
     (if length c = 0 then Raise (Invalid_argument ''c.size () = 0'')
      else
        let ld = \<lparr>reference = s\<rparr>;
            ms = mset_fill [] ld []
        in if max_elements = 0 then Ret (out @ ms)
           else if length ms < max_elements then Undef
           else Ret (out @ take max_elements ms))"

section \<open>The specification\<close>

text \<open>\<open>edits s t k\<close>: \<open>k\<close> single edits, none of them overlapping, turn \<open>s\<close> into \<open>t\<close>.\<close>

inductive edits :: "'a list \<Rightarrow> 'a list \<Rightarrow> nat \<Rightarrow> bool" where
  stop: "edits [] [] 0"
| keep: "edits s t k \<Longrightarrow> edits (x # s) (x # t) k"
| subst: "edits s t k \<Longrightarrow> edits (x # s) (y # t) (Suc k)"
| delete: "edits s t k \<Longrightarrow> edits (x # s) t (Suc k)"
| add: "edits s t k \<Longrightarrow> edits s (y # t) (Suc k)"
| swap: "edits s t k \<Longrightarrow> edits (x # y # s) (y # x # t) (Suc k)"

text \<open>The recursive form of the least number of edits.\<close>

fun osa :: "'a list \<Rightarrow> 'a list \<Rightarrow> nat" where
  "osa [] t = length t"
| "osa (x # s) [] = Suc (length s)"
| "osa (x # s) (y # t) =
     (let d = min (min (osa (x # s) t + 1) (osa s (y # t) + 1)) (osa s t + (if x = y then 0 else 1))
      in case (s, t) of
           (x' # s', y' # t') \<Rightarrow> if x = y' \<and> y = x' then min d (osa s' t' + 1) else d
         | _ \<Rightarrow> d)"

lemma edits_insert_all: "edits [] t (length t)"
  by (induction t) (auto intro: edits.intros)

lemma edits_delete_all: "edits s [] (length s)"
  by (induction s) (auto intro: edits.intros)

declare osa.simps(3) [simp del]

text \<open>The step of the recursion: no option beats it, and it is one of the options.\<close>

lemma osa_step_le:
  "osa (x # s) (y # t) \<le> osa (x # s) t + 1"
  "osa (x # s) (y # t) \<le> osa s (y # t) + 1"
  "osa (x # s) (y # t) \<le> osa s t + (if x = y then 0 else 1)"
  by (auto simp: osa.simps(3) [of x s y t] Let_def split: list.split)

lemma osa_swap_le: "osa (x # y # s) (y # x # t) \<le> osa s t + 1"
  by (simp add: osa.simps(3) [of x "y # s" y "x # t"] Let_def)

lemma osa_two:
  "osa (x # x' # s) (y # y' # t) =
     (let d = min (min (osa (x # x' # s) (y' # t) + 1) (osa (x' # s) (y # y' # t) + 1))
                (osa (x' # s) (y' # t) + (if x = y then 0 else 1))
      in if x = y' \<and> y = x' then min d (osa s t + 1) else d)"
  by (subst osa.simps(3)) (simp add: Let_def)

lemma osa_edge:
  "s = [] \<or> t = [] \<Longrightarrow> osa (x # s) (y # t) =
     min (min (osa (x # s) t + 1) (osa s (y # t) + 1)) (osa s t + (if x = y then 0 else 1))"
  unfolding osa.simps(3) [of x s y t] Let_def by (auto split: list.split)

lemma osa_step_one:
  "osa (x # s) (y # t) = osa (x # s) t + 1
   \<or> osa (x # s) (y # t) = osa s (y # t) + 1
   \<or> osa (x # s) (y # t) = osa s t + (if x = y then 0 else 1)
   \<or> (\<exists>s' t'. s = y # s' \<and> t = x # t' \<and> osa (x # s) (y # t) = osa s' t' + 1)"
  unfolding osa.simps(3) [of x s y t] by (auto simp: Let_def min_def split: list.split)

lemma edits_osa: "edits s t (osa s t)"
proof (induction "length s + length t" arbitrary: s t rule: less_induct)
  case less
  show ?case
  proof (cases s; cases t)
    fix x s' y t' assume st: "s = x # s'" "t = y # t'"
    then have "edits (x # s') t' (osa (x # s') t')" "edits s' (y # t') (osa s' (y # t'))"
        "edits s' t' (osa s' t')"
        "edits (tl s') (tl t') (osa (tl s') (tl t'))"
      using less by auto
    then show ?thesis
      using osa_step_one [of x s' y t'] st by (auto intro: edits.intros split: if_splits)
  qed (use edits_insert_all [of t] edits_delete_all [of s] in auto)
qed

lemma osa_Nil2 [simp]: "osa s [] = length s"
  by (cases s) auto

lemma osa_delete_le: "osa (x # s) t \<le> Suc (osa s t)"
  by (cases t) (use osa_step_le(2) [of x s] in auto)

lemma osa_add_le: "osa s (y # t) \<le> Suc (osa s t)"
  by (cases s) (use osa_step_le(1) [of _ _ y t] in auto)

lemma osa_least: "edits s t k \<Longrightarrow> osa s t \<le> k"
proof (induction rule: edits.induct)
  case (keep s t k x)
  then show ?case using osa_step_le(3) [of x s x t] by simp
next
  case (subst s t k x y)
  then show ?case using osa_step_le(3) [of x s y t] by (simp split: if_splits)
next
  case (delete s t k x)
  then show ?case using osa_delete_le [of x s t] by simp
next
  case (add s t k y)
  then show ?case using osa_add_le [of s y t] by simp
next
  case (swap s t k x y)
  then show ?case using osa_swap_le [of x y s t] by simp
qed simp

text \<open>Scripts compose, reverse and run backwards.\<close>

lemma edits_append: "edits s t k \<Longrightarrow> edits s' t' k' \<Longrightarrow> edits (s @ s') (t @ t') (k + k')"
  by (induction rule: edits.induct) (auto intro: edits.intros)

lemma edits_rev: "edits s t k \<Longrightarrow> edits (rev s) (rev t) k"
proof (induction rule: edits.induct)
  case (keep s t k x)
  then show ?case using edits_append [of "rev s" "rev t" k "[x]" "[x]" 0] by (auto intro: edits.intros)
next
  case (subst s t k x y)
  then show ?case using edits_append [of "rev s" "rev t" k "[x]" "[y]" 1] by (auto intro: edits.intros)
next
  case (delete s t k x)
  then show ?case using edits_append [of "rev s" "rev t" k "[x]" "[]" 1] by (auto intro: edits.intros)
next
  case (add s t k y)
  then show ?case using edits_append [of "rev s" "rev t" k "[]" "[y]" 1] by (auto intro: edits.intros)
next
  case (swap s t k x y)
  then show ?case
    using edits_append [of "rev s" "rev t" k "[y, x]" "[x, y]" 1] by (auto intro: edits.intros)
qed (simp add: edits.stop)

lemma edits_sym: "edits s t k \<Longrightarrow> edits t s k"
  by (induction rule: edits.induct) (auto intro: edits.intros)

lemma edits_zero: "edits s t k \<Longrightarrow> k = 0 \<Longrightarrow> s = t"
  by (induction rule: edits.induct) auto

lemma edits_refl: "edits s s 0"
  by (induction s) (auto intro: edits.intros)

lemma edits_length: "edits s t k \<Longrightarrow> length s \<le> length t + k \<and> length t \<le> length s + k"
  by (induction rule: edits.induct) auto

lemma edits_subst_all: "length s = length t \<Longrightarrow> \<exists>k \<le> length s. edits s t k"
proof (induction s t rule: list_induct2)
  case (Cons x s y t)
  then show ?case by (force intro: edits.subst)
qed (auto intro: edits.stop)

lemma edits_max: "\<exists>k \<le> max (length s) (length t). edits s t k"
proof (cases "length s \<le> length t")
  case True
  then obtain k where "k \<le> length s" "edits s (take (length s) t) k"
    using edits_subst_all [of s "take (length s) t"] by auto
  then have "edits (s @ []) (take (length s) t @ drop (length s) t) (k + (length t - length s))"
    using edits_append edits_insert_all [of "drop (length s) t"] by fastforce
  then show ?thesis using \<open>k \<le> length s\<close> True by (intro exI [of _ "k + (length t - length s)"]) auto
next
  case False
  then obtain k where "k \<le> length t" "edits (take (length t) s) t k"
    using edits_subst_all [of "take (length t) s" t] by auto
  then have "edits (take (length t) s @ drop (length t) s) (t @ []) (k + (length s - length t))"
    using edits_append edits_delete_all [of "drop (length t) s"] by fastforce
  then show ?thesis using \<open>k \<le> length t\<close> False by (intro exI [of _ "k + (length s - length t)"]) auto
qed

lemma osa_rev: "osa (rev s) (rev t) = osa s t"
  by (metis edits_osa edits_rev le_antisym osa_least rev_rev_ident)

lemma osa_sym: "osa s t = osa t s"
  by (meson edits_osa edits_sym le_antisym osa_least)

section \<open>The table\<close>

text \<open>\<open>D i j\<close> of the textbook table, on the prefixes of length \<open>i\<close> and \<open>j\<close>.\<close>

definition osa_prefix :: "'a list \<Rightarrow> 'a list \<Rightarrow> nat \<Rightarrow> nat \<Rightarrow> nat" where
  "osa_prefix s t i j = osa (rev (take i s)) (rev (take j t))"

lemma rev_take_Suc: "i < length s \<Longrightarrow> rev (take (Suc i) s) = s ! i # rev (take i s)"
  by (simp add: take_Suc_conv_app_nth)

lemma osa_prefix_0 [simp]:
  "j \<le> length t \<Longrightarrow> osa_prefix s t 0 j = j"
  "i \<le> length s \<Longrightarrow> osa_prefix s t i 0 = i"
  by (auto simp: osa_prefix_def)

text \<open>The two cells of the recursion that the code distinguishes.\<close>

lemma osa_prefix_step:
  assumes "i < length s" "j < length t"
  defines "d \<equiv> min (min (osa_prefix s t (Suc i) j + 1) (osa_prefix s t i (Suc j) + 1))
      (osa_prefix s t i j + (if s ! i = t ! j then 0 else 1))"
  shows "osa_prefix s t (Suc i) (Suc j) =
    (if 0 < i \<and> 0 < j \<and> s ! i = t ! (j - 1) \<and> t ! j = s ! (i - 1)
     then min d (osa_prefix s t (i - 1) (j - 1) + 1) else d)"
proof (cases "0 < i \<and> 0 < j")
  case True
  then obtain i' j' where ij: "i = Suc i'" "j = Suc j'" by (metis gr0_implies_Suc)
  with assms have r: "rev (take i s) = s ! i' # rev (take i' s)" "rev (take j t) = t ! j' # rev (take j' t)"
    by (auto simp: rev_take_Suc)
  have i: "i - 1 = i'" "j - 1 = j'" using ij by auto
  show ?thesis
    unfolding d_def osa_prefix_def rev_take_Suc [OF assms(1)] rev_take_Suc [OF assms(2)] r i
    unfolding osa_two [of "s ! i" "s ! i'" _ "t ! j" "t ! j'"] Let_def using True by simp
next
  case False
  then have "rev (take i s) = [] \<or> rev (take j t) = []" by auto
  from osa_edge [OF this, of "s ! i" "t ! j"] have "osa_prefix s t (Suc i) (Suc j) = d"
    unfolding d_def osa_prefix_def rev_take_Suc [OF assms(1)] rev_take_Suc [OF assms(2)] .
  then show ?thesis using False by auto
qed

text \<open>\<open>row_is s t i row\<close>: the row holds the table entries of prefix \<open>i\<close>.\<close>

definition row_is :: "'a list \<Rightarrow> 'a list \<Rightarrow> nat \<Rightarrow> nat list \<Rightarrow> bool" where
  "row_is s t i row \<longleftrightarrow> length row = length t + 1 \<and> (\<forall>j\<le>length t. row ! j = osa_prefix s t i j)"

lemma dist_cell_length [simp]: "length (dist_cell s t row1 row2 i row3 j) = length row3"
  by (simp add: dist_cell_def Let_def)

lemma dist_cell_other: "j \<noteq> k \<Longrightarrow> dist_cell s t row1 row2 i row3 j ! k = row3 ! k"
  by (simp add: dist_cell_def Let_def)

lemma dist_cell_at:
  assumes "j < length row3"
  shows "dist_cell s t row1 row2 i row3 j ! j =
    (let d = min (min (row3 ! (j - 1) + 1) (row2 ! j + 1)) (row2 ! (j - 1) + (if s ! (i - 1) = t ! (j - 1) then 0 else 1))
     in if i > 1 \<and> j > 1 \<and> s ! (i - 1) = t ! (j - 2) \<and> t ! (j - 1) = s ! (i - 2)
        then min d (row1 ! (j - 2) + 1) else d)"
  unfolding dist_cell_def Let_def using assms by (simp only: nth_list_update_eq length_list_update split: if_split) blast

lemma dist_cell_here:
  assumes "row_is s t i row2" "0 < i \<Longrightarrow> row_is s t (i - 1) row1"
    and "length row3 = length t + 1" "row3 ! j = osa_prefix s t (Suc i) j"
    and "i < length s" "j < length t"
  shows "dist_cell s t row1 row2 (Suc i) row3 (Suc j) ! Suc j = osa_prefix s t (Suc i) (Suc j)"
proof -
  have rows: "row2 ! j = osa_prefix s t i j" "row2 ! Suc j = osa_prefix s t i (Suc j)"
    "0 < i \<Longrightarrow> row1 ! (j - 1) = osa_prefix s t (i - 1) (j - 1)"
    using assms by (auto simp: row_is_def)
  have "Suc j < length row3" using assms(3,6) by simp
  note cell = dist_cell_at [OF this, of s t row1 row2 "Suc i"]
  have arith: "Suc i - 1 = i" "Suc j - 1 = j" "Suc j - 2 = j - 1" "Suc i - 2 = i - 1"
    "(Suc i > 1) = (0 < i)" "(Suc j > 1) = (0 < j)" by auto
  show ?thesis
    unfolding cell osa_prefix_step [OF assms(5,6)] arith Let_def rows(1,2) assms(4)
    by (rule if_cong) (auto simp: rows(3) [simplified])
qed

lemma dist_cells:
  assumes "row_is s t i row2" "0 < i \<Longrightarrow> row_is s t (i - 1) row1"
    and "length row3 = length t + 1" "i < length s" "k \<le> length t"
  defines "row \<equiv> foldl (dist_cell s t row1 row2 (Suc i)) (row3[0 := Suc i]) [1..<k + 1]"
  shows "length row = length t + 1 \<and> (\<forall>j\<le>k. row ! j = osa_prefix s t (Suc i) j)"
  using assms(5) unfolding row_def
proof (induction k)
  case 0
  then show ?case using assms(3,4) by simp
next
  case (Suc k)
  let ?row = "foldl (dist_cell s t row1 row2 (Suc i)) (row3[0 := Suc i]) [1..<k + 1]"
  from Suc have IH: "length ?row = length t + 1" "\<forall>j\<le>k. ?row ! j = osa_prefix s t (Suc i) j" by auto
  have "dist_cell s t row1 row2 (Suc i) ?row (Suc k) ! Suc k = osa_prefix s t (Suc i) (Suc k)"
    by (rule dist_cell_here) (use assms(1,2,4) IH Suc.prems in auto)
  then show ?case using IH by (auto simp: le_Suc_eq dist_cell_other)
qed

lemma dist_row_step:
  "dist_row s t (row1, row2, row3) i =
     (row2, foldl (dist_cell s t row1 row2 i) (row3[0 := i]) [1..<length t + 1],
      foldl (dist_cell s t row1 row2 i) (row3[0 := i]) [1..<length t + 1])"
  by (simp add: dist_row_def Let_def del: upt_Suc)

lemma dist_rows:
  assumes "k \<le> length s"
  shows "case foldl (dist_row s t) (replicate (length t + 1) 0, [0..<length t + 1], replicate (length t + 1) 0) [1..<k + 1] of
      (row1, row2, row3) \<Rightarrow> row_is s t k row2 \<and> (0 < k \<longrightarrow> row_is s t (k - 1) row1) \<and> length row3 = length t + 1"
  using assms
proof (induction k)
  case 0
  then show ?case by (simp add: row_is_def del: upt_Suc)
next
  case (Suc k)
  obtain row1 row2 row3 where rows:
    "foldl (dist_row s t) (replicate (length t + 1) 0, [0..<length t + 1], replicate (length t + 1) 0) [1..<k + 1]
       = (row1, row2, row3)" by (cases rule: prod_cases3)
  with Suc have IH: "row_is s t k row2" "0 < k \<Longrightarrow> row_is s t (k - 1) row1" "length row3 = length t + 1" by auto
  have "row_is s t (Suc k) (foldl (dist_cell s t row1 row2 (Suc k)) (row3[0 := Suc k]) [1..<length t + 1])"
    using dist_cells [OF IH(1,2,3), of "length t"] Suc.prems by (auto simp: row_is_def)
  moreover have "[1..<Suc k + 1] = [1..<k + 1] @ [Suc k]" by simp
  ultimately show ?case
    using rows IH(1) by (simp add: dist_row_step row_is_def del: upt_Suc)
qed

lemma dist_table_osa: "dist_table s t = osa s t"
proof (cases "s = [] \<or> t = []")
  case True
  then show ?thesis by (auto simp: dist_table_def Let_def)
next
  case False
  obtain row1 row2 row3 where rows:
    "foldl (dist_row s t) (replicate (length t + 1) 0, [0..<length t + 1], replicate (length t + 1) 0) [1..<length s + 1]
       = (row1, row2, row3)" by (cases rule: prod_cases3)
  then have "row2 ! length t = osa_prefix s t (length s) (length t)"
    using dist_rows [of "length s" s t] by (simp add: row_is_def)
  then have "dist_table s t = osa_prefix s t (length s) (length t)"
    using False rows by (simp add: dist_table_def)
  then show ?thesis by (simp add: osa_prefix_def osa_rev)
qed

lemma distance_osa: "distance s t = osa s t"
  by (simp add: distance_def dist_table_osa)

lemma distance_le_max: "distance s t \<le> max (length s) (length t)"
  unfolding distance_osa using edits_max [of s t] osa_least by (meson le_trans)

lemma distance_small: "length s < n \<Longrightarrow> length t < n \<Longrightarrow> distance s t < n"
  using distance_le_max [of s t] by simp

text \<open>
  C1: The three-row table computes the optimal string alignment distance: the value returned is the
  cost of a script of non-overlapping insertions, deletions, substitutions and adjacent swaps, and no
  script is cheaper. \<open>icu_distance\<close> is the same distance between the sequences of code points.
\<close>

theorem distance_is_least_script:
  "edits s t (distance s t) \<and> distance s t = (LEAST k. edits s t k)
   \<and> icu_distance u s t = (case (to_codepoints u s, to_codepoints u t) of
       (Some src, Some tgt) \<Rightarrow> Some (LEAST k. edits src tgt k) | _ \<Rightarrow> None)"
proof -
  have least: "osa x y = (LEAST k. edits x y k)" for x y :: "'b list"
    by (metis edits_osa osa_least Least_equality)
  show ?thesis
    using edits_osa [of s t] by (simp add: distance_osa least icu_distance_def dist_table_osa split: option.split)
qed

text \<open>
  C25: The distance is symmetric, is zero exactly for equal texts, and lies between the difference of
  the lengths and the greater length. It is not a metric: with an adjacent swap as one edit the
  triangle inequality fails.
\<close>

theorem distance_laws:
  "distance s t = distance t s
   \<and> (distance s t = 0 \<longleftrightarrow> s = t)
   \<and> distance s t \<le> max (length s) (length t)
   \<and> length s \<le> length t + distance s t
   \<and> distance ''CA'' ''ABC'' > distance ''CA'' ''AC'' + distance ''AC'' ''ABC''"
proof (intro conjI)
  show "distance s t = distance t s" by (simp add: distance_osa osa_sym)
  show "distance s t = 0 \<longleftrightarrow> s = t"
    unfolding distance_osa using edits_zero [OF edits_osa] osa_least [OF edits_refl] by force
  show "distance s t \<le> max (length s) (length t)" by (rule distance_le_max)
  show "length s \<le> length t + distance s t"
    unfolding distance_osa using edits_length [OF edits_osa] by blast
  show "distance ''CA'' ''ABC'' > distance ''CA'' ''AC'' + distance ''AC'' ''ABC''"
    by code_simp
qed

section \<open>Searching the nearest text\<close>

text \<open>\<open>LessDistance\<close> is a strict weak order, so it may order a \<open>SortedList\<close> or a \<open>std::multiset\<close>.\<close>

interpretation less_distance: strict_weak_order "LessDistance_call ld" for ld
  by unfold_locales (auto simp: LessDistance_call_def)

lemma int_of_size_small: "n < 2 ^ 31 \<Longrightarrow> int_of_size n = int n"
  unfolding int_of_size_def signed_of_nat by (simp add: signed_take_bit_int_eq_self)

text \<open>\<open>first_nearest key s xs y\<close>: \<open>y\<close> is the first element of \<open>xs\<close> at the least distance from \<open>s\<close>.\<close>

definition first_nearest :: "('a \<Rightarrow> string) \<Rightarrow> string \<Rightarrow> 'a list \<Rightarrow> 'a \<Rightarrow> bool" where
  "first_nearest key s xs y \<longleftrightarrow> (\<exists>us vs. xs = us @ y # vs
     \<and> (\<forall>u\<in>set us. distance (key y) s < distance (key u) s)
     \<and> (\<forall>v\<in>set vs. distance (key y) s \<le> distance (key v) s))"

lemma first_nearest_mem: "first_nearest key s xs y \<Longrightarrow> y \<in> set xs"
  by (auto simp: first_nearest_def)

lemma first_nearest_le: "first_nearest key s xs y \<Longrightarrow> x \<in> set xs \<Longrightarrow> distance (key y) s \<le> distance (key x) s"
  by (fastforce simp: first_nearest_def)

lemma first_nearest_better:
  assumes "first_nearest key s (x # xs) y" "distance (key x) s < distance (key m) s"
  shows "first_nearest key s (m # x # xs) y"
proof -
  obtain us vs where "x # xs = us @ y # vs" "\<forall>u\<in>set us. distance (key y) s < distance (key u) s"
      "\<forall>v\<in>set vs. distance (key y) s \<le> distance (key v) s"
    using assms(1) by (auto simp: first_nearest_def)
  moreover have "distance (key y) s < distance (key m) s"
    using first_nearest_le [OF assms(1), of x] assms(2) by simp
  ultimately show ?thesis
    unfolding first_nearest_def by (intro exI [of _ "m # us"] exI [of _ vs]) auto
qed

lemma first_nearest_skip:
  assumes "first_nearest key s (m # xs) y" "\<not> distance (key x) s < distance (key m) s"
  shows "first_nearest key s (m # x # xs) y"
proof -
  obtain us vs where split: "m # xs = us @ y # vs" "\<forall>u\<in>set us. distance (key y) s < distance (key u) s"
      "\<forall>v\<in>set vs. distance (key y) s \<le> distance (key v) s"
    using assms(1) by (auto simp: first_nearest_def)
  show ?thesis
  proof (cases us)
    case Nil
    with split assms(2) show ?thesis
      unfolding first_nearest_def by (intro exI [of _ "[]"] exI [of _ "x # vs"]) auto
  next
    case (Cons m' us')
    with split assms(2) show ?thesis
      unfolding first_nearest_def by (intro exI [of _ "m # x # us'"] exI [of _ vs]) auto
  qed
qed

lemma min_loop_nearest:
  assumes "\<forall>y\<in>set (mn # xs). distance (key y) s < 2 ^ 31"
  shows "\<exists>y. min_loop key s xs mn (int (distance (key mn) s)) = (y, int (distance (key y) s))
    \<and> first_nearest key s (mn # xs) y"
  using assms
proof (induction xs arbitrary: mn)
  case Nil
  have "first_nearest key s [mn] mn" unfolding first_nearest_def by (rule exI [of _ "[]"]) simp
  then show ?case by simp
next
  case (Cons x xs)
  have small: "int_of_size (distance (key x) s) = int (distance (key x) s)"
    using Cons.prems by (intro int_of_size_small) auto
  show ?case
  proof (cases "distance (key x) s < distance (key mn) s")
    case True
    with small Cons.IH [of x] Cons.prems show ?thesis by (auto intro: first_nearest_better)
  next
    case False
    with small Cons.IH [of mn] Cons.prems show ?thesis by (auto intro: first_nearest_skip)
  qed
qed

text \<open>The loop of the searches starts at the first element with itself as the candidate.\<close>

lemma min_loop_start:
  assumes "c \<noteq> []" "\<forall>y\<in>set c. distance (key y) s < 2 ^ 31"
  shows "\<exists>y. min_loop key s c (c ! 0) (int_of_size (distance (key (c ! 0)) s)) = (y, int (distance (key y) s))
    \<and> first_nearest key s c y"
proof -
  obtain x xs where c: "c = x # xs" using assms(1) by (cases c) auto
  with assms(2) have "int_of_size (distance (key x) s) = int (distance (key x) s)"
    by (intro int_of_size_small) auto
  with c min_loop_nearest [of x xs key s] assms(2) show ?thesis by simp
qed

text \<open>
  \<open>min_distance\<close> returns the first of the texts nearest to \<open>s\<close>, for every container that is not
  empty and whose distances fit an \<open>int\<close>; an empty container is an invalid argument.
\<close>

theorem min_distance_nearest:
  "(\<forall>y\<in>set c. distance y s < 2 ^ 31) \<Longrightarrow>
   (case min_distance s c of
      Ret y \<Rightarrow> first_nearest id s c y
    | r \<Rightarrow> c = [] \<and> r = Raise (Invalid_argument ''c.size () = 0''))"
  using min_loop_start [of c id s] by (cases "c = []") (auto simp: min_distance_def Let_def)

theorem min_distance_nearest_witness:
  "first_nearest id ''abd'' [''xyz'', ''abc'', ''abe''] ''abc''"
proof -
  have "\<forall>y\<in>set [''xyz'', ''abc'', ''abe'']. distance y ''abd'' < 2 ^ 31"
    by (simp add: distance_small)
  note min_distance_nearest [OF this]
  moreover have "min_distance ''abd'' [''xyz'', ''abc'', ''abe''] = Ret ''abc''" by code_simp
  ultimately show ?thesis by simp
qed

text \<open>
  \<open>min_distance_map_key\<close> returns the entry whose key is the first nearest one when that key is at
  most \<open>max_distance\<close> away, and a pair of empty texts otherwise.
\<close>

theorem min_distance_map_key_nearest:
  "c \<noteq> [] \<Longrightarrow> (\<forall>p\<in>set c. distance (fst p) s < 2 ^ 31) \<Longrightarrow>
   \<exists>p. first_nearest fst s c p \<and>
     min_distance_map_key s c max_distance =
       Ret (if int (distance (fst p) s) \<le> max_distance then p else ([], []))"
proof -
  assume "c \<noteq> []" "\<forall>p\<in>set c. distance (fst p) s < 2 ^ 31"
  then obtain y where "first_nearest fst s c y"
      "min_loop fst s c (c ! 0) (int_of_size (distance (fst (c ! 0)) s)) = (y, int (distance (fst y) s))"
    using min_loop_start [of c fst s] by blast
  then show ?thesis using \<open>c \<noteq> []\<close> by (intro exI [of _ y]) (simp add: min_distance_map_key_def Let_def)
qed

theorem min_distance_map_key_nearest_witness:
  "\<exists>p. first_nearest fst ''ab'' [(''abc'', ''1''), (''zzz'', ''2'')] p \<and>
     min_distance_map_key ''ab'' [(''abc'', ''1''), (''zzz'', ''2'')] 1 =
       Ret (if int (distance (fst p) ''ab'') \<le> 1 then p else ([], []))"
  by (rule min_distance_map_key_nearest) (simp_all add: distance_small)

text \<open>
  The overload with an output container never reads \<open>c\<close>: it copies nothing, and with a limit it
  advances an iterator past the end of an empty multiset.
\<close>

lemma min_distance_out_ignores_input:
  "c \<noteq> [] \<Longrightarrow> min_distance_out s c out max_elements = (if max_elements = 0 then Ret out else Undef)"
  by (simp add: min_distance_out_def mset_fill_def)

end
