(* ===== verification/Byte_Order.thy ===== *)
theory Byte_Order
  imports Bytes
begin

text \<open>
  byte\_order.hpp: the description of a memory layout (\<open>ByteOrder\<close>) and the in-place conversion of a
  buffer of equally sized items between two layouts. An access outside the span is undefined. The bound
  \<open>e\<close> of the outer loop is a \<open>size_t\<close> difference, which wraps when the buffer is smaller than an item.
\<close>

section \<open>The class\<close>

datatype Invariance = DATA_INVARIANCE | ADDRESS_INVARIANCE

record ByteOrder =
  mendian :: std_endian
  minvariance :: Invariance
  maddress_size :: int

definition ByteOrder_of :: "std_endian \<Rightarrow> Invariance \<Rightarrow> int \<Rightarrow> ByteOrder" where
  "ByteOrder_of endian invariance address_size =
     \<lparr>mendian = endian, minvariance = invariance, maddress_size = address_size\<rparr>"

definition is_address_invariant :: "ByteOrder \<Rightarrow> bool" where
  "is_address_invariant b \<longleftrightarrow> minvariance b = ADDRESS_INVARIANCE"

definition is_data_invariant :: "ByteOrder \<Rightarrow> bool" where
  "is_data_invariant b \<longleftrightarrow> minvariance b = DATA_INVARIANCE"

definition is_little_endian :: "ByteOrder \<Rightarrow> bool" where "is_little_endian b \<longleftrightarrow> mendian b = little"

definition is_big_endian :: "ByteOrder \<Rightarrow> bool" where "is_big_endian b \<longleftrightarrow> mendian b = big"

definition is_native_endian :: "std_endian \<Rightarrow> ByteOrder \<Rightarrow> bool" where
  "is_native_endian native b \<longleftrightarrow> mendian b = native"

definition equals_invariance :: "ByteOrder \<Rightarrow> ByteOrder \<Rightarrow> bool" where
  "equals_invariance b other \<longleftrightarrow> minvariance b = minvariance other"

definition equals_endian :: "ByteOrder \<Rightarrow> ByteOrder \<Rightarrow> bool" where
  "equals_endian b other \<longleftrightarrow> mendian b = mendian other"

definition equals_address_size :: "ByteOrder \<Rightarrow> ByteOrder \<Rightarrow> bool" where
  "equals_address_size b other \<longleftrightarrow> maddress_size b = maddress_size other"

definition only_endian_differs :: "ByteOrder \<Rightarrow> ByteOrder \<Rightarrow> bool" where
  "only_endian_differs b other \<longleftrightarrow>
     \<not> equals_endian b other \<and> (equals_invariance b other \<and> equals_address_size b other)"

definition byte_order_equals :: "ByteOrder \<Rightarrow> ByteOrder \<Rightarrow> bool" where
  "byte_order_equals b other \<longleftrightarrow>
     equals_invariance b other \<and> equals_endian b other \<and> equals_address_size b other"

definition little_address_8_byte_order :: ByteOrder where
  "little_address_8_byte_order = ByteOrder_of little ADDRESS_INVARIANCE 8"

definition big_address_8_byte_order :: ByteOrder where
  "big_address_8_byte_order = ByteOrder_of big ADDRESS_INVARIANCE 8"

definition native_byte_order :: "std_endian \<Rightarrow> ByteOrder" where
  "native_byte_order native = ByteOrder_of native ADDRESS_INVARIANCE 8"

section \<open>Conversion of a buffer\<close>

definition swap_at :: "byte list \<Rightarrow> nat \<Rightarrow> nat \<Rightarrow> byte list outcome" where
  "swap_at data a b =
     (if a < length data \<and> b < length data then Ret (data[a := data ! b, b := data ! a]) else Undef)"

text \<open>The inner loop, from \<open>j\<close> up to \<open>x\<close>.\<close>

fun convert_inner :: "nat \<Rightarrow> nat \<Rightarrow> nat list \<Rightarrow> byte list \<Rightarrow> byte list outcome" where
  "convert_inner i sz [] data = Ret data"
| "convert_inner i sz (j # js) data =
     bind_outcome (swap_at data (i + j) (i + sz - 1 - j)) (convert_inner i sz js)"

lemma swap_at_length: "swap_at data a b = Ret d \<Longrightarrow> length d = length data"
  by (auto simp: swap_at_def split: if_splits)

lemma convert_inner_length: "convert_inner i sz js data = Ret d \<Longrightarrow> length d = length data"
  by (induction js arbitrary: data) (fastforce simp: outcome_simps dest: swap_at_length)+

lemma convert_inner_bound:
  "convert_inner i sz [0..<sz div 2] data = Ret d \<Longrightarrow> 1 < sz \<Longrightarrow> i + sz \<le> length data"
proof -
  assume ret: "convert_inner i sz [0..<sz div 2] data = Ret d" and sz: "1 < sz"
  then have "[0..<sz div 2] = 0 # [1..<sz div 2]" by (simp add: upt_conv_Cons)
  with ret sz show ?thesis by (auto simp: outcome_simps swap_at_def split: if_splits)
qed

lemma convert_inner_less:
  "convert_inner i sz [0..<sz div 2] data = Ret d \<Longrightarrow> \<not> sz \<le> 1 \<Longrightarrow> length d - (i + sz) < length data - i"
  using convert_inner_length [of i sz "[0..<sz div 2]" data d] convert_inner_bound [of i sz data d] by simp

text \<open>The outer loop.\<close>

function convert_outer :: "nat \<Rightarrow> nat \<Rightarrow> nat \<Rightarrow> byte list \<Rightarrow> byte list outcome" where
  "convert_outer i e sz data =
     (if e < i \<or> sz \<le> 1 then Ret data
      else case convert_inner i sz [0..<sz div 2] data of
        Ret d \<Rightarrow> convert_outer (i + sz) e sz d
      | r \<Rightarrow> r)"
  by pat_completeness auto
termination
  by (relation "measure (\<lambda>(i, e, sz, data). length data - i)") (auto dest: convert_inner_less)

declare convert_outer.simps [simp del]

definition convert :: "byte list \<Rightarrow> nat \<Rightarrow> ByteOrder \<Rightarrow> ByteOrder \<Rightarrow> byte list outcome" where
  "convert data original_data_size from to =
     (if \<not> byte_order_equals from to \<and> length data > 1 \<and> only_endian_differs from to \<and> original_data_size > 1
      then
        let e = (if original_data_size \<le> length data then length data - original_data_size
                 else length data + size_max - original_data_size)
        in convert_outer 0 e original_data_size data
      else Ret data)"

text \<open>The overload with two buffers has an empty body: the target is left as it is.\<close>

definition convert_to :: "byte list \<Rightarrow> byte list \<Rightarrow> ByteOrder \<Rightarrow> ByteOrder \<Rightarrow> byte list outcome" where
  "convert_to from_data to_data from to = Ret to_data"

section \<open>Every item reversed\<close>

text \<open>The specification: reverse every complete item, leave an incomplete last one alone.\<close>

function rev_items :: "nat \<Rightarrow> 'a list \<Rightarrow> 'a list" where
  "rev_items n xs = (if n = 0 \<or> length xs < n then xs else rev (take n xs) @ rev_items n (drop n xs))"
  by pat_completeness auto
termination
  by (relation "measure (\<lambda>(n, xs). length xs)") auto

declare rev_items.simps [simp del]

lemma length_rev_items [simp]: "length (rev_items n xs) = length xs"
  by (induction n xs rule: rev_items.induct) (subst rev_items.simps, auto)

lemma rev_items_append: "0 < n \<Longrightarrow> length ys = n \<Longrightarrow> rev_items n (ys @ zs) = rev ys @ rev_items n zs"
  by (subst rev_items.simps) simp

lemma rev_items_short: "length xs < n \<Longrightarrow> rev_items n xs = xs"
  by (subst rev_items.simps) simp

lemma rev_items_rev_items: "rev_items n (rev_items n xs) = xs"
proof (induction n xs rule: rev_items.induct)
  case (1 n xs)
  show ?case
  proof (cases "n = 0 \<or> length xs < n")
    case True
    then have "rev_items n xs = xs" by (subst rev_items.simps) simp
    then show ?thesis by simp
  next
    case False
    then have step: "rev_items n xs = rev (take n xs) @ rev_items n (drop n xs)"
      by (subst rev_items.simps) simp
    with 1 False rev_items_append [of n "rev (take n xs)"] show ?thesis by (simp add: step)
  qed
qed

text \<open>The inner loop after \<open>k\<close> swaps has exchanged the outer \<open>k\<close> positions of the item.\<close>

lemma convert_inner_append:
  "convert_inner i sz (js @ ks) data = bind_outcome (convert_inner i sz js data) (convert_inner i sz ks)"
proof (induction js arbitrary: data)
  case (Cons j js)
  then show ?case by (cases "swap_at data (i + j) (i + sz - 1 - j)") auto
qed simp

lemma convert_inner_swaps:
  assumes "i + sz \<le> length data" "k \<le> sz div 2"
  shows "\<exists>d. convert_inner i sz [0..<k] data = Ret d \<and> length d = length data
    \<and> (\<forall>p<length data. d ! p =
        (if i \<le> p \<and> p < i + k \<or> i + sz \<le> p + k \<and> p < i + sz then data ! (i + (i + sz - 1 - p)) else data ! p))"
  using assms(2)
proof (induction k)
  case 0
  then show ?case by auto
next
  case (Suc k)
  then obtain d where d: "convert_inner i sz [0..<k] data = Ret d" "length d = length data"
      "\<forall>p<length data. d ! p =
        (if i \<le> p \<and> p < i + k \<or> i + sz \<le> p + k \<and> p < i + sz then data ! (i + (i + sz - 1 - p)) else data ! p)"
    by auto
  let ?a = "i + k" and ?b = "i + sz - 1 - k"
  have ab: "?a < length data" "?b < length data" "?a < ?b" using assms(1) Suc.prems by linarith+
  have "d ! ?a = data ! ?a" "d ! ?b = data ! ?b" using d(3) ab Suc.prems by auto
  moreover have "convert_inner i sz [0..<Suc k] data = Ret (d[?a := d ! ?b, ?b := d ! ?a])"
    using d(1,2) ab by (simp add: convert_inner_append swap_at_def)
  moreover have "data ! (i + (i + sz - 1 - ?a)) = data ! ?b" "data ! (i + (i + sz - 1 - ?b)) = data ! ?a"
    using Suc.prems by (auto intro: arg_cong [of _ _ "(!) data"])
  ultimately show ?case
    using d(2,3) ab by (auto simp: nth_list_update)
qed

lemma convert_inner_item:
  assumes "i + sz \<le> length data"
  shows "convert_inner i sz [0..<sz div 2] data =
    Ret (take i data @ rev (take sz (drop i data)) @ drop (i + sz) data)"
proof -
  obtain d where d: "convert_inner i sz [0..<sz div 2] data = Ret d" "length d = length data"
      "\<forall>p<length data. d ! p =
        (if i \<le> p \<and> p < i + sz div 2 \<or> i + sz \<le> p + sz div 2 \<and> p < i + sz
         then data ! (i + (i + sz - 1 - p)) else data ! p)"
    using convert_inner_swaps [OF assms order_refl] by auto
  have "d = take i data @ rev (take sz (drop i data)) @ drop (i + sz) data" (is "d = ?r")
  proof (rule nth_equalityI)
    show len: "length d = length ?r" using d(2) assms by simp
    fix p assume "p < length d"
    then have p: "p < length data" using d(2) by simp
    consider "p < i" | "i \<le> p" "p < i + sz" | "i + sz \<le> p" by linarith
    then show "d ! p = ?r ! p"
    proof cases
      case 1
      then have "\<not> i + sz \<le> p + sz div 2" by linarith
      with 1 d(3) p assms show ?thesis by (simp add: nth_append)
    next
      case 2
      then have r: "?r ! p = data ! (i + (i + sz - 1 - p))"
        using assms by (auto simp: nth_append rev_nth add.commute)
      show ?thesis
      proof (cases "p < i + sz div 2 \<or> i + sz \<le> p + sz div 2")
        case True
        with d(3) p 2 r show ?thesis by auto
      next
        case False
        then have "i + (i + sz - 1 - p) = p" using 2 by linarith
        with False d(3) p r show ?thesis by simp
      qed
    next
      case 3
      then have "\<not> p < i + sz div 2" "\<not> p - i < sz" by linarith+
      with 3 d(3) p assms show ?thesis by (simp add: nth_append)
    qed
  qed
  with d(1) show ?thesis by simp
qed

lemma convert_outer_items:
  assumes "1 < sz" "sz \<le> length data" "i \<le> length data"
  shows "convert_outer i (length data - sz) sz data = Ret (take i data @ rev_items sz (drop i data))"
  using assms
proof (induction i "length data - sz" sz data rule: convert_outer.induct)
  case (1 i sz data)
  show ?case
  proof (cases "length data - sz < i")
    case True
    then have "rev_items sz (drop i data) = drop i data" using 1 by (intro rev_items_short) auto
    with True show ?thesis by (subst convert_outer.simps) simp
  next
    case False
    let ?d = "take i data @ rev (take sz (drop i data)) @ drop (i + sz) data"
    have len: "i + sz \<le> length data" using False 1 by linarith
    note item = convert_inner_item [OF len]
    have "convert_outer (i + sz) (length ?d - sz) sz ?d = Ret (take (i + sz) ?d @ rev_items sz (drop (i + sz) ?d))"
      using 1 item False len by simp
    moreover have "rev_items sz (drop i data) = rev (take sz (drop i data)) @ rev_items sz (drop (i + sz) data)"
      using rev_items_append [of sz "take sz (drop i data)" "drop sz (drop i data)"] len \<open>1 < sz\<close>
      by (simp add: add.commute del: drop_drop) (simp add: add.commute)
    moreover have "length ?d = length data" using len by simp
    ultimately show ?thesis
      using False item len \<open>1 < sz\<close> by (subst convert_outer.simps) simp
  qed
qed

text \<open>
  C9: Converting a buffer of whole items between layouts that differ only in byte order reverses the
  bytes of every item, and converting back restores the buffer; between any other layouts, or for
  single bytes, the buffer is unchanged. A buffer shorter than one item, but not empty or a single
  byte, makes the loop bound wrap and the conversion run out of the buffer.
\<close>

theorem convert_behaviour:
  "(only_endian_differs from to \<and> 1 < sz \<and> sz \<le> length data \<longrightarrow>
      convert data sz from to = Ret (rev_items sz data)
      \<and> bind_outcome (convert data sz from to) (\<lambda>d. convert d sz to from) = Ret data)
   \<and> (only_endian_differs from to \<and> 1 < length data \<and> length data < sz \<longrightarrow> convert data sz from to = Undef)
   \<and> (\<not> only_endian_differs from to \<or> sz \<le> 1 \<or> length data \<le> 1 \<longrightarrow> convert data sz from to = Ret data)"
proof (intro conjI impI)
  have differ: "only_endian_differs from to \<Longrightarrow> \<not> byte_order_equals from to \<and> \<not> byte_order_equals to from \<and> only_endian_differs to from"
    for "from" "to" by (auto simp: only_endian_differs_def byte_order_equals_def equals_endian_def
        equals_invariance_def equals_address_size_def)
  {
    fix data :: "byte list" and "from" "to"
    assume "only_endian_differs from to \<and> 1 < sz \<and> sz \<le> length data"
    then have "convert data sz from to = Ret (rev_items sz data)"
      using convert_outer_items [of sz data 0] differ by (simp add: convert_def)
  } note item = this
  assume whole: "only_endian_differs from to \<and> 1 < sz \<and> sz \<le> length data"
  then show "convert data sz from to = Ret (rev_items sz data)" by (rule item)
  have "convert (rev_items sz data) sz to from = Ret data"
    using item [of to "from" "rev_items sz data"] whole differ by (simp add: rev_items_rev_items)
  with item [OF whole] show "bind_outcome (convert data sz from to) (\<lambda>d. convert d sz to from) = Ret data" by simp
next
  assume short: "only_endian_differs from to \<and> 1 < length data \<and> length data < sz"
  then have "[0..<sz div 2] = 0 # [1..<sz div 2]" by (simp add: upt_conv_Cons)
  moreover have "\<not> sz - 1 < length data" using short by linarith
  ultimately have "convert_inner 0 sz [0..<sz div 2] data = Undef" by (simp add: swap_at_def)
  then have "convert_outer 0 e sz data = Undef" for e
    using short by (subst convert_outer.simps) simp
  with short show "convert data sz from to = Undef"
    by (auto simp: convert_def only_endian_differs_def byte_order_equals_def)
next
  assume "\<not> only_endian_differs from to \<or> sz \<le> 1 \<or> length data \<le> 1"
  then show "convert data sz from to = Ret data" by (auto simp: convert_def)
qed

theorem convert_behaviour_witness:
  "convert [1, 2, 3, 4, 5] 2 little_address_8_byte_order big_address_8_byte_order = Ret [2, 1, 4, 3, 5]
   \<and> convert [1, 2, 3] 4 little_address_8_byte_order big_address_8_byte_order = Undef"
proof -
  have d: "only_endian_differs little_address_8_byte_order big_address_8_byte_order" by code_simp
  have "rev_items 2 [1, 2, 3, 4, 5] = [2, 1, 4, 3, 5 :: byte]" by code_simp
  then show ?thesis
    using d convert_behaviour [of little_address_8_byte_order big_address_8_byte_order 2 "[1, 2, 3, 4, 5]"]
      convert_behaviour [of little_address_8_byte_order big_address_8_byte_order 4 "[1, 2, 3]"] by simp
qed

end
