(* ===== verification/String_Util.thy ===== *)
theory String_Util
  imports Encoding
begin

text \<open>
  The string utilities of s.hpp in the narrow build (\<open>C\<close> is \<open>char\<close>), and the algorithms of
  algorithm\_util.hpp. A function that changes its argument in place returns the changed string. Loops
  that may run forever are partial functions into \<open>option\<close>, \<open>None\<close> standing for a call that never
  returns. The character classes are those of the C locale; a byte above 127 is in none of them. The
  counters of type \<open>unsigned\<close> in \<open>insert_grouping_char\<close> are natural numbers, which they agree with for
  strings of fewer than \<open>2 ^ 32\<close> characters.
\<close>

section \<open>The code\<close>

definition runtime_error :: "string \<Rightarrow> 'a outcome" where
  "runtime_error message = Raise (Runtime_error message)"

text \<open>\<open>is.get (c)\<close> and the loop of \<open>read_all\<close>.\<close>

definition get_char :: "istream \<Rightarrow> istream \<times> char option" where
  "get_char is =
     (if \<not> good is then (is\<lparr>failbit := True\<rparr>, None)
      else case rest is of [] \<Rightarrow> (is\<lparr>eofbit := True, failbit := True\<rparr>, None) | c # r \<Rightarrow> (is\<lparr>rest := r\<rparr>, Some c))"

function read_all :: "istream \<Rightarrow> string \<Rightarrow> istream \<times> string" where
  "read_all is s = (case get_char is of (is', Some c) \<Rightarrow> read_all is' (s @ [c]) | (is', None) \<Rightarrow> (is', s))"
  by pat_completeness auto
termination
  by (relation "measure (\<lambda>(is, s). length (rest is))")
     (auto simp: get_char_def split: if_splits list.splits)

declare read_all.simps [simp del]

definition rtrim :: "string \<Rightarrow> string" where
  "rtrim s = rev (dropWhile isspace (rev s))"

definition ltrim :: "string \<Rightarrow> string" where
  "ltrim s = dropWhile isspace s"

definition trim :: "string \<Rightarrow> string" where
  "trim s = ltrim (rtrim s)"

text \<open>The body of the loop of \<open>split\<close> for one field.\<close>

definition split_field :: "bool \<Rightarrow> bool \<Rightarrow> string \<Rightarrow> string list \<Rightarrow> string list" where
  "split_field trim_elements include_empty_fields aux c =
     (let aux = (if trim_elements then trim aux else aux) in
      if include_empty_fields \<or> length aux > 0 then c @ [aux] else c)"

function split_loop :: "string \<Rightarrow> char \<Rightarrow> bool \<Rightarrow> bool \<Rightarrow> nat \<Rightarrow> nat \<Rightarrow> string list \<Rightarrow> string list" where
  "split_loop s ch te ie i j c =
     (let c = split_field te ie (substr s i (j - i)) c;
          i = j + 1
      in case find_char s ch i of
           Some j \<Rightarrow> split_loop s ch te ie i j c
         | None \<Rightarrow> split_field te ie (substr s i (length s)) c)"
  by pat_completeness auto
termination
  by (relation "measure (\<lambda>(s, ch, te, ie, i, j, c). length s - j)")
     (auto simp: find_char_def find_index_Some)

declare split_loop.simps [simp del]

definition split :: "string \<Rightarrow> char \<Rightarrow> string list \<Rightarrow> bool \<Rightarrow> bool \<Rightarrow> string list" where
  "split s ch c trim_elements include_empty_fields =
     (case find_char s ch 0 of
        None \<Rightarrow> c @ [s]
      | Some j \<Rightarrow> split_loop s ch trim_elements include_empty_fields 0 j c)"

text \<open>\<open>static_cast<int>(n)\<close> keeps the low 32 bits; the failed assertion ends the program.\<close>

definition pad :: "string \<Rightarrow> char \<Rightarrow> nat \<Rightarrow> bool \<Rightarrow> string outcome" where
  "pad s c n pad_right =
     (if n = 0 then Ret s
      else if \<not> sint (word_of_nat n :: 32 word) > 0 then Terminate
      else if pad_right then Ret (if n > length s then s @ replicate (n - length s) c else s)
      else Ret (if n > length s then replicate (n - length s) c @ s else s))"

definition pad_copy :: "string \<Rightarrow> char \<Rightarrow> nat \<Rightarrow> bool \<Rightarrow> string outcome" where
  "pad_copy s c n pad_right = pad s c n pad_right"

text \<open>The overload for \<open>const C*\<close>: the null pointer fails the assertion, \<open>n\<close> is an \<open>unsigned\<close>.\<close>

definition pad_copy_cstr :: "string option \<Rightarrow> char \<Rightarrow> 32 word \<Rightarrow> bool \<Rightarrow> string outcome" where
  "pad_copy_cstr s c n pad_right = (case s of None \<Rightarrow> Terminate | Some aux \<Rightarrow> pad aux c (unat n) pad_right)"

definition only_digits :: "string \<Rightarrow> string" where
  "only_digits s = foldl (\<lambda>out ch. if isdigit ch then out @ [ch] else out) [] s"

definition only_alpha_numeric :: "string \<Rightarrow> string" where
  "only_alpha_numeric s = foldl (\<lambda>out ch. if isalnum ch then out @ [ch] else out) [] s"

definition no_accents :: "icu_text \<Rightarrow> string \<Rightarrow> string outcome" where
  "no_accents u s = remove_accents u s"

definition copy_remove_accents :: "icu_text \<Rightarrow> string \<Rightarrow> string outcome" where
  "copy_remove_accents u s = remove_accents u s"

text \<open>\<open>std::remove_if\<close> moves the kept elements to the front; \<open>erase\<close> cuts off the rest.\<close>

definition remove_blanks :: "string \<Rightarrow> string" where
  "remove_blanks s = filter (\<lambda>c. \<not> isspace c) s"

partial_function (option) remove_loop :: "string \<Rightarrow> string \<Rightarrow> string option" where
  "remove_loop s target =
     (case find_str s target of
        None \<Rightarrow> Some target
      | Some pos \<Rightarrow> remove_loop s (erase target pos (length s)))"

definition remove :: "string \<Rightarrow> string \<Rightarrow> string option" where
  "remove s target = remove_loop s target"

definition copy_remove :: "string \<Rightarrow> string \<Rightarrow> string option" where
  "copy_remove s target = remove s target"

definition remove_substr :: "string \<Rightarrow> string \<Rightarrow> string option" where
  "remove_substr s p = remove_loop p s"

text \<open>
  \<open>s[0]\<close> of an empty string is the null character, \<open>s[s.length () - 1]\<close> is then outside the string. The
  second \<open>erase\<close> raises when the first one has emptied the string.
\<close>

definition remove_delimiters :: "char \<Rightarrow> string \<Rightarrow> string outcome" where
  "remove_delimiters delimiter s =
     (if s = [] then (if delimiter = NUL then Undef else Ret s)
      else if s ! 0 = delimiter \<and> s ! (length s - 1) = delimiter then
        let s = erase s 0 1 in
        if length s = 0 then Raise (Out_of_range ''basic_string::erase'')
        else Ret (erase s (length s - 1) 1)
      else Ret s)"

partial_function (option) replace_loop :: "string \<Rightarrow> string \<Rightarrow> bool \<Rightarrow> string \<Rightarrow> (bool \<times> string) option" where
  "replace_loop old r replaced s =
     (case find_str old s of
        None \<Rightarrow> Some (replaced, s)
      | Some i \<Rightarrow> replace_loop old r True (replace s i (length old) r))"

definition replace_substr :: "string \<Rightarrow> string \<Rightarrow> string \<Rightarrow> (bool \<times> string) option" where
  "replace_substr s old r = (if length s = 0 then Some (False, s) else replace_loop old r False s)"

text \<open>The loop of \<open>insert_grouping_char\<close>; \<open>++count\<close> runs only when the first test fails.\<close>

fun grouping_loop :: "char \<Rightarrow> nat \<Rightarrow> string \<Rightarrow> nat \<Rightarrow> nat \<Rightarrow> string \<Rightarrow> string" where
  "grouping_loop g primeiro [] i count f = f"
| "grouping_loop g primeiro (ch # s) i count f =
     (let f = f @ [ch];
          last = (s = []);
          hit = (i = primeiro \<or> count + 1 = 3);
          count = (if i = primeiro then count else count + 1)
      in if hit \<and> \<not> last then grouping_loop g primeiro s (i + 1) 0 (f @ [g])
         else grouping_loop g primeiro s (i + 1) count f)"

definition insert_grouping_char :: "string \<Rightarrow> char \<Rightarrow> string" where
  "insert_grouping_char s grouping_char =
     (let primeiro = length s mod 3;
          primeiro = (if primeiro = 0 then 3 else primeiro) - 1
      in grouping_loop grouping_char primeiro s 0 0 [])"

definition to_string :: "bool \<Rightarrow> int \<Rightarrow> char \<Rightarrow> string" where
  "to_string use_grouping_char number grouping_char =
     (let s = show_int number;
          s = (if number < 0 then CHR ''-'' # s else s)
      in if use_grouping_char then insert_grouping_char s grouping_char else s)"

text \<open>
  For \<open>char\<close> as the integer type the stream prints the character, not the number; a negative one still gets a minus sign.
\<close>

definition to_string_char :: "bool \<Rightarrow> char \<Rightarrow> char \<Rightarrow> string" where
  "to_string_char use_grouping_char number grouping_char =
     (let s = [number];
          s = (if cval number < 0 then CHR ''-'' # s else s)
      in if use_grouping_char then insert_grouping_char s grouping_char else s)"

definition pad_left0 :: "int \<Rightarrow> 32 word \<Rightarrow> string outcome" where
  "pad_left0 number n = pad_copy_cstr (Some (to_string False number CHR '','')) CHR ''0'' n False"

definition remove_ext :: "string \<Rightarrow> string" where
  "remove_ext fname = (case rfind_char fname CHR ''.'' of Some pos \<Rightarrow> erase fname pos (length fname) | None \<Rightarrow> fname)"

partial_function (option) double_spaces_loop :: "string \<Rightarrow> string option" where
  "double_spaces_loop s =
     (case replace_substr s ''  '' '' '' of
        None \<Rightarrow> None
      | Some (replaced, s') \<Rightarrow> if replaced then double_spaces_loop s' else Some s')"

definition remove_double_spaces :: "string \<Rightarrow> string option" where
  "remove_double_spaces s = (if length s = 0 then Some s else double_spaces_loop s)"

definition reverse :: "string \<Rightarrow> string" where
  "reverse s = foldl (\<lambda>out c. out @ [c]) [] (rev s)"

definition to_upper :: "string \<Rightarrow> string" where "to_upper s = map toupper s"

definition to_lower :: "string \<Rightarrow> string" where "to_lower s = map tolower s"

definition upper :: "string \<Rightarrow> string" where "upper s = to_upper s"

definition lower :: "string \<Rightarrow> string" where "lower s = to_lower s"

text \<open>algorithm\_util.hpp.\<close>

definition erase_if :: "('a \<Rightarrow> bool) \<Rightarrow> 'a list \<Rightarrow> 'a list" where
  "erase_if p c = filter (\<lambda>x. \<not> p x) c"

fun erase_if_map :: "('k \<times> 'v \<Rightarrow> bool) \<Rightarrow> ('k \<times> 'v) list \<Rightarrow> ('k \<times> 'v) list" where
  "erase_if_map p [] = []"
| "erase_if_map p (it # r) = (if p it then erase_if_map p r else it # erase_if_map p r)"

fun copy_if :: "('a \<Rightarrow> bool) \<Rightarrow> 'a list \<Rightarrow> 'a list \<Rightarrow> 'a list" where
  "copy_if pr [] res = res"
| "copy_if pr (x # first) res = (if pr x then copy_if pr first (res @ [x]) else copy_if pr first res)"

section \<open>Trimming\<close>

lemma foldl_filter: "foldl (\<lambda>out ch. if P ch then out @ [ch] else out) acc s = acc @ filter P s"
  by (induction s arbitrary: acc) auto

lemma only_digits_filter: "only_digits s = filter isdigit s"
  by (simp add: only_digits_def foldl_filter)

lemma only_alpha_numeric_filter: "only_alpha_numeric s = filter isalnum s"
  by (simp add: only_alpha_numeric_def foldl_filter)

lemma reverse_rev: "reverse s = rev s"
proof -
  have "foldl (\<lambda>out c. out @ [c]) acc xs = acc @ xs" for acc xs :: string
    by (induction xs arbitrary: acc) auto
  then show ?thesis by (simp add: reverse_def)
qed

lemma copy_if_filter: "copy_if pr xs res = res @ filter pr xs"
  by (induction xs arbitrary: res) auto

lemma erase_if_map_filter: "erase_if_map p m = filter (\<lambda>x. \<not> p x) m"
  by (induction m) auto

text \<open>The trimmed text is the middle part between white space, and has no white space at its ends.\<close>

lemma trim_split:
  obtains u v where "s = u @ trim s @ v" "\<forall>c\<in>set u. isspace c" "\<forall>c\<in>set v. isspace c"
proof -
  have "s = rtrim s @ rev (takeWhile isspace (rev s))"
    unfolding rtrim_def by (metis rev_append rev_rev_ident takeWhile_dropWhile_id)
  moreover have "rtrim s = takeWhile isspace (rtrim s) @ trim s"
    by (simp add: trim_def ltrim_def)
  ultimately have "s = takeWhile isspace (rtrim s) @ trim s @ rev (takeWhile isspace (rev s))"
    by (metis append.assoc)
  then show thesis by (rule that) (auto dest: set_takeWhileD)
qed

lemma hd_trim: "trim s \<noteq> [] \<Longrightarrow> \<not> isspace (hd (trim s))"
  unfolding trim_def ltrim_def by (rule hd_dropWhile)

lemma last_dropWhile: "dropWhile P xs \<noteq> [] \<Longrightarrow> last (dropWhile P xs) = last xs"
  by (metis append_is_Nil_conv last_appendR takeWhile_dropWhile_id)

lemma last_trim: "trim s \<noteq> [] \<Longrightarrow> \<not> isspace (last (trim s))"
proof -
  assume ne: "trim s \<noteq> []"
  then have "rtrim s \<noteq> []" by (auto simp: trim_def ltrim_def)
  moreover have "last (trim s) = last (rtrim s)"
    using ne by (simp add: trim_def ltrim_def last_dropWhile)
  ultimately show ?thesis unfolding rtrim_def by (simp add: last_rev hd_dropWhile)
qed

section \<open>Splitting\<close>

text \<open>The fields of a text between separators; there is always one more than there are separators.\<close>

fun fields :: "char \<Rightarrow> string \<Rightarrow> string list" where
  "fields ch [] = [[]]"
| "fields ch (x # s) = (if x = ch then [] # fields ch s
     else (case fields ch s of [] \<Rightarrow> [[x]] | f # fs \<Rightarrow> (x # f) # fs))"

text \<open>The text with separators put back.\<close>

fun join_fields :: "char \<Rightarrow> string list \<Rightarrow> string" where
  "join_fields ch [] = []"
| "join_fields ch [f] = f"
| "join_fields ch (f # fs) = f @ ch # join_fields ch fs"

lemma fields_nonempty: "fields ch s \<noteq> []"
  by (induction s) (auto split: list.split)

lemma fields_append: "ch \<notin> set f \<Longrightarrow> fields ch (f @ ch # s) = f # fields ch s"
  by (induction f) (auto split: list.split)

lemma fields_single: "ch \<notin> set f \<Longrightarrow> fields ch f = [f]"
  by (induction f) auto

lemma join_fields_fields: "join_fields ch (fields ch s) = s"
proof (induction s)
  case (Cons x s)
  obtain f fs where f: "fields ch s = f # fs" using fields_nonempty by (metis list.exhaust)
  with Cons show ?case by (cases fs) auto
qed simp

lemma fields_no_sep: "f \<in> set (fields ch s) \<Longrightarrow> ch \<notin> set f"
  by (induction s arbitrary: f) (auto split: if_splits list.splits)

text \<open>What \<open>split\<close> keeps of the fields.\<close>

definition kept_fields :: "bool \<Rightarrow> bool \<Rightarrow> string list \<Rightarrow> string list" where
  "kept_fields te ie fs = filter (\<lambda>f. ie \<or> f \<noteq> []) (map (if te then trim else id) fs)"

lemma split_field_kept: "split_field te ie f c = c @ kept_fields te ie [f]"
  by (auto simp: split_field_def kept_fields_def Let_def)

lemma find_char_None: "find_char s ch i = None \<longleftrightarrow> ch \<notin> set (drop i s)"
  by (auto simp: find_char_def find_index_None)

lemma find_char_Some:
  assumes "find_char s ch i = Some j"
  shows "i \<le> j" "j < length s" "drop i s = substr s i (j - i) @ ch # drop (Suc j) s" "ch \<notin> set (substr s i (j - i))"
proof -
  obtain k where k: "find_index (\<lambda>x. x = ch) (drop i s) = Some k" "j = i + k"
    using assms by (auto simp: find_char_def)
  then have k': "k < length (drop i s)" "drop i s ! k = ch" by (auto simp: find_index_Some)
  from k show "i \<le> j" by simp
  from k k' show "j < length s" by simp
  from find_index_split [OF k(1)] k k' show "drop i s = substr s i (j - i) @ ch # drop (Suc j) s"
    "ch \<notin> set (substr s i (j - i))" by (auto simp: substr_def add.commute)
qed

lemma split_loop_fields:
  assumes "find_char s ch i = Some j"
  shows "split_loop s ch te ie i j c = c @ kept_fields te ie (fields ch (drop i s))"
  using assms
proof (induction s ch te ie i j c rule: split_loop.induct)
  case (1 s ch te ie i j c)
  let ?f = "substr s i (j - i)"
  note found = find_char_Some [OF "1.prems"]
  have split: "fields ch (drop i s) = ?f # fields ch (drop (j + 1) s)"
    using found(3,4) by (simp add: fields_append)
  show ?case
  proof (cases "find_char s ch (j + 1)")
    case None
    then have "fields ch (drop (j + 1) s) = [substr s (j + 1) (length s)]"
      by (simp add: find_char_None fields_single substr_def)
    with None split show ?thesis
      by (subst split_loop.simps) (simp add: split_field_kept kept_fields_def)
  next
    case (Some j')
    then have "split_loop s ch te ie i j c
        = split_loop s ch te ie (j + 1) j' (split_field te ie ?f c)"
      by (subst split_loop.simps) simp
    also have "\<dots> = split_field te ie ?f c @ kept_fields te ie (fields ch (drop (j + 1) s))"
      using "1.IH" Some by simp
    finally show ?thesis by (simp add: split split_field_kept kept_fields_def)
  qed
qed

text \<open>
  C10: \<open>split\<close> appends to the container the fields between the separators, trimmed when asked and
  without the empty ones unless they are wanted; a text with no separator is appended as it is, neither
  trimmed nor dropped when empty. With empty fields kept and no trimming the fields joined by the
  separator give the text back.
\<close>

theorem split_fields:
  "split s ch c te ie = c @ (if ch \<in> set s then kept_fields te ie (fields ch s) else [s])
   \<and> join_fields ch (split s ch [] False True) = s"
proof -
  have main: "split s ch c te ie = c @ (if ch \<in> set s then kept_fields te ie (fields ch s) else [s])" for c te ie
  proof (cases "find_char s ch 0")
    case None
    moreover from this have "ch \<notin> set s" using find_char_None [of s ch 0] by simp
    ultimately show ?thesis by (simp add: split_def)
  next
    case (Some j)
    then have "ch \<in> set s" using find_char_None [of s ch 0] by auto
    with Some split_loop_fields [OF Some] show ?thesis by (simp add: split_def)
  qed
  have "kept_fields False True fs = fs" for fs by (simp add: kept_fields_def)
  then show ?thesis by (simp add: main join_fields_fields)
qed

section \<open>Removing and replacing substrings\<close>

lemma erase_shorter:
  "find_str p s = Some i \<Longrightarrow> p \<noteq> [] \<Longrightarrow> length (erase s i (length p)) < length s"
  using length_erase_found [of p s i] find_str_bound [of p s i] by (cases p) auto

lemma erase_subseq: "subseq (erase s i n) s"
proof -
  have "subseq (drop (i + n) s) (drop i s)"
    by (metis add.commute drop_drop suffix_drop suffix_imp_subseq)
  then show ?thesis unfolding erase_def by (metis append_take_drop_id list_emb_append_mono subseq_order.order_refl)
qed

lemma remove_loop_returns:
  "p \<noteq> [] \<Longrightarrow> \<exists>t. remove_loop p s = Some t \<and> \<not> sublist p t \<and> subseq t s"
proof (induction "length s" arbitrary: s rule: less_induct)
  case less
  show ?case
  proof (cases "find_str p s")
    case None
    then have "\<not> sublist p s" by (simp add: find_str_None)
    with None show ?thesis by (subst remove_loop.simps) simp
  next
    case (Some i)
    from less(1) [OF erase_shorter [OF Some less(2)] less(2)]
    obtain t where t: "remove_loop p (erase s i (length p)) = Some t" "\<not> sublist p t" "subseq t (erase s i (length p))"
      by auto
    then have "subseq t s" using erase_subseq subseq_order.order_trans by blast
    with t Some show ?thesis by (subst remove_loop.simps) simp
  qed
qed

lemma remove_loop_empty: "remove_loop [] s = None"
proof -
  have "remove_loop p s = Some t \<Longrightarrow> p \<noteq> []" for p s t
    by (rule remove_loop.raw_induct [of "\<lambda>p s t. p \<noteq> []" p s t]) (auto split: option.splits)
  then show ?thesis by (cases "remove_loop [] s") auto
qed

text \<open>
  \<open>remove\<close>, \<open>copy_remove\<close> and \<open>remove_substr\<close> return for every pattern that is not empty: the result is
  a subsequence of the text in which the pattern does not occur, not even across a removed occurrence.
  With an empty pattern they never return.
\<close>

theorem remove_all_occurrences:
  "(p \<noteq> [] \<longrightarrow> (\<exists>t. remove p s = Some t \<and> copy_remove p s = Some t \<and> remove_substr s p = Some t
      \<and> \<not> sublist p t \<and> subseq t s))
   \<and> remove [] s = None \<and> remove_substr s [] = None"
  using remove_loop_returns [of p s] remove_loop_empty
  by (auto simp: remove_def copy_remove_def remove_substr_def)

theorem remove_all_occurrences_witness:
  "\<exists>t. remove ''ab'' ''aabbc'' = Some t \<and> \<not> sublist ''ab'' t"
  using remove_all_occurrences [of "''ab''" "''aabbc''"] by auto

text \<open>A call of the replacing loop that returns has removed every occurrence.\<close>

lemma replace_loop_returns:
  assumes "length r < length old"
  shows "\<exists>t. replace_loop old r b s = Some (b \<or> sublist old s, t) \<and> \<not> sublist old t"
  using assms
proof (induction "length s" arbitrary: s b rule: less_induct)
  case less
  show ?case
  proof (cases "find_str old s")
    case None
    then have "\<not> sublist old s" by (simp add: find_str_None)
    with None show ?thesis by (subst replace_loop.simps) simp
  next
    case (Some i)
    then have "sublist old s" using find_str_None [of old s] by auto
    have "length (replace s i (length old) r) < length s"
      using length_replace_found [OF Some] find_str_bound [OF Some] less(2) by simp
    from less(1) [OF this less(2), of True] Some \<open>sublist old s\<close> show ?thesis
      by (subst replace_loop.simps) simp
  qed
qed

lemma replace_loop_diverges:
  assumes "sublist old r" "sublist old s"
  shows "replace_loop old r b s = None"
proof -
  have "replace_loop old r b s = Some t \<Longrightarrow> sublist old r \<longrightarrow> \<not> sublist old s" for old r b s t
  proof (rule replace_loop.raw_induct [of "\<lambda>old r b s t. sublist old r \<longrightarrow> \<not> sublist old s" old r b s t])
    fix loop old r b s y
    assume IH: "\<And>old r b s y. loop old r b s = Some y \<Longrightarrow> sublist old r \<longrightarrow> \<not> sublist old s"
      and step: "(case find_str old s of None \<Rightarrow> Some (b, s)
        | Some i \<Rightarrow> loop old r True (replace s i (length old) r)) = Some y"
    show "sublist old r \<longrightarrow> \<not> sublist old s"
    proof (cases "find_str old s")
      case None
      then show ?thesis by (simp add: find_str_None)
    next
      case (Some i)
      with IH step have "sublist old r \<longrightarrow> \<not> sublist old (replace s i (length old) r)" by auto
      moreover have "sublist r (replace s i (length old) r)" by (simp add: replace_def sublist_append)
      ultimately show ?thesis using sublist_order.order_trans by blast
    qed
  qed
  with assms show ?thesis by (cases "replace_loop old r b s") blast+
qed

text \<open>
  C26: With a replacement that is shorter than the pattern \<open>replace_substr\<close> returns, reports whether the
  pattern occurred, and leaves no occurrence. With a replacement that contains the pattern it never
  returns on a text that contains the pattern.
\<close>

theorem replace_substr_behaviour:
  "(length r < length old \<longrightarrow> (\<exists>t. replace_substr s old r = Some (sublist old s, t) \<and> \<not> sublist old t))
   \<and> (sublist old r \<and> sublist old s \<and> s \<noteq> [] \<longrightarrow> replace_substr s old r = None)"
  using replace_loop_returns [of r old False s] replace_loop_diverges [of old r s False]
  by (cases old) (auto simp: replace_substr_def)

theorem replace_substr_behaviour_witness:
  "(\<exists>t. replace_substr ''xaby'' ''ab'' ''c'' = Some (True, t) \<and> \<not> sublist ''ab'' t)
   \<and> replace_substr ''xay'' ''a'' ''ba'' = None"
proof -
  have "sublist ''ab'' ''xaby''" "sublist ''a'' ''ba''" "sublist ''a'' ''xay''" by code_simp+
  with replace_substr_behaviour [of "''c''" "''ab''" "''xaby''"] replace_substr_behaviour [of "''ba''" "''a''" "''xay''"]
  show ?thesis by auto
qed

section \<open>Double spaces\<close>

text \<open>Every run of spaces made one space.\<close>

fun squeeze :: "string \<Rightarrow> string" where
  "squeeze (x # y # s) = (if x = CHR '' '' \<and> y = CHR '' '' then squeeze (y # s) else x # squeeze (y # s))"
| "squeeze s = s"

lemma squeeze_double: "squeeze (u @ CHR '' '' # CHR '' '' # v) = squeeze (u @ CHR '' '' # v)"
proof (induction u rule: squeeze.induct)
  case (1 x y s)
  then show ?case by simp
qed (cases v; simp)+

lemma squeeze_id: "\<not> sublist ''  '' s \<Longrightarrow> squeeze s = s"
  by (induction s rule: squeeze.induct) (auto simp: sublist_Cons_right)

lemma replace_loop_squeeze:
  "replace_loop ''  '' '' '' b s = Some (b', t) \<Longrightarrow> squeeze t = squeeze s"
proof -
  have "replace_loop old r b s = Some y \<Longrightarrow> old = ''  '' \<longrightarrow> r = '' '' \<longrightarrow> squeeze (snd y) = squeeze s" for old r b s y
  proof (rule replace_loop.raw_induct [of "\<lambda>old r b s y. old = ''  '' \<longrightarrow> r = '' '' \<longrightarrow> squeeze (snd y) = squeeze s" old r b s y])
    fix loop old r b s y
    assume IH: "\<And>old r b s y. loop old r b s = Some y \<Longrightarrow> old = ''  '' \<longrightarrow> r = '' '' \<longrightarrow> squeeze (snd y) = squeeze s"
      and step: "(case find_str old s of None \<Rightarrow> Some (b, s)
        | Some i \<Rightarrow> loop old r True (replace s i (length old) r)) = Some y"
    show "old = ''  '' \<longrightarrow> r = '' '' \<longrightarrow> squeeze (snd y) = squeeze s"
    proof (cases "find_str old s")
      case None
      with step show ?thesis by auto
    next
      case (Some i)
      with IH step have "old = ''  '' \<longrightarrow> r = '' '' \<longrightarrow> squeeze (snd y) = squeeze (replace s i (length old) r)" by auto
      moreover have "squeeze (replace s i (length old) '' '') = squeeze s" if "old = ''  ''"
        using squeeze_double [of "take i s" "drop (i + 2) s"] find_str_Some [OF Some] that
        by (simp add: replace_def)
      ultimately show ?thesis by (metis (no_types))
    qed
  qed
  then show "replace_loop ''  '' '' '' b s = Some (b', t) \<Longrightarrow> squeeze t = squeeze s" by fastforce
qed

text \<open>
  \<open>remove_double_spaces\<close> returns for every text and makes every run of spaces one space, leaving
  everything else as it is.
\<close>

theorem remove_double_spaces_squeezes: "remove_double_spaces s = Some (squeeze s)"
proof (cases "s = []")
  case True
  then show ?thesis by (simp add: remove_double_spaces_def)
next
  case False
  obtain t where t: "replace_loop ''  '' '' '' False s = Some (sublist ''  '' s, t)" "\<not> sublist ''  '' t"
    using replace_loop_returns [of "'' ''" "''  ''" False s] by auto
  then have eq: "t = squeeze s" using replace_loop_squeeze squeeze_id by metis
  have "replace_loop ''  '' '' '' False t = Some (False, t)"
    using t(2) find_str_None [of "''  ''" t] by (subst replace_loop.simps) simp
  then have "replace_substr t ''  '' '' '' = Some (False, t)" by (simp add: replace_substr_def)
  then have "double_spaces_loop t = Some t" by (subst double_spaces_loop.simps) simp
  with t False eq show ?thesis
    unfolding remove_double_spaces_def
    by (subst double_spaces_loop.simps) (simp add: replace_substr_def)
qed

section \<open>Numbers\<close>

text \<open>The reference for digit grouping: a separator before every full group of three from the right.\<close>

function grouped :: "char \<Rightarrow> string \<Rightarrow> string" where
  "grouped g s = (if length s \<le> 3 then s
     else grouped g (take (length s - 3) s) @ g # drop (length s - 3) s)"
  by pat_completeness auto
termination
  by (relation "measure (\<lambda>(g, s). length s)") auto

declare grouped.simps [simp del]

text \<open>Grouping from the left, given the length of the first group.\<close>

fun groups3 :: "char \<Rightarrow> string \<Rightarrow> string" where
  "groups3 g (a # b # c # d # s) = a # b # c # g # groups3 g (d # s)"
| "groups3 g s = s"

lemma groups3_append:
  "3 dvd length s \<Longrightarrow> s \<noteq> [] \<Longrightarrow> length t = 3 \<Longrightarrow> groups3 g (s @ t) = groups3 g s @ g # t"
proof (induction g s rule: groups3.induct)
  case (1 g a b c d s)
  moreover from this have "3 dvd length (d # s)" by simp presburger
  ultimately show ?case by simp
qed (cases t rule: list4_cases; auto dest: dvd_imp_le)+

lemma groups3_grouped: "3 dvd length s \<Longrightarrow> groups3 g s = grouped g s"
proof (induction g s rule: grouped.induct)
  case (1 g s)
  show ?case
  proof (cases "length s \<le> 3")
    case True
    then have "groups3 g s = s" by (cases "(g, s)" rule: groups3.cases) auto
    with True show ?thesis by (subst grouped.simps) simp
  next
    case False
    let ?u = "take (length s - 3) s" and ?v = "drop (length s - 3) s"
    have "3 dvd length ?u" "?u \<noteq> []" "length ?v = 3" using False 1 by (auto simp: dvd_diff_nat)
    from groups3_append [OF this, of g] "1.IH" False this show ?thesis
      by (subst grouped.simps) simp
  qed
qed

lemma grouped_first:
  assumes "length u \<le> 3" "u \<noteq> []" "3 dvd length s" "s \<noteq> []"
  shows "grouped g (u @ s) = u @ g # grouped g s"
  using assms
proof (induction g s rule: grouped.induct)
  case (1 g s)
  have len: "\<not> length (u @ s) \<le> 3" "3 \<le> length s" using 1 by (cases u; auto dest: dvd_imp_le)+
  have "grouped g (u @ s) = grouped g (u @ take (length s - 3) s) @ g # drop (length s - 3) s"
    using len by (subst grouped.simps) simp
  also have "\<dots> = u @ g # grouped g s"
  proof (cases "length s \<le> 3")
    case True
    with len(2) 1 show ?thesis by (simp add: grouped.simps [of g u] grouped.simps [of g s])
  next
    case False
    with 1 have "grouped g (u @ take (length s - 3) s) = u @ g # grouped g (take (length s - 3) s)"
      by (simp add: dvd_diff_nat)
    with False show ?thesis by (simp add: grouped.simps [of g s])
  qed
  finally show ?case .
qed

text \<open>The loop: the first group, then groups of three.\<close>

lemma grouping_loop_groups3: "primeiro < i \<Longrightarrow> grouping_loop g primeiro s i 0 f = f @ groups3 g s"
proof (induction g s arbitrary: i f rule: groups3.induct)
  case (1 g a b c d s)
  then have "grouping_loop g primeiro (a # b # c # d # s) i 0 f
      = grouping_loop g primeiro (d # s) (Suc (Suc (Suc i))) 0 (f @ [a, b, c, g])"
    by (simp add: Let_def)
  also have "\<dots> = (f @ [a, b, c, g]) @ groups3 g (d # s)"
    using "1.prems" by (intro "1.IH") simp
  finally show ?case by simp
qed (simp_all add: Let_def)

lemma grouping_loop_first:
  assumes "length u = Suc primeiro" "primeiro < 3"
  shows "grouping_loop g primeiro (u @ s) 0 0 [] = u @ (if s = [] then [] else g # groups3 g s)"
proof -
  from assms consider a where "primeiro = 0" "u = [a]" | a b where "primeiro = 1" "u = [a, b]"
    | a b c where "primeiro = 2" "u = [a, b, c]"
    by (cases u rule: list4_cases) auto
  then show ?thesis
    by cases (cases "s = []"; simp add: Let_def grouping_loop_groups3)+
qed

text \<open>
  \<open>insert_grouping_char\<close> puts the grouping character before every full group of three characters
  counted from the right, so that taking the grouping characters out again gives the text back when it
  has none of its own.
\<close>

theorem insert_grouping_char_groups:
  "insert_grouping_char s g = grouped g s
   \<and> (g \<notin> set s \<longrightarrow> filter (\<lambda>c. c \<noteq> g) (insert_grouping_char s g) = s)"
proof -
  have main: "insert_grouping_char s g = grouped g s"
  proof (cases "s = []")
    case True
    then show ?thesis by (simp add: insert_grouping_char_def Let_def grouped.simps)
  next
    case False
    define p where "p = (if length s mod 3 = 0 then 3 else length s mod 3)"
    have p: "1 \<le> p" "p \<le> 3" "p \<le> length s" "3 dvd length s - p"
      using length_greater_0_conv [THEN iffD2, OF False] unfolding p_def by presburger+
    let ?u = "take p s" and ?v = "drop p s"
    have "grouping_loop g (p - 1) (?u @ ?v) 0 0 [] = ?u @ (if ?v = [] then [] else g # groups3 g ?v)"
      by (rule grouping_loop_first) (use p in auto)
    then have "insert_grouping_char s g = ?u @ (if ?v = [] then [] else g # groups3 g ?v)"
      by (simp add: insert_grouping_char_def p_def Let_def)
    also have "\<dots> = grouped g (?u @ ?v)"
    proof (cases "?v = []")
      case True
      with p show ?thesis by (simp add: grouped.simps [of g s])
    next
      case False
      with p show ?thesis by (subst grouped_first) (auto simp: groups3_grouped)
    qed
    finally show ?thesis by simp
  qed
  have "g \<notin> set s \<Longrightarrow> filter (\<lambda>c. c \<noteq> g) (grouped g s) = s"
  proof (induction g s rule: grouped.induct)
    case (1 g s)
    have keep: "filter (\<lambda>c. c \<noteq> g) t = t" if "set t \<subseteq> set s" for t
      using 1(2) that by (intro filter_True) auto
    show ?case
    proof (cases "length s \<le> 3")
      case True
      then show ?thesis by (simp add: grouped.simps [of g s] keep)
    next
      case False
      have "g \<notin> set (take (length s - 3) s)" using 1(2) by (auto dest: in_set_takeD)
      with 1(1) False keep [of "drop (length s - 3) s"] show ?thesis
        by (simp add: grouped.simps [of g s] set_drop_subset)
    qed
  qed
  with main show ?thesis by simp
qed

theorem insert_grouping_char_groups_witness:
  "filter (\<lambda>c. c \<noteq> CHR '','') (insert_grouping_char ''1234567'' CHR '','') = ''1234567''
   \<and> insert_grouping_char ''1234567'' CHR '','' = ''1,234,567''"
proof -
  have "insert_grouping_char ''1234567'' CHR '','' = ''1,234,567''" by code_simp
  then show ?thesis using insert_grouping_char_groups [of "''1234567''" "CHR '',''"] by simp
qed

lemma pad_left0_any:
  assumes "0 < sint n"
  shows "pad_left0 k n = Ret (replicate (unat n - length (to_string False k CHR '','')) CHR ''0'' @ to_string False k CHR '','')"
proof -
  have "unat n \<noteq> 0" using assms by (cases "n = 0") (simp_all add: unsigned_eq_0_iff)
  then show ?thesis using assms by (auto simp: Let_def pad_left0_def pad_copy_cstr_def pad_def to_string_def)
qed

lemma pad_left0_text:
  assumes "0 \<le> k" "0 < sint n"
  shows "pad_left0 k n = Ret (replicate (unat n - length (show_nat (nat k))) CHR ''0'' @ show_nat (nat k))"
  using pad_left0_any [OF assms(2), of k] assms(1) by (simp add: to_string_def show_int_def Let_def)

lemma read_nat_zeros [simp]: "read_nat (replicate m CHR ''0'' @ t) = read_nat t"
  by (induction m) (simp_all add: read_nat_def code_def)

text \<open>
  C27: For integer types wider than a character, \<open>to_string\<close> without grouping prints a non-negative integer in decimal, so that reading the digits
  gives it back; a negative one gets two minus signs, one from the stream and one inserted. \<open>pad_left0\<close>
  pads the printed number on the left to at least \<open>n\<close> characters for every positive \<open>int\<close> value of \<open>n\<close>.
\<close>

theorem to_string_decimal:
  "(0 \<le> k \<longrightarrow> read_nat (to_string False k g) = nat k \<and> (\<forall>c\<in>set (to_string False k g). isdigit c))
   \<and> (k < 0 \<longrightarrow> to_string False k g = ''--'' @ show_nat (nat (- k)))
   \<and> (0 \<le> k \<and> 0 < sint n \<longrightarrow> (\<exists>t. pad_left0 k n = Ret t \<and> read_nat t = nat k \<and> length t = max (unat n) (length (show_nat (nat k)))))"
proof -
  have "\<exists>t. pad_left0 k n = Ret t \<and> read_nat t = nat k \<and> length t = max (unat n) (length (show_nat (nat k)))"
    if "0 \<le> k" "0 < sint n"
    using pad_left0_text [OF that] by (simp add: max_def)
  then show ?thesis by (auto simp: to_string_def show_int_def Let_def show_nat_digits)
qed

theorem to_string_decimal_witness:
  "read_nat (to_string False 42 CHR '','') = 42
   \<and> to_string False (- 7) CHR '','' = ''--7''
   \<and> (\<exists>t. pad_left0 42 5 = Ret t \<and> read_nat t = 42 \<and> length t = 5)"
proof -
  have "show_nat 7 = ''7''" "length (show_nat 42) = 2" by code_simp+
  then show ?thesis
    using to_string_decimal [of 42 "CHR '',''" 5] to_string_decimal [of "- 7" "CHR '',''" 1] by auto
qed

text \<open>
  \<open>trim\<close> takes exactly the white space from both ends: the text is white space, the result, white
  space, and the result neither starts nor ends with white space.
\<close>

theorem trim_ends:
  "(\<exists>u v. s = u @ trim s @ v \<and> (\<forall>c\<in>set u. isspace c) \<and> (\<forall>c\<in>set v. isspace c))
   \<and> (trim s = [] \<or> (\<not> isspace (hd (trim s)) \<and> \<not> isspace (last (trim s))))"
proof -
  obtain u v where "s = u @ trim s @ v" "\<forall>c\<in>set u. isspace c" "\<forall>c\<in>set v. isspace c"
    by (rule trim_split)
  then show ?thesis using hd_trim [of s] last_trim [of s] by blast
qed

theorem trim_ends_witness:
  "(\<exists>u v. ''  a b '' = u @ trim ''  a b '' @ v \<and> (\<forall>c\<in>set u. isspace c) \<and> (\<forall>c\<in>set v. isspace c))
   \<and> trim ''  a b '' = ''a b''"
proof -
  have "trim ''  a b '' = ''a b''" by code_simp
  then show ?thesis using trim_ends [of "''  a b ''"] by simp
qed

section \<open>Texts of floating-point numbers\<close>

text \<open>
  \<open>to_string\<close> of a \<open>double\<close>: the arguments are the number without its fraction and the text that the stream prints with the
  fixed number of decimals. Grouping is not used.
\<close>

definition double_to_string :: "int \<Rightarrow> string \<Rightarrow> 32 word \<Rightarrow> char \<Rightarrow> string outcome" where
  "double_to_string integer_part s1 num_decimals decimal_separator =
     (if \<not> (- (2 ^ 63) \<le> integer_part \<and> integer_part < 2 ^ 63) then Undef
      else
        let s = to_string False integer_part CHR '','';
            decimal_part =
              (case find_char s1 decimal_separator 0 of
                 None \<Rightarrow> ''.00''
               | Some pos \<Rightarrow>
                   let n = (if unat num_decimals + pos < length s1 then unat num_decimals else length s1) in substr s1 pos (n + 1))
        in map_out (\<lambda>decimal_part. s @ decimal_part) (pad decimal_part CHR ''0'' (unat num_decimals) True))"

lemma find_char_first: "c \<notin> set pre \<Longrightarrow> find_char (pre @ c # r) c 0 = Some (length pre)"
  unfolding find_char_def by (induction pre) auto

lemma find_char_absent: "c \<notin> set s \<Longrightarrow> find_char s c 0 = None"
  unfolding find_char_def by (induction s) auto

text \<open>
  A number that is not negative is printed with its decimals when the separator is the point that the stream prints. With
  the separator that the function takes by default, the comma, the decimals are not found: every number gets zeros for
  its decimals, at least two of them.
\<close>

theorem double_texts:
  assumes "n < 2 ^ 63" "length ds = unat nd" "0 < sint nd" "CHR '','' \<notin> set ds"
  shows "double_to_string (int n) (show_nat n @ CHR ''.'' # ds) nd CHR ''.'' = Ret (show_nat n @ CHR ''.'' # ds)
    \<and> double_to_string (int n) (show_nat n @ CHR ''.'' # ds) nd CHR '','' =
        Ret (show_nat n @ ''.00'' @ replicate (unat nd - 3) CHR ''0'')"
proof -
  have digits: "CHR ''.'' \<notin> set (show_nat n)" "CHR '','' \<notin> set (show_nat n)"
    using show_nat_digits [of "CHR ''.''" n] show_nat_digits [of "CHR '',''" n] by (auto simp: isdigit_def code_def)
  have "unat nd \<noteq> 0" using assms(3) by (metis less_irrefl signed_0 unat_eq_zero)
  then have pad: "pad s CHR ''0'' (unat nd) True = Ret (s @ replicate (unat nd - length s) CHR ''0'')" for s
    using assms(3) by (simp add: pad_def)
  have num: "to_string False (int n) CHR '','' = show_nat n" by (simp add: to_string_def show_int_def)
  have "find_char (show_nat n @ CHR ''.'' # ds) CHR '','' 0 = None" using digits assms(4) by (intro find_char_absent) auto
  then show ?thesis
    using assms(1,2) digits find_char_first [of "CHR ''.''" "show_nat n" ds]
    by (simp add: double_to_string_def num pad substr_def Let_def)
qed

theorem double_texts_witness:
  "double_to_string 12 ''12.75'' 2 CHR ''.'' = Ret ''12.75'' \<and> double_to_string 12 ''12.75'' 2 CHR '','' = Ret ''12.00''"
proof -
  have "show_nat 12 = ''12''" by code_simp
  then show ?thesis using double_texts [of 12 "''75''" 2] by simp
qed

end
