(* ===== verification/Binary_Buffer.thy ===== *)
theory Binary_Buffer
  imports Bytes
begin

text \<open>
  binary\_buffer.hpp: a growing byte buffer with a write and a read position. \<open>read\<close> takes the bytes the
  destination holds before the call, which it keeps when there are too few bytes left. The interface its
  clients rely on, bytes come out in the order they went in, is the locale \<open>byte_channel\<close>.
\<close>

section \<open>The class\<close>

record BinaryBuffer =
  buffer :: "byte list"
  write_pos :: nat
  read_pos :: nat

text \<open>The constructor only reserves memory.\<close>

definition bb_new :: "nat \<Rightarrow> BinaryBuffer" where
  "bb_new reserve = \<lparr>buffer = [], write_pos = 0, read_pos = 0\<rparr>"

text \<open>\<open>data ()\<close> is a view of the first \<open>write_pos\<close> bytes, undefined when the vector is shorter.\<close>

definition bb_data :: "BinaryBuffer \<Rightarrow> byte list outcome" where
  "bb_data bb = (if write_pos bb \<le> length (buffer bb) then Ret (take (write_pos bb) (buffer bb)) else Undef)"

definition bb_size :: "BinaryBuffer \<Rightarrow> nat" where "bb_size bb = write_pos bb"

definition bb_clear :: "BinaryBuffer \<Rightarrow> BinaryBuffer" where
  "bb_clear bb = bb\<lparr>write_pos := 0, read_pos := 0\<rparr>"

definition bb_write :: "BinaryBuffer \<Rightarrow> byte list \<Rightarrow> BinaryBuffer" where
  "bb_write bb src =
     (let required = write_pos bb + length src;
          buf = (if required > length (buffer bb)
                 then buffer bb @ replicate (required - length (buffer bb)) 0 else buffer bb);
          buf = take (write_pos bb) buf @ src @ drop (write_pos bb + length src) buf
      in bb\<lparr>buffer := buf, write_pos := write_pos bb + length src\<rparr>)"

text \<open>A trivially copyable value is written as its object representation.\<close>

definition bb_write_pod :: "BinaryBuffer \<Rightarrow> 'a::len word \<Rightarrow> BinaryBuffer" where
  "bb_write_pod bb pod = bb_write bb (word_bytes pod)"

definition bb_read :: "BinaryBuffer \<Rightarrow> byte list \<Rightarrow> BinaryBuffer \<times> byte list" where
  "bb_read bb dest =
     (if read_pos bb + length dest > length (buffer bb) then (bb, dest)
      else (bb\<lparr>read_pos := read_pos bb + length dest\<rparr>, take (length dest) (drop (read_pos bb) (buffer bb))))"

definition bb_read_pod :: "BinaryBuffer \<Rightarrow> 'a::len word \<Rightarrow> BinaryBuffer \<times> 'a word" where
  "bb_read_pod bb pod = (case bb_read bb (word_bytes pod) of (bb', d) \<Rightarrow> (bb', bytes_word d))"

text \<open>
  The two file operations, with what the C library does as arguments: whether \<open>fopen\<close> succeeds, how many
  bytes \<open>fwrite\<close> and \<open>fread\<close> transfer, and what \<open>ftell\<close> answers. Saving also gives the bytes in the file.
\<close>

definition bb_save_to_file :: "bool \<Rightarrow> (nat \<Rightarrow> nat) \<Rightarrow> BinaryBuffer \<Rightarrow> Bool result outcome \<times> byte list" where
  "bb_save_to_file fopen fwrite bb =
     (if \<not> fopen then (result_of_message Bool_default ''Failed to open file for writing'', [])
      else let written = fwrite (write_pos bb) in
        (if written \<noteq> write_pos bb then result_of_message Bool_default ''Failed to write all bytes to disk''
         else Ret (result_ok (Bool_of_int T)),
         take written (buffer bb)))"

definition bb_load_from_file ::
    "byte list option \<Rightarrow> int \<Rightarrow> (nat \<Rightarrow> nat) \<Rightarrow> BinaryBuffer \<Rightarrow> Bool result outcome \<times> BinaryBuffer" where
  "bb_load_from_file file ftell fread bb =
     (case file of
        None \<Rightarrow> (result_of_message Bool_default ''Failed to open file for reading'', bb)
      | Some content \<Rightarrow>
          if ftell < 0 then (result_of_message Bool_default ''Could not determine file size'', bb)
          else
            let file_size = nat ftell;
                buf = take file_size (buffer bb) @ replicate (file_size - length (buffer bb)) 0;
                read_bytes = fread file_size;
                buf = take read_bytes content @ drop read_bytes buf
            in if read_bytes \<noteq> file_size
               then (result_of_message Bool_default ''Read mismatch: read less bytes than expected'', bb\<lparr>buffer := buf\<rparr>)
               else (Ret (result_ok (Bool_of_int T)), bb\<lparr>buffer := buf, write_pos := file_size, read_pos := 0\<rparr>))"

section \<open>Bytes in order\<close>

text \<open>The bytes written and not yet read, and the positions in order.\<close>

definition bb_pending :: "BinaryBuffer \<Rightarrow> byte list" where
  "bb_pending bb = drop (read_pos bb) (take (write_pos bb) (buffer bb))"

definition bb_inv :: "BinaryBuffer \<Rightarrow> bool" where
  "bb_inv bb \<longleftrightarrow> read_pos bb \<le> write_pos bb \<and> write_pos bb \<le> length (buffer bb)"

text \<open>
  What a serialiser relies on: \<open>put\<close> appends to the pending bytes, \<open>get\<close> delivers the first of them when
  there are enough to fill the destination, and both keep the invariant.
\<close>

locale byte_channel =
  fixes put :: "'b \<Rightarrow> byte list \<Rightarrow> 'b"
    and get :: "'b \<Rightarrow> byte list \<Rightarrow> 'b \<times> byte list"
    and pending :: "'b \<Rightarrow> byte list"
    and inv :: "'b \<Rightarrow> bool"
  assumes put_inv: "inv b \<Longrightarrow> inv (put b src)"
    and put_pending: "inv b \<Longrightarrow> pending (put b src) = pending b @ src"
    and get_inv: "inv b \<Longrightarrow> length dest \<le> length (pending b) \<Longrightarrow> inv (fst (get b dest))"
    and get_bytes: "inv b \<Longrightarrow> length dest \<le> length (pending b) \<Longrightarrow> snd (get b dest) = take (length dest) (pending b)"
    and get_pending: "inv b \<Longrightarrow> length dest \<le> length (pending b) \<Longrightarrow>
      pending (fst (get b dest)) = drop (length dest) (pending b)"
begin

lemma get_front:
  assumes "inv b" "pending b = xs @ ys" "length dest = length xs"
  obtains b' where "get b dest = (b', xs)" "inv b'" "pending b' = ys"
proof
  show "get b dest = (fst (get b dest), xs)"
    using get_bytes [OF assms(1), of dest] assms(2,3) by (simp add: prod_eq_iff)
  show "inv (fst (get b dest))" "pending (fst (get b dest)) = ys"
    using get_inv [OF assms(1), of dest] get_pending [OF assms(1), of dest] assms(2,3) by auto
qed

lemma put_all: "inv b \<Longrightarrow> inv (foldl put b items) \<and> pending (foldl put b items) = pending b @ concat items"
  by (induction items arbitrary: b) (auto simp: put_inv put_pending)

end

lemma bb_write_inv: "bb_inv bb \<Longrightarrow> bb_inv (bb_write bb src)"
  by (auto simp: bb_inv_def bb_write_def Let_def)

lemma bb_write_pending: "bb_inv bb \<Longrightarrow> bb_pending (bb_write bb src) = bb_pending bb @ src"
  by (auto simp: bb_inv_def bb_write_def bb_pending_def Let_def min_def)

lemma bb_pending_length: "bb_inv bb \<Longrightarrow> length (bb_pending bb) = write_pos bb - read_pos bb"
  by (simp add: bb_inv_def bb_pending_def)

interpretation bb: byte_channel bb_write bb_read bb_pending bb_inv
proof
  fix b :: BinaryBuffer and dest :: "byte list"
  assume inv: "bb_inv b" and len: "length dest \<le> length (bb_pending b)"
  then have fits: "read_pos b + length dest \<le> write_pos b" "write_pos b \<le> length (buffer b)"
    using bb_pending_length [OF inv] by (auto simp: bb_inv_def)
  then have read: "bb_read b dest =
      (b\<lparr>read_pos := read_pos b + length dest\<rparr>, take (length dest) (drop (read_pos b) (buffer b)))"
    by (simp add: bb_read_def)
  show "bb_inv (fst (bb_read b dest))" using read fits by (simp add: bb_inv_def)
  show "snd (bb_read b dest) = take (length dest) (bb_pending b)"
    using read fits by (simp add: bb_pending_def drop_take min_def)
  show "bb_pending (fst (bb_read b dest)) = drop (length dest) (bb_pending b)"
    using read by (simp add: bb_pending_def add.commute)
qed (auto simp: bb_write_inv bb_write_pending)

text \<open>Reading one item after the other, each into a destination of its size.\<close>

fun bb_read_all :: "BinaryBuffer \<Rightarrow> byte list list \<Rightarrow> BinaryBuffer \<times> byte list list" where
  "bb_read_all bb [] = (bb, [])"
| "bb_read_all bb (dest # dests) =
     (case bb_read bb dest of (bb', d) \<Rightarrow> case bb_read_all bb' dests of (bb'', ds) \<Rightarrow> (bb'', d # ds))"

lemma bb_read_all_items:
  assumes "bb_inv bb" "bb_pending bb = concat items @ ys" "map length dests = map length items"
  shows "\<exists>bb'. bb_read_all bb dests = (bb', items) \<and> bb_inv bb' \<and> bb_pending bb' = ys"
  using assms
proof (induction dests arbitrary: bb items)
  case (Cons dest dests)
  then obtain item items' where items: "items = item # items'" "length dest = length item" by (cases items) auto
  obtain bb' where "bb_read bb dest = (bb', item)" "bb_inv bb'" "bb_pending bb' = concat items' @ ys"
    by (rule bb.get_front [of bb item "concat items' @ ys" dest]) (use Cons.prems items in auto)
  with Cons.IH [of bb' items'] Cons.prems items show ?case by auto
qed simp

lemma bb_new_inv [simp]: "bb_inv (bb_new r)" "bb_pending (bb_new r) = []"
  by (simp_all add: bb_inv_def bb_new_def bb_pending_def)

text \<open>
  C6: Items written to a buffer, in whatever state with nothing pending, are read back unchanged and in
  order by reads of their sizes, after which nothing is pending; the read that asks for more bytes than
  the vector holds changes neither the destination nor the buffer.
\<close>

theorem bb_fifo:
  assumes "bb_inv bb" "bb_pending bb = []" "map length dests = map length items"
  shows "(\<exists>bb'. bb_read_all (foldl bb_write bb items) dests = (bb', items) \<and> bb_inv bb' \<and> bb_pending bb' = [])
    \<and> (length (buffer bb) < read_pos bb + length d \<longrightarrow> bb_read bb d = (bb, d))"
  using bb_read_all_items [of "foldl bb_write bb items" items "[]" dests] bb.put_all [OF assms(1), of items] assms(2,3)
  by (simp add: bb_read_def)

theorem bb_fifo_witness:
  "\<exists>bb'. bb_read_all (foldl bb_write (bb_new 4096) [[1, 2], [3]]) [[0, 0], [0]] = (bb', [[1, 2], [3]])"
  using bb_fifo [of "bb_new 4096" "[[0, 0], [0]]" "[[1, 2], [3]]"] by auto

text \<open>
  Saving a buffer and loading the file into any buffer succeeds when the file operations do, and the
  loaded buffer then has all written bytes pending. A short read is reported but leaves the vector
  resized and the positions as they were, outside the vector when it has shrunk.
\<close>

theorem bb_file_roundtrip:
  assumes "bb_inv bb"
  shows "bb_save_to_file True id bb = (Ret (result_ok (Bool_of_int T)), take (write_pos bb) (buffer bb))
    \<and> (\<exists>bb'. bb_load_from_file (Some (take (write_pos bb) (buffer bb))) (int (write_pos bb)) id other
          = (Ret (result_ok (Bool_of_int T)), bb')
        \<and> bb_inv bb' \<and> bb_pending bb' = take (write_pos bb) (buffer bb))
    \<and> (write_pos bb > 1 \<longrightarrow> \<not> bb_inv (snd (bb_load_from_file (Some [0]) 1 (\<lambda>n. 0) bb)))"
  using assms by (auto simp: bb_save_to_file_def bb_load_from_file_def bb_inv_def bb_pending_def Let_def)

theorem bb_file_roundtrip_witness:
  "\<not> bb_inv (snd (bb_load_from_file (Some [0]) 1 (\<lambda>n. 0) (bb_write (bb_new 0) [1, 2, 3])))"
  using bb_file_roundtrip [OF bb_write_inv [OF bb_new_inv(1), of 0 "[1, 2, 3]"], of "bb_new 0"]
  by (simp add: bb_write_def bb_new_def)

text \<open>After \<open>clear\<close> the bounds check of \<open>read\<close>, against the vector, still admits the old bytes.\<close>

lemma bb_stale_read:
  "length dest = length src \<Longrightarrow> snd (bb_read (bb_clear (bb_write (bb_new r) src)) dest) = src"
  by (simp add: bb_read_def bb_clear_def bb_write_def bb_new_def Let_def)

end
