(* ===== verification/Persistence.thy ===== *)
theory Persistence
  imports Binary_Buffer
begin

text \<open>
  What the classes with a \<open>write\<close> and a \<open>read\<close> of their own promise: \<open>write\<close> appends the binary form of an object to the
  pending bytes, and \<open>read\<close> gives the object back when its binary form is the first thing pending. From this follows, for
  every such class, that any number of objects survive a buffer and a file. The classes themselves are the
  interpretations of the locale, in their own theories.
\<close>

section \<open>Several objects\<close>

text \<open>Reading into one object after the other.\<close>

fun read_objects :: "('b \<Rightarrow> 'a \<Rightarrow> 'b \<times> 'a) \<Rightarrow> 'b \<Rightarrow> 'a list \<Rightarrow> 'b \<times> 'a list" where
  "read_objects rd bb [] = (bb, [])"
| "read_objects rd bb (old # olds) = (case rd bb old of (bb, x) \<Rightarrow> case read_objects rd bb olds of (bb, xs) \<Rightarrow> (bb, x # xs))"

locale persistent =
  fixes wr :: "BinaryBuffer \<Rightarrow> 'a \<Rightarrow> BinaryBuffer"
    and rd :: "BinaryBuffer \<Rightarrow> 'a \<Rightarrow> BinaryBuffer \<times> 'a"
    and image :: "'a \<Rightarrow> byte list"
    and wf :: "'a \<Rightarrow> bool"
  assumes write_put: "bb_inv bb \<Longrightarrow> bb_inv (wr bb x) \<and> bb_pending (wr bb x) = bb_pending bb @ image x"
    and write_position: "read_pos (wr bb x) = read_pos bb"
    and read_front: "bb_inv bb \<Longrightarrow> bb_pending bb = image x @ ys \<Longrightarrow> wf x \<Longrightarrow> wf old \<Longrightarrow>
        \<exists>bb'. rd bb old = (bb', x) \<and> bb_inv bb' \<and> bb_pending bb' = ys"
begin

lemma write_all:
  "bb_inv bb \<Longrightarrow> bb_inv (foldl wr bb xs) \<and> bb_pending (foldl wr bb xs) = bb_pending bb @ concat (map image xs)
     \<and> read_pos (foldl wr bb xs) = read_pos bb"
proof (induction xs arbitrary: bb)
  case (Cons x xs)
  then show ?case using write_put [of bb x] write_position [of bb x] by simp
qed simp

lemma read_all_front:
  assumes "bb_inv bb" "bb_pending bb = concat (map image xs) @ ys" "list_all wf xs" "list_all wf olds" "length olds = length xs"
  shows "\<exists>bb'. read_objects rd bb olds = (bb', xs) \<and> bb_inv bb' \<and> bb_pending bb' = ys"
  using assms
proof (induction xs arbitrary: bb olds)
  case (Cons x xs)
  then obtain old olds' where olds: "olds = old # olds'" by (cases olds) auto
  obtain bb' where "rd bb old = (bb', x)" "bb_inv bb'" "bb_pending bb' = concat (map image xs) @ ys"
    using read_front [of bb x "concat (map image xs) @ ys" old] Cons.prems olds by auto
  with Cons.IH [of bb' olds'] Cons.prems olds show ?case by auto
qed simp

lemma roundtrip:
  assumes "bb_inv bb" "bb_pending bb = []" "wf x" "wf old"
  shows "\<exists>bb'. rd (wr bb x) old = (bb', x) \<and> bb_inv bb' \<and> bb_pending bb' = []"
  using read_front [of "wr bb x" x "[]" old] write_put [OF assms(1), of x] assms by simp

end

section \<open>Files\<close>

lemma bb_new_read_pos [simp]: "read_pos (bb_new r) = 0" by (simp add: bb_new_def)

lemma bb_write_read_pos [simp]: "read_pos (bb_write bb src) = read_pos bb" by (simp add: bb_write_def Let_def)

text \<open>A buffer of which nothing has been read is what the file gets, and pending again in whatever buffer loads it.\<close>

lemma saved_and_loaded:
  assumes "bb_inv bb" "read_pos bb = 0"
  shows "\<exists>content bb'. bb_save_to_file True id bb = (Ret (result_ok (Bool_of_int T)), content)
    \<and> bb_load_from_file (Some content) (int (length content)) id other = (Ret (result_ok (Bool_of_int T)), bb')
    \<and> bb_inv bb' \<and> bb_pending bb' = bb_pending bb"
  using assms by (auto simp: bb_save_to_file_def bb_load_from_file_def bb_inv_def bb_pending_def Let_def)

context persistent
begin

lemma file_roundtrip:
  assumes "list_all wf xs" "list_all wf olds" "length olds = length xs"
  shows "\<exists>content bb bb'. bb_save_to_file True id (foldl wr (bb_new r) xs) = (Ret (result_ok (Bool_of_int T)), content)
    \<and> bb_load_from_file (Some content) (int (length content)) id other = (Ret (result_ok (Bool_of_int T)), bb)
    \<and> read_objects rd bb olds = (bb', xs) \<and> bb_pending bb' = []"
proof -
  have w: "bb_inv (foldl wr (bb_new r) xs)" "read_pos (foldl wr (bb_new r) xs) = 0"
      "bb_pending (foldl wr (bb_new r) xs) = concat (map image xs)"
    using write_all [OF bb_new_inv(1), of r xs] by simp_all
  obtain content bb where s: "bb_save_to_file True id (foldl wr (bb_new r) xs) = (Ret (result_ok (Bool_of_int T)), content)"
      "bb_load_from_file (Some content) (int (length content)) id other = (Ret (result_ok (Bool_of_int T)), bb)"
      "bb_inv bb" "bb_pending bb = concat (map image xs)"
    using saved_and_loaded [OF w(1,2)] w(3) by metis
  then show ?thesis using read_all_front [of bb xs "[]" olds] assms by auto
qed

end

end
