(* ===== verification/Objects.thy ===== *)
theory Objects
  imports Persistence String_Util
begin

text \<open>
  class\_info.hpp, equal.hpp, object.hpp and clone\_util.hpp: the class identification that precedes
  every serialised object, and the base class \<open>Object\<close>. An object's data are kept as the fields of a
  record, and its object representation (what \<open>memcpy\<close>, \<open>memcmp\<close> and the buffer see) is a function of
  them, so that writing through a byte view is decoding the bytes. The machine is little-endian.
\<close>

section \<open>ClassInfo\<close>

definition MAX_IDENTIFIER_SIZE :: nat where "MAX_IDENTIFIER_SIZE = 100"

abbreviation Identifier :: cs_type where "Identifier \<equiv> CS 0 MAX_IDENTIFIER_SIZE"

record ClassInfo =
  mnamespace :: cs
  mclass_name :: cs
  mpublic_interface_version :: int16
  mprotected_interface_version :: int16
  mprivate_interface_version :: int16

definition NULL_VERSION :: int16 where "NULL_VERSION = - 1"

definition ClassInfo_of :: "string \<Rightarrow> string \<Rightarrow> int16 \<Rightarrow> int16 \<Rightarrow> int16 \<Rightarrow> ClassInfo outcome" where
  "ClassInfo_of ns cn pub_ver pro_ver pri_ver =
     noexcept (bind_outcome (cs_of_string Identifier ns) (\<lambda>n.
       map_out (\<lambda>c. \<lparr>mnamespace = n, mclass_name = c, mpublic_interface_version = pub_ver,
         mprotected_interface_version = pro_ver, mprivate_interface_version = pri_ver\<rparr>) (cs_of_string Identifier cn)))"

text \<open>The object representation, \<open>sizeof(ClassInfo) = 206\<close>, and the bytes read back.\<close>

definition byte_of_char :: "char \<Rightarrow> byte" where "byte_of_char c = word_of_nat (code c)"

definition char_of_byte :: "byte \<Rightarrow> char" where "char_of_byte b = char_of (unat b)"

definition ClassInfo_bytes :: "ClassInfo \<Rightarrow> byte list" where
  "ClassInfo_bytes i = map byte_of_char (mnamespace i) @ map byte_of_char (mclass_name i)
     @ word_bytes (mpublic_interface_version i) @ word_bytes (mprotected_interface_version i)
     @ word_bytes (mprivate_interface_version i)"

definition ClassInfo_of_bytes :: "byte list \<Rightarrow> ClassInfo" where
  "ClassInfo_of_bytes b =
     \<lparr>mnamespace = map char_of_byte (take 100 b),
      mclass_name = map char_of_byte (take 100 (drop 100 b)),
      mpublic_interface_version = bytes_word (take 2 (drop 200 b)),
      mprotected_interface_version = bytes_word (take 2 (drop 202 b)),
      mprivate_interface_version = bytes_word (take 2 (drop 204 b))\<rparr>"

text \<open>equal.hpp: a trivially copyable type without \<open>data ()\<close> is compared by \<open>memcmp\<close>.\<close>

definition equal_memcmp :: "byte list \<Rightarrow> byte list \<Rightarrow> bool" where
  "equal_memcmp l r \<longleftrightarrow> l = r"

text \<open>A type with a hash is compared by hash first, then by \<open>memcmp\<close> of its data.\<close>

definition equal_hash :: "int64 \<Rightarrow> byte list \<Rightarrow> int64 \<Rightarrow> byte list \<Rightarrow> bool" where
  "equal_hash lhash ldata rhash rdata \<longleftrightarrow> (if lhash \<noteq> rhash then False else equal_memcmp ldata rdata)"

definition ClassInfo_eq :: "ClassInfo \<Rightarrow> ClassInfo \<Rightarrow> bool" where
  "ClassInfo_eq a other \<longleftrightarrow> equal_memcmp (ClassInfo_bytes a) (ClassInfo_bytes other)"

definition full_class_name :: "ClassInfo \<Rightarrow> string" where
  "full_class_name i = cs_str (mnamespace i) @ ''::'' @ cs_str (mclass_name i)"

definition ClassInfo_to_s :: "ClassInfo \<Rightarrow> string" where
  "ClassInfo_to_s i = cs_str (mnamespace i) @ ''::'' @ cs_str (mclass_name i)
     @ '' v'' @ show_int (sint (mpublic_interface_version i))
     @ ''.'' @ show_int (sint (mprotected_interface_version i))
     @ ''.'' @ show_int (sint (mprivate_interface_version i))"

text \<open>\<open>inline static const ClassInfo INFO = { CPPLIB_NAMESPACE, W("..."), ... }\<close> of a class.\<close>

definition CPPLIB_NAMESPACE :: string where "CPPLIB_NAMESPACE = ''pensar_digital::cpplib''"

definition padded :: "string \<Rightarrow> cs" where
  "padded s = s @ replicate (MAX_IDENTIFIER_SIZE - length s) NUL"

definition static_info :: "string \<Rightarrow> int16 \<Rightarrow> ClassInfo" where
  "static_info cn pub =
     (case ClassInfo_of CPPLIB_NAMESPACE cn pub 1 1 of Ret i \<Rightarrow> i
      | _ \<Rightarrow> \<lparr>mnamespace = [], mclass_name = [], mpublic_interface_version = 0, mprotected_interface_version = 0,
           mprivate_interface_version = 0\<rparr>)"

definition ClassInfo_default :: ClassInfo where
  "ClassInfo_default = \<lparr>mnamespace = padded [], mclass_name = padded [], mpublic_interface_version = NULL_VERSION,
     mprotected_interface_version = NULL_VERSION, mprivate_interface_version = NULL_VERSION\<rparr>"

text \<open>
  Every \<open>read\<close> of the library reads a \<open>ClassInfo\<close> into a default one and compares it with the class's own;
  a mismatch is logged and ends the read.
\<close>

definition read_info :: "BinaryBuffer \<Rightarrow> BinaryBuffer \<times> ClassInfo" where
  "read_info bb = (case bb_read bb (ClassInfo_bytes ClassInfo_default) of (bb', d) \<Rightarrow> (bb', ClassInfo_of_bytes d))"

section \<open>Text input of integers\<close>

text \<open>
  \<open>is >> n\<close> for a 64-bit integer: a sign and digits; no digits give zero and the fail bit, a number out of
  range the nearest bound and the fail bit. With nothing to read \<open>n\<close> is unchanged.
\<close>

definition sign_split :: "string \<Rightarrow> bool \<times> string" where
  "sign_split s = (case s of [] \<Rightarrow> (False, [])
     | c # t \<Rightarrow> if c = CHR ''-'' then (True, t) else if c = CHR ''+'' then (False, t) else (False, s))"

definition read_int64 :: "istream \<Rightarrow> int64 \<Rightarrow> istream \<times> int64" where
  "read_int64 is v =
     (if \<not> good is then (is\<lparr>failbit := True\<rparr>, v)
      else
        let s = dropWhile isspace (rest is) in
        if s = [] then (is\<lparr>rest := [], eofbit := True, failbit := True\<rparr>, v)
        else
          let (neg, t) = sign_split s;
              ds = takeWhile isdigit t;
              r = dropWhile isdigit t;
              n = (if neg then - int (read_nat ds) else int (read_nat ds))
          in if ds = [] then (is\<lparr>rest := r, eofbit := (r = []), failbit := True\<rparr>, 0)
             else if n < - (2 ^ 63) then (is\<lparr>rest := r, eofbit := (r = []), failbit := True\<rparr>, word_of_int (- (2 ^ 63)))
             else if 2 ^ 63 \<le> n then (is\<lparr>rest := r, eofbit := (r = []), failbit := True\<rparr>, word_of_int (2 ^ 63 - 1))
             else (is\<lparr>rest := r, eofbit := (r = [])\<rparr>, word_of_int n))"

section \<open>Object\<close>

definition NULL_ID :: int64 where "NULL_ID = - 1"

record Object =
  mid :: int64

definition Object_INFO :: ClassInfo where "Object_INFO = static_info ''Object'' 1"

definition Object_data_bytes :: "Object \<Rightarrow> byte list" where
  "Object_data_bytes ob = word_bytes (mid ob)"

definition Object_initialize :: "Object \<Rightarrow> int64 \<Rightarrow> Object \<times> bool" where
  "Object_initialize ob data = (ob\<lparr>mid := data\<rparr>, True)"

definition Object_of :: "int64 \<Rightarrow> Object" where
  "Object_of data = fst (Object_initialize \<lparr>mid = NULL_ID\<rparr> data)"

definition Object_set_id :: "Object \<Rightarrow> int64 \<Rightarrow> Object" where "Object_set_id ob value = ob\<lparr>mid := value\<rparr>"

text \<open>
  \<open>assign\<close> copies \<open>data_size ()\<close> bytes from the data of the other object, whose \<open>data ()\<close> is virtual: the
  argument is the byte representation that \<open>o.data ()\<close> points to.
\<close>

definition Object_assign :: "Object \<Rightarrow> byte list \<Rightarrow> Object outcome" where
  "Object_assign ob odata =
     (if length odata < 8 then Undef else Ret (ob\<lparr>mid := bytes_word (take 8 odata)\<rparr>))"

definition Object_copy :: "byte list \<Rightarrow> Object outcome" where
  "Object_copy odata = Object_assign \<lparr>mid = NULL_ID\<rparr> odata"

definition Object_id :: "Object \<Rightarrow> int64" where "Object_id ob = mid ob"

definition Object_hash :: "Object \<Rightarrow> int64" where "Object_hash ob = Object_id ob"

definition Object_equals :: "Object \<Rightarrow> Object \<Rightarrow> bool" where
  "Object_equals a b = equal_hash (Object_hash a) (Object_data_bytes a) (Object_hash b) (Object_data_bytes b)"

text \<open>\<open>clone\<close> makes a new object from the id.\<close>

definition Object_clone :: "Object \<Rightarrow> Object" where "Object_clone ob = Object_of (mid ob)"

definition Object_to_string :: "Object \<Rightarrow> string" where
  "Object_to_string ob = to_string False (sint (mid ob)) CHR '',''"

definition Object_debug_string :: "Object \<Rightarrow> string" where
  "Object_debug_string ob = ''id = '' @ Object_to_string ob"

definition Object_write :: "BinaryBuffer \<Rightarrow> Object \<Rightarrow> BinaryBuffer" where
  "Object_write bb ob =
     (let bb = bb_write bb (ClassInfo_bytes Object_INFO);
          bb = bb_write bb (Object_data_bytes ob)
      in bb)"

definition Object_read :: "BinaryBuffer \<Rightarrow> Object \<Rightarrow> BinaryBuffer \<times> Object" where
  "Object_read bb ob =
     (case read_info bb of (bb, info) \<Rightarrow>
        if \<not> ClassInfo_eq info Object_INFO then (bb, ob)
        else case bb_read bb (Object_data_bytes ob) of (bb, d) \<Rightarrow> (bb, ob\<lparr>mid := bytes_word d\<rparr>))"

definition Object_read_text :: "istream \<Rightarrow> Object \<Rightarrow> istream \<times> Object" where
  "Object_read_text is ob = (case read_int64 is (mid ob) of (is', v) \<Rightarrow> (is', ob\<lparr>mid := v\<rparr>))"

definition Object_write_text :: "string \<Rightarrow> Object \<Rightarrow> string" where
  "Object_write_text os ob = os @ show_int (sint (Object_id ob))"

section \<open>Representation\<close>

lemma char_of_byte_of_char [simp]: "char_of_byte (byte_of_char c) = c"
  by (simp add: char_of_byte_def byte_of_char_def unat_byte_of_nat code_def)

lemma byte_of_char_of_byte [simp]: "byte_of_char (char_of_byte b) = b"
  using unat_byte_less [of b] by (simp add: char_of_byte_def byte_of_char_def)

definition ClassInfo_wf :: "ClassInfo \<Rightarrow> bool" where
  "ClassInfo_wf i \<longleftrightarrow> length (mnamespace i) = MAX_IDENTIFIER_SIZE \<and> length (mclass_name i) = MAX_IDENTIFIER_SIZE"

lemma length_ClassInfo_bytes [layout_simps]: "ClassInfo_wf i \<Longrightarrow> length (ClassInfo_bytes i) = 206"
  by (simp add: ClassInfo_bytes_def ClassInfo_wf_def MAX_IDENTIFIER_SIZE_def length_word_bytes)

lemma ClassInfo_of_bytes_bytes: "ClassInfo_wf i \<Longrightarrow> ClassInfo_of_bytes (ClassInfo_bytes i) = i"
  by (simp add: ClassInfo_of_bytes_def ClassInfo_bytes_def ClassInfo_wf_def MAX_IDENTIFIER_SIZE_def
      length_word_bytes bytes_word_bytes comp_def)

lemma ClassInfo_wf_of_bytes: "206 \<le> length b \<Longrightarrow> ClassInfo_wf (ClassInfo_of_bytes b)"
  by (simp add: ClassInfo_of_bytes_def ClassInfo_wf_def MAX_IDENTIFIER_SIZE_def)

lemma ClassInfo_eq_iff: "ClassInfo_wf a \<Longrightarrow> ClassInfo_wf b \<Longrightarrow> ClassInfo_eq a b \<longleftrightarrow> a = b"
  unfolding ClassInfo_eq_def equal_memcmp_def by (metis ClassInfo_of_bytes_bytes)

lemma ClassInfo_of_wf: "ClassInfo_of ns cn p q r = Ret i \<Longrightarrow> ClassInfo_wf i"
  by (auto simp: ClassInfo_of_def outcome_simps ClassInfo_wf_def cs_ok_def CS_def dest!: cs_of_string_ok)

lemma ClassInfo_of_Ret:
  assumes "NUL \<notin> set ns" "length ns < 100" "NUL \<notin> set cn" "length cn < 100"
  shows "\<exists>i. ClassInfo_of ns cn p q r = Ret i \<and> ClassInfo_wf i
    \<and> cs_str (mnamespace i) = ns \<and> cs_str (mclass_name i) = cn"
proof -
  obtain a where a: "cs_of_string Identifier ns = Ret a" "cs_str a = ns"
    using cs_of_string_Ret [of ns Identifier] assms by (auto simp: CS_def MAX_IDENTIFIER_SIZE_def)
  obtain b where b: "cs_of_string Identifier cn = Ret b" "cs_str b = cn"
    using cs_of_string_Ret [of cn Identifier] assms by (auto simp: CS_def MAX_IDENTIFIER_SIZE_def)
  then show ?thesis using a ClassInfo_of_wf [of ns cn p q r] by (auto simp: ClassInfo_of_def)
qed

lemma ClassInfo_default_wf [simp]: "ClassInfo_wf ClassInfo_default"
  by (simp add: ClassInfo_wf_def ClassInfo_default_def padded_def)

text \<open>The static descriptions are well-formed and told apart by the class name.\<close>

lemma static_info_props:
  assumes "NUL \<notin> set cn" "length cn < 100"
  shows "ClassInfo_wf (static_info cn p)" "cs_str (mclass_name (static_info cn p)) = cn"
    "cs_str (mnamespace (static_info cn p)) = CPPLIB_NAMESPACE"
proof -
  have "NUL \<notin> set CPPLIB_NAMESPACE" "length CPPLIB_NAMESPACE < 100"
    by (simp_all add: CPPLIB_NAMESPACE_def NUL_def)
  from ClassInfo_of_Ret [OF this assms, of p 1 1] show "ClassInfo_wf (static_info cn p)"
    "cs_str (mclass_name (static_info cn p)) = cn" "cs_str (mnamespace (static_info cn p)) = CPPLIB_NAMESPACE"
    by (auto simp: static_info_def)
qed

lemma static_info_neq:
  assumes "NUL \<notin> set cn" "length cn < 100" "NUL \<notin> set cn'" "length cn' < 100" "cn \<noteq> cn'"
  shows "\<not> ClassInfo_eq (static_info cn p) (static_info cn' q)"
  using static_info_props [OF assms(1,2), of p] static_info_props [OF assms(3,4), of q] assms(5)
  by (metis ClassInfo_eq_iff)

lemma Object_INFO_wf [simp]: "ClassInfo_wf Object_INFO"
  unfolding Object_INFO_def by (rule static_info_props) (simp_all add: NUL_def)

lemma length_int64_bytes [layout_simps]: "length (word_bytes (v :: int64)) = 8"
  by (simp add: length_word_bytes)

lemma int64_bytes_inverse [simp]: "bytes_word (word_bytes (v :: int64)) = v"
  by (rule bytes_word_bytes) simp

text \<open>Reading a description that is next in the buffer.\<close>

lemma read_info_front:
  assumes "bb_inv bb" "bb_pending bb = ClassInfo_bytes i @ ys" "ClassInfo_wf i"
  obtains bb' where "read_info bb = (bb', i)" "bb_inv bb'" "bb_pending bb' = ys"
proof -
  obtain bb' where "bb_read bb (ClassInfo_bytes ClassInfo_default) = (bb', ClassInfo_bytes i)"
      "bb_inv bb'" "bb_pending bb' = ys"
    by (rule bb.get_front [OF assms(1,2), of "ClassInfo_bytes ClassInfo_default"])
       (use assms(3) in \<open>simp_all add: layout_simps\<close>)
  then show thesis by (intro that) (use assms(3) in \<open>simp_all add: read_info_def ClassInfo_of_bytes_bytes\<close>)
qed

section \<open>Serialisation of an object\<close>

text \<open>The bytes \<open>Object::write\<close> appends.\<close>

definition Object_image :: "Object \<Rightarrow> byte list" where
  "Object_image ob = ClassInfo_bytes Object_INFO @ Object_data_bytes ob"

lemma Object_write_put:
  "bb_inv bb \<Longrightarrow> bb_inv (Object_write bb ob) \<and> bb_pending (Object_write bb ob) = bb_pending bb @ Object_image ob"
  by (simp add: Object_write_def Object_image_def bb.put_inv bb.put_pending)

lemma Object_read_front:
  assumes "bb_inv bb" "bb_pending bb = Object_image ob @ ys"
  obtains bb' where "Object_read bb old = (bb', ob)" "bb_inv bb'" "bb_pending bb' = ys"
proof -
  obtain b1 where b1: "read_info bb = (b1, Object_INFO)" "bb_inv b1" "bb_pending b1 = Object_data_bytes ob @ ys"
    by (rule read_info_front [OF assms(1), of Object_INFO "Object_data_bytes ob @ ys"])
       (use assms(2) in \<open>simp_all add: Object_image_def\<close>)
  obtain b2 where b2: "bb_read b1 (Object_data_bytes old) = (b2, Object_data_bytes ob)" "bb_inv b2" "bb_pending b2 = ys"
    by (rule bb.get_front [OF b1(2,3), of "Object_data_bytes old"]) (simp_all add: Object_data_bytes_def layout_simps)
  show thesis
    by (rule that [of b2]) (use b1 b2 in \<open>simp_all add: Object_read_def ClassInfo_eq_iff Object_data_bytes_def\<close>)
qed

interpretation object: persistent Object_write Object_read Object_image "\<lambda>_. True"
proof
  fix bb ys and x old :: Object
  assume "bb_inv bb" "bb_pending bb = Object_image x @ ys"
  then show "\<exists>bb'. Object_read bb old = (bb', x) \<and> bb_inv bb' \<and> bb_pending bb' = ys" by (metis Object_read_front)
qed (rule Object_write_put, assumption, simp add: Object_write_def Let_def)

text \<open>
  An object written to a buffer with nothing pending is read back into any object, equal to the one
  written; when the next bytes are the description of another class the object is left as it was and
  only the description is consumed.
\<close>

theorem object_binary_roundtrip:
  assumes "bb_inv bb" "bb_pending bb = []"
  shows "(\<exists>bb'. Object_read (Object_write bb ob) old = (bb', ob) \<and> Object_equals ob ob
        \<and> bb_inv bb' \<and> bb_pending bb' = [])
    \<and> (\<forall>info. ClassInfo_wf info \<and> info \<noteq> Object_INFO \<longrightarrow>
        (\<exists>bb'. Object_read (bb_write bb (ClassInfo_bytes info)) old = (bb', old) \<and> bb_pending bb' = []))"
proof (intro conjI allI impI)
  have "bb_inv (Object_write bb ob)" "bb_pending (Object_write bb ob) = Object_image ob @ []"
    using Object_write_put [OF assms(1)] assms(2) by auto
  then obtain bb' where "Object_read (Object_write bb ob) old = (bb', ob)" "bb_inv bb'" "bb_pending bb' = []"
    by (rule Object_read_front)
  then show "\<exists>bb'. Object_read (Object_write bb ob) old = (bb', ob) \<and> Object_equals ob ob
      \<and> bb_inv bb' \<and> bb_pending bb' = []"
    by (simp add: Object_equals_def equal_hash_def equal_memcmp_def)
next
  fix info assume info: "ClassInfo_wf info \<and> info \<noteq> Object_INFO"
  obtain bb' where "read_info (bb_write bb (ClassInfo_bytes info)) = (bb', info)" "bb_inv bb'" "bb_pending bb' = []"
    by (rule read_info_front [of "bb_write bb (ClassInfo_bytes info)" info "[]"])
       (use info assms in \<open>simp_all add: bb.put_inv bb.put_pending\<close>)
  with info show "\<exists>bb'. Object_read (bb_write bb (ClassInfo_bytes info)) old = (bb', old) \<and> bb_pending bb' = []"
    by (simp add: Object_read_def ClassInfo_eq_iff)
qed

theorem object_binary_roundtrip_witness:
  "(\<exists>bb'. Object_read (Object_write (bb_new 0) (Object_of 42)) (Object_of 0) = (bb', Object_of 42))
   \<and> (\<exists>bb'. Object_read (bb_write (bb_new 0) (ClassInfo_bytes ClassInfo_default)) (Object_of 7) = (bb', Object_of 7))"
proof -
  have "cs_str (mclass_name ClassInfo_default) = []" by (simp add: ClassInfo_default_def padded_def cs_str_def)
  moreover have "cs_str (mclass_name Object_INFO) = ''Object''"
    unfolding Object_INFO_def by (rule static_info_props) (simp_all add: NUL_def)
  ultimately have "ClassInfo_default \<noteq> Object_INFO" by auto
  then have "\<exists>bb'. Object_read (bb_write (bb_new 0) (ClassInfo_bytes ClassInfo_default)) (Object_of 7) = (bb', Object_of 7)"
    using object_binary_roundtrip [OF bb_new_inv, of 0 "Object_of 42" "Object_of 7", THEN conjunct2,
        THEN spec, of ClassInfo_default] by auto
  moreover have "\<exists>bb'. Object_read (Object_write (bb_new 0) (Object_of 42)) (Object_of 0) = (bb', Object_of 42)"
    using object_binary_roundtrip [OF bb_new_inv, of 0 "Object_of 42" "Object_of 0", THEN conjunct1] by auto
  ultimately show ?thesis by blast
qed

section \<open>Text form\<close>

lemma sint_int64_bounds: "- (2 ^ 63) \<le> sint (v :: int64)" "sint (v :: int64) < 2 ^ 63"
  using sint_range_size [of v] by (simp_all add: size_word_def)

lemma digits_takeWhile:
  "\<forall>c\<in>set ds. isdigit c \<Longrightarrow> r = [] \<or> \<not> isdigit (hd r) \<Longrightarrow> takeWhile isdigit (ds @ r) = ds \<and> dropWhile isdigit (ds @ r) = r"
  by (induction ds) (cases r, auto)+

lemma show_nat_hd: "\<not> isspace (hd (show_nat n))" "hd (show_nat n) \<noteq> CHR ''-''" "hd (show_nat n) \<noteq> CHR ''+''"
proof -
  have "isdigit (hd (show_nat n))" by (rule show_nat_digits [of _ n]) simp
  then show "\<not> isspace (hd (show_nat n))" "hd (show_nat n) \<noteq> CHR ''-''" "hd (show_nat n) \<noteq> CHR ''+''"
    by (auto simp: isdigit_def isspace_def code_def)
qed

lemma show_nat_append_Cons: "\<exists>c t. show_nat n @ r = c # t \<and> c = hd (show_nat n)"
  by (cases "show_nat n") (use show_nat_nonempty in auto)

lemma show_int_lead: "dropWhile isspace (show_int k @ r) = show_int k @ r \<and> show_int k @ r \<noteq> []"
proof -
  obtain c t where "show_nat (nat k) @ r = c # t" "c = hd (show_nat (nat k))"
    using show_nat_append_Cons by metis
  with show_nat_hd(1) [of "nat k"] show ?thesis by (auto simp: show_int_def isspace_def code_def)
qed

lemma show_int_sign: "sign_split (show_int k @ r) = (k < 0, show_nat (nat \<bar>k\<bar>) @ r)"
proof -
  obtain c t where "show_nat (nat k) @ r = c # t" "c = hd (show_nat (nat k))"
    using show_nat_append_Cons by metis
  with show_nat_hd(2,3) [of "nat k"] show ?thesis by (auto simp: show_int_def sign_split_def)
qed

lemma read_int64_show:
  assumes "good is" "rest is = show_int (sint v) @ r" "r = [] \<or> \<not> isdigit (hd r)"
  shows "read_int64 is old = (is\<lparr>rest := r, eofbit := (r = [])\<rparr>, v)"
proof -
  let ?k = "sint v"
  have ds: "takeWhile isdigit (show_nat (nat \<bar>?k\<bar>) @ r) = show_nat (nat \<bar>?k\<bar>)"
    "dropWhile isdigit (show_nat (nat \<bar>?k\<bar>) @ r) = r"
    using digits_takeWhile [OF _ assms(3), of "show_nat (nat \<bar>?k\<bar>)"] show_nat_digits by auto
  have val: "(if ?k < 0 then - int (nat \<bar>?k\<bar>) else int (nat \<bar>?k\<bar>)) = ?k" by simp
  have ne: "show_int ?k @ r \<noteq> []" using show_int_lead [of ?k r] by blast
  have range: "\<not> ?k < - (2 ^ 63)" "\<not> 2 ^ 63 \<le> ?k" using sint_int64_bounds [of v] by linarith+
  have same: "word_of_int (sint v) = v" by simp
  show ?thesis
    unfolding read_int64_def assms(2) show_int_lead [THEN conjunct1] Let_def show_int_sign prod.case ds
      read_show_nat val
    by (simp only: assms(1) ne range show_nat_nonempty if_False if_True not_True_eq_False same)
qed

text \<open>An object's text form is read back when what follows it does not continue the number.\<close>

lemma object_text_roundtrip:
  assumes "good is" "rest is = Object_write_text [] ob @ r" "r = [] \<or> \<not> isdigit (hd r)"
  shows "Object_read_text is old = (is\<lparr>rest := r, eofbit := (r = [])\<rparr>, ob)"
  using read_int64_show [of "is" "mid ob" r "mid old"] assms
  by (simp add: Object_read_text_def Object_write_text_def Object_id_def)

section \<open>error.hpp\<close>

record Error = Object +
  error_message :: string

definition Error_of :: "string \<Rightarrow> int64 \<Rightarrow> Error" where
  "Error_of error_msg aid = \<lparr>mid = aid, error_message = error_msg\<rparr>"

definition get_error_message :: "Error \<Rightarrow> string" where "get_error_message e = error_message e"

definition set_error_message :: "Error \<Rightarrow> string \<Rightarrow> Error" where
  "set_error_message e error_msg = e\<lparr>error_message := error_msg\<rparr>"

definition append_error_message :: "Error \<Rightarrow> string \<Rightarrow> Error" where
  "append_error_message e error_msg = e\<lparr>error_message := error_message e @ error_msg\<rparr>"

text \<open>\<open>is >> id >> error_message\<close> reads into an uninitialised \<open>id\<close>, the argument \<open>garbage\<close>.\<close>

definition Error_read :: "int64 \<Rightarrow> istream \<Rightarrow> Error \<Rightarrow> istream \<times> Error" where
  "Error_read garbage is e =
     (case read_int64 is garbage of (is, i) \<Rightarrow>
        case read_word is of (is', s) \<Rightarrow>
          (is', e\<lparr>mid := i, error_message := (if good is then s else error_message e)\<rparr>))"

definition Error_write :: "string \<Rightarrow> Error \<Rightarrow> string" where
  "Error_write os e = os @ error_message e @ show_int (sint (mid e))"

definition Error_plus :: "Error \<Rightarrow> string \<Rightarrow> Error" where "Error_plus e msg = append_error_message e msg"

text \<open>The name of a class is the name that \<open>typeid\<close> gives, without the word that one compiler puts before it.\<close>

definition sclass_name :: "string \<Rightarrow> string" where
  "sclass_name typeid_name = (let s = typeid_name in if prefix ''class '' s then drop 6 s else s)"

definition class_name :: "string \<Rightarrow> string" where "class_name typeid_name = (let s = sclass_name typeid_name in s)"

text \<open>
  \<open>Exception\<close> keeps its message and does not override \<open>what\<close>, which gives the text of \<open>std::exception\<close>, an argument. The macro
  \<open>INVALID_ARGUMENT\<close> takes the place where it stands.
\<close>

record Exception =
  exception_message :: string

definition Exception_of :: "string \<Rightarrow> Exception" where "Exception_of message = \<lparr>exception_message = message\<rparr>"

definition what_error :: "string \<Rightarrow> Exception \<Rightarrow> string" where "what_error std_what e = std_what"

definition INVALID_ARGUMENT :: "string \<Rightarrow> nat \<Rightarrow> bool \<Rightarrow> string \<Rightarrow> unit outcome" where
  "INVALID_ARGUMENT file line condition message =
     (if condition then Raise (Invalid_argument (file @ [CHR 0x09] @ show_nat line @ [CHR 0x09] @ message @ [CHR 0x0A])) else Ret ())"

definition log_and_throw :: "string \<Rightarrow> 'a outcome" where
  "log_and_throw error_msg = Raise (Lib_error error_msg)"

text \<open>
  \<open>write\<close> puts the message first and the id last, \<open>read\<close> expects the id first: a written error whose
  message does not start with a number is not read back.
\<close>

lemma error_text_order:
  "snd (Error_read 0 (open_istream (Error_write [] (Error_of ''disk'' 7))) (Error_of [] 1)) = Error_of [] 0"
  by code_simp

end
