(* ===== verification/Factory.thy ===== *)
theory Factory
  imports Cpp_Std
begin

text \<open>
  factory.hpp: the factories that make or pool shared objects. A \<open>shared_ptr\<close> in the pool is an object and
  its use count; the pool itself holds one use. \<open>PoolFactory::get\<close> copies the pointer into a heap
  allocated \<open>shared_ptr\<close> that is never deleted, and returns a copy of that one, so a handed-out object has
  two further uses of which the client gives back one. The object type is abstract: \<open>mk\<close> is its
  constructor and \<open>ini\<close> its \<open>initialize\<close>.
\<close>

section \<open>The factories\<close>

definition NewFactory_get :: "('args \<Rightarrow> 'o) \<Rightarrow> 'args \<Rightarrow> 'o" where
  "NewFactory_get mk args = mk args"

text \<open>\<open>MockupFactory\<close> wraps the same raw pointer each time, whatever the arguments.\<close>

record 'o MockupFactory =
  mockup_pointer :: 'o

definition MockupFactory_get :: "'o MockupFactory \<Rightarrow> 'args \<Rightarrow> 'o" where
  "MockupFactory_get f args = mockup_pointer f"

record 'o SingletonFactory =
  singleton :: 'o

definition SingletonFactory_of :: "('args \<Rightarrow> 'o) \<Rightarrow> 'args \<Rightarrow> 'o SingletonFactory" where
  "SingletonFactory_of mk args = \<lparr>singleton = mk args\<rparr>"

definition SingletonFactory_get :: "'o SingletonFactory \<Rightarrow> 'args \<Rightarrow> 'o" where
  "SingletonFactory_get f args = singleton f"

section \<open>PoolFactory\<close>

record 'o pool_slot =
  ps_obj :: 'o
  use_count :: nat

record 'o PoolFactory =
  pool :: "'o pool_slot list"
  available_count :: "64 word"
  refill_size :: nat

definition new_slots :: "('args \<Rightarrow> 'o) \<Rightarrow> 'args \<Rightarrow> nat \<Rightarrow> 'o pool_slot list" where
  "new_slots mk args n = replicate n \<lparr>ps_obj = mk args, use_count = 1\<rparr>"

definition fill_pool :: "('args \<Rightarrow> 'o) \<Rightarrow> 'args \<Rightarrow> nat \<Rightarrow> 'o PoolFactory \<Rightarrow> 'o PoolFactory" where
  "fill_pool mk args pool_size f =
     f\<lparr>pool := pool f @ new_slots mk args pool_size, available_count := word_of_nat pool_size\<rparr>"

definition pool_add :: "('args \<Rightarrow> 'o) \<Rightarrow> 'args \<Rightarrow> nat \<Rightarrow> 'o PoolFactory \<Rightarrow> 'o PoolFactory" where
  "pool_add mk args count f =
     f\<lparr>pool := pool f @ new_slots mk args count, available_count := available_count f + word_of_nat count\<rparr>"

definition PoolFactory_of :: "('args \<Rightarrow> 'o) \<Rightarrow> 'args \<Rightarrow> nat \<Rightarrow> nat \<Rightarrow> 'o PoolFactory" where
  "PoolFactory_of mk args initial_pool_size a_refill_size =
     fill_pool mk args initial_pool_size \<lparr>pool = [], available_count = 0, refill_size = a_refill_size\<rparr>"

definition PoolFactory_default :: "('args \<Rightarrow> 'o) \<Rightarrow> 'args \<Rightarrow> 'o PoolFactory" where
  "PoolFactory_default mk args = PoolFactory_of mk args 10 10"

text \<open>Handing out slot \<open>i\<close>.\<close>

definition hand_out :: "('args \<Rightarrow> 'o \<Rightarrow> 'o) \<Rightarrow> 'args \<Rightarrow> nat \<Rightarrow> 'o PoolFactory \<Rightarrow> 'o PoolFactory" where
  "hand_out ini args i f =
     f\<lparr>pool := (pool f)[i := \<lparr>ps_obj = ini args (ps_obj (pool f ! i)), use_count = use_count (pool f ! i) + 2\<rparr>],
       available_count := available_count f - 1\<rparr>"

partial_function (option) PoolFactory_get ::
    "('args \<Rightarrow> 'o) \<Rightarrow> ('args \<Rightarrow> 'o \<Rightarrow> 'o) \<Rightarrow> 'args \<Rightarrow> 'o PoolFactory \<Rightarrow> (nat \<times> 'o PoolFactory) outcome option" where
  "PoolFactory_get mk ini args f =
     (case find_index (\<lambda>s. use_count s < 2) (pool f) of
        Some i \<Rightarrow> Some (Ret (i, hand_out ini args i f))
      | None \<Rightarrow>
          if available_count f \<noteq> 0 then Some Terminate
          else PoolFactory_get mk ini args (pool_add mk args (refill_size f) f))"

definition get_available_count :: "'o PoolFactory \<Rightarrow> 64 word" where "get_available_count f = available_count f"

definition get_pool_size :: "'o PoolFactory \<Rightarrow> nat" where "get_pool_size f = length (pool f)"

definition get_refill_size :: "'o PoolFactory \<Rightarrow> nat" where "get_refill_size f = refill_size f"

definition set_refill_size :: "'o PoolFactory \<Rightarrow> nat \<Rightarrow> 'o PoolFactory" where
  "set_refill_size f value = f\<lparr>refill_size := value\<rparr>"

definition PoolFactory_reset :: "('args \<Rightarrow> 'o) \<Rightarrow> 'args \<Rightarrow> nat \<Rightarrow> nat \<Rightarrow> 'o PoolFactory \<Rightarrow> 'o PoolFactory" where
  "PoolFactory_reset mk args initial_pool_size a_refill_size f =
     (let f = fill_pool mk args initial_pool_size (f\<lparr>pool := []\<rparr>)
      in f\<lparr>available_count := word_of_nat initial_pool_size, refill_size := a_refill_size\<rparr>)"

text \<open>The client destroys its \<open>shared_ptr\<close>.\<close>

definition release :: "nat \<Rightarrow> 'o PoolFactory \<Rightarrow> 'o PoolFactory" where
  "release i f = f\<lparr>pool := (pool f)[i := (pool f ! i)\<lparr>use_count := use_count (pool f ! i) - 1\<rparr>]\<rparr>"

text \<open>
  \<open>Factory\<close> keeps a pointer to the base class. \<open>PoolFactory::get\<close> is not \<open>const\<close> and so does not override
  the base's \<open>get\<close>: a call through the pointer makes a new object and leaves the pool as it is.
\<close>

record 'o Factory =
  mfactory_ptr :: "'o PoolFactory"

definition Factory_of :: "('args \<Rightarrow> 'o) \<Rightarrow> nat \<Rightarrow> nat \<Rightarrow> 'args \<Rightarrow> 'o Factory" where
  "Factory_of mk pool_size refill args = \<lparr>mfactory_ptr = PoolFactory_of mk args pool_size refill\<rparr>"

definition Factory_get :: "('args \<Rightarrow> 'o) \<Rightarrow> 'args \<Rightarrow> 'o Factory \<Rightarrow> 'o \<times> 'o Factory" where
  "Factory_get mk args f = (NewFactory_get mk args, f)"

section \<open>The pool as a state machine\<close>

text \<open>
  The state is the factory and the slots clients hold. Clients ask, give back and change the refill size;
  a reset forgets the objects of the old pool. The pool stays below the range of \<open>size_t\<close>.
\<close>

inductive pool_step ::
    "('args \<Rightarrow> 'o) \<Rightarrow> ('args \<Rightarrow> 'o \<Rightarrow> 'o) \<Rightarrow> 'o PoolFactory \<times> nat list \<Rightarrow> 'o PoolFactory \<times> nat list \<Rightarrow> bool"
  for mk ini where
  get: "PoolFactory_get mk ini args f = Some (Ret (i, f')) \<Longrightarrow> length (pool f') < size_max \<Longrightarrow>
    pool_step mk ini (f, held) (f', i # held)"
| give_back: "i \<in> set held \<Longrightarrow> pool_step mk ini (f, held) (release i f, remove1 i held)"
| set_refill: "pool_step mk ini (f, held) (set_refill_size f n, held)"
| reset: "n < size_max \<Longrightarrow> pool_step mk ini (f, held) (PoolFactory_reset mk args n r f, [])"

inductive pool_reachable :: "('args \<Rightarrow> 'o) \<Rightarrow> ('args \<Rightarrow> 'o \<Rightarrow> 'o) \<Rightarrow> 'o PoolFactory \<times> nat list \<Rightarrow> bool"
  for mk ini where
  start: "n < size_max \<Longrightarrow> pool_reachable mk ini (PoolFactory_of mk args n r, [])"
| step: "pool_reachable mk ini st \<Longrightarrow> pool_step mk ini st st' \<Longrightarrow> pool_reachable mk ini st'"

definition free_slots :: "'o PoolFactory \<Rightarrow> nat" where
  "free_slots f = length (filter (\<lambda>s. use_count s < 2) (pool f))"

definition pool_inv :: "'o PoolFactory \<times> nat list \<Rightarrow> bool" where
  "pool_inv st \<longleftrightarrow> (case st of (f, held) \<Rightarrow>
     distinct held \<and> (\<forall>i\<in>set held. i < length (pool f) \<and> 3 \<le> use_count (pool f ! i))
     \<and> (\<forall>s\<in>set (pool f). 1 \<le> use_count s)
     \<and> length (pool f) < size_max \<and> unat (available_count f) = free_slots f)"

lemma free_slots_update:
  assumes "i < length (pool f)"
  shows "free_slots (f\<lparr>pool := (pool f)[i := s]\<rparr>) + (if use_count (pool f ! i) < 2 then 1 else 0)
    = free_slots f + (if use_count s < 2 then 1 else 0)"
proof -
  let ?P = "\<lambda>s. use_count s < 2"
  have "length (filter ?P (take i (pool f) @ pool f ! i # drop (Suc i) (pool f))) = length (filter ?P (pool f))"
    using id_take_nth_drop [OF assms] by simp
  then show ?thesis
    using assms by (simp add: free_slots_def upd_conv_take_nth_drop split: if_splits)
qed

lemma free_slots_new [simp]: "length (filter (\<lambda>s. use_count s < 2) (new_slots mk args n)) = n"
  by (simp add: new_slots_def)

lemma find_free_None: "find_index (\<lambda>s. use_count s < 2) (pool f) = None \<longleftrightarrow> free_slots f = 0"
  by (auto simp: find_index_None free_slots_def filter_empty_conv)

lemma unat_pred: "0 < unat (a :: 64 word) \<Longrightarrow> unat (a - 1) = unat a - 1"
  by (metis One_nat_def Suc_leI unat_1 unat_sub word_le_nat_alt)

text \<open>A call on a state that satisfies the invariant.\<close>

lemma hand_out_inv:
  assumes "pool_inv (f, held)" "find_index (\<lambda>s. use_count s < 2) (pool f) = Some i"
  shows "pool_inv (hand_out ini args i f, i # held)" "i \<notin> set held"
proof -
  let ?s = "\<lparr>ps_obj = ini args (ps_obj (pool f ! i)), use_count = use_count (pool f ! i) + 2\<rparr>"
  have i: "i < length (pool f)" "use_count (pool f ! i) < 2" using assms(2) by (auto simp: find_index_Some)
  show notin: "i \<notin> set held" using assms(1) i(2) by (force simp: pool_inv_def)
  have "1 \<le> use_count (pool f ! i)" using assms(1) i(1) by (auto simp: pool_inv_def)
  moreover have free: "free_slots (f\<lparr>pool := (pool f)[i := ?s]\<rparr>) + 1 = free_slots f"
    using free_slots_update [OF i(1), of ?s] i(2) by simp
  moreover have "unat (available_count f - 1) = unat (available_count f) - 1"
    using assms(1) free by (intro unat_pred) (simp add: pool_inv_def)
  moreover have "free_slots (hand_out ini args i f) = free_slots (f\<lparr>pool := (pool f)[i := ?s]\<rparr>)"
    by (simp add: hand_out_def free_slots_def)
  ultimately show "pool_inv (hand_out ini args i f, i # held)"
    using assms(1) i notin
    by (auto simp: pool_inv_def hand_out_def nth_list_update dest!: set_update_subset_insert [THEN subsetD])
qed

lemma pool_add_inv:
  assumes "pool_inv (f, held)" "available_count f = 0" "length (pool f) + n < size_max"
  shows "pool_inv (pool_add mk args n f, held)"
proof -
  have "unat (word_of_nat n :: 64 word) = n"
    using assms(3) by (simp add: unat_of_nat size_max_def)
  then show ?thesis
    using assms by (auto simp: pool_inv_def pool_add_def free_slots_def nth_append) (auto simp: new_slots_def)
qed

lemma PoolFactory_get_found:
  "find_index (\<lambda>s. use_count s < 2) (pool f) = Some i \<Longrightarrow>
     PoolFactory_get mk ini args f = Some (Ret (i, hand_out ini args i f))"
  by (subst PoolFactory_get.simps) simp

lemma find_free_added:
  "0 < n \<Longrightarrow> \<exists>i. find_index (\<lambda>s. use_count s < 2) (pool (pool_add mk args n f)) = Some i"
proof -
  assume "0 < n"
  then have "free_slots (pool_add mk args n f) \<noteq> 0" by (simp add: free_slots_def pool_add_def)
  then show ?thesis using find_free_None [of "pool_add mk args n f"] by (cases "find_index (\<lambda>s. use_count s < 2) (pool (pool_add mk args n f))") auto
qed

lemma PoolFactory_get_full:
  assumes "free_slots f = 0" "available_count f = 0" "0 < refill_size f"
  shows "\<exists>i. PoolFactory_get mk ini args f = Some (Ret (i, hand_out ini args i (pool_add mk args (refill_size f) f)))
    \<and> find_index (\<lambda>s. use_count s < 2) (pool (pool_add mk args (refill_size f) f)) = Some i"
proof -
  obtain i where i: "find_index (\<lambda>s. use_count s < 2) (pool (pool_add mk args (refill_size f) f)) = Some i"
    using find_free_added [OF assms(3), of mk args f] by auto
  have "PoolFactory_get mk ini args f = PoolFactory_get mk ini args (pool_add mk args (refill_size f) f)"
    using assms find_free_None [of f] by (subst PoolFactory_get.simps) simp
  with PoolFactory_get_found [OF i] i show ?thesis by auto
qed

text \<open>With nothing free, nothing to count and no refill the call never returns.\<close>

definition exhausted :: "'o PoolFactory \<Rightarrow> bool" where
  "exhausted f \<longleftrightarrow> free_slots f = 0 \<and> available_count f = 0 \<and> refill_size f = 0"

lemma exhausted_add: "exhausted f \<Longrightarrow> exhausted (pool_add mk args (refill_size f) f)"
  by (simp add: exhausted_def pool_add_def new_slots_def free_slots_def)

lemma PoolFactory_get_returns:
  assumes "PoolFactory_get mk ini args f = Some r"
  shows "\<not> exhausted f"
proof (rule PoolFactory_get.raw_induct [of "\<lambda>mk ini args f r. \<not> exhausted f", OF _ assms])
  fix get mk ini args f r
  assume IH: "\<And>mk ini args f r. get mk ini args f = Some r \<Longrightarrow> \<not> exhausted f"
    and step: "(case find_index (\<lambda>s. use_count s < 2) (pool f) of
          None \<Rightarrow> if available_count f \<noteq> 0 then Some Terminate
            else get mk ini args (pool_add mk args (refill_size f) f)
        | Some i \<Rightarrow> Some (Ret (i, hand_out ini args i f))) = Some r"
  show "\<not> exhausted f"
  proof
    assume ex: "exhausted f"
    then have "get mk ini args (pool_add mk args (refill_size f) f) = Some r"
      using step find_free_None [of f] by (simp add: exhausted_def)
    then have "\<not> exhausted (pool_add mk args (refill_size f) f)" by (rule IH)
    with exhausted_add [OF ex, of mk args] show False by simp
  qed
qed

lemma PoolFactory_get_stuck: "exhausted f \<Longrightarrow> PoolFactory_get mk ini args f = None"
  using PoolFactory_get_returns [of mk ini args f] by (cases "PoolFactory_get mk ini args f") auto

text \<open>What a call does to a state that satisfies the invariant.\<close>

lemma PoolFactory_get_cases:
  assumes "pool_inv (f, held)"
  obtains (free) i where "find_index (\<lambda>s. use_count s < 2) (pool f) = Some i"
      "PoolFactory_get mk ini args f = Some (Ret (i, hand_out ini args i f))"
  | (refill) i where "available_count f = 0" "0 < refill_size f"
      "find_index (\<lambda>s. use_count s < 2) (pool (pool_add mk args (refill_size f) f)) = Some i"
      "PoolFactory_get mk ini args f = Some (Ret (i, hand_out ini args i (pool_add mk args (refill_size f) f)))"
  | (stuck) "PoolFactory_get mk ini args f = None" "free_slots f = 0" "refill_size f = 0"
proof (cases "find_index (\<lambda>s. use_count s < 2) (pool f)")
  case (Some i)
  then show thesis by (rule free) (rule PoolFactory_get_found [OF Some])
next
  case None
  then have none: "free_slots f = 0" by (simp add: find_free_None)
  with assms have avail: "available_count f = 0" by (simp add: pool_inv_def unsigned_eq_0_iff)
  show thesis
  proof (cases "refill_size f = 0")
    case True
    with none avail show thesis by (intro stuck) (simp_all add: PoolFactory_get_stuck exhausted_def)
  next
    case False
    with PoolFactory_get_full [OF none avail, of mk ini args] avail refill show thesis by auto
  qed
qed

lemma pool_step_inv:
  assumes "pool_inv (f, held)" "pool_step mk ini (f, held) st"
  shows "pool_inv st"
  using assms(2)
proof cases
  case 1: (get args i f')
  from assms(1) show ?thesis
  proof (cases rule: PoolFactory_get_cases [where mk = mk and ini = ini and args = args])
    case (free j)
    with 1 hand_out_inv [OF assms(1) free(1)] show ?thesis by auto
  next
    case (refill j)
    with 1 have "length (pool f) + refill_size f < size_max"
      by (auto simp: hand_out_def pool_add_def new_slots_def)
    with refill 1 hand_out_inv [OF pool_add_inv [OF assms(1) refill(1)] refill(3)] show ?thesis by auto
  next
    case stuck
    with 1 show ?thesis by simp
  qed
next
  case 2: (give_back i)
  then have i: "i < length (pool f)" "3 \<le> use_count (pool f ! i)" using assms(1) by (auto simp: pool_inv_def)
  have "free_slots (release i f) = free_slots f"
    using free_slots_update [OF i(1), of "(pool f ! i)\<lparr>use_count := use_count (pool f ! i) - 1\<rparr>"] i(2)
    by (simp add: release_def)
  with 2 i assms(1) show ?thesis
    by (auto simp: pool_inv_def release_def nth_list_update dest!: set_update_subset_insert [THEN subsetD])
next
  case 3: (set_refill n)
  with assms(1) show ?thesis by (simp add: pool_inv_def set_refill_size_def free_slots_def)
next
  case (reset n args r)
  then show ?thesis
    by (simp add: pool_inv_def PoolFactory_reset_def fill_pool_def free_slots_def unat_of_nat size_max_def)
       (simp add: new_slots_def)
qed

lemma pool_reachable_inv: "pool_reachable mk ini st \<Longrightarrow> pool_inv st"
proof (induction rule: pool_reachable.induct)
  case (start n args r)
  then show ?case
    by (simp add: pool_inv_def PoolFactory_of_def fill_pool_def free_slots_def unat_of_nat size_max_def)
       (simp add: new_slots_def)
next
  case (step st st')
  then show ?case by (cases st) (auto intro: pool_step_inv)
qed

text \<open>
  C19: In every state the pool can reach, no object is handed out to two clients at once, the available
  count is the number of free slots, and asking for an object returns one nobody holds, initialised with
  the arguments, the assertion never failing, as long as the pool can be refilled. With a refill size of
  zero a call on a pool with no free slot never returns.
\<close>

theorem pool_exclusive:
  assumes "pool_reachable mk ini (f, held)"
  shows "distinct held \<and> unat (get_available_count f) = free_slots f
    \<and> (free_slots f > 0 \<or> refill_size f > 0 \<longrightarrow>
        (\<exists>i f'. PoolFactory_get mk ini args f = Some (Ret (i, f')) \<and> i \<notin> set held \<and> i < length (pool f')
           \<and> (\<exists>x. ps_obj (pool f' ! i) = ini args x)))
    \<and> (free_slots f = 0 \<and> refill_size f = 0 \<longrightarrow> PoolFactory_get mk ini args f = None)"
proof -
  have inv: "pool_inv (f, held)" by (rule pool_reachable_inv [OF assms])
  have held: "i < length (pool f)" "\<not> use_count (pool f ! i) < 2" if "i \<in> set held" for i
    using inv that by (auto simp: pool_inv_def)
  have "(\<exists>i f'. PoolFactory_get mk ini args f = Some (Ret (i, f')) \<and> i \<notin> set held \<and> i < length (pool f')
      \<and> (\<exists>x. ps_obj (pool f' ! i) = ini args x))
    \<or> PoolFactory_get mk ini args f = None \<and> free_slots f = 0 \<and> refill_size f = 0"
    using inv
  proof (cases rule: PoolFactory_get_cases [where mk = mk and ini = ini and args = args])
    case (free i)
    then have "i < length (pool f)" "i \<notin> set held"
      using held by (auto simp: find_index_Some)
    with free(2) show ?thesis by (auto simp: hand_out_def)
  next
    case (refill i)
    then have "i < length (pool (pool_add mk args (refill_size f) f))" "i \<notin> set held"
      using held by (auto simp: find_index_Some pool_add_def nth_append)
    with refill(4) show ?thesis by (auto simp: hand_out_def)
  qed auto
  moreover have "unat (get_available_count f) = free_slots f" "distinct held"
    using inv by (auto simp: pool_inv_def get_available_count_def)
  moreover have "PoolFactory_get mk ini args f = None" if "free_slots f = 0 \<and> refill_size f = 0"
    using that inv by (intro PoolFactory_get_stuck) (simp add: exhausted_def pool_inv_def unsigned_eq_0_iff)
  ultimately show ?thesis by auto
qed

theorem pool_exclusive_witness:
  "\<exists>i f'. PoolFactory_get (\<lambda>x :: nat. x) (\<lambda>x y. x) 7 (PoolFactory_of (\<lambda>x. x) 0 1 1) = Some (Ret (i, f'))"
proof -
  have r: "pool_reachable (\<lambda>x :: nat. x) (\<lambda>x y. x) (PoolFactory_of (\<lambda>x. x) 0 1 1, [])"
    by (rule pool_reachable.start) (simp add: size_max_def)
  have "refill_size (PoolFactory_of (\<lambda>x :: nat. x) 0 1 1) > 0" by (simp add: PoolFactory_of_def fill_pool_def)
  then show ?thesis using pool_exclusive [OF r, of 7] by auto
qed

text \<open>
  An object that a client gives back does not become available: the use of the leaked pointer stays,
  so the number of free slots is unchanged and the pool only grows. And a \<open>Factory\<close> never takes an object
  from its pool: every call makes a new object and leaves the pool as it is.
\<close>

theorem pool_never_recycles:
  assumes "pool_reachable mk ini (f, held)" "i \<in> set held"
  shows "2 \<le> use_count (pool (release i f) ! i) \<and> free_slots (release i f) = free_slots f
    \<and> Factory_get mk args fac = (mk args, fac)"
proof -
  have i: "i < length (pool f)" "3 \<le> use_count (pool f ! i)"
    using pool_reachable_inv [OF assms(1)] assms(2) by (auto simp: pool_inv_def)
  have "free_slots (release i f) = free_slots f"
    using free_slots_update [OF i(1), of "(pool f ! i)\<lparr>use_count := use_count (pool f ! i) - 1\<rparr>"] i(2)
    by (simp add: release_def)
  with i show ?thesis by (simp add: release_def Factory_get_def NewFactory_get_def)
qed

theorem pool_never_recycles_witness:
  "\<exists>f :: nat PoolFactory. \<exists>i. pool_reachable (\<lambda>x. x) (\<lambda>x y. x) (f, [i]) \<and> free_slots (release i f) = free_slots f"
proof -
  let ?f = "PoolFactory_of (\<lambda>x :: nat. x) 0 1 1"
  have start: "pool_reachable (\<lambda>x. x) (\<lambda>x y. x) (?f, [])"
    by (rule pool_reachable.start) (simp add: size_max_def)
  have find: "find_index (\<lambda>s. use_count s < 2) (pool ?f) = Some 0"
    by (simp add: PoolFactory_of_def fill_pool_def new_slots_def)
  have step: "pool_step (\<lambda>x. x) (\<lambda>x y. x) (?f, []) (hand_out (\<lambda>x y. x) 7 0 ?f, [0])"
    by (rule pool_step.get [OF PoolFactory_get_found [OF find]])
       (simp add: hand_out_def PoolFactory_of_def fill_pool_def new_slots_def size_max_def)
  have reach: "pool_reachable (\<lambda>x. x) (\<lambda>x y. x) (hand_out (\<lambda>x y. x) 7 0 ?f, [0])"
    by (rule pool_reachable.step [OF start step])
  then show ?thesis using pool_never_recycles [OF reach, of 0] by auto
qed

end
