(* ===== verification/Generator.thy ===== *)
theory Generator
  imports Objects Factory
begin

text \<open>
  generator.hpp: the generator of object ids, for \<open>T = Id\<close>. A generator is an \<open>Object\<close> with data of its
  own. Signed overflow in \<open>get_id\<close> and \<open>next\<close> is undefined behaviour.
\<close>

section \<open>The class\<close>

record Generator =
  gen_object :: Object
  minitial_value :: int64
  gen_mvalue :: int64
  mstep :: int64

definition add_int64 :: "int64 \<Rightarrow> int64 \<Rightarrow> int64 outcome" where
  "add_int64 a b = (if - (2 ^ 63) \<le> sint a + sint b \<and> sint a + sint b < 2 ^ 63 then Ret (a + b) else Undef)"

definition Generator_INFO :: ClassInfo where "Generator_INFO = static_info ''Generator'' 2"

definition Generator_data_bytes :: "Generator \<Rightarrow> byte list" where
  "Generator_data_bytes g = word_bytes (minitial_value g) @ word_bytes (gen_mvalue g) @ word_bytes (mstep g)"

definition Generator_set_data :: "Generator \<Rightarrow> byte list \<Rightarrow> Generator" where
  "Generator_set_data g d = g\<lparr>minitial_value := bytes_word (take 8 d), gen_mvalue := bytes_word (take 8 (drop 8 d)),
     mstep := bytes_word (take 8 (drop 16 d))\<rparr>"

definition Generator_of :: "int64 \<Rightarrow> int64 \<Rightarrow> int64 \<Rightarrow> Generator" where
  "Generator_of aid initial_value step =
     \<lparr>gen_object = Object_of (if aid = NULL_ID then 0 else aid), minitial_value = initial_value,
      gen_mvalue = initial_value, mstep = step\<rparr>"

definition Generator_get_id :: "Generator \<Rightarrow> (int64 \<times> Generator) outcome" where
  "Generator_get_id g = map_out (\<lambda>v. (v, g\<lparr>gen_mvalue := v\<rparr>)) (add_int64 (gen_mvalue g) (mstep g))"

definition Generator_next :: "Generator \<Rightarrow> int64 outcome" where
  "Generator_next g = add_int64 (gen_mvalue g) (mstep g)"

definition Generator_current :: "Generator \<Rightarrow> int64" where "Generator_current g = gen_mvalue g"

definition Generator_initialize :: "Generator \<Rightarrow> int64 \<Rightarrow> int64 \<Rightarrow> int64 \<Rightarrow> Generator \<times> bool" where
  "Generator_initialize g aid initial_value step =
     (case Object_initialize (gen_object g) (if aid = NULL_ID then 0 else aid) of (ob, ok) \<Rightarrow>
        (g\<lparr>gen_object := ob, minitial_value := initial_value, gen_mvalue := initial_value, mstep := step\<rparr>, ok))"

definition Generator_write :: "BinaryBuffer \<Rightarrow> Generator \<Rightarrow> BinaryBuffer" where
  "Generator_write bb g =
     (let bb = Object_write bb (gen_object g);
          bb = bb_write bb (ClassInfo_bytes Generator_INFO);
          bb = bb_write bb (Generator_data_bytes g)
      in bb)"

definition Generator_read :: "BinaryBuffer \<Rightarrow> Generator \<Rightarrow> BinaryBuffer \<times> Generator" where
  "Generator_read bb g =
     (case Object_read bb (gen_object g) of (bb, ob) \<Rightarrow>
        let g = g\<lparr>gen_object := ob\<rparr> in
        case read_info bb of (bb, info) \<Rightarrow>
          if \<not> ClassInfo_eq info Generator_INFO then (bb, g)
          else case bb_read bb (Generator_data_bytes g) of (bb, d) \<Rightarrow> (bb, Generator_set_data g d))"

definition Generator_set_value :: "Generator \<Rightarrow> int64 \<Rightarrow> Generator" where
  "Generator_set_value g val = g\<lparr>gen_mvalue := val\<rparr>"

definition Generator_set_id :: "Generator \<Rightarrow> int64 \<Rightarrow> Generator" where
  "Generator_set_id g aid = g\<lparr>gen_object := Object_set_id (gen_object g) aid\<rparr>"

definition Generator_get :: "int64 \<Rightarrow> int64 \<Rightarrow> int64 \<Rightarrow> Generator" where
  "Generator_get aid initial_value step =
     fst (Factory_get (\<lambda>(a, i, s). Generator_of a i s) (aid, initial_value, step)
       (Factory_of (\<lambda>(a, i, s). Generator_of a i s) 3 10 (NULL_ID, 0, 1)))"

text \<open>\<open>clone\<close> takes a new id from the generator itself.\<close>

definition Generator_clone :: "Generator \<Rightarrow> (Generator \<times> Generator) outcome" where
  "Generator_clone g =
     map_out (\<lambda>(v, g). (Generator_get v (minitial_value g) (mstep g), g)) (Generator_get_id g)"

text \<open>
  The implicit copy constructor copies the base with \<open>Object (const Object&)\<close>, in which \<open>o.data ()\<close> is the
  generator's data; the implicit assignment calls \<open>assign\<close>, in which both \<open>data ()\<close> are.
\<close>

definition Generator_copy :: "Generator \<Rightarrow> Generator outcome" where
  "Generator_copy g = map_out (\<lambda>ob. g\<lparr>gen_object := ob\<rparr>) (Object_copy (Generator_data_bytes g))"

definition Generator_assign :: "Generator \<Rightarrow> Generator \<Rightarrow> Generator" where
  "Generator_assign g other = Generator_set_data g (Generator_data_bytes other)"

text \<open>\<open>equals\<close> is inherited: hashes, then the data of the most derived class.\<close>

definition Generator_equals :: "Generator \<Rightarrow> Generator \<Rightarrow> bool" where
  "Generator_equals a b \<longleftrightarrow>
     equal_hash (Object_hash (gen_object a)) (Generator_data_bytes a) (Object_hash (gen_object b)) (Generator_data_bytes b)"

definition Generator_read_text :: "istream \<Rightarrow> Generator \<Rightarrow> istream \<times> Generator" where
  "Generator_read_text is g =
     (case Object_read_text is (gen_object g) of (is, ob) \<Rightarrow>
      case read_int64 is (minitial_value g) of (is, i) \<Rightarrow>
      case read_int64 is (mstep g) of (is, s) \<Rightarrow>
      case read_int64 is (gen_mvalue g) of (is, v) \<Rightarrow>
        (is, \<lparr>gen_object = ob, minitial_value = i, gen_mvalue = v, mstep = s\<rparr>))"

definition Generator_write_text :: "string \<Rightarrow> Generator \<Rightarrow> string" where
  "Generator_write_text os g =
     Object_write_text os (gen_object g) @ show_int (sint (minitial_value g)) @ show_int (sint (mstep g)) @ '' ''
       @ show_int (sint (gen_mvalue g))"

section \<open>Unique ids\<close>

fun take_ids :: "nat \<Rightarrow> Generator \<Rightarrow> (int64 list \<times> Generator) outcome" where
  "take_ids 0 g = Ret ([], g)"
| "take_ids (Suc n) g =
     bind_outcome (Generator_get_id g) (\<lambda>(v, g'). map_out (\<lambda>(vs, g''). (v # vs, g'')) (take_ids n g'))"

lemma add_int64_Ret: "add_int64 a b = Ret c \<Longrightarrow> sint c = sint a + sint b"
  by (auto simp: add_int64_def sint_word_ariths signed_take_bit_int_eq_self split: if_splits)

lemma add_int64_no_overflow:
  "- (2 ^ 63) \<le> sint a + sint b \<Longrightarrow> sint a + sint b < 2 ^ 63 \<Longrightarrow> add_int64 a b = Ret (a + b)"
  by (simp add: add_int64_def)

lemma take_ids_sequence:
  assumes "\<forall>k\<le>n. - (2 ^ 63) \<le> sint (gen_mvalue g) + int k * sint (mstep g)
      \<and> sint (gen_mvalue g) + int k * sint (mstep g) < 2 ^ 63"
  shows "\<exists>vs g'. take_ids n g = Ret (vs, g') \<and> gen_mvalue g' = (if vs = [] then gen_mvalue g else last vs)
    \<and> map sint vs = map (\<lambda>k. sint (gen_mvalue g) + int (Suc k) * sint (mstep g)) [0..<n]"
  using assms
proof (induction n arbitrary: g)
  case (Suc n)
  let ?v = "gen_mvalue g + mstep g" and ?g = "g\<lparr>gen_mvalue := gen_mvalue g + mstep g\<rparr>"
  have b: "- (2 ^ 63) \<le> sint (gen_mvalue g) + sint (mstep g)" "sint (gen_mvalue g) + sint (mstep g) < 2 ^ 63"
    using Suc.prems [rule_format, of 1] by simp_all
  have get: "Generator_get_id g = Ret (?v, ?g)"
    by (simp add: Generator_get_id_def add_int64_no_overflow [OF b])
  have v: "sint ?v = sint (gen_mvalue g) + sint (mstep g)"
    by (rule add_int64_Ret) (rule add_int64_no_overflow [OF b])
  have "\<forall>k\<le>n. - (2 ^ 63) \<le> sint (gen_mvalue ?g) + int k * sint (mstep ?g)
      \<and> sint (gen_mvalue ?g) + int k * sint (mstep ?g) < 2 ^ 63"
  proof (intro allI impI)
    fix k assume "k \<le> n"
    then show "- (2 ^ 63) \<le> sint (gen_mvalue ?g) + int k * sint (mstep ?g)
      \<and> sint (gen_mvalue ?g) + int k * sint (mstep ?g) < 2 ^ 63"
      using Suc.prems [rule_format, of "Suc k"] v by (simp add: algebra_simps)
  qed
  from Suc.IH [OF this] obtain vs g' where IH: "take_ids n ?g = Ret (vs, g')"
      "gen_mvalue g' = (if vs = [] then ?v else last vs)"
      "map sint vs = map (\<lambda>k. sint ?v + int (Suc k) * sint (mstep g)) [0..<n]" by auto
  have "[0..<Suc n] = 0 # map Suc [0..<n]" by (simp add: map_Suc_upt upt_conv_Cons)
  with IH get v show ?case by (auto simp: comp_def algebra_simps simp del: upt_Suc)
qed simp

lemma take_ids_length: "take_ids n g = Ret (vs, g') \<Longrightarrow> length vs = n"
  by (induction n arbitrary: g vs) (auto simp: outcome_simps)

lemma take_ids_distinct:
  assumes "\<forall>k\<le>n. - (2 ^ 63) \<le> sint (gen_mvalue g) + int k * sint (mstep g)
      \<and> sint (gen_mvalue g) + int k * sint (mstep g) < 2 ^ 63" "mstep g \<noteq> 0"
  shows "\<exists>vs g'. take_ids n g = Ret (vs, g') \<and> distinct vs \<and> length vs = n
    \<and> gen_mvalue g' = (if vs = [] then gen_mvalue g else last vs)
    \<and> (\<forall>k<n. sint (vs ! k) = sint (gen_mvalue g) + int (Suc k) * sint (mstep g))"
proof -
  obtain vs g' where ids: "take_ids n g = Ret (vs, g')" "gen_mvalue g' = (if vs = [] then gen_mvalue g else last vs)"
      "map sint vs = map (\<lambda>k. sint (gen_mvalue g) + int (Suc k) * sint (mstep g)) [0..<n]"
    using take_ids_sequence [OF assms(1)] by auto
  have nth: "sint (vs ! k) = sint (gen_mvalue g) + int (Suc k) * sint (mstep g)" if "k < n" for k
    using arg_cong [OF ids(3), of "\<lambda>l. l ! k"] that take_ids_length [OF ids(1)] by simp
  have "sint (mstep g) \<noteq> 0" using assms(2) by (simp add: signed_eq_0_iff)
  then have "distinct (map sint vs)" unfolding ids(3) by (auto simp: distinct_map inj_on_def)
  then have "distinct vs" by (simp add: distinct_map)
  then show ?thesis using ids(1,2) nth take_ids_length [OF ids(1)] by blast
qed

text \<open>
  C13: As long as no signed overflow occurs, the ids a generator hands out are the initial value plus one,
  two, three steps and so on, all different when the step is not zero, the last one being the current
  value; \<open>next\<close> announces the id that \<open>get_id\<close> then returns.
\<close>

theorem generator_ids_unique:
  assumes "\<forall>k\<le>n. - (2 ^ 63) \<le> sint i + int k * sint s \<and> sint i + int k * sint s < 2 ^ 63" "s \<noteq> 0"
  shows "(\<exists>vs g'. take_ids n (Generator_of aid i s) = Ret (vs, g') \<and> distinct vs \<and> length vs = n
      \<and> (\<forall>k<n. sint (vs ! k) = sint i + int (Suc k) * sint s)
      \<and> Generator_current g' = (if n = 0 then i else last vs))
    \<and> Generator_next g = map_out fst (Generator_get_id g)"
proof
  show "\<exists>vs g'. take_ids n (Generator_of aid i s) = Ret (vs, g') \<and> distinct vs \<and> length vs = n
      \<and> (\<forall>k<n. sint (vs ! k) = sint i + int (Suc k) * sint s) \<and> Generator_current g' = (if n = 0 then i else last vs)"
    using take_ids_distinct [of n "Generator_of aid i s"] assms by (auto simp: Generator_of_def Generator_current_def)
  show "Generator_next g = map_out fst (Generator_get_id g)"
    by (cases "add_int64 (gen_mvalue g) (mstep g)") (simp_all add: Generator_next_def Generator_get_id_def)
qed

theorem generator_ids_unique_witness:
  "\<exists>vs g'. take_ids 3 (Generator_of 1 0 1) = Ret (vs, g') \<and> distinct vs \<and> length vs = 3"
  using generator_ids_unique [of 3 0 1 1 "Generator_of 1 0 1"] by auto

section \<open>Serialisation\<close>

lemma Generator_INFO_wf [simp]: "ClassInfo_wf Generator_INFO"
  unfolding Generator_INFO_def by (rule static_info_props) (simp_all add: NUL_def)

lemma length_Generator_data_bytes [layout_simps]: "length (Generator_data_bytes g) = 24"
  by (simp add: Generator_data_bytes_def layout_simps)

lemma Generator_set_data_bytes:
  "Generator_set_data g (Generator_data_bytes h) =
     g\<lparr>minitial_value := minitial_value h, gen_mvalue := gen_mvalue h, mstep := mstep h\<rparr>"
  by (simp add: Generator_set_data_def Generator_data_bytes_def layout_simps)

definition Generator_image :: "Generator \<Rightarrow> byte list" where
  "Generator_image g = Object_image (gen_object g) @ ClassInfo_bytes Generator_INFO @ Generator_data_bytes g"

lemma Generator_write_put:
  "bb_inv bb \<Longrightarrow> bb_inv (Generator_write bb g) \<and> bb_pending (Generator_write bb g) = bb_pending bb @ Generator_image g"
  using Object_write_put [of bb "gen_object g"]
  by (simp add: Generator_write_def Generator_image_def bb.put_inv bb.put_pending)

lemma Generator_read_front:
  assumes "bb_inv bb" "bb_pending bb = Generator_image g @ ys"
  obtains bb' where "Generator_read bb old = (bb', g)" "bb_inv bb'" "bb_pending bb' = ys"
proof -
  let ?r = "ClassInfo_bytes Generator_INFO @ Generator_data_bytes g @ ys"
  obtain b1 where b1: "Object_read bb (gen_object old) = (b1, gen_object g)" "bb_inv b1" "bb_pending b1 = ?r"
    by (rule Object_read_front [OF assms(1), of "gen_object g" ?r]) (use assms(2) in \<open>simp_all add: Generator_image_def\<close>)
  obtain b2 where b2: "read_info b1 = (b2, Generator_INFO)" "bb_inv b2" "bb_pending b2 = Generator_data_bytes g @ ys"
    by (rule read_info_front [OF b1(2,3)]) simp_all
  obtain b3 where b3: "bb_read b2 (Generator_data_bytes (old\<lparr>gen_object := gen_object g\<rparr>)) = (b3, Generator_data_bytes g)"
      "bb_inv b3" "bb_pending b3 = ys"
    by (rule bb.get_front [OF b2(2,3), of "Generator_data_bytes (old\<lparr>gen_object := gen_object g\<rparr>)"])
       (simp_all only: length_Generator_data_bytes)
  show thesis
    by (rule that [of b3]) (use b1 b2 b3 in \<open>simp_all add: Generator_read_def ClassInfo_eq_iff Generator_set_data_bytes\<close>)
qed

interpretation generator: persistent Generator_write Generator_read Generator_image "\<lambda>_. True"
proof
  fix bb ys and x old :: Generator
  assume "bb_inv bb" "bb_pending bb = Generator_image x @ ys"
  then show "\<exists>bb'. Generator_read bb old = (bb', x) \<and> bb_inv bb' \<and> bb_pending bb' = ys" by (metis Generator_read_front)
qed (rule Generator_write_put, assumption, simp add: Generator_write_def object.write_position Let_def)

text \<open>
  A generator written to a buffer with nothing pending is read back into any generator, equal in id,
  initial value, current value and step.
\<close>

theorem generator_binary_roundtrip:
  assumes "bb_inv bb" "bb_pending bb = []"
  shows "\<exists>bb'. Generator_read (Generator_write bb g) old = (bb', g) \<and> Generator_equals g g
    \<and> bb_inv bb' \<and> bb_pending bb' = []"
proof -
  have "bb_inv (Generator_write bb g)" "bb_pending (Generator_write bb g) = Generator_image g @ []"
    using Generator_write_put [OF assms(1)] assms(2) by auto
  then obtain bb' where "Generator_read (Generator_write bb g) old = (bb', g)" "bb_inv bb'" "bb_pending bb' = []"
    by (rule Generator_read_front)
  then show ?thesis by (simp add: Generator_equals_def equal_hash_def equal_memcmp_def)
qed

theorem generator_binary_roundtrip_witness:
  "\<exists>bb'. Generator_read (Generator_write (bb_new 0) (Generator_of 3 5 2)) (Generator_of 0 0 1) = (bb', Generator_of 3 5 2)"
  using generator_binary_roundtrip [OF bb_new_inv, of 0 "Generator_of 3 5 2" "Generator_of 0 0 1"] by auto

text \<open>
  The text form of a generator does not determine it: the id, the initial value and the step are
  written without separators, so different generators have the same text and what is read back is not
  what was written. A copied generator has its initial value for an id, an assigned one keeps its own
  id, and a clone has as id the next value of the generator it is cloned from.
\<close>

theorem generator_text_and_copies:
  "Generator_write_text [] (Generator_of 1 23 4) = Generator_write_text [] (Generator_set_value (Generator_of 12 3 4) 23)
   \<and> snd (Generator_read_text (open_istream (Generator_write_text [] (Generator_of 1 23 4))) (Generator_of 0 0 1))
       \<noteq> Generator_of 1 23 4
   \<and> Generator_copy g = Ret (g\<lparr>gen_object := \<lparr>mid = minitial_value g\<rparr>\<rparr>)
   \<and> gen_object (Generator_assign g h) = gen_object g
   \<and> (Generator_next g = Ret v \<and> v \<noteq> NULL_ID \<longrightarrow>
        Generator_clone g = Ret (Generator_of v (minitial_value g) (mstep g), g\<lparr>gen_mvalue := v\<rparr>))"
proof (intro conjI impI)
  show "Generator_write_text [] (Generator_of 1 23 4) = Generator_write_text [] (Generator_set_value (Generator_of 12 3 4) 23)"
    by code_simp
  show "snd (Generator_read_text (open_istream (Generator_write_text [] (Generator_of 1 23 4))) (Generator_of 0 0 1))
       \<noteq> Generator_of 1 23 4"
    by code_simp
  show "Generator_copy g = Ret (g\<lparr>gen_object := \<lparr>mid = minitial_value g\<rparr>\<rparr>)"
    by (simp add: Generator_copy_def Object_copy_def Object_assign_def Generator_data_bytes_def layout_simps)
  show "gen_object (Generator_assign g h) = gen_object g" by (simp add: Generator_assign_def Generator_set_data_def)
  assume "Generator_next g = Ret v \<and> v \<noteq> NULL_ID"
  then show "Generator_clone g = Ret (Generator_of v (minitial_value g) (mstep g), g\<lparr>gen_mvalue := v\<rparr>)"
    by (simp add: Generator_clone_def Generator_get_id_def Generator_next_def Generator_get_def Factory_get_def NewFactory_get_def)
qed

theorem generator_text_and_copies_witness:
  "Generator_clone (Generator_of 1 0 1) = Ret (Generator_of 1 0 1, (Generator_of 1 0 1)\<lparr>gen_mvalue := 1\<rparr>)"
proof -
  have "Generator_next (Generator_of 1 0 1) = Ret 1" by (simp add: Generator_next_def add_int64_def Generator_of_def)
  then show ?thesis
    using generator_text_and_copies [of "Generator_of 1 0 1" "Generator_of 1 0 1" 1] by (simp add: NULL_ID_def Generator_of_def)
qed

end
