(* ===== verification/Command.thy ===== *)
theory Command
  imports Generator
begin

text \<open>
  command.hpp: commands that run and undo, the registry of command types, and the composite of up to ten
  commands. The world commands act on is the type \<open>'w\<close>. \<open>OtherCommand\<close> stands for a class derived from
  \<open>Command\<close> outside the library: it is given by its \<open>_run\<close> and \<open>_undo\<close>, inherits \<open>write\<close> and \<open>read\<close>, and
  clones to a copy of itself. A pointer in the composite's array is null, dangling, or points to a command
  the composite owns. The generator of ids that all commands share is threaded through the operations
  that make commands.
\<close>

section \<open>Commands\<close>

record cmd_base =
  cmd_id :: int64
  cmd_mok :: Bool

text \<open>How a call ends: it returns, it throws, or it uses an invalid pointer.\<close>

datatype status = Done | Thrown exn | Crash

datatype 'w command =
    NullCommand cmd_base
  | OtherCommand cmd_base "'w \<Rightarrow> status \<times> 'w" "'w \<Rightarrow> status \<times> 'w"
  | CompositeCommand cmd_base "'w pointer list" nat
and 'w pointer = Null_ptr | Dangling | Pointer "'w command"

definition MAX_COMMANDS :: nat where "MAX_COMMANDS = 10"

fun base :: "'w command \<Rightarrow> cmd_base" where
  "base (NullCommand b) = b"
| "base (OtherCommand b r u) = b"
| "base (CompositeCommand b cs n) = b"

fun set_base :: "cmd_base \<Rightarrow> 'w command \<Rightarrow> 'w command" where
  "set_base b (NullCommand b') = NullCommand b"
| "set_base b (OtherCommand b' r u) = OtherCommand b r u"
| "set_base b (CompositeCommand b' cs n) = CompositeCommand b cs n"

text \<open>The constructor of \<open>Command\<close> takes a new id from the generator when none is given.\<close>

definition Command_of :: "Generator \<Rightarrow> int64 \<Rightarrow> Bool \<Rightarrow> (Generator \<times> cmd_base) outcome" where
  "Command_of g aid ok =
     (if aid = NULL_ID then map_out (\<lambda>(v, g). (g, \<lparr>cmd_id = v, cmd_mok = ok\<rparr>)) (Generator_get_id g)
      else Ret (g, \<lparr>cmd_id = aid, cmd_mok = ok\<rparr>))"

definition Command_initialize :: "Generator \<Rightarrow> cmd_base \<Rightarrow> int64 \<Rightarrow> Bool \<Rightarrow> (Generator \<times> cmd_base) outcome" where
  "Command_initialize g b i ok =
     map_out (\<lambda>(g, b'). (g, b\<lparr>cmd_id := cmd_id b', cmd_mok := ok\<rparr>)) (Command_of g i ok)"

definition new_NullCommand :: "Generator \<Rightarrow> (Generator \<times> 'w command) outcome" where
  "new_NullCommand g = map_out (\<lambda>(g, b). (g, NullCommand b)) (Command_of g NULL_ID Bool_default)"

definition new_CompositeCommand :: "Generator \<Rightarrow> int64 \<Rightarrow> (Generator \<times> 'w command) outcome" where
  "new_CompositeCommand g aid =
     map_out (\<lambda>(g, b). (g, CompositeCommand b (replicate MAX_COMMANDS Null_ptr) 0)) (Command_of g aid Bool_default)"

definition CompositeCommand_initialize :: "Generator \<Rightarrow> cmd_base \<Rightarrow> int64 \<Rightarrow> (Generator \<times> cmd_base) outcome" where
  "CompositeCommand_initialize g b i =
     (if i = NULL_ID then map_out (\<lambda>(v, g). (g, b\<lparr>cmd_id := v\<rparr>)) (Generator_get_id g)
      else Ret (g, b\<lparr>cmd_id := i\<rparr>))"

text \<open>\<open>run\<close> calls \<open>_run\<close> and marks the command as done when that returns.\<close>

definition mark_ok :: "cmd_base \<Rightarrow> cmd_base" where "mark_ok b = b\<lparr>cmd_mok := Bool_of_bool True\<rparr>"

fun run :: "'w command \<Rightarrow> 'w \<Rightarrow> status \<times> 'w command \<times> 'w"
  and run_slots :: "nat \<Rightarrow> 'w pointer list \<Rightarrow> 'w \<Rightarrow> status \<times> 'w pointer list \<times> 'w" where
  "run (NullCommand b) w = (Done, NullCommand (mark_ok b), w)"
| "run (OtherCommand b r u) w =
     (case r w of (st, w') \<Rightarrow> (st, OtherCommand (if st = Done then mark_ok b else b) r u, w'))"
| "run (CompositeCommand b cs n) w =
     (case run_slots n cs w of (st, cs', w') \<Rightarrow> (st, CompositeCommand (if st = Done then mark_ok b else b) cs' n, w'))"
| "run_slots 0 cs w = (Done, cs, w)"
| "run_slots (Suc k) [] w = (Crash, [], w)"
| "run_slots (Suc k) (Pointer c # cs) w =
     (case run c w of (st, c', w') \<Rightarrow>
        if st = Done then (case run_slots k cs w' of (st, cs', w'') \<Rightarrow> (st, Pointer c' # cs', w''))
        else (st, Pointer c' # cs, w'))"
| "run_slots (Suc k) (Null_ptr # cs) w = (Crash, Null_ptr # cs, w)"
| "run_slots (Suc k) (Dangling # cs) w = (Crash, Dangling # cs, w)"

fun undo :: "'w command \<Rightarrow> 'w \<Rightarrow> status \<times> 'w"
  and undo_slots :: "nat \<Rightarrow> 'w pointer list \<Rightarrow> 'w \<Rightarrow> status \<times> 'w" where
  "undo (NullCommand b) w = (Done, w)"
| "undo (OtherCommand b r u) w = (if Bool_to_bool (cmd_mok b) then u w else (Done, w))"
| "undo (CompositeCommand b cs n) w = (if Bool_to_bool (cmd_mok b) then undo_slots n cs w else (Done, w))"
| "undo_slots 0 cs w = (Done, w)"
| "undo_slots (Suc k) [] w = (Crash, w)"
| "undo_slots (Suc k) (Pointer c # cs) w =
     (case undo c w of (st, w') \<Rightarrow> if st = Done then undo_slots k cs w' else (st, w'))"
| "undo_slots (Suc k) (Null_ptr # cs) w = (Crash, w)"
| "undo_slots (Suc k) (Dangling # cs) w = (Crash, w)"

definition command_ok :: "'w command \<Rightarrow> bool" where "command_ok c = Bool_to_bool (cmd_mok (base c))"

text \<open>\<open>CompositeCommand::add\<close>.\<close>

fun add :: "'w pointer \<Rightarrow> 'w command \<Rightarrow> 'w command outcome" where
  "add p (CompositeCommand b cs n) =
     (if n \<ge> MAX_COMMANDS
      then log_and_throw ''CompositeCommand::Data::add(Command* cmd) : Maximum number of commands reached.''
      else Ret (CompositeCommand b (cs[n := p]) (n + 1)))"
| "add p c = Undef"

text \<open>
  \<open>clone\<close> is \<open>noexcept\<close>. The composite sets the count of the copy before it adds the clones, and keeps raw
  pointers of shared pointers that are gone when the next statement starts.
\<close>

fun clone :: "Generator \<Rightarrow> 'w command \<Rightarrow> (Generator \<times> 'w command) outcome"
  and clone_slots :: "Generator \<Rightarrow> nat \<Rightarrow> 'w pointer list \<Rightarrow> 'w command \<Rightarrow> (Generator \<times> 'w command) outcome" where
  "clone g (NullCommand b) = noexcept (new_NullCommand g)"
| "clone g (OtherCommand b r u) = Ret (g, OtherCommand b r u)"
| "clone g (CompositeCommand b cs n) =
     noexcept (bind_outcome (Command_of g (cmd_id b) Bool_default) (\<lambda>(g, b').
       clone_slots g n cs (CompositeCommand b' (replicate MAX_COMMANDS Null_ptr) n)))"
| "clone_slots g 0 cs cc = Ret (g, cc)"
| "clone_slots g (Suc k) [] cc = Undef"
| "clone_slots g (Suc k) (Pointer c # cs) cc =
     bind_outcome (clone g c) (\<lambda>(g, c'). bind_outcome (add Dangling cc) (clone_slots g k cs))"
| "clone_slots g (Suc k) (Null_ptr # cs) cc = Undef"
| "clone_slots g (Suc k) (Dangling # cs) cc = Undef"

text \<open>
  \<open>equals\<close>: a command that is no composite compares the id and the flag. Against a composite it would
  compare the flag with a byte of a pointer, which is not modelled and left undefined.
\<close>

fun equals :: "'w command \<Rightarrow> 'w command \<Rightarrow> bool outcome"
  and equals_slots :: "nat \<Rightarrow> 'w pointer list \<Rightarrow> 'w pointer list \<Rightarrow> bool outcome" where
  "equals (CompositeCommand b cs n) c =
     (case c of CompositeCommand b' cs' n' \<Rightarrow> if cmd_id b' \<noteq> cmd_id b then Ret False else equals_slots n cs cs'
      | _ \<Rightarrow> Ret False)"
| "equals (NullCommand b) c =
     (case c of CompositeCommand b' cs' n' \<Rightarrow> if cmd_id b' \<noteq> cmd_id b then Ret False else Undef
      | _ \<Rightarrow> Ret (equal_hash (cmd_id b) [mvalue (cmd_mok b)] (cmd_id (base c)) [mvalue (cmd_mok (base c))]))"
| "equals (OtherCommand b r u) c =
     (case c of CompositeCommand b' cs' n' \<Rightarrow> if cmd_id b' \<noteq> cmd_id b then Ret False else Undef
      | _ \<Rightarrow> Ret (equal_hash (cmd_id b) [mvalue (cmd_mok b)] (cmd_id (base c)) [mvalue (cmd_mok (base c))]))"
| "equals_slots 0 cs cs' = Ret True"
| "equals_slots (Suc k) (Pointer c # cs) (Pointer c' # cs') =
     bind_outcome (equals c c') (\<lambda>e. if \<not> e then Ret False else equals_slots k cs cs')"
| "equals_slots (Suc k) cs cs' = Undef"

text \<open>The destructor deletes the first \<open>mindex\<close> pointers.\<close>

fun destroy :: "'w command \<Rightarrow> unit outcome"
  and destroy_slots :: "nat \<Rightarrow> 'w pointer list \<Rightarrow> unit outcome" where
  "destroy (CompositeCommand b cs n) = destroy_slots n cs"
| "destroy (NullCommand b) = Ret ()"
| "destroy (OtherCommand b r u) = Ret ()"
| "destroy_slots 0 cs = Ret ()"
| "destroy_slots (Suc k) (Pointer c # cs) = bind_outcome (destroy c) (\<lambda>_. destroy_slots k cs)"
| "destroy_slots (Suc k) (Null_ptr # cs) = destroy_slots k cs"
| "destroy_slots (Suc k) (Dangling # cs) = Undef"
| "destroy_slots (Suc k) [] = Undef"

section \<open>Serialisation\<close>

definition Command_INFO :: ClassInfo where "Command_INFO = static_info ''Command'' 2"

definition NullCommand_INFO :: ClassInfo where "NullCommand_INFO = static_info ''NullCommand'' 2"

definition CompositeCommand_INFO :: ClassInfo where "CompositeCommand_INFO = static_info ''CompositeCommand'' 2"

definition Command_write :: "BinaryBuffer \<Rightarrow> cmd_base \<Rightarrow> BinaryBuffer" where
  "Command_write bb b =
     (let bb = Object_write bb (Object_of (cmd_id b));
          bb = bb_write bb (ClassInfo_bytes Command_INFO);
          bb = bb_write bb [mvalue (cmd_mok b)]
      in bb)"

definition Command_read :: "BinaryBuffer \<Rightarrow> cmd_base \<Rightarrow> BinaryBuffer \<times> cmd_base" where
  "Command_read bb b =
     (case Object_read bb (Object_of (cmd_id b)) of (bb, ob) \<Rightarrow>
        let b = b\<lparr>cmd_id := mid ob\<rparr> in
        case read_info bb of (bb, info) \<Rightarrow>
          if \<not> ClassInfo_eq info Command_INFO then (bb, b)
          else case bb_read bb [mvalue (cmd_mok b)] of (bb, d) \<Rightarrow> (bb, b\<lparr>cmd_mok := \<lparr>mvalue = hd d\<rparr>\<rparr>))"

fun cmd_write :: "BinaryBuffer \<Rightarrow> 'w command \<Rightarrow> BinaryBuffer outcome"
  and write_slots :: "nat \<Rightarrow> BinaryBuffer \<Rightarrow> 'w pointer list \<Rightarrow> BinaryBuffer outcome" where
  "cmd_write bb (NullCommand b) = Ret (Command_write (bb_write bb (ClassInfo_bytes NullCommand_INFO)) b)"
| "cmd_write bb (OtherCommand b r u) = Ret (Command_write bb b)"
| "cmd_write bb (CompositeCommand b cs n) =
     (let bb = bb_write bb (ClassInfo_bytes CompositeCommand_INFO);
          bb = Command_write bb b;
          bb = bb_write_pod bb (word_of_nat n :: 64 word)
      in write_slots n bb cs)"
| "write_slots 0 bb cs = Ret bb"
| "write_slots (Suc k) bb (Pointer c # cs) = bind_outcome (cmd_write bb c) (\<lambda>bb. write_slots k bb cs)"
| "write_slots (Suc k) bb (Null_ptr # cs) = Undef"
| "write_slots (Suc k) bb (Dangling # cs) = Undef"
| "write_slots (Suc k) bb [] = Undef"

text \<open>
  The registry maps class names to creators. The library registers \<open>NullCommand\<close> and nothing else, so
  \<open>create\<close> gives a new \<open>NullCommand\<close> or a null pointer.
\<close>

type_synonym 'w registry = "string \<Rightarrow> (Generator \<Rightarrow> (Generator \<times> 'w command) outcome) option"

definition register_type ::
    "'w registry \<Rightarrow> ClassInfo \<Rightarrow> (Generator \<Rightarrow> (Generator \<times> 'w command) outcome) \<Rightarrow> 'w registry" where
  "register_type reg info creator = reg(full_class_name info \<mapsto> creator)"

definition registry :: "'w registry" where
  "registry = register_type Map.empty NullCommand_INFO new_NullCommand"

definition create :: "Generator \<Rightarrow> ClassInfo \<Rightarrow> (Generator \<times> 'w command) outcome option" where
  "create g info = (case registry (full_class_name info) of Some creator \<Rightarrow> Some (creator g) | None \<Rightarrow> None)"

text \<open>The loop of \<open>CompositeCommand::read\<close> from index \<open>i\<close>, for \<open>k\<close> more commands.\<close>

fun read_slots :: "nat \<Rightarrow> nat \<Rightarrow> Generator \<Rightarrow> BinaryBuffer \<Rightarrow> 'w pointer list
    \<Rightarrow> (Generator \<times> BinaryBuffer \<times> 'w pointer list) outcome" where
  "read_slots 0 i g bb cs = Ret (g, bb, cs)"
| "read_slots (Suc k) i g bb cs =
     (case read_info bb of (bb, cmd_info) \<Rightarrow>
        case create g cmd_info of
          None \<Rightarrow> Ret (g, bb, cs)
        | Some r \<Rightarrow> bind_outcome r (\<lambda>(g, cmd).
            case Command_read bb (base cmd) of (bb, b) \<Rightarrow>
              if i < length cs then read_slots k (i + 1) g bb (cs[i := Pointer (set_base b cmd)]) else Undef))"

fun cmd_read :: "Generator \<Rightarrow> BinaryBuffer \<Rightarrow> 'w command \<Rightarrow> (Generator \<times> BinaryBuffer \<times> 'w command) outcome" where
  "cmd_read g bb (NullCommand b) = (case Command_read bb b of (bb, b) \<Rightarrow> Ret (g, bb, NullCommand b))"
| "cmd_read g bb (OtherCommand b r u) = (case Command_read bb b of (bb, b) \<Rightarrow> Ret (g, bb, OtherCommand b r u))"
| "cmd_read g bb (CompositeCommand b cs n) =
     (case Command_read bb b of (bb, b) \<Rightarrow>
      case bb_read_pod bb (word_of_nat n :: 64 word) of (bb, m) \<Rightarrow>
        noexcept (map_out (\<lambda>(g, bb, cs). (g, bb, CompositeCommand b cs (unat m))) (read_slots (unat m) 0 g bb cs)))"

section \<open>Running\<close>

text \<open>A composite is well-formed when its first \<open>mindex\<close> pointers are those of well-formed commands.\<close>

fun cmd_wf :: "'w command \<Rightarrow> bool" and slots_wf :: "nat \<Rightarrow> 'w pointer list \<Rightarrow> bool" where
  "cmd_wf (CompositeCommand b cs n) \<longleftrightarrow> length cs = MAX_COMMANDS \<and> n \<le> MAX_COMMANDS \<and> slots_wf n cs"
| "cmd_wf (NullCommand b) \<longleftrightarrow> True"
| "cmd_wf (OtherCommand b r u) \<longleftrightarrow> True"
| "slots_wf 0 cs \<longleftrightarrow> True"
| "slots_wf (Suc k) (Pointer c # cs) \<longleftrightarrow> cmd_wf c \<and> slots_wf k cs"
| "slots_wf (Suc k) cs \<longleftrightarrow> False"

text \<open>The specification of a sequence of commands: one after the other, up to the first that does not return.\<close>

fun exec :: "'w command list \<Rightarrow> 'w \<Rightarrow> status \<times> 'w command list \<times> 'w" where
  "exec [] w = (Done, [], w)"
| "exec (c # cs) w =
     (case run c w of (st, c', w') \<Rightarrow>
        if st = Done then (case exec cs w' of (st', cs', w'') \<Rightarrow> (st', c' # cs', w'')) else (st, c' # cs, w'))"

lemma run_slots_exec:
  "run_slots (length cmds) (map Pointer cmds @ r) w =
     (case exec cmds w of (st, cmds', w') \<Rightarrow> (st, map Pointer cmds' @ r, w'))"
  by (induction cmds arbitrary: w) (auto split: prod.split)

lemma slots_wf_split: "slots_wf n cs \<Longrightarrow> \<exists>cmds r. cs = map Pointer cmds @ r \<and> length cmds = n \<and> (\<forall>c\<in>set cmds. cmd_wf c)"
proof (induction n arbitrary: cs)
  case (Suc n)
  then obtain c cs' where "cs = Pointer c # cs'" "cmd_wf c" "slots_wf n cs'"
    by (cases "(Suc n, cs)" rule: slots_wf.cases) auto
  with Suc.IH [of cs'] show ?case by (metis append_Cons length_Cons list.set_intros(1) list.simps(9) set_ConsD)
qed simp

lemma slots_wf_append: "(\<forall>c\<in>set cmds. cmd_wf c) \<Longrightarrow> slots_wf (length cmds) (map Pointer cmds @ r)"
  by (induction cmds) auto

lemma exec_length: "exec cmds w = (st, cmds', w') \<Longrightarrow> length cmds' = length cmds"
  by (induction cmds arbitrary: w w' cmds' st) (auto split: prod.splits if_splits)

text \<open>
  C14: Running a composite runs its commands in the order they were added, up to the first that does not
  return. When one throws, the effects of those before it stay, the composite is not marked as done, and
  undoing it then does nothing: there is no roll-back.
\<close>

theorem composite_run:
  assumes "exec cmds w = (st, cmds', w')" "\<not> Bool_to_bool (cmd_mok b)"
  shows "run (CompositeCommand b (map Pointer cmds @ r) (length cmds)) w =
      (st, CompositeCommand (if st = Done then mark_ok b else b) (map Pointer cmds' @ r) (length cmds), w')
    \<and> (st \<noteq> Done \<longrightarrow>
        undo (CompositeCommand (if st = Done then mark_ok b else b) (map Pointer cmds' @ r) (length cmds)) w' = (Done, w'))"
  using assms by (simp add: run_slots_exec)

definition plain :: cmd_base where "plain = \<lparr>cmd_id = 1, cmd_mok = Bool_default\<rparr>"

text \<open>Commands on a number that add and multiply, and one that throws.\<close>

definition add_cmd :: "int \<Rightarrow> int command" where
  "add_cmd k = OtherCommand plain (\<lambda>w. (Done, w + k)) (\<lambda>w. (Done, w - k))"

definition double_cmd :: "int command" where
  "double_cmd = OtherCommand plain (\<lambda>w. (Done, 2 * w)) (\<lambda>w. (Done, w div 2))"

definition throw_cmd :: "int command" where
  "throw_cmd = OtherCommand plain (\<lambda>w. (Thrown (Lib_error ''no''), w)) (\<lambda>w. (Done, w))"

theorem composite_run_witness:
  "fst (run (CompositeCommand plain (map Pointer [add_cmd 1, throw_cmd] @ []) (length [add_cmd 1, throw_cmd])) 5)
     = Thrown (Lib_error ''no'')
   \<and> snd (snd (run (CompositeCommand plain (map Pointer [add_cmd 1, throw_cmd] @ []) (length [add_cmd 1, throw_cmd])) 5)) = 6"
proof -
  obtain cmds' where ex: "exec [add_cmd 1, throw_cmd] 5 = (Thrown (Lib_error ''no''), cmds', 6)"
    by (simp add: add_cmd_def throw_cmd_def)
  have no: "\<not> Bool_to_bool (cmd_mok plain)" by (simp add: plain_def)
  show ?thesis unfolding composite_run [OF ex no, of "[]", THEN conjunct1] by simp
qed

text \<open>Undoing after a complete run: the commands are undone in the order they were run.\<close>

fun undo_all :: "'w command list \<Rightarrow> 'w \<Rightarrow> status \<times> 'w" where
  "undo_all [] w = (Done, w)"
| "undo_all (c # cs) w = (case undo c w of (st, w') \<Rightarrow> if st = Done then undo_all cs w' else (st, w'))"

lemma undo_slots_all: "undo_slots (length cmds) (map Pointer cmds @ r) w = undo_all cmds w"
  by (induction cmds arbitrary: w) (auto split: prod.split)

text \<open>
  After a run that completed, undoing a composite undoes its commands first to last, in the order they
  were run and not in reverse. With one command this is that command's undo; with two commands each of
  which undoes itself exactly, the composite may fail to restore the state.
\<close>

theorem composite_undo_order:
  assumes "exec cmds w = (Done, cmds', w')"
  shows "(case run (CompositeCommand b (map Pointer cmds @ r) (length cmds)) w of (st, c, v) \<Rightarrow> undo c v) = undo_all cmds' w'
    \<and> (\<forall>v. (case run (add_cmd k) v of (st, c, v') \<Rightarrow> undo c v') = (Done, v))
    \<and> (\<forall>v. (case run double_cmd v of (st, c, v') \<Rightarrow> undo c v') = (Done, v))
    \<and> (case run (CompositeCommand b (map Pointer [double_cmd, add_cmd 1] @ r) 2) v of (st, c, v') \<Rightarrow> undo c v') = (Done, v - 1)"
proof (intro conjI allI)
  have len: "length cmds' = length cmds" by (rule exec_length [OF assms])
  show "(case run (CompositeCommand b (map Pointer cmds @ r) (length cmds)) w of (st, c, v) \<Rightarrow> undo c v) = undo_all cmds' w'"
    using assms undo_slots_all [of cmds' r w'] by (simp add: run_slots_exec mark_ok_def len)
  show "(case run (add_cmd k) v of (st, c, v') \<Rightarrow> undo c v') = (Done, v)" for v
    by (simp add: add_cmd_def mark_ok_def)
  show "(case run double_cmd v of (st, c, v') \<Rightarrow> undo c v') = (Done, v)" for v
    by (simp add: double_cmd_def mark_ok_def)
  show "(case run (CompositeCommand b (map Pointer [double_cmd, add_cmd 1] @ r) 2) v of (st, c, v') \<Rightarrow> undo c v') = (Done, v - 1)"
    by (simp add: numeral_2_eq_2 double_cmd_def add_cmd_def mark_ok_def)
qed

theorem composite_undo_order_witness:
  "(case run (CompositeCommand plain (map Pointer [double_cmd, add_cmd 1] @ []) 2) 5 of (st, c, v') \<Rightarrow> undo c v') = (Done, 4)"
proof -
  have "exec ([] :: int command list) 0 = (Done, [], 0)" by simp
  from composite_undo_order [OF this, of plain "[]" 1 5] show ?thesis by simp
qed

section \<open>Adding, cloning, comparing\<close>

lemma slots_wf_add: "slots_wf n cs \<Longrightarrow> n < length cs \<Longrightarrow> cmd_wf c \<Longrightarrow> slots_wf (Suc n) (cs[n := Pointer c])"
proof (induction n arbitrary: cs)
  case 0
  then show ?case by (cases cs) auto
next
  case (Suc n)
  then obtain d cs' where "cs = Pointer d # cs'" "cmd_wf d" "slots_wf n cs'"
    by (cases "(Suc n, cs)" rule: slots_wf.cases) auto
  with Suc.IH [of cs'] Suc.prems show ?case by simp
qed

lemma run_wf:
  "cmd_wf c \<Longrightarrow> run c w = (st, c', w') \<Longrightarrow> cmd_wf c'"
  "slots_wf n cs \<Longrightarrow> run_slots n cs w = (st, cs', w') \<Longrightarrow> slots_wf n cs' \<and> length cs' = length cs"
proof (induction c w and n cs w arbitrary: st c' w' and st cs' w' rule: run_run_slots.induct)
  case (3 b cs n w)
  then show ?case by (auto split: prod.splits)
next
  case (6 k c cs w)
  then show ?case by (fastforce split: prod.splits if_splits)
qed (auto split: prod.splits if_splits)

text \<open>
  C18: A new composite is well-formed, and adding a well-formed command and running keep it so; the
  eleventh command is refused with an error. The pointers of a well-formed composite are never null or
  dangling when they are used.
\<close>

theorem composite_wf_preserved:
  assumes "cmd_wf (CompositeCommand b cs n)" "cmd_wf c"
  shows "cmd_wf (CompositeCommand b' (replicate MAX_COMMANDS Null_ptr) 0)
    \<and> (case add (Pointer c) (CompositeCommand b cs n) of
         Ret cc \<Rightarrow> cmd_wf cc \<and> n < MAX_COMMANDS \<and> base cc = b
       | r \<Rightarrow> n = MAX_COMMANDS \<and> (\<exists>msg. r = Raise (Lib_error msg)))
    \<and> (\<forall>w st c' w'. run (CompositeCommand b cs n) w = (st, c', w') \<longrightarrow> cmd_wf c')"
proof (intro conjI allI impI)
  show "cmd_wf (CompositeCommand b' (replicate MAX_COMMANDS Null_ptr) 0)" by simp
  show "case add (Pointer c) (CompositeCommand b cs n) of
         Ret cc \<Rightarrow> cmd_wf cc \<and> n < MAX_COMMANDS \<and> base cc = b
       | r \<Rightarrow> n = MAX_COMMANDS \<and> (\<exists>msg. r = Raise (Lib_error msg))"
    using assms slots_wf_add [of n cs c] by (simp add: log_and_throw_def)
  show "cmd_wf c'" if "run (CompositeCommand b cs n) w = (st, c', w')" for w st c' w'
    using run_wf(1) [OF assms(1) that] .
qed

theorem composite_wf_preserved_witness:
  "cmd_wf (CompositeCommand plain (replicate MAX_COMMANDS Null_ptr) 0 :: int command)
   \<and> (case add (Pointer (add_cmd 1)) (CompositeCommand plain (replicate MAX_COMMANDS Null_ptr) 0) of
        Ret cc \<Rightarrow> cmd_wf cc | r \<Rightarrow> False)"
proof -
  have wf: "cmd_wf (CompositeCommand plain (replicate MAX_COMMANDS Null_ptr) 0 :: int command)" "cmd_wf (add_cmd 1)"
    by (simp_all add: add_cmd_def)
  show ?thesis
    using composite_wf_preserved [OF wf, of plain] by (auto simp: MAX_COMMANDS_def split: outcome.splits)
qed

text \<open>The loop of \<open>clone\<close> over commands that clone to copies of themselves.\<close>

lemma clone_slots_full:
  assumes "\<forall>c\<in>set cmds. \<exists>b r u. c = OtherCommand b r u" "MAX_COMMANDS < m + length cmds" "m \<le> MAX_COMMANDS"
  shows "\<exists>e. clone_slots g (length cmds) (map Pointer cmds @ rs) (CompositeCommand b cs m) = Raise e"
  using assms
proof (induction cmds arbitrary: m cs)
  case (Cons c cmds)
  then show ?case
    by (cases "m < MAX_COMMANDS") (auto simp: log_and_throw_def)
qed simp

lemma clone_slots_fits:
  assumes "\<forall>c\<in>set cmds. \<exists>b r u. c = OtherCommand b r u" "m + length cmds \<le> MAX_COMMANDS" "length cs = MAX_COMMANDS"
  shows "clone_slots g (length cmds) (map Pointer cmds @ rs) (CompositeCommand b cs m) =
    Ret (g, CompositeCommand b (take m cs @ replicate (length cmds) Dangling @ drop (m + length cmds) cs) (m + length cmds))"
  using assms
proof (induction cmds arbitrary: m cs)
  case (Cons c cmds)
  then have m: "m < length cs" by simp
  have "take (Suc m) (cs[m := Dangling]) = take m cs @ [Dangling]"
    using m by (simp add: take_Suc_conv_app_nth)
  with Cons.IH [of "Suc m" "cs[m := Dangling]"] Cons.prems m show ?case by (auto simp: MAX_COMMANDS_def)
qed simp

text \<open>
  Cloning a composite with commands never gives a usable copy. With one to five commands the copy
  counts twice as many, its first pointers are null and the others dangle: running it uses a null
  pointer and destroying it deletes a dangling one. With more than five commands cloning ends the program.
  Only an empty composite is cloned to an equal one.
\<close>

theorem composite_clone_broken:
  assumes "\<forall>c\<in>set cmds. \<exists>b r u. c = OtherCommand b r u" "cmd_id b \<noteq> NULL_ID"
  shows "(cmds = [] \<longrightarrow> (\<exists>c. clone g (CompositeCommand b (map Pointer cmds @ rs) (length cmds)) = Ret (g, c) \<and> equals (CompositeCommand b (map Pointer cmds @ rs) (length cmds)) c = Ret True))
    \<and> (0 < length cmds \<and> length cmds \<le> 5 \<longrightarrow>
        (\<exists>c. clone g (CompositeCommand b (map Pointer cmds @ rs) (length cmds)) = Ret (g, c) \<and> fst (run c w) = Crash \<and> destroy c = Undef))
    \<and> (5 < length cmds \<and> length cmds \<le> MAX_COMMANDS \<longrightarrow> clone g (CompositeCommand b (map Pointer cmds @ rs) (length cmds)) = Terminate)"
proof (intro conjI impI)
  let ?cc = "CompositeCommand b (map Pointer cmds @ rs) (length cmds)"
  let ?new = "CompositeCommand \<lparr>cmd_id = cmd_id b, cmd_mok = Bool_default\<rparr> (replicate MAX_COMMANDS Null_ptr) (length cmds)"
  have clone: "clone g ?cc = noexcept (clone_slots g (length cmds) (map Pointer cmds @ rs) ?new)"
    using assms(2) by (simp add: Command_of_def)
  show "\<exists>c. clone g ?cc = Ret (g, c) \<and> equals ?cc c = Ret True" if "cmds = []"
    using that clone by simp
  show "\<exists>c. clone g ?cc = Ret (g, c) \<and> fst (run c w) = Crash \<and> destroy c = Undef"
    if n: "0 < length cmds \<and> length cmds \<le> 5"
  proof -
    let ?k = "length cmds"
    let ?cs = "replicate ?k Null_ptr @ replicate ?k Dangling @ drop (?k + ?k) (replicate MAX_COMMANDS Null_ptr)"
    have "clone g ?cc = Ret (g, CompositeCommand \<lparr>cmd_id = cmd_id b, cmd_mok = Bool_default\<rparr> ?cs (?k + ?k))"
      using clone_slots_fits [OF assms(1), of ?k "replicate MAX_COMMANDS Null_ptr"] n clone
      by (simp add: MAX_COMMANDS_def min_def)
    moreover have "fst (run (CompositeCommand d ?cs (?k + ?k)) w) = Crash" for d
      using n by (cases ?k) auto
    moreover have "destroy_slots (m + j) (replicate m Null_ptr @ replicate j Dangling @ r) = Undef" if "0 < j" for m j r
      using that by (induction m) (cases j; simp)+
    then have "destroy_slots (?k + ?k) ?cs = Undef" using n by blast
    then have "destroy (CompositeCommand d ?cs (?k + ?k)) = Undef" for d by simp
    ultimately show ?thesis by blast
  qed
  show "clone g ?cc = Terminate" if n: "5 < length cmds \<and> length cmds \<le> MAX_COMMANDS"
  proof -
    obtain e where "clone_slots g (length cmds) (map Pointer cmds @ rs) ?new = Raise e"
      using clone_slots_full [OF assms(1), of "length cmds" g rs] n unfolding MAX_COMMANDS_def
      by (metis add_less_mono numeral_Bit0)
    then show ?thesis using clone by simp
  qed
qed

theorem composite_clone_broken_witness:
  "clone (Generator_of 1 0 1) (CompositeCommand plain (map Pointer (replicate 6 (add_cmd 1)) @ []) (length (replicate 6 (add_cmd 1)))) = Terminate"
proof -
  have "\<forall>c\<in>set (replicate 6 (add_cmd 1)). \<exists>b r u. c = OtherCommand b r u" "cmd_id plain \<noteq> NULL_ID"
    by (auto simp: add_cmd_def plain_def NULL_ID_def)
  from composite_clone_broken [OF this, of "Generator_of 1 0 1" "[]", THEN conjunct2, THEN conjunct2]
  show ?thesis by (simp add: MAX_COMMANDS_def del: clone.simps)
qed

section \<open>Binary round trip\<close>

lemma command_infos_wf [simp]: "ClassInfo_wf Command_INFO" "ClassInfo_wf NullCommand_INFO" "ClassInfo_wf CompositeCommand_INFO"
  unfolding Command_INFO_def NullCommand_INFO_def CompositeCommand_INFO_def
  by (rule static_info_props; simp add: NUL_def)+

lemma create_simps:
  "create g NullCommand_INFO = Some (new_NullCommand g)" "create g CompositeCommand_INFO = None"
  by (simp_all add: create_def registry_def register_type_def full_class_name_def NullCommand_INFO_def
      CompositeCommand_INFO_def static_info_props NUL_def)

text \<open>The bytes \<open>Command::write\<close> appends.\<close>

definition Command_image :: "cmd_base \<Rightarrow> byte list" where
  "Command_image b = Object_image (Object_of (cmd_id b)) @ ClassInfo_bytes Command_INFO @ [mvalue (cmd_mok b)]"

lemma Command_write_put:
  "bb_inv bb \<Longrightarrow> bb_inv (Command_write bb b) \<and> bb_pending (Command_write bb b) = bb_pending bb @ Command_image b"
  using Object_write_put [of bb "Object_of (cmd_id b)"]
  by (simp add: Command_write_def Command_image_def bb.put_inv bb.put_pending)

lemma Command_read_front:
  assumes "bb_inv bb" "bb_pending bb = Command_image b @ ys"
  obtains bb' where "Command_read bb old = (bb', b)" "bb_inv bb'" "bb_pending bb' = ys"
proof -
  let ?r = "ClassInfo_bytes Command_INFO @ [mvalue (cmd_mok b)] @ ys"
  obtain b1 where b1: "Object_read bb (Object_of (cmd_id old)) = (b1, Object_of (cmd_id b))" "bb_inv b1" "bb_pending b1 = ?r"
    by (rule Object_read_front [OF assms(1), of "Object_of (cmd_id b)" ?r]) (use assms(2) in \<open>simp_all add: Command_image_def\<close>)
  obtain b2 where b2: "read_info b1 = (b2, Command_INFO)" "bb_inv b2" "bb_pending b2 = [mvalue (cmd_mok b)] @ ys"
    by (rule read_info_front [OF b1(2,3)]) simp_all
  obtain b3 where b3: "bb_read b2 [mvalue (cmd_mok old)] = (b3, [mvalue (cmd_mok b)])" "bb_inv b3" "bb_pending b3 = ys"
    by (rule bb.get_front [OF b2(2,3), of "[mvalue (cmd_mok old)]"]) simp_all
  show thesis
    by (rule that [of b3]) (use b1 b2 b3 in \<open>simp_all add: Command_read_def ClassInfo_eq_iff Object_of_def Object_initialize_def\<close>)
qed

interpretation command_part: persistent Command_write Command_read Command_image "\<lambda>_. True"
proof
  fix bb ys and x old :: cmd_base
  assume "bb_inv bb" "bb_pending bb = Command_image x @ ys"
  then show "\<exists>bb'. Command_read bb old = (bb', x) \<and> bb_inv bb' \<and> bb_pending bb' = ys" by (metis Command_read_front)
qed (rule Command_write_put, assumption, simp add: Command_write_def object.write_position Let_def)

definition null_images :: "cmd_base list \<Rightarrow> byte list" where
  "null_images bs = concat (map (\<lambda>b. ClassInfo_bytes NullCommand_INFO @ Command_image b) bs)"

lemma write_slots_nulls:
  "bb_inv bb \<Longrightarrow> \<exists>bb'. write_slots (length bs) bb (map (\<lambda>b. Pointer (NullCommand b)) bs @ r) = Ret bb' \<and> bb_inv bb'
     \<and> bb_pending bb' = bb_pending bb @ null_images bs"
proof (induction bs arbitrary: bb)
  case (Cons b bs)
  let ?bb = "Command_write (bb_write bb (ClassInfo_bytes NullCommand_INFO)) b"
  have "bb_inv ?bb" "bb_pending ?bb = bb_pending bb @ ClassInfo_bytes NullCommand_INFO @ Command_image b"
    using Command_write_put [of "bb_write bb (ClassInfo_bytes NullCommand_INFO)" b] Cons.prems
    by (simp_all add: bb.put_inv bb.put_pending)
  with Cons.IH [of ?bb] show ?case by (simp add: null_images_def)
qed (simp add: null_images_def)

lemma read_slots_nulls:
  assumes "bb_inv bb" "bb_pending bb = null_images bs @ ys" "i + length bs \<le> length cs" "take_ids (length bs) g = Ret (ids, g')"
  shows "\<exists>bb'. read_slots (length bs) i g bb cs
      = Ret (g', bb', take i cs @ map (\<lambda>b. Pointer (NullCommand b)) bs @ drop (i + length bs) cs)
    \<and> bb_inv bb' \<and> bb_pending bb' = ys"
  using assms
proof (induction bs arbitrary: bb i cs g ids)
  case (Cons b bs)
  obtain v g1 vs where g1: "Generator_get_id g = Ret (v, g1)" "take_ids (length bs) g1 = Ret (vs, g')"
    using Cons.prems(4) by (auto simp: outcome_simps)
  obtain b1 where b1: "read_info bb = (b1, NullCommand_INFO)" "bb_inv b1" "bb_pending b1 = Command_image b @ null_images bs @ ys"
    by (rule read_info_front [OF Cons.prems(1), of NullCommand_INFO "Command_image b @ null_images bs @ ys"])
       (use Cons.prems(2) in \<open>simp_all add: null_images_def\<close>)
  obtain b2 where b2: "Command_read b1 \<lparr>cmd_id = v, cmd_mok = Bool_default\<rparr> = (b2, b)" "bb_inv b2" "bb_pending b2 = null_images bs @ ys"
    by (rule Command_read_front [OF b1(2,3)])
  have i: "i < length cs" using Cons.prems(3) by simp
  have "take (Suc i) (cs[i := Pointer (NullCommand b)]) = take i cs @ [Pointer (NullCommand b)]"
    using i by (simp add: take_Suc_conv_app_nth)
  with Cons.IH [of b2 "Suc i" "cs[i := Pointer (NullCommand b)]" g1 vs] Cons.prems(3) b1 b2 g1 i show ?case
    by (simp add: create_simps new_NullCommand_def Command_of_def)
qed (simp add: null_images_def)

text \<open>The header of a composite: its description, its base and its count.\<close>

lemma composite_header:
  assumes "bb_inv bb" "bb_pending bb = []" "n < 2 ^ 64"
  obtains b1 where
    "cmd_write bb (CompositeCommand b cs n) = write_slots n b1 cs" "bb_inv b1"
    "bb_pending b1 = ClassInfo_bytes CompositeCommand_INFO @ Command_image b @ word_bytes (word_of_nat n :: 64 word)"
proof -
  let ?b1 = "Command_write (bb_write bb (ClassInfo_bytes CompositeCommand_INFO)) b"
  have "bb_inv ?b1" "bb_pending ?b1 = ClassInfo_bytes CompositeCommand_INFO @ Command_image b"
    using Command_write_put [of "bb_write bb (ClassInfo_bytes CompositeCommand_INFO)" b] assms
    by (simp_all add: bb.put_inv bb.put_pending)
  then show thesis
    by (intro that [of "bb_write_pod ?b1 (word_of_nat n :: 64 word)"])
       (simp_all add: bb_write_pod_def bb.put_inv bb.put_pending Let_def)
qed

lemma composite_header_read:
  assumes "bb_inv bb" "n < 2 ^ 64"
    "bb_pending bb = ClassInfo_bytes CompositeCommand_INFO @ Command_image b @ word_bytes (word_of_nat n :: 64 word) @ ys"
  obtains b1 b2 where "read_info bb = (b1, CompositeCommand_INFO)" "bb_inv b2" "bb_pending b2 = ys"
    "cmd_read g b1 (CompositeCommand old cs m) =
       noexcept (map_out (\<lambda>(g, bb, cs). (g, bb, CompositeCommand b cs n)) (read_slots n 0 g b2 cs))"
proof -
  let ?n = "word_of_nat n :: 64 word"
  obtain b1 where b1: "read_info bb = (b1, CompositeCommand_INFO)" "bb_inv b1" "bb_pending b1 = Command_image b @ word_bytes ?n @ ys"
    by (rule read_info_front [OF assms(1,3)]) simp_all
  obtain c where c: "Command_read b1 old = (c, b)" "bb_inv c" "bb_pending c = word_bytes ?n @ ys"
    by (rule Command_read_front [OF b1(2,3)])
  obtain b2 where b2: "bb_read c (word_bytes (word_of_nat m :: 64 word)) = (b2, word_bytes ?n)" "bb_inv b2" "bb_pending b2 = ys"
    by (rule bb.get_front [OF c(2,3), of "word_bytes (word_of_nat m :: 64 word)"]) (simp_all add: length_word_bytes)
  have "unat ?n = n" using assms(2) by (simp add: unsigned_of_nat take_bit_nat_eq_self)
  then show thesis
    by (intro that [of b1 b2]) (use b1 b2 c in \<open>simp_all add: bb_read_pod_def bytes_word_bytes\<close>)
qed

lemma composite_of_nulls_roundtrip:
  assumes "bb_inv bb" "bb_pending bb = []" "length bs \<le> MAX_COMMANDS" "length cs = MAX_COMMANDS"
    "take_ids (length bs) g = Ret (ids, g')"
  shows "\<exists>b1 b2 b3.
      cmd_write bb (CompositeCommand b (map (\<lambda>b. Pointer (NullCommand b)) bs @ r) (length bs)) = Ret b1
      \<and> read_info b1 = (b2, CompositeCommand_INFO)
      \<and> cmd_read g b2 (CompositeCommand old cs m) = Ret (g', b3,
          CompositeCommand b (map (\<lambda>b. Pointer (NullCommand b)) bs @ drop (length bs) cs) (length bs))
      \<and> bb_pending b3 = []"
proof -
  let ?cs = "map (\<lambda>b. Pointer (NullCommand b)) bs @ r"
  have n: "length bs < 2 ^ 64" using assms(3) by (simp add: MAX_COMMANDS_def)
  obtain c where c: "cmd_write bb (CompositeCommand b ?cs (length bs)) = write_slots (length bs) c ?cs" "bb_inv c"
      "bb_pending c = ClassInfo_bytes CompositeCommand_INFO @ Command_image b @ word_bytes (word_of_nat (length bs) :: 64 word)"
    by (rule composite_header [OF assms(1,2) n])
  obtain b1 where b1: "write_slots (length bs) c ?cs = Ret b1" "bb_inv b1"
      "bb_pending b1 = ClassInfo_bytes CompositeCommand_INFO @ Command_image b
         @ word_bytes (word_of_nat (length bs) :: 64 word) @ null_images bs"
    using write_slots_nulls [OF c(2), of bs r] c(3) by auto
  obtain b2 d where d: "read_info b1 = (b2, CompositeCommand_INFO)" "bb_inv d" "bb_pending d = null_images bs"
      "cmd_read g b2 (CompositeCommand old cs m) =
         noexcept (map_out (\<lambda>(g, bb, cs). (g, bb, CompositeCommand b cs (length bs))) (read_slots (length bs) 0 g d cs))"
    by (rule composite_header_read [OF b1(2) n b1(3), of g old cs m])
  from read_slots_nulls [OF d(2), of bs "[]" 0 cs g ids g'] d(3,4) assms(3-5) c(1) b1(1) d(1)
  show ?thesis
    by (auto simp del: cmd_read.simps cmd_write.simps)
qed

text \<open>A composite inside a composite is lost.\<close>

lemma nested_composite_lost:
  fixes w :: 'w
  assumes "bb_inv bb" "bb_pending bb = []"
  shows "\<exists>b1 b2 b3 c.
      cmd_write bb (CompositeCommand b [Pointer (CompositeCommand b' [] 0 :: 'v command)] 1) = Ret b1
      \<and> read_info b1 = (b2, CompositeCommand_INFO)
      \<and> cmd_read g b2 (CompositeCommand old (replicate MAX_COMMANDS Null_ptr) 0)
          = Ret (g, b3, c) \<and> c = CompositeCommand b (replicate MAX_COMMANDS Null_ptr) 1
      \<and> fst (run c w) = Crash"
proof -
  let ?cs = "[Pointer (CompositeCommand b' [] 0)] :: 'v pointer list"
  let ?nulls = "replicate MAX_COMMANDS Null_ptr :: 'w pointer list"
  have one: "(1 :: nat) < 2 ^ 64" by simp
  obtain c where c: "cmd_write bb (CompositeCommand b ?cs 1) = write_slots 1 c ?cs" "bb_inv c"
      "bb_pending c = ClassInfo_bytes CompositeCommand_INFO @ Command_image b @ word_bytes (word_of_nat 1 :: 64 word)"
    by (rule composite_header [OF assms(1,2) one, of b ?cs])
  define b1 where "b1 = bb_write_pod (Command_write (bb_write c (ClassInfo_bytes CompositeCommand_INFO)) b') (0 :: 64 word)"
  have b1: "cmd_write bb (CompositeCommand b ?cs 1) = Ret b1" unfolding c(1) by (simp add: b1_def Let_def)
  obtain ys where "bb_inv b1" and pend: "bb_pending b1 = ClassInfo_bytes CompositeCommand_INFO @ Command_image b
      @ word_bytes (word_of_nat 1 :: 64 word) @ ClassInfo_bytes CompositeCommand_INFO @ ys"
    using Command_write_put [of "bb_write c (ClassInfo_bytes CompositeCommand_INFO)" b'] c(2,3)
    by (simp add: b1_def bb_write_pod_def bb.put_inv bb.put_pending)
  obtain b2 d where d: "read_info b1 = (b2, CompositeCommand_INFO)" "bb_inv d" "bb_pending d = ClassInfo_bytes CompositeCommand_INFO @ ys"
      "cmd_read g b2 (CompositeCommand old ?nulls 0) =
         noexcept (map_out (\<lambda>(g, bb, cs). (g, bb, CompositeCommand b cs 1)) (read_slots 1 0 g d ?nulls))"
    by (rule composite_header_read [OF \<open>bb_inv b1\<close> one pend, of g old ?nulls 0])
  obtain e where e: "read_info d = (e, CompositeCommand_INFO)" by (rule read_info_front [OF d(2,3)]) simp_all
  then have "cmd_read g b2 (CompositeCommand old ?nulls 0) = Ret (g, e, CompositeCommand b ?nulls 1)"
    unfolding d(4) by (simp add: create_simps)
  moreover have "fst (run (CompositeCommand b ?nulls 1) w) = Crash"
    by (simp add: MAX_COMMANDS_def numeral_eq_Suc)
  ultimately show ?thesis
    using b1 d(1) by blast
qed

text \<open>
  C3: A composite of \<open>NullCommand\<close>s written to a buffer with nothing pending is read back, after its
  description, into any composite: same id and flag, same commands in the same order, and nothing left
  pending, provided the shared generator has ids left for the commands made on the way. A composite inside
  a composite is not read back: its class is not registered, so the reader keeps the count, leaves the
  pointer as it was, null in a new composite, and running the result uses a null pointer.
\<close>

theorem composite_binary_roundtrip:
  fixes w :: 'w
  assumes "bb_inv bb" "bb_pending bb = []" "length bs \<le> MAX_COMMANDS" "length cs = MAX_COMMANDS"
    "take_ids (length bs) g = Ret (ids, g')"
  shows "(\<exists>b1 b2 b3.
      cmd_write bb (CompositeCommand b (map (\<lambda>b. Pointer (NullCommand b)) bs @ r) (length bs)) = Ret b1
      \<and> read_info b1 = (b2, CompositeCommand_INFO)
      \<and> cmd_read g b2 (CompositeCommand old cs m) = Ret (g', b3,
          CompositeCommand b (map (\<lambda>b. Pointer (NullCommand b)) bs @ drop (length bs) cs) (length bs))
      \<and> bb_pending b3 = [])
    \<and> (\<exists>b1 b2 b3 c.
      cmd_write bb (CompositeCommand b [Pointer (CompositeCommand b' [] 0 :: 'v command)] 1) = Ret b1
      \<and> read_info b1 = (b2, CompositeCommand_INFO)
      \<and> cmd_read g b2 (CompositeCommand old (replicate MAX_COMMANDS Null_ptr) 0)
          = Ret (g, b3, c) \<and> c = CompositeCommand b (replicate MAX_COMMANDS Null_ptr) 1
      \<and> fst (run c w) = Crash)"
  by (rule conjI [OF composite_of_nulls_roundtrip [OF assms] nested_composite_lost [OF assms(1,2)]])

theorem composite_binary_roundtrip_witness:
  "\<exists>b1 b2 b3.
      cmd_write (bb_new 0) (CompositeCommand plain (map (\<lambda>b. Pointer (NullCommand b)) [plain] @ []) (length [plain])) = Ret b1
      \<and> read_info b1 = (b2, CompositeCommand_INFO)
      \<and> cmd_read (Generator_of 1 0 1) b2 (CompositeCommand plain (replicate MAX_COMMANDS Null_ptr) 0)
        = Ret (Generator_set_value (Generator_of 1 0 1) 1, b3,
            CompositeCommand plain (map (\<lambda>b. Pointer (NullCommand b)) [plain] @ drop (length [plain]) (replicate MAX_COMMANDS Null_ptr))
              (length [plain]))
      \<and> bb_pending b3 = []"
proof -
  have ids: "take_ids (length [plain]) (Generator_of 1 0 1) = Ret ([1], Generator_set_value (Generator_of 1 0 1) 1)"
    by (simp add: Generator_get_id_def add_int64_def Generator_of_def Generator_set_value_def)
  show ?thesis
    by (rule composite_binary_roundtrip [OF bb_new_inv _ _ ids, THEN conjunct1]) (simp_all add: MAX_COMMANDS_def)
qed

section \<open>Sizes\<close>

definition sizeof_ClassInfo :: nat where "sizeof_ClassInfo = 206"

definition Object_SIZE :: nat where "Object_SIZE = 8 + sizeof_ClassInfo"

definition Command_size :: nat where "Command_size = 1 + sizeof_ClassInfo + Object_SIZE"

text \<open>\<open>size\<close> of a composite is the size of its count and its description and the sizes of its commands.\<close>

fun cmd_size :: "'w command \<Rightarrow> nat outcome" and size_slots :: "nat \<Rightarrow> 'w pointer list \<Rightarrow> nat \<Rightarrow> nat outcome" where
  "cmd_size (NullCommand b) = Ret Command_size"
| "cmd_size (OtherCommand b r u) = Ret Command_size"
| "cmd_size (CompositeCommand b cs n) = size_slots n cs (8 + sizeof_ClassInfo)"
| "size_slots 0 cs sz = Ret sz"
| "size_slots (Suc k) (Pointer c # cs) sz = bind_outcome (cmd_size c) (\<lambda>m. size_slots k cs (sz + m))"
| "size_slots (Suc k) (Null_ptr # cs) sz = Undef"
| "size_slots (Suc k) (Dangling # cs) sz = Undef"
| "size_slots (Suc k) [] sz = Undef"

text \<open>
  What \<open>size\<close> leaves out of the bytes that \<open>write\<close> appends: the description of a \<open>NullCommand\<close>, and the part of a
  composite that \<open>Command\<close> writes.
\<close>

fun left_out :: "'w command \<Rightarrow> nat" and left_out_slots :: "nat \<Rightarrow> 'w pointer list \<Rightarrow> nat" where
  "left_out (NullCommand b) = sizeof_ClassInfo"
| "left_out (OtherCommand b r u) = 0"
| "left_out (CompositeCommand b cs n) = Command_size + left_out_slots n cs"
| "left_out_slots 0 cs = 0"
| "left_out_slots (Suc k) (Pointer c # cs) = left_out c + left_out_slots k cs"
| "left_out_slots (Suc k) cs = 0"

lemma Command_write_length:
  "bb_inv bb \<Longrightarrow> bb_inv (Command_write bb b) \<and> length (bb_pending (Command_write bb b)) = length (bb_pending bb) + Command_size"
  using Command_write_put [of bb b] length_ClassInfo_bytes [of Command_INFO] length_ClassInfo_bytes [of Object_INFO]
  by (simp add: Command_image_def Object_image_def Object_data_bytes_def Command_size_def Object_SIZE_def sizeof_ClassInfo_def
      length_int64_bytes Object_INFO_wf)

lemma info_write_length:
  "bb_inv bb \<Longrightarrow> ClassInfo_wf i \<Longrightarrow> bb_inv (bb_write bb (ClassInfo_bytes i))
     \<and> length (bb_pending (bb_write bb (ClassInfo_bytes i))) = length (bb_pending bb) + sizeof_ClassInfo"
  by (simp add: bb.put_inv bb.put_pending length_ClassInfo_bytes sizeof_ClassInfo_def)

lemma count_write_length:
  "bb_inv bb \<Longrightarrow> bb_inv (bb_write_pod bb (w :: 64 word)) \<and> length (bb_pending (bb_write_pod bb w)) = length (bb_pending bb) + 8"
  by (simp add: bb_write_pod_def bb.put_inv bb.put_pending length_word_bytes)

text \<open>Every well-formed command has a size and is written; the number of bytes written is the size and what it leaves out.\<close>

lemma written_and_size:
  fixes c :: "'w command" and cs :: "'w pointer list"
  shows "bb_inv bb \<Longrightarrow> cmd_wf c \<Longrightarrow> \<exists>bb' m. cmd_write bb c = Ret bb' \<and> bb_inv bb' \<and> cmd_size c = Ret m
     \<and> length (bb_pending bb') = length (bb_pending bb) + m + left_out c"
  "bb_inv bb \<Longrightarrow> slots_wf n cs \<Longrightarrow> \<exists>bb' m. write_slots n bb cs = Ret bb' \<and> bb_inv bb' \<and> (\<forall>sz. size_slots n cs sz = Ret (sz + m))
     \<and> length (bb_pending bb') = length (bb_pending bb) + m + left_out_slots n cs"
proof (induction bb c and n bb cs rule: cmd_write_write_slots.induct)
  case (1 bb b)
  then show ?case
    using info_write_length [OF 1(1), of NullCommand_INFO] Command_write_length [of "bb_write bb (ClassInfo_bytes NullCommand_INFO)" b] by simp
next
  case (2 bb b r u)
  then show ?case using Command_write_length [of bb b] by simp
next
  case (3 bb b cs n)
  let ?b1 = "bb_write bb (ClassInfo_bytes CompositeCommand_INFO)"
  let ?b2 = "Command_write ?b1 b"
  let ?b3 = "bb_write_pod ?b2 (word_of_nat n :: 64 word)"
  have "bb_inv ?b3 \<and> length (bb_pending ?b3) = length (bb_pending bb) + sizeof_ClassInfo + Command_size + 8"
    using info_write_length [OF 3(2), of CompositeCommand_INFO] Command_write_length [of ?b1 b]
      count_write_length [of ?b2 "word_of_nat n"] by simp
  moreover have "slots_wf n cs" using 3(3) by simp
  ultimately show ?case using 3(1) by (force simp: Let_def)
next
  case (5 k bb c cs)
  then obtain b1 m1 where 1: "cmd_write bb c = Ret b1" "bb_inv b1" "cmd_size c = Ret m1"
      "length (bb_pending b1) = length (bb_pending bb) + m1 + left_out c" by auto
  then obtain b2 m2 where "write_slots k b1 cs = Ret b2" "bb_inv b2" "\<forall>sz. size_slots k cs sz = Ret (sz + m2)"
      "length (bb_pending b2) = length (bb_pending b1) + m2 + left_out_slots k cs" using 5(2) [OF 1(2)] 5(4) by auto
  then show ?case using 1 by simp
qed auto

text \<open>
  \<open>size\<close> is exactly the number of bytes that a command written by \<open>Command::write\<close> takes in the binary form, and less than
  that for every \<open>NullCommand\<close> and every composite.
\<close>

theorem command_sizes:
  assumes "bb_inv bb" "cmd_wf c"
  shows "\<exists>bb' m. cmd_write bb c = Ret bb' \<and> cmd_size c = Ret m
    \<and> length (bb_pending bb') = length (bb_pending bb) + m + left_out c
    \<and> (left_out c = 0 \<longleftrightarrow> (\<exists>b r u. c = OtherCommand b r u))"
proof -
  have "left_out c = 0 \<longleftrightarrow> (\<exists>b r u. c = OtherCommand b r u)"
    by (cases c) (simp_all add: sizeof_ClassInfo_def Command_size_def)
  moreover obtain bb' m where "cmd_write bb c = Ret bb'" "cmd_size c = Ret m"
      "length (bb_pending bb') = length (bb_pending bb) + m + left_out c" using written_and_size(1) [OF assms] by blast
  ultimately show ?thesis by simp
qed

theorem command_sizes_witness:
  "\<exists>bb'. cmd_write (bb_new 0) (CompositeCommand plain (Pointer (add_cmd 1) # replicate 9 Null_ptr) 1) = Ret bb'
     \<and> length (bb_pending bb') = 635 + Command_size"
proof -
  have "cmd_wf (CompositeCommand plain (Pointer (add_cmd 1) # replicate 9 Null_ptr) 1)" by (simp add: add_cmd_def MAX_COMMANDS_def)
  from command_sizes [OF bb_new_inv(1) this, of 0] show ?thesis
    by (simp add: add_cmd_def sizeof_ClassInfo_def Command_size_def Object_SIZE_def del: cmd_write.simps)
qed

end
