(* ===== verification/Email.thy ===== *)
theory Email
  imports Objects
begin

text \<open>
  contact.hpp, e-mail.hpp and phone.hpp: the qualifiers of contacts, the validation of e-mail addresses,
  the structs \<open>Email\<close> and \<open>PhoneNumber\<close>. Strings of the library compare without regard to letter case,
  with ICU as a parameter. An enumerator of an \<open>enum class : uint8_t\<close> is its byte.
\<close>

section \<open>Qualifiers\<close>

type_synonym ContactQualifier = byte

definition Business :: ContactQualifier where "Business = 0"

definition Personal :: ContactQualifier where "Personal = 1"

definition Other :: ContactQualifier where "Other = 2"

datatype ContactLocationType = Home | Work | Other_location

section \<open>Validation\<close>

text \<open>\<open>lo <= ch && ch <= hi\<close> on characters, which are signed.\<close>

definition in_range :: "char \<Rightarrow> char \<Rightarrow> char \<Rightarrow> bool" where
  "in_range lo hi ch \<longleftrightarrow> cval lo \<le> cval ch \<and> cval ch \<le> cval hi"

definition local_char :: "char \<Rightarrow> bool" where
  "local_char ch \<longleftrightarrow> in_range CHR ''a'' CHR ''z'' ch \<or> in_range CHR ''A'' CHR ''Z'' ch \<or> in_range CHR ''0'' CHR ''9'' ch
     \<or> ch = CHR ''_'' \<or> ch = CHR ''-'' \<or> ch = CHR ''+''"

fun local_loop :: "bool \<Rightarrow> string \<Rightarrow> bool" where
  "local_loop prev_dot [] = True"
| "local_loop prev_dot (ch # lp) =
     (if ch = CHR ''.'' then if prev_dot then False else local_loop True lp
      else if local_char ch then local_loop False lp
      else False)"

definition is_valid_local_part :: "string \<Rightarrow> bool" where
  "is_valid_local_part lp =
     (if lp = [] \<or> length lp > 64 then False
      else if hd lp = CHR ''.'' \<or> last lp = CHR ''.'' then False
      else local_loop False lp)"

definition domain_char :: "char \<Rightarrow> bool" where
  "domain_char ch \<longleftrightarrow> in_range CHR ''a'' CHR ''z'' ch \<or> in_range CHR ''A'' CHR ''Z'' ch \<or> in_range CHR ''0'' CHR ''9'' ch
     \<or> ch = CHR ''-''"

text \<open>The loop over the labels from \<open>start\<close>: the number of labels, or nothing when one is not accepted.\<close>

function domain_loop :: "string \<Rightarrow> nat \<Rightarrow> nat \<Rightarrow> nat option" where
  "domain_loop domain start label_count =
     (if start \<le> length domain then
        let dot = (case find_char domain CHR ''.'' start of None \<Rightarrow> length domain | Some i \<Rightarrow> i);
            len = dot - start
        in if len = 0 \<or> len > 63 then None
           else if domain ! start = CHR ''-'' \<or> domain ! (dot - 1) = CHR ''-'' then None
           else if \<not> all_range (\<lambda>i. domain_char (domain ! i)) start (dot - start) then None
           else domain_loop domain (dot + 1) (label_count + 1)
      else Some label_count)"
  by auto
termination
  by (relation "measure (\<lambda>(domain, start, _). Suc (length domain) - start)") auto

declare domain_loop.simps [simp del]

definition tld_char :: "char \<Rightarrow> bool" where
  "tld_char ch \<longleftrightarrow> in_range CHR ''a'' CHR ''z'' ch \<or> in_range CHR ''A'' CHR ''Z'' ch"

definition is_valid_domain :: "string \<Rightarrow> bool" where
  "is_valid_domain domain =
     (if domain = [] \<or> length domain > 255 then False
      else case domain_loop domain 0 0 of
        None \<Rightarrow> False
      | Some label_count \<Rightarrow>
          if label_count < 2 then False
          else
            let tld = (case rfind_char domain CHR ''.'' of Some last_dot \<Rightarrow> drop (last_dot + 1) domain | None \<Rightarrow> domain)
            in if length tld < 2 then False else list_all tld_char tld)"

definition is_valid_email_address :: "string \<Rightarrow> bool" where
  "is_valid_email_address email_address =
     (if email_address = [] then False
      else case find_char email_address CHR ''@'' 0 of
        None \<Rightarrow> False
      | Some at \<Rightarrow>
          if at = 0 \<or> at = length email_address - 1 then False
          else if find_char email_address CHR ''@'' (at + 1) \<noteq> None then False
          else is_valid_local_part (substr email_address 0 at) \<and> is_valid_domain (drop (at + 1) email_address))"

section \<open>The struct\<close>

abbreviation LocalPart :: cs_type where "LocalPart \<equiv> CS 0 64"

abbreviation Domain :: cs_type where "Domain \<equiv> CS 0 255"

record Email =
  mlocal_part :: cs
  mdomain :: cs
  email_mqualifier :: ContactQualifier

definition NULL_LOCAL_PART :: cs where "NULL_LOCAL_PART = ''null'' @ replicate 60 NUL"

definition NULL_DOMAIN :: cs where "NULL_DOMAIN = ''null'' @ replicate 251 NUL"

definition null_email_str :: string where "null_email_str = ''null@null''"

definition Email_initialize :: "icu \<Rightarrow> cs \<Rightarrow> cs \<Rightarrow> ContactQualifier \<Rightarrow> Email outcome" where
  "Email_initialize u lp d cq =
     bind_outcome (bind_outcome (cs_eq u LocalPart lp NULL_LOCAL_PART) (\<lambda>e.
       if e then cs_eq u Domain d NULL_DOMAIN else Ret False)) (\<lambda>is_null.
     bind_outcome (if is_null then Ret () else
       bind_outcome (cs_to_string lp) (\<lambda>l.
       if \<not> is_valid_local_part l then runtime_error ''Invalid local part'' else
       bind_outcome (cs_to_string d) (\<lambda>s.
       if \<not> is_valid_domain s then runtime_error ''Invalid domain'' else Ret ()))) (\<lambda>_.
     Ret \<lparr>mlocal_part = lp, mdomain = d, email_mqualifier = cq\<rparr>))"

definition Email_of :: "icu \<Rightarrow> cs \<Rightarrow> cs \<Rightarrow> ContactQualifier \<Rightarrow> Email outcome" where
  "Email_of u lp d cq = Email_initialize u lp d cq"

text \<open>The constructors from a string: the parts become \<open>LocalPart\<close> and \<open>Domain\<close> before they are validated.\<close>

definition Email_of_string :: "icu \<Rightarrow> string \<Rightarrow> ContactQualifier \<Rightarrow> Email outcome" where
  "Email_of_string u s cq =
     (case find_char s CHR ''@'' 0 of
        Some at \<Rightarrow> bind_outcome (cs_of_string LocalPart (substr s 0 at)) (\<lambda>lp.
          bind_outcome (cs_of_string Domain (drop (at + 1) s)) (\<lambda>d. Email_initialize u lp d cq))
      | None \<Rightarrow> runtime_error ''Invalid email address'')"

definition Email_of_cstr :: "icu \<Rightarrow> cs \<Rightarrow> ContactQualifier \<Rightarrow> Email outcome" where
  "Email_of_cstr u s cq = bind_outcome (cs_to_string s) (\<lambda>s. Email_of_string u s cq)"

text \<open>\<open>str\<close> is \<open>noexcept\<close>; it uses the concatenation of an \<open>S\<close> and a \<open>CS<0, 255>\<close>.\<close>

definition Email_str :: "Email \<Rightarrow> string outcome" where
  "Email_str e = noexcept (bind_outcome (cs_to_string (mlocal_part e)) (\<lambda>l.
     bind_outcome (string_plus_cs 255 (l @ ''@'') (mdomain e)) cs_to_string))"

definition equal_local_part :: "icu \<Rightarrow> Email \<Rightarrow> Email \<Rightarrow> bool outcome" where
  "equal_local_part u e other = cs_eq u LocalPart (mlocal_part e) (mlocal_part other)"

definition equal_domain :: "icu \<Rightarrow> Email \<Rightarrow> Email \<Rightarrow> bool outcome" where
  "equal_domain u e other = cs_eq u Domain (mdomain e) (mdomain other)"

definition Email_eq :: "icu \<Rightarrow> Email \<Rightarrow> Email \<Rightarrow> bool outcome" where
  "Email_eq u e other = bind_outcome (equal_local_part u e other) (\<lambda>b. if b then equal_domain u e other else Ret False)"

definition Email_neq :: "icu \<Rightarrow> Email \<Rightarrow> Email \<Rightarrow> bool outcome" where
  "Email_neq u e other = map_out Not (Email_eq u e other)"

definition NULL_EMAIL :: Email where
  "NULL_EMAIL = \<lparr>mlocal_part = NULL_LOCAL_PART, mdomain = NULL_DOMAIN, email_mqualifier = Business\<rparr>"

definition Email_write :: "string \<Rightarrow> Email \<Rightarrow> string outcome" where
  "Email_write os e = bind_outcome (cs_to_string (mlocal_part e)) (\<lambda>l. cs_write (os @ l @ ''@'') (mdomain e))"

text \<open>Extraction reads one word, validates nothing and keeps the qualifier.\<close>

definition Email_read :: "istream \<Rightarrow> Email \<Rightarrow> (istream \<times> Email) outcome" where
  "Email_read is e =
     (case read_word is of (is', s) \<Rightarrow>
      case find_char s CHR ''@'' 0 of
        Some at \<Rightarrow> bind_outcome (cs_assign_string LocalPart (substr s 0 at) (mlocal_part e)) (\<lambda>lp.
          bind_outcome (cs_assign_string Domain (drop (at + 1) s) (mdomain e)) (\<lambda>d.
          Ret (is', e\<lparr>mlocal_part := lp, mdomain := d\<rparr>)))
      | None \<Rightarrow> runtime_error ''Invalid email address'')"

section \<open>Phone numbers\<close>

abbreviation CountryCode :: cs_type where "CountryCode \<equiv> CS 0 4"

abbreviation AreaCode :: cs_type where "AreaCode \<equiv> CS 0 5"

abbreviation Number :: cs_type where "Number \<equiv> CS 0 11"

record PhoneNumber =
  mcountry_code :: cs
  mareacode :: cs
  mnumber :: cs
  phone_mqualifier :: ContactQualifier

definition PhoneNumber_of :: "cs \<Rightarrow> cs \<Rightarrow> cs \<Rightarrow> ContactQualifier \<Rightarrow> PhoneNumber" where
  "PhoneNumber_of cc ac n cq = \<lparr>mcountry_code = cc, mareacode = ac, mnumber = n, phone_mqualifier = cq\<rparr>"

definition equal_country_code :: "icu \<Rightarrow> PhoneNumber \<Rightarrow> PhoneNumber \<Rightarrow> bool outcome" where
  "equal_country_code u p other = cs_eq u CountryCode (mcountry_code p) (mcountry_code other)"

definition equal_area_code :: "icu \<Rightarrow> PhoneNumber \<Rightarrow> PhoneNumber \<Rightarrow> bool outcome" where
  "equal_area_code u p other = cs_eq u AreaCode (mareacode p) (mareacode other)"

definition equal_number :: "icu \<Rightarrow> PhoneNumber \<Rightarrow> PhoneNumber \<Rightarrow> bool outcome" where
  "equal_number u p other = cs_eq u Number (mnumber p) (mnumber other)"

definition PhoneNumber_eq :: "icu \<Rightarrow> PhoneNumber \<Rightarrow> PhoneNumber \<Rightarrow> bool outcome" where
  "PhoneNumber_eq u p other = bind_outcome (equal_country_code u p other) (\<lambda>b. if b
     then bind_outcome (equal_area_code u p other) (\<lambda>b. if b then equal_number u p other else Ret False)
     else Ret False)"

definition PhoneNumber_neq :: "icu \<Rightarrow> PhoneNumber \<Rightarrow> PhoneNumber \<Rightarrow> bool outcome" where
  "PhoneNumber_neq u p other = map_out Not (PhoneNumber_eq u p other)"

section \<open>What the validation accepts\<close>

text \<open>The shape of an address: dot-separated atoms, an at sign, dot-separated labels.\<close>

definition atom :: "string \<Rightarrow> bool" where
  "atom a \<longleftrightarrow> a \<noteq> [] \<and> (\<forall>c\<in>set a. isalnum c \<or> c \<in> set ''_-+'')"

definition label :: "string \<Rightarrow> bool" where
  "label l \<longleftrightarrow> l \<noteq> [] \<and> length l \<le> 63 \<and> hd l \<noteq> CHR ''-'' \<and> last l \<noteq> CHR ''-'' \<and> (\<forall>c\<in>set l. isalnum c \<or> c = CHR ''-'')"

definition local_grammar :: "string \<Rightarrow> bool" where
  "local_grammar lp \<longleftrightarrow> length lp \<le> 64 \<and> list_all atom (String_Util.fields CHR ''.'' lp)"

definition domain_grammar :: "string \<Rightarrow> bool" where
  "domain_grammar d \<longleftrightarrow> length d \<le> 255 \<and> 2 \<le> length (String_Util.fields CHR ''.'' d) \<and> list_all label (String_Util.fields CHR ''.'' d)
     \<and> 2 \<le> length (last (String_Util.fields CHR ''.'' d)) \<and> list_all isalpha (last (String_Util.fields CHR ''.'' d))"

lemma in_range_code:
  "in_range CHR ''a'' CHR ''z'' c \<longleftrightarrow> 97 \<le> code c \<and> code c \<le> 122"
  "in_range CHR ''A'' CHR ''Z'' c \<longleftrightarrow> 65 \<le> code c \<and> code c \<le> 90"
  "in_range CHR ''0'' CHR ''9'' c \<longleftrightarrow> 48 \<le> code c \<and> code c \<le> 57"
proof -
  have "code CHR ''a'' = 97" "code CHR ''z'' = 122" "code CHR ''A'' = 65" "code CHR ''Z'' = 90" "code CHR ''0'' = 48" "code CHR ''9'' = 57"
    by (simp_all add: code_def)
  then show "in_range CHR ''a'' CHR ''z'' c \<longleftrightarrow> 97 \<le> code c \<and> code c \<le> 122"
    "in_range CHR ''A'' CHR ''Z'' c \<longleftrightarrow> 65 \<le> code c \<and> code c \<le> 90"
    "in_range CHR ''0'' CHR ''9'' c \<longleftrightarrow> 48 \<le> code c \<and> code c \<le> 57"
    using code_less [of c] by (auto simp: in_range_def cval_def simp del: code_less)
qed

lemma local_char_alnum: "local_char c \<longleftrightarrow> isalnum c \<or> c \<in> set ''_-+''"
  by (auto simp: local_char_def in_range_code isalnum_def isalpha_def isdigit_def isupper_def islower_def)

lemma domain_char_alnum: "domain_char c \<longleftrightarrow> isalnum c \<or> c = CHR ''-''"
  by (auto simp: domain_char_def in_range_code isalnum_def isalpha_def isdigit_def isupper_def islower_def)

lemma tld_char_alpha: "tld_char = isalpha"
  by (auto simp: fun_eq_iff tld_char_def in_range_code isalpha_def isupper_def islower_def)

lemma atom_local: "atom a \<longleftrightarrow> a \<noteq> [] \<and> (\<forall>c\<in>set a. local_char c)"
  by (simp add: atom_def local_char_alnum)

lemma fields_Cons_cases:
  obtains f fs where "String_Util.fields ch s = f # fs"
  using fields_nonempty [of ch s] by (cases "String_Util.fields ch s") auto

lemma local_loop_fields:
  "(local_loop True lp \<and> lp \<noteq> [] \<and> last lp \<noteq> CHR ''.'' \<longleftrightarrow> list_all atom (String_Util.fields CHR ''.'' lp))
   \<and> (local_loop False lp \<and> (lp \<noteq> [] \<longrightarrow> last lp \<noteq> CHR ''.'') \<longleftrightarrow>
        (\<forall>c\<in>set (hd (String_Util.fields CHR ''.'' lp)). local_char c) \<and> list_all atom (tl (String_Util.fields CHR ''.'' lp)))"
proof (induction lp)
  case Nil
  then show ?case by (simp add: atom_def)
next
  case (Cons c lp)
  obtain f fs where f: "String_Util.fields CHR ''.'' lp = f # fs" by (rule fields_Cons_cases)
  show ?case
  proof (cases "c = CHR ''.''")
    case True
    then show ?thesis using Cons f by (auto simp: atom_local)
  next
    case False
    then show ?thesis using Cons f by (auto simp: atom_local)
  qed
qed

lemma is_valid_local_part_iff: "is_valid_local_part lp \<longleftrightarrow> local_grammar lp"
proof (cases lp)
  case Nil
  then show ?thesis by (simp add: is_valid_local_part_def local_grammar_def atom_def)
next
  case (Cons c cs)
  have "hd lp = CHR ''.'' \<Longrightarrow> \<not> list_all atom (String_Util.fields CHR ''.'' lp)" using Cons by (simp add: atom_def)
  moreover have "hd lp \<noteq> CHR ''.'' \<Longrightarrow> local_loop False lp = local_loop True lp" using Cons by simp
  ultimately show ?thesis
    using local_loop_fields [of lp] Cons by (auto simp: is_valid_local_part_def local_grammar_def)
qed

lemma fields_join: "String_Util.fields ch (a @ ch # b) = String_Util.fields ch a @ String_Util.fields ch b"
proof (induction a)
  case (Cons x a)
  obtain f fs where "String_Util.fields ch a = f # fs" by (rule fields_Cons_cases)
  with Cons show ?case by simp
qed simp

lemma find_index_append: "(\<forall>x\<in>set xs. \<not> P x) \<Longrightarrow> P y \<Longrightarrow> find_index P (xs @ y # ys) = Some (length xs)"
  by (induction xs) auto

lemma last_field:
  assumes "ch \<in> set s"
  shows "\<exists>i. rfind_char s ch = Some i \<and> drop (i + 1) s = last (String_Util.fields ch s)"
proof -
  obtain a b where s: "s = a @ ch # b" "ch \<notin> set b" using split_list_last [OF assms] by blast
  have "find_index (\<lambda>x. x = ch) (rev b @ ch # rev a) = Some (length b)"
    using find_index_append [of "rev b" "\<lambda>x. x = ch" ch] s(2) by auto
  then have "rfind_char s ch = Some (length a)" using s by (simp add: rfind_char_def)
  moreover have "drop (length a + 1) s = last (String_Util.fields ch s)"
    using s fields_single [OF s(2)] by (simp add: fields_join)
  ultimately show ?thesis by blast
qed

text \<open>One step of the loop over labels, in terms of the first field.\<close>

lemma label_check:
  assumes "start \<le> dot" "dot \<le> length d" "l = take (dot - start) (drop start d)"
  shows "label l \<longleftrightarrow> \<not> (dot - start = 0 \<or> dot - start > 63) \<and> \<not> (d ! start = CHR ''-'' \<or> d ! (dot - 1) = CHR ''-'')
    \<and> all_range (\<lambda>i. domain_char (d ! i)) start (dot - start)"
proof (cases "dot = start")
  case True
  then show ?thesis using assms by (simp add: label_def)
next
  case False
  have len: "length l = dot - start" using assms by simp
  have nth: "l ! j = d ! (start + j)" if "j < dot - start" for j using assms that by simp
  have "hd l = d ! start" "last l = d ! (dot - 1)"
    using False assms(1) len nth [of 0] nth [of "dot - start - 1"] by (simp_all add: hd_conv_nth last_conv_nth flip: length_0_conv)
  moreover have "(\<forall>c\<in>set l. domain_char c) \<longleftrightarrow> all_range (\<lambda>i. domain_char (d ! i)) start (dot - start)"
    unfolding all_range_iff using len nth by (metis in_set_conv_nth)
  moreover have "l \<noteq> []" using len False assms(1) by (simp flip: length_0_conv)
  ultimately show ?thesis using len by (auto simp: label_def domain_char_alnum)
qed

lemma domain_loop_fields:
  "start \<le> length d \<Longrightarrow> domain_loop d start n =
     (if list_all label (String_Util.fields CHR ''.'' (drop start d))
      then Some (n + length (String_Util.fields CHR ''.'' (drop start d))) else None)"
proof (induction d start n rule: domain_loop.induct)
  case (1 d start n)
  show ?case
  proof (cases "find_char d CHR ''.'' start")
    case None
    then have f: "String_Util.fields CHR ''.'' (drop start d) = [drop start d]"
      by (simp add: find_char_None fields_single)
    have chk: "label (drop start d) \<longleftrightarrow> \<not> (length d - start = 0 \<or> length d - start > 63)
        \<and> \<not> (d ! start = CHR ''-'' \<or> d ! (length d - 1) = CHR ''-'')
        \<and> all_range (\<lambda>i. domain_char (d ! i)) start (length d - start)"
      using "1.prems" by (intro label_check) auto
    have "domain_loop d (length d + 1) (n + 1) = Some (n + 1)" by (simp add: domain_loop.simps)
    then show ?thesis using None "1.prems" f chk
      by (subst domain_loop.simps) (auto simp: Let_def)
  next
    case (Some dot)
    note found = find_char_Some [OF Some]
    let ?l = "substr d start (dot - start)"
    have f: "String_Util.fields CHR ''.'' (drop start d) = ?l # String_Util.fields CHR ''.'' (drop (dot + 1) d)"
      using found(3,4) by (simp add: fields_append)
    have chk: "label ?l \<longleftrightarrow> \<not> (dot - start = 0 \<or> dot - start > 63)
        \<and> \<not> (d ! start = CHR ''-'' \<or> d ! (dot - 1) = CHR ''-'')
        \<and> all_range (\<lambda>i. domain_char (d ! i)) start (dot - start)"
      using found(1,2) by (intro label_check) (auto simp: substr_def)
    show ?thesis
    proof (cases "label ?l")
      case True
      with "1.IH" [OF "1.prems" refl refl] Some found(2) chk f "1.prems" show ?thesis
        by (subst domain_loop.simps) (auto simp: Let_def)
    next
      case False
      with Some chk f "1.prems" show ?thesis by (subst domain_loop.simps) (auto simp: Let_def)
    qed
  qed
qed

lemma two_fields: "2 \<le> length (String_Util.fields ch s) \<longleftrightarrow> ch \<in> set s"
proof
  assume "ch \<in> set s"
  then obtain a b where "s = a @ ch # b" by (meson split_list)
  moreover obtain f fs g gs where "String_Util.fields ch a = f # fs" "String_Util.fields ch b = g # gs"
    by (meson fields_Cons_cases)
  ultimately show "2 \<le> length (String_Util.fields ch s)" by (simp add: fields_join)
qed (rule ccontr, simp add: fields_single)

lemma is_valid_domain_iff: "is_valid_domain d \<longleftrightarrow> domain_grammar d"
proof (cases "CHR ''.'' \<in> set d")
  case True
  then obtain i where "rfind_char d CHR ''.'' = Some i" "drop (i + 1) d = last (String_Util.fields CHR ''.'' d)"
    using last_field by blast
  then show ?thesis
    using domain_loop_fields [of 0 d 0] True two_fields [of "CHR ''.''" d]
    by (auto simp: is_valid_domain_def domain_grammar_def tld_char_alpha Let_def)
next
  case False
  then show ?thesis
    using domain_loop_fields [of 0 d 0] fields_single [OF False] two_fields [of "CHR ''.''" d]
    by (auto simp: is_valid_domain_def domain_grammar_def)
qed

lemma grammar_chars:
  assumes "local_grammar lp" "domain_grammar d"
  shows "c \<in> set lp \<Longrightarrow> isalnum c \<or> c \<in> set ''._-+''" "c \<in> set d \<Longrightarrow> isalnum c \<or> c \<in> set ''.-''" "lp \<noteq> []" "d \<noteq> []"
proof -
  have in_field: "c = ch \<or> (\<exists>f\<in>set (String_Util.fields ch s). c \<in> set f)" if "c \<in> set s" for c ch s
    using that
  proof (induction s)
    case (Cons x s)
    obtain f fs where "String_Util.fields ch s = f # fs" by (rule fields_Cons_cases)
    with Cons show ?case by auto
  qed simp
  show "isalnum c \<or> c \<in> set ''._-+''" if "c \<in> set lp"
    using in_field [OF that, of "CHR ''.''"] assms(1) by (auto simp: local_grammar_def list_all_iff atom_def)
  show "isalnum c \<or> c \<in> set ''.-''" if "c \<in> set d"
    using in_field [OF that, of "CHR ''.''"] assms(2) by (auto simp: domain_grammar_def list_all_iff label_def)
  show "lp \<noteq> []" using assms(1) by (auto simp: local_grammar_def atom_def)
  show "d \<noteq> []" using assms(2) by (auto simp: domain_grammar_def)
qed

lemma special_chars: "\<not> isalnum CHR ''@''" "\<not> isalnum NUL"
  by code_simp+

lemma grammar_no_at:
  assumes "local_grammar lp" "domain_grammar d"
  shows "CHR ''@'' \<notin> set lp" "CHR ''@'' \<notin> set d" "NUL \<notin> set lp" "NUL \<notin> set d"
  using grammar_chars(1,2) [OF assms, of "CHR ''@''"] grammar_chars(1,2) [OF assms, of NUL] special_chars
  by (auto simp: NUL_def)

lemma grammar_lower_arg:
  assumes "local_grammar lp" "domain_grammar d"
  shows "\<forall>c \<in> set lp \<union> set d. lower_arg c"
proof -
  have "lower_arg c" if "isalnum c" for c
    using that by (auto simp: lower_arg_def cval_def isalnum_def isalpha_def isupper_def islower_def isdigit_def)
  moreover have "\<forall>c \<in> set ''._-+''. lower_arg c" by code_simp
  ultimately show ?thesis using grammar_chars(1,2) [OF assms] by auto
qed

lemma find_at: "CHR ''@'' \<notin> set lp \<Longrightarrow> find_char (lp @ CHR ''@'' # d) CHR ''@'' 0 = Some (length lp)"
  unfolding find_char_def using find_index_append [of lp "\<lambda>x. x = CHR ''@''" "CHR ''@''" d] by auto

lemma valid_address_iff:
  "is_valid_email_address s \<longleftrightarrow> (\<exists>lp d. s = lp @ ''@'' @ d \<and> local_grammar lp \<and> domain_grammar d)" (is "?v \<longleftrightarrow> ?g")
proof
  assume ?v
  then obtain at where at: "find_char s CHR ''@'' 0 = Some at" "is_valid_local_part (substr s 0 at)"
      "is_valid_domain (drop (at + 1) s)"
    by (auto simp: is_valid_email_address_def split: if_splits option.splits)
  have "s = substr s 0 at @ ''@'' @ drop (at + 1) s" using find_char_Some(3) [OF at(1)] by simp
  with at(2,3) show ?g by (auto simp: is_valid_local_part_iff is_valid_domain_iff)
next
  assume ?g
  then obtain lp d where s: "s = lp @ ''@'' @ d" and g: "local_grammar lp" "domain_grammar d" by blast
  note no = grammar_no_at [OF g] and ne = grammar_chars(3,4) [OF g]
  have "find_char s CHR ''@'' 0 = Some (length lp)" using find_at [OF no(1)] s by simp
  moreover have "find_char s CHR ''@'' (length lp + 1) = None" using s no(2) by (simp add: find_char_None)
  moreover have "substr s 0 (length lp) = lp" "drop (length lp + 1) s = d" using s by (simp_all add: substr_def)
  ultimately show ?v
    using g ne s by (auto simp: is_valid_email_address_def is_valid_local_part_iff is_valid_domain_iff)
qed

text \<open>
  C4: \<open>is_valid_email_address\<close> accepts exactly the texts \<open>local@domain\<close> where the local part has at most 64
  characters and is made of non-empty atoms of letters, digits, underscores, hyphens and plus signs
  separated by single dots, and the domain has at most 255 characters and is made of at least two labels
  of 1 to 63 letters, digits and hyphens, none beginning or ending with a hyphen, the last of at least two
  letters only. The two part validators accept exactly the two parts.
\<close>

theorem email_grammar:
  "(is_valid_email_address s \<longleftrightarrow> (\<exists>lp d. s = lp @ ''@'' @ d \<and> local_grammar lp \<and> domain_grammar d))
   \<and> (is_valid_local_part lp \<longleftrightarrow> local_grammar lp) \<and> (is_valid_domain d \<longleftrightarrow> domain_grammar d)"
  using valid_address_iff is_valid_local_part_iff is_valid_domain_iff by blast

section \<open>Construction, printing and reading\<close>

lemma CS_sel [simp]: "cs_max (CS a n) = n" "cs_min (CS a n) = a" "case_sensitive (CS a n) = False"
  by (simp_all add: CS_def)

lemma null_parts: "cs_of_cstr LocalPart (''null'' @ [NUL]) = Ret NULL_LOCAL_PART" "cs_of_cstr Domain (''null'' @ [NUL]) = Ret NULL_DOMAIN"
  by code_simp+

lemma null_parts_ok [simp]:
  "cs_ok LocalPart NULL_LOCAL_PART" "cs_str NULL_LOCAL_PART = ''null''" "cs_ok Domain NULL_DOMAIN" "cs_str NULL_DOMAIN = ''null''"
  by code_simp+

lemma cs_copy_string_any: "cs_copy_string t s d = cs_of_string t s"
  by (simp add: cs_of_string_def cs_copy_string_def cs_copy_def Let_def)

text \<open>The null address in any letter case.\<close>

definition null_like :: "string \<Rightarrow> string \<Rightarrow> bool" where
  "null_like lp d \<longleftrightarrow> map tolower lp = ''null'' \<and> map tolower d = ''null''"

lemma tolower_null: "map tolower ''null'' = ''null''"
  by code_simp

lemma canon_CS: "canon (CS 0 n) = tolower"
  by (simp add: fun_eq_iff canon_def)

lemma null_comparable: "comparable (CS 0 n) ''null''"
  unfolding comparable_def by (rule disjI2) code_simp

text \<open>What \<open>initialize\<close> does, unless a character is compared for which \<open>std::tolower\<close> is undefined.\<close>

definition initialized_email :: "cs \<Rightarrow> cs \<Rightarrow> ContactQualifier \<Rightarrow> Email outcome" where
  "initialized_email lp d cq =
     (if null_like (cs_str lp) (cs_str d) then Ret \<lparr>mlocal_part = lp, mdomain = d, email_mqualifier = cq\<rparr>
      else if \<not> local_grammar (cs_str lp) then Raise (Runtime_error ''Invalid local part'')
      else if \<not> domain_grammar (cs_str d) then Raise (Runtime_error ''Invalid domain'')
      else Ret \<lparr>mlocal_part = lp, mdomain = d, email_mqualifier = cq\<rparr>)"

lemma Email_initialize_cases:
  assumes "cs_ok LocalPart lp" "cs_ok Domain d"
  shows "Email_initialize u lp d cq = initialized_email lp d cq
    \<or> Email_initialize u lp d cq = Undef \<and> (\<exists>c \<in> set (cs_str lp) \<union> set (cs_str d). \<not> lower_arg c)"
proof -
  have l: "cs_eq u LocalPart lp NULL_LOCAL_PART = Ret (map tolower (cs_str lp) = ''null'')
      \<or> cs_eq u LocalPart lp NULL_LOCAL_PART = Undef \<and> (\<exists>c \<in> set (cs_str lp). \<not> lower_arg c)"
    using cs_eq_cases [OF assms(1) null_parts_ok(1), of u] null_comparable tolower_null
    by (auto simp: canon_CS comparable_def list_all_iff)
  have d: "cs_eq u Domain d NULL_DOMAIN = Ret (map tolower (cs_str d) = ''null'')
      \<or> cs_eq u Domain d NULL_DOMAIN = Undef \<and> (\<exists>c \<in> set (cs_str d). \<not> lower_arg c)"
    using cs_eq_cases [OF assms(2) null_parts_ok(3), of u] null_comparable tolower_null
    by (auto simp: canon_CS comparable_def list_all_iff)
  note simps = Email_initialize_def initialized_email_def null_like_def is_valid_local_part_iff is_valid_domain_iff runtime_error_def
  show ?thesis
  proof (cases "cs_eq u LocalPart lp NULL_LOCAL_PART = Undef \<or> map tolower (cs_str lp) = ''null'' \<and> cs_eq u Domain d NULL_DOMAIN = Undef")
    case True
    then show ?thesis using l d by (auto simp: Email_initialize_def)
  next
    case False
    then show ?thesis using l d assms by (cases "map tolower (cs_str lp) = ''null''") (simp_all add: simps)
  qed
qed

lemma Email_initialize_ok:
  assumes "cs_ok LocalPart lp" "cs_ok Domain d" "local_grammar (cs_str lp)" "domain_grammar (cs_str d)"
  shows "Email_initialize u lp d cq = Ret \<lparr>mlocal_part = lp, mdomain = d, email_mqualifier = cq\<rparr>"
  using Email_initialize_cases [OF assms(1,2), of u cq] grammar_lower_arg [OF assms(3,4)] assms(3,4)
  by (auto simp: initialized_email_def)

lemma Email_of_string_at:
  assumes "CHR ''@'' \<notin> set lp"
  shows "Email_of_string u (lp @ ''@'' @ d) cq = bind_outcome (cs_of_string LocalPart lp) (\<lambda>l.
    bind_outcome (cs_of_string Domain d) (\<lambda>m. Email_initialize u l m cq))"
  using find_at [OF assms, of d] by (simp add: Email_of_string_def substr_def)

lemma email_str_text:
  assumes "cs_ok LocalPart l" "cs_ok Domain m"
  shows "Email_str \<lparr>mlocal_part = l, mdomain = m, email_mqualifier = q\<rparr> =
    (if length (cs_str l) + length (cs_str m) < 254 then Ret (cs_str l @ ''@'' @ cs_str m) else Terminate)"
proof -
  let ?t = "cs_str l @ ''@'' @ cs_str m"
  let ?n = "length (cs_str l) + length (cs_str m)"
  have "take (length (cs_str m)) m = cs_str m" by (rule cs_str_prefix)
  moreover have "cs_to_string (?t @ drop (Suc ?n) (cs_default (CS 0 256))) = Ret ?t" if "?n < 254"
  proof -
    have "drop (Suc ?n) (cs_default (CS 0 256)) = NUL # replicate (254 - ?n) NUL"
      using that by (simp add: cs_default_def cs_fill_null_def cs_fill_def flip: replicate_Suc)
    moreover have "NUL \<notin> set ?t" by (simp add: NUL_def) (metis NUL_def cs_str_no_null)
    ultimately show ?thesis using cs_length_ok [of "?t @ NUL # replicate (254 - ?n) NUL"] cs_str_append_null [of ?t]
      by (simp add: cs_to_string_def)
  qed
  ultimately show ?thesis
    using assms by (simp add: Email_str_def string_plus_cs_def Let_def)
qed

text \<open>An address text is one word of the input.\<close>

lemma read_word_address:
  assumes "local_grammar lp" "domain_grammar d"
  shows "snd (read_word (open_istream (lp @ ''@'' @ d))) = lp @ ''@'' @ d"
proof -
  let ?s = "lp @ ''@'' @ d"
  have "\<not> isspace c" if "isalnum c \<or> c \<in> set ''._-+@''" for c
  proof -
    have "\<not> isspace CHR ''.''" "\<not> isspace CHR ''_''" "\<not> isspace CHR ''-''" "\<not> isspace CHR ''+''" "\<not> isspace CHR ''@''"
      by code_simp+
    then show ?thesis using that by (auto simp: isalnum_def isalpha_def isupper_def islower_def isdigit_def isspace_def)
  qed
  moreover have "isalnum c \<or> c \<in> set ''._-+@''" if "c \<in> set lp" for c using grammar_chars(1) [OF assms that] by auto
  moreover have "isalnum c \<or> c \<in> set ''._-+@''" if "c \<in> set d" for c using grammar_chars(2) [OF assms that] by auto
  ultimately have "\<forall>c\<in>set lp. \<not> isspace c" "\<forall>c\<in>set d. \<not> isspace c" "\<not> isspace CHR ''@''" by (blast | simp)+
  then have no: "\<forall>c\<in>set ?s. \<not> isspace c" by auto
  have "?s \<noteq> []" by simp
  then have "\<not> isspace (hd ?s)" using no list.set_sel(1) by blast
  then have "dropWhile isspace ?s = ?s" by (simp only: dropWhile_eq_self_iff) simp
  moreover have "takeWhile (\<lambda>c. \<not> isspace c) ?s = ?s" using no by (simp add: takeWhile_eq_all_conv)
  ultimately show ?thesis by (simp add: read_word_def open_istream_def good_def Let_def)
qed

text \<open>
  C21: A valid address with at most 63 characters before and 254 after the at sign is stored, printed
  unchanged, and read back from its printed form as an equal \<open>Email\<close>; the conversion \<open>str\<close> gives the text
  when the two parts have fewer than 254 characters together, and otherwise ends the program. A valid
  address with a local part of 64 or a domain of 255 characters, which the validators accept, is refused.
\<close>

theorem email_construction:
  assumes "local_grammar lp" "domain_grammar d"
  shows "(length lp < 64 \<and> length d < 255 \<longrightarrow>
      (\<exists>e is'. Email_of_string u (lp @ ''@'' @ d) cq = Ret e \<and> Email_write [] e = Ret (lp @ ''@'' @ d)
        \<and> Email_read (open_istream (lp @ ''@'' @ d)) old = Ret (is', e\<lparr>email_mqualifier := email_mqualifier old\<rparr>)
        \<and> Email_eq u e (e\<lparr>email_mqualifier := email_mqualifier old\<rparr>) = Ret True
        \<and> Email_str e = (if length lp + length d < 254 then Ret (lp @ ''@'' @ d) else Terminate)))
    \<and> (length lp = 64 \<or> length d = 255 \<longrightarrow> (\<exists>msg. Email_of_string u (lp @ ''@'' @ d) cq = Raise (Runtime_error msg)))"
proof (intro conjI impI)
  note no = grammar_no_at [OF assms]
  assume len: "length lp < 64 \<and> length d < 255"
  obtain l where l: "cs_of_string LocalPart lp = Ret l" "cs_ok LocalPart l" "cs_str l = lp"
    using cs_of_string_Ret [of lp LocalPart] no(3) len by auto
  obtain m where m: "cs_of_string Domain d = Ret m" "cs_ok Domain m" "cs_str m = d"
    using cs_of_string_Ret [of d Domain] no(4) len by auto
  let ?e = "\<lparr>mlocal_part = l, mdomain = m, email_mqualifier = cq\<rparr>"
  have "Email_of_string u (lp @ ''@'' @ d) cq = Ret ?e"
    using Email_of_string_at [OF no(1)] l m Email_initialize_ok [OF l(2) m(2)] assms by simp
  moreover have "Email_write [] ?e = Ret (lp @ ''@'' @ d)"
    using l m by (simp add: Email_write_def cs_write_def)
  moreover have "\<exists>is'. Email_read (open_istream (lp @ ''@'' @ d)) old = Ret (is', ?e\<lparr>email_mqualifier := email_mqualifier old\<rparr>)"
    using read_word_address [OF assms] find_at [OF no(1), of d] l m
    by (cases "read_word (open_istream (lp @ ''@'' @ d))") (simp add: Email_read_def cs_assign_string_def cs_copy_string_any substr_def)
  moreover have "Email_eq u ?e (?e\<lparr>email_mqualifier := email_mqualifier old\<rparr>) = Ret True"
    using l m grammar_lower_arg [OF assms]
    by (simp add: Email_eq_def equal_local_part_def equal_domain_def cs_eq_canon comparable_def list_all_iff)
  moreover have "Email_str ?e = (if length lp + length d < 254 then Ret (lp @ ''@'' @ d) else Terminate)"
    using email_str_text [OF l(2) m(2), of cq] l(3) m(3) by simp
  ultimately show "\<exists>e is'. Email_of_string u (lp @ ''@'' @ d) cq = Ret e \<and> Email_write [] e = Ret (lp @ ''@'' @ d)
        \<and> Email_read (open_istream (lp @ ''@'' @ d)) old = Ret (is', e\<lparr>email_mqualifier := email_mqualifier old\<rparr>)
        \<and> Email_eq u e (e\<lparr>email_mqualifier := email_mqualifier old\<rparr>) = Ret True
        \<and> Email_str e = (if length lp + length d < 254 then Ret (lp @ ''@'' @ d) else Terminate)"
    by blast
next
  note no = grammar_no_at [OF assms]
  assume len: "length lp = 64 \<or> length d = 255"
  show "\<exists>msg. Email_of_string u (lp @ ''@'' @ d) cq = Raise (Runtime_error msg)"
  proof (cases "length lp = 64")
    case True
    then show ?thesis using Email_of_string_at [OF no(1), of u d cq] cs_of_string_too_long [of LocalPart lp] by auto
  next
    case False
    then have "length lp < 64" using assms(1) by (simp add: local_grammar_def)
    then obtain l where "cs_of_string LocalPart lp = Ret l" using cs_of_string_Ret [of lp LocalPart] no(3) by auto
    then show ?thesis using Email_of_string_at [OF no(1), of u d cq] cs_of_string_too_long [of Domain d] len False by auto
  qed
qed

theorem email_construction_witness:
  "\<forall>u. \<exists>e. Email_of_string u (''ana.b'' @ ''@'' @ ''site.org'') Business = Ret e \<and> Email_str e = Ret ''ana.b@site.org''"
proof -
  have g: "local_grammar ''ana.b''" "domain_grammar ''site.org''" by code_simp+
  show ?thesis
  proof
    fix u
    from email_construction [OF g, THEN conjunct1, rule_format, of u Business NULL_EMAIL]
    show "\<exists>e. Email_of_string u (''ana.b'' @ ''@'' @ ''site.org'') Business = Ret e \<and> Email_str e = Ret ''ana.b@site.org''" by auto
  qed
qed

text \<open>
  What the two parts of a text are after the conversion to \<open>LocalPart\<close> and \<open>Domain\<close>, which end at their first null character.
\<close>

definition seen :: "string \<Rightarrow> string" where
  "seen s = takeWhile (\<lambda>c. c \<noteq> NUL) (takeWhile (\<lambda>c. c \<noteq> CHR ''@'') s) @ ''@''
     @ takeWhile (\<lambda>c. c \<noteq> NUL) (tl (dropWhile (\<lambda>c. c \<noteq> CHR ''@'') s))"

lemma seen_at:
  assumes "CHR ''@'' \<notin> set lp"
  shows "seen (lp @ ''@'' @ d) = takeWhile (\<lambda>c. c \<noteq> NUL) lp @ ''@'' @ takeWhile (\<lambda>c. c \<noteq> NUL) d"
proof -
  have "takeWhile (\<lambda>c. c \<noteq> CHR ''@'') (lp @ ''@'' @ d) = lp" "dropWhile (\<lambda>c. c \<noteq> CHR ''@'') (lp @ ''@'' @ d) = ''@'' @ d"
    using assms by (induction lp) auto
  then show ?thesis by (simp add: seen_def)
qed

lemma seen_plain:
  assumes "CHR ''@'' \<in> set s" "NUL \<notin> set s"
  shows "seen s = s"
proof -
  obtain lp d where s: "s = lp @ ''@'' @ d" "CHR ''@'' \<notin> set lp" using split_list_first [OF assms(1)] by auto
  then show ?thesis using seen_at [OF s(2), of d] assms(2) by (simp add: takeWhile_neq_id)
qed

lemma Email_of_string_cases:
  assumes "CHR ''@'' \<notin> set lp"
  shows "(\<exists>msg. Email_of_string u (lp @ ''@'' @ d) cq = Raise (Runtime_error msg))
    \<or> (\<exists>l m. cs_str l = takeWhile (\<lambda>c. c \<noteq> NUL) lp \<and> cs_str m = takeWhile (\<lambda>c. c \<noteq> NUL) d
        \<and> (Email_of_string u (lp @ ''@'' @ d) cq = initialized_email l m cq
          \<or> Email_of_string u (lp @ ''@'' @ d) cq = Undef \<and> (\<exists>c \<in> set (cs_str l) \<union> set (cs_str m). \<not> lower_arg c)))"
proof (cases "length lp < 64 \<and> length d < 255")
  case True
  obtain l where l: "cs_of_string LocalPart lp = Ret l" using True by (auto simp: cs_of_string_def cs_copy_string_def cs_copy_def)
  obtain m where m: "cs_of_string Domain d = Ret m" using True by (auto simp: cs_of_string_def cs_copy_string_def cs_copy_def)
  show ?thesis
    using Email_of_string_at [OF assms, of u d cq] l m cs_of_string_cut [OF l] cs_of_string_cut [OF m]
      Email_initialize_cases [OF cs_of_string_ok [OF l] cs_of_string_ok [OF m], of u cq] by auto
next
  case False
  then show ?thesis
    using Email_of_string_at [OF assms, of u d cq] cs_of_string_too_long [of LocalPart lp] cs_of_string_too_long [of Domain d]
    by (cases "cs_of_string LocalPart lp") (auto simp: cs_of_string_def cs_copy_string_def cs_copy_def split: if_splits)
qed

lemma initialized_email_Ret:
  "initialized_email l m cq = Ret e \<Longrightarrow> is_valid_email_address (cs_str l @ ''@'' @ cs_str m) \<or> map tolower (cs_str l @ ''@'' @ cs_str m) = null_email_str"
proof -
  have "tolower CHR ''@'' = CHR ''@''" by code_simp
  then show "initialized_email l m cq = Ret e \<Longrightarrow> is_valid_email_address (cs_str l @ ''@'' @ cs_str m) \<or> map tolower (cs_str l @ ''@'' @ cs_str m) = null_email_str"
    unfolding valid_address_iff by (auto simp: initialized_email_def null_like_def null_email_str_def split: if_splits)
qed

lemma email_outcomes:
  "(\<exists>e. Email_of_string u s cq = Ret e \<and> CHR ''@'' \<in> set s \<and> (is_valid_email_address (seen s) \<or> map tolower (seen s) = null_email_str))
   \<or> (\<exists>msg. Email_of_string u s cq = Raise (Runtime_error msg)) \<or> Email_of_string u s cq = Undef \<and> (\<exists>c \<in> set s. \<not> lower_arg c)"
proof (cases "CHR ''@'' \<in> set s")
  case False
  then have "find_char s CHR ''@'' 0 = None" by (simp add: find_char_None)
  then show ?thesis by (simp add: Email_of_string_def runtime_error_def)
next
  case True
  then obtain lp d where s: "s = lp @ ''@'' @ d" "CHR ''@'' \<notin> set lp" using split_list_first [OF True] by auto
  from Email_of_string_cases [OF s(2), of u d cq] show ?thesis
  proof (elim disjE exE conjE)
    fix l m
    assume lm: "cs_str l = takeWhile (\<lambda>c. c \<noteq> NUL) lp" "cs_str m = takeWhile (\<lambda>c. c \<noteq> NUL) d"
      and i: "Email_of_string u (lp @ ''@'' @ d) cq = initialized_email l m cq"
    show ?thesis
    proof (cases "initialized_email l m cq")
      case (Ret e)
      then show ?thesis using initialized_email_Ret [OF Ret] i True seen_at [OF s(2), of d] lm unfolding s(1) by auto
    qed (use i s(1) in \<open>auto simp: initialized_email_def split: if_splits\<close>)
  qed (use s(1) in \<open>auto dest: set_takeWhileD\<close>)
qed

lemma email_with_junk:
  assumes "local_grammar lp" "domain_grammar d" "length lp < 64" "length d + length junk < 254"
  shows "(\<exists>e. Email_of_string u (lp @ ''@'' @ d @ NUL # junk) cq = Ret e) \<and> \<not> is_valid_email_address (lp @ ''@'' @ d @ NUL # junk)"
proof
  note no = grammar_no_at [OF assms(1,2)]
  obtain l where l: "cs_of_string LocalPart lp = Ret l" using assms(3) by (auto simp: cs_of_string_def cs_copy_string_def cs_copy_def)
  obtain m where m: "cs_of_string Domain (d @ NUL # junk) = Ret m" using assms(4) by (auto simp: cs_of_string_def cs_copy_string_def cs_copy_def)
  have "cs_str l = lp" "cs_str m = d"
    using cs_of_string_cut [OF l] cs_of_string_cut [OF m] no(3,4) by (simp_all add: takeWhile_neq_id takeWhile_neq_append)
  then show "\<exists>e. Email_of_string u (lp @ ''@'' @ d @ NUL # junk) cq = Ret e"
    using Email_of_string_at [OF no(1), of u "d @ NUL # junk" cq] l m assms(1,2)
      Email_initialize_ok [OF cs_of_string_ok [OF l] cs_of_string_ok [OF m]] by simp
  show "\<not> is_valid_email_address (lp @ ''@'' @ d @ NUL # junk)"
  proof
    assume "is_valid_email_address (lp @ ''@'' @ d @ NUL # junk)"
    then obtain lp' d' where v: "lp @ ''@'' @ d @ NUL # junk = lp' @ ''@'' @ d'" "local_grammar lp'" "domain_grammar d'"
      unfolding valid_address_iff by blast
    have "NUL \<in> set (lp' @ ''@'' @ d')" unfolding v(1) [symmetric] by simp
    then show False using grammar_no_at [OF v(2,3)] by (auto simp: NUL_def)
  qed
qed

text \<open>
  C32: The constructor from a text returns only when the parts before their first null characters make a valid address,
  or the null address in some letter case; for a text without null characters these are the parts of the text. When it
  does not return it has thrown \<open>runtime_error\<close>, or it has compared a character for which \<open>std::tolower\<close> is undefined.
  A valid address followed by a null character and any text is taken for the address, although the text is not valid.
\<close>

theorem email_rejection:
  "(\<forall>e. Email_of_string u s cq = Ret e \<longrightarrow>
      CHR ''@'' \<in> set s \<and> (is_valid_email_address (seen s) \<or> map tolower (seen s) = null_email_str) \<and> (NUL \<notin> set s \<longrightarrow> seen s = s))
   \<and> Email_of_string u s cq \<noteq> Terminate \<and> (\<forall>x. Email_of_string u s cq = Raise x \<longrightarrow> (\<exists>msg. x = Runtime_error msg))
   \<and> (Email_of_string u s cq = Undef \<longrightarrow> (\<exists>c \<in> set s. \<not> lower_arg c))
   \<and> (local_grammar lp \<and> domain_grammar d \<and> length lp < 64 \<and> length d + length junk < 254 \<longrightarrow>
        (\<exists>e. Email_of_string u (lp @ ''@'' @ d @ NUL # junk) cq = Ret e) \<and> \<not> is_valid_email_address (lp @ ''@'' @ d @ NUL # junk))"
proof (intro conjI)
  have ret: "CHR ''@'' \<in> set s \<and> (is_valid_email_address (seen s) \<or> map tolower (seen s) = null_email_str)" if "Email_of_string u s cq = Ret e" for e
    using that email_outcomes [of u s cq] by auto
  then show "\<forall>e. Email_of_string u s cq = Ret e \<longrightarrow>
      CHR ''@'' \<in> set s \<and> (is_valid_email_address (seen s) \<or> map tolower (seen s) = null_email_str) \<and> (NUL \<notin> set s \<longrightarrow> seen s = s)"
    using seen_plain by blast
  show "Email_of_string u s cq \<noteq> Terminate" "\<forall>x. Email_of_string u s cq = Raise x \<longrightarrow> (\<exists>msg. x = Runtime_error msg)"
      "Email_of_string u s cq = Undef \<longrightarrow> (\<exists>c \<in> set s. \<not> lower_arg c)"
    using email_outcomes [of u s cq] by auto
  show "local_grammar lp \<and> domain_grammar d \<and> length lp < 64 \<and> length d + length junk < 254 \<longrightarrow>
        (\<exists>e. Email_of_string u (lp @ ''@'' @ d @ NUL # junk) cq = Ret e) \<and> \<not> is_valid_email_address (lp @ ''@'' @ d @ NUL # junk)"
    using email_with_junk by blast
qed

theorem email_rejection_witness:
  "\<forall>u. (\<exists>msg. Email_of_string u ''a..b@site.org'' Business = Raise (Runtime_error msg))
    \<and> (\<exists>e. Email_of_string u (''a'' @ ''@'' @ ''b.co'' @ NUL # ''x'') Business = Ret e)"
proof
  fix u
  have s: "seen ''a..b@site.org'' = ''a..b@site.org''" "\<not> is_valid_email_address ''a..b@site.org''" "map tolower ''a..b@site.org'' \<noteq> null_email_str"
      "\<forall>c \<in> set ''a..b@site.org''. lower_arg c"
    by code_simp+
  have g: "local_grammar ''a''" "domain_grammar ''b.co''" by code_simp+
  note r = email_rejection [of u "''a..b@site.org''" Business "''a''" "''b.co''" "''x''"]
  have "\<exists>msg. Email_of_string u ''a..b@site.org'' Business = Raise (Runtime_error msg)"
    using r s by (cases "Email_of_string u ''a..b@site.org'' Business") auto
  then show "(\<exists>msg. Email_of_string u ''a..b@site.org'' Business = Raise (Runtime_error msg))
    \<and> (\<exists>e. Email_of_string u (''a'' @ ''@'' @ ''b.co'' @ NUL # ''x'') Business = Ret e)"
    using r g by simp
qed

end
