(* ===== verification/Person.thy ===== *)
theory Person
  imports Email Generator
begin

text \<open>
  date.hpp and person.hpp: names, dates and the class \<open>Person\<close>, an \<open>Object\<close> whose own data are five e-mail
  addresses, a name, a date of birth and five phone numbers, laid out without padding. As in the other
  classes the object representation is a function of the fields.
\<close>

section \<open>Dates\<close>

text \<open>\<open>std::chrono::year_month_day\<close> keeps the year in 16 and the month and the day in 8 bits.\<close>

record Date =
  date_year :: int16
  date_month :: byte
  date_day :: byte

definition Date_of :: "int \<Rightarrow> int \<Rightarrow> int \<Rightarrow> Date" where
  "Date_of y m d = \<lparr>date_year = word_of_int y, date_month = word_of_int m, date_day = word_of_int d\<rparr>"

definition NULL_DATE :: Date where "NULL_DATE = Date_of 0 0 0"

section \<open>Names\<close>

definition MAX_FIRST_NAME :: nat where "MAX_FIRST_NAME = 20"

definition MAX_MIDDLE_NAME :: nat where "MAX_MIDDLE_NAME = 20"

definition MAX_LAST_NAME :: nat where "MAX_LAST_NAME = 20"

definition MAX_NAME :: nat where "MAX_NAME = MAX_FIRST_NAME + MAX_MIDDLE_NAME + MAX_LAST_NAME + 2"

record PersonName =
  mfirst :: cs
  mmiddle :: cs
  mlast :: cs

abbreviation First_type :: cs_type where "First_type \<equiv> CS 0 MAX_FIRST_NAME"

abbreviation Middle_type :: cs_type where "Middle_type \<equiv> CS 0 MAX_MIDDLE_NAME"

abbreviation Last_type :: cs_type where "Last_type \<equiv> CS 0 MAX_LAST_NAME"

text \<open>\<open>name ()\<close>: \<open>mmiddle + mlast\<close> is the concatenation of two \<open>CS<0, 20>\<close>, with no space between them.\<close>

definition PersonName_name :: "PersonName \<Rightarrow> cs outcome" where
  "PersonName_name n =
     bind_outcome (cs_to_string (mfirst n)) (\<lambda>f.
     bind_outcome (cs_empty (mmiddle n)) (\<lambda>no_middle.
     bind_outcome (if no_middle then Ret (mlast n) else cs_plus Middle_type (mmiddle n) (mlast n)) (\<lambda>r.
     bind_outcome (cs_to_string r) (\<lambda>t. cs_of_string (CS 0 MAX_NAME) (f @ '' '' @ t)))))"

definition PersonName_eq :: "icu \<Rightarrow> PersonName \<Rightarrow> PersonName \<Rightarrow> bool outcome" where
  "PersonName_eq u n other =
     bind_outcome (cs_eq u First_type (mfirst n) (mfirst other)) (\<lambda>b. if \<not> b then Ret False else
     bind_outcome (cs_eq u Middle_type (mmiddle n) (mmiddle other)) (\<lambda>b. if \<not> b then Ret False else
     cs_eq u Last_type (mlast n) (mlast other)))"

definition PersonName_eq_string :: "icu \<Rightarrow> PersonName \<Rightarrow> string \<Rightarrow> bool outcome" where
  "PersonName_eq_string u n other =
     bind_outcome (PersonName_name n) (\<lambda>s. bind_outcome (cs_of_string (CS 0 MAX_NAME) other) (cs_eq u (CS 0 MAX_NAME) s))"

definition PersonName_write :: "string \<Rightarrow> PersonName \<Rightarrow> string outcome" where
  "PersonName_write os n =
     bind_outcome (cs_write os (mfirst n)) (\<lambda>os.
     bind_outcome (cs_empty (mmiddle n)) (\<lambda>no_middle.
     bind_outcome (if no_middle then Ret (os @ '' '') else map_out (\<lambda>os. os @ '' '') (cs_write (os @ '' '') (mmiddle n))) (\<lambda>os.
     cs_write os (mlast n))))"

definition skip_space :: "istream \<Rightarrow> istream" where
  "skip_space is = (case peek is of (is, c) \<Rightarrow> if c = Some CHR '' '' then ignore1 is else is)"

definition PersonName_read :: "istream \<Rightarrow> PersonName \<Rightarrow> (istream \<times> PersonName) outcome" where
  "PersonName_read is n =
     bind_outcome (cs_read First_type is (mfirst n)) (\<lambda>(is, f).
     let is = skip_space is in
     case peek is of (is, c) \<Rightarrow>
     bind_outcome (if c \<noteq> Some CHR '' '' then cs_read Middle_type is (mmiddle n) else Ret (is, mmiddle n)) (\<lambda>(is, m).
     let is = skip_space is in
     bind_outcome (cs_read Last_type is (mlast n)) (\<lambda>(is, l).
     Ret (is, \<lparr>mfirst = f, mmiddle = m, mlast = l\<rparr>))))"

definition null_person_name :: PersonName where
  "null_person_name = \<lparr>mfirst = replicate 20 NUL, mmiddle = replicate 20 NUL, mlast = replicate 20 NUL\<rparr>"

section \<open>Persons\<close>

definition MAX_PHONE_NUMBERS :: nat where "MAX_PHONE_NUMBERS = 5"

definition MAX_EMAILS :: nat where "MAX_EMAILS = 5"

record Person_data =
  memail1 :: Email
  memail2 :: Email
  memail3 :: Email
  memail4 :: Email
  memail5 :: Email
  mname :: PersonName
  mdate_of_birth :: Date
  mphone1 :: PhoneNumber
  mphone2 :: PhoneNumber
  mphone3 :: PhoneNumber
  mphone4 :: PhoneNumber
  mphone5 :: PhoneNumber
  reserved :: byte

definition PhoneNumber_default :: PhoneNumber where
  "PhoneNumber_default = PhoneNumber_of (replicate 4 NUL) (replicate 5 NUL) (replicate 11 NUL) Business"

definition Person_data_of :: "PersonName \<Rightarrow> Date \<Rightarrow> Person_data" where
  "Person_data_of name dob =
     \<lparr>memail1 = NULL_EMAIL, memail2 = NULL_EMAIL, memail3 = NULL_EMAIL, memail4 = NULL_EMAIL, memail5 = NULL_EMAIL,
      mname = name, mdate_of_birth = dob, mphone1 = PhoneNumber_default, mphone2 = PhoneNumber_default,
      mphone3 = PhoneNumber_default, mphone4 = PhoneNumber_default, mphone5 = PhoneNumber_default, reserved = 0\<rparr>"

record Person =
  person_object :: Object
  person_mdata :: Person_data

definition Person_INFO :: ClassInfo where "Person_INFO = static_info ''Person'' 1"

definition Person_NULL_DATA :: Person_data where "Person_NULL_DATA = Person_data_of null_person_name NULL_DATE"

definition Person_of :: "Generator \<Rightarrow> Person_data \<Rightarrow> int64 \<Rightarrow> (Generator \<times> Person) outcome" where
  "Person_of g d i =
     (if i = NULL_ID then map_out (\<lambda>(v, g). (g, \<lparr>person_object = Object_of v, person_mdata = d\<rparr>)) (Generator_get_id g)
      else Ret (g, \<lparr>person_object = Object_of i, person_mdata = d\<rparr>))"

subsection \<open>Object representation\<close>

definition Email_bytes :: "Email \<Rightarrow> byte list" where
  "Email_bytes e = map byte_of_char (mlocal_part e) @ map byte_of_char (mdomain e) @ [email_mqualifier e]"

definition Email_of_bytes :: "byte list \<Rightarrow> Email" where
  "Email_of_bytes b = \<lparr>mlocal_part = map char_of_byte (take 64 b), mdomain = map char_of_byte (take 255 (drop 64 b)),
     email_mqualifier = b ! 319\<rparr>"

definition PersonName_bytes :: "PersonName \<Rightarrow> byte list" where
  "PersonName_bytes n = map byte_of_char (mfirst n @ mmiddle n @ mlast n)"

definition PersonName_of_bytes :: "byte list \<Rightarrow> PersonName" where
  "PersonName_of_bytes b = \<lparr>mfirst = map char_of_byte (take 20 b), mmiddle = map char_of_byte (take 20 (drop 20 b)),
     mlast = map char_of_byte (take 20 (drop 40 b))\<rparr>"

definition Date_bytes :: "Date \<Rightarrow> byte list" where
  "Date_bytes d = word_bytes (date_year d) @ [date_month d, date_day d]"

definition Date_of_bytes :: "byte list \<Rightarrow> Date" where
  "Date_of_bytes b = \<lparr>date_year = bytes_word (take 2 b), date_month = b ! 2, date_day = b ! 3\<rparr>"

definition PhoneNumber_bytes :: "PhoneNumber \<Rightarrow> byte list" where
  "PhoneNumber_bytes p = map byte_of_char (mcountry_code p @ mareacode p @ mnumber p) @ [phone_mqualifier p]"

definition PhoneNumber_of_bytes :: "byte list \<Rightarrow> PhoneNumber" where
  "PhoneNumber_of_bytes b = \<lparr>mcountry_code = map char_of_byte (take 4 b), mareacode = map char_of_byte (take 5 (drop 4 b)),
     mnumber = map char_of_byte (take 11 (drop 9 b)), phone_mqualifier = b ! 20\<rparr>"

definition Person_data_bytes :: "Person_data \<Rightarrow> byte list" where
  "Person_data_bytes d =
     Email_bytes (memail1 d) @ Email_bytes (memail2 d) @ Email_bytes (memail3 d) @ Email_bytes (memail4 d)
     @ Email_bytes (memail5 d) @ PersonName_bytes (mname d) @ Date_bytes (mdate_of_birth d)
     @ PhoneNumber_bytes (mphone1 d) @ PhoneNumber_bytes (mphone2 d) @ PhoneNumber_bytes (mphone3 d)
     @ PhoneNumber_bytes (mphone4 d) @ PhoneNumber_bytes (mphone5 d) @ [reserved d]"

definition Person_data_of_bytes :: "byte list \<Rightarrow> Person_data" where
  "Person_data_of_bytes b =
     \<lparr>memail1 = Email_of_bytes b, memail2 = Email_of_bytes (drop 320 b), memail3 = Email_of_bytes (drop 640 b),
      memail4 = Email_of_bytes (drop 960 b), memail5 = Email_of_bytes (drop 1280 b),
      mname = PersonName_of_bytes (drop 1600 b), mdate_of_birth = Date_of_bytes (drop 1660 b),
      mphone1 = PhoneNumber_of_bytes (drop 1664 b), mphone2 = PhoneNumber_of_bytes (drop 1685 b),
      mphone3 = PhoneNumber_of_bytes (drop 1706 b), mphone4 = PhoneNumber_of_bytes (drop 1727 b),
      mphone5 = PhoneNumber_of_bytes (drop 1748 b), reserved = b ! 1769\<rparr>"

subsection \<open>Operations\<close>

definition Person_write :: "BinaryBuffer \<Rightarrow> Person \<Rightarrow> BinaryBuffer" where
  "Person_write bb p =
     (let bb = Object_write bb (person_object p);
          bb = bb_write bb (ClassInfo_bytes Person_INFO);
          bb = bb_write bb (Person_data_bytes (person_mdata p))
      in bb)"

definition Person_read :: "BinaryBuffer \<Rightarrow> Person \<Rightarrow> BinaryBuffer \<times> Person" where
  "Person_read bb p =
     (case Object_read bb (person_object p) of (bb, ob) \<Rightarrow>
        let p = p\<lparr>person_object := ob\<rparr> in
        case read_info bb of (bb, info) \<Rightarrow>
          if \<not> ClassInfo_eq info Person_INFO then (bb, p)
          else case bb_read bb (Person_data_bytes (person_mdata p)) of (bb, d) \<Rightarrow>
            (bb, p\<lparr>person_mdata := Person_data_of_bytes d\<rparr>))"

definition Person_name :: "Person \<Rightarrow> PersonName" where "Person_name p = mname (person_mdata p)"

definition set_phone1 :: "PhoneNumber \<Rightarrow> Person \<Rightarrow> Person" where "set_phone1 x p = p\<lparr>person_mdata := (person_mdata p)\<lparr>mphone1 := x\<rparr>\<rparr>"

definition set_phone2 :: "PhoneNumber \<Rightarrow> Person \<Rightarrow> Person" where "set_phone2 x p = p\<lparr>person_mdata := (person_mdata p)\<lparr>mphone2 := x\<rparr>\<rparr>"

definition set_phone3 :: "PhoneNumber \<Rightarrow> Person \<Rightarrow> Person" where "set_phone3 x p = p\<lparr>person_mdata := (person_mdata p)\<lparr>mphone3 := x\<rparr>\<rparr>"

definition set_phone4 :: "PhoneNumber \<Rightarrow> Person \<Rightarrow> Person" where "set_phone4 x p = p\<lparr>person_mdata := (person_mdata p)\<lparr>mphone4 := x\<rparr>\<rparr>"

definition set_phone5 :: "PhoneNumber \<Rightarrow> Person \<Rightarrow> Person" where "set_phone5 x p = p\<lparr>person_mdata := (person_mdata p)\<lparr>mphone5 := x\<rparr>\<rparr>"

definition set_email1 :: "Email \<Rightarrow> Person \<Rightarrow> Person" where "set_email1 x p = p\<lparr>person_mdata := (person_mdata p)\<lparr>memail1 := x\<rparr>\<rparr>"

definition set_email2 :: "Email \<Rightarrow> Person \<Rightarrow> Person" where "set_email2 x p = p\<lparr>person_mdata := (person_mdata p)\<lparr>memail2 := x\<rparr>\<rparr>"

definition set_email3 :: "Email \<Rightarrow> Person \<Rightarrow> Person" where "set_email3 x p = p\<lparr>person_mdata := (person_mdata p)\<lparr>memail3 := x\<rparr>\<rparr>"

definition set_email4 :: "Email \<Rightarrow> Person \<Rightarrow> Person" where "set_email4 x p = p\<lparr>person_mdata := (person_mdata p)\<lparr>memail4 := x\<rparr>\<rparr>"

definition set_email5 :: "Email \<Rightarrow> Person \<Rightarrow> Person" where "set_email5 x p = p\<lparr>person_mdata := (person_mdata p)\<lparr>memail5 := x\<rparr>\<rparr>"

definition Person_equals :: "Person \<Rightarrow> Person \<Rightarrow> bool" where
  "Person_equals p other \<longleftrightarrow> Person_data_bytes (person_mdata p) = Person_data_bytes (person_mdata other)"

definition Person_read_text :: "istream \<Rightarrow> Person \<Rightarrow> (istream \<times> Person) outcome" where
  "Person_read_text is p =
     (case Object_read_text is (person_object p) of (is, ob) \<Rightarrow>
        map_out (\<lambda>(is, n). (is, \<lparr>person_object = ob, person_mdata = (person_mdata p)\<lparr>mname := n\<rparr>\<rparr>))
          (PersonName_read is (mname (person_mdata p))))"

definition Person_write_text :: "string \<Rightarrow> Person \<Rightarrow> string outcome" where
  "Person_write_text os p = PersonName_write (Object_write_text os (person_object p)) (mname (person_mdata p))"

section \<open>Names\<close>

lemma name_types [simp]: "MAX_FIRST_NAME = 20" "MAX_MIDDLE_NAME = 20" "MAX_LAST_NAME = 20" "MAX_NAME = 62"
  by (simp_all add: MAX_FIRST_NAME_def MAX_MIDDLE_NAME_def MAX_LAST_NAME_def MAX_NAME_def)

definition PersonName_wf :: "PersonName \<Rightarrow> bool" where
  "PersonName_wf n \<longleftrightarrow> cs_ok (CS 0 20) (mfirst n) \<and> cs_ok (CS 0 20) (mmiddle n) \<and> cs_ok (CS 0 20) (mlast n)"

lemma cs_append_over:
  assumes "cs_ok t a" "cs_ok t b"
  shows "length (cs_str a) + length (cs_str b) = cs_max t \<Longrightarrow> cs_append t a b = Undef"
    "cs_max t < length (cs_str a) + length (cs_str b) \<Longrightarrow> \<exists>msg. cs_append t a b = Raise (Runtime_error msg)"
proof -
  have "length a = cs_max t" using assms(1) by (simp add: cs_ok_def)
  moreover have "length (take (length (cs_str b)) b) = length (cs_str b)" by (simp add: cs_str_prefix)
  ultimately show "length (cs_str a) + length (cs_str b) = cs_max t \<Longrightarrow> cs_append t a b = Undef"
    "cs_max t < length (cs_str a) + length (cs_str b) \<Longrightarrow> \<exists>msg. cs_append t a b = Raise (Runtime_error msg)"
    using assms by (auto simp: cs_append_def Let_def cs_str_prefix)
qed

text \<open>
  The full name of a person without a middle name is the first and the last name with a space
  between them. With a middle name it is the first name, a space, and the middle and last name with no
  space between them, as long as these two have fewer than 20 characters together; with exactly 20 the
  concatenation writes past its array, with more it throws.
\<close>

theorem person_full_name:
  assumes "PersonName_wf n"
  shows "(if cs_str (mmiddle n) = [] then
       (\<exists>s. PersonName_name n = Ret s \<and> cs_to_string s = Ret (cs_str (mfirst n) @ '' '' @ cs_str (mlast n)))
     else if length (cs_str (mmiddle n)) + length (cs_str (mlast n)) < 20 then
       (\<exists>s. PersonName_name n = Ret s
          \<and> cs_to_string s = Ret (cs_str (mfirst n) @ '' '' @ cs_str (mmiddle n) @ cs_str (mlast n)))
     else if length (cs_str (mmiddle n)) + length (cs_str (mlast n)) = 20 then PersonName_name n = Undef
     else (\<exists>msg. PersonName_name n = Raise (Runtime_error msg)))"
proof -
  have ok: "cs_ok (CS 0 20) (mfirst n)" "cs_ok (CS 0 20) (mmiddle n)" "cs_ok (CS 0 20) (mlast n)"
    using assms by (simp_all add: PersonName_wf_def)
  have len: "length (cs_str (mfirst n)) < 20" "length (cs_str (mlast n)) < 20"
    using cs_ok_less [OF ok(1)] cs_ok_less [OF ok(3)] by simp_all
  have join: "\<exists>s. cs_of_string (CS 0 62) (cs_str (mfirst n) @ '' '' @ t) = Ret s \<and> cs_to_string s = Ret (cs_str (mfirst n) @ '' '' @ t)"
    if t: "NUL \<notin> set t" "length t < 20" for t
  proof -
    have "NUL \<noteq> CHR '' ''" by (simp add: NUL_def)
    then have "NUL \<notin> set (cs_str (mfirst n) @ '' '' @ t)" using t(1) by simp
    then obtain s where "cs_of_string (CS 0 62) (cs_str (mfirst n) @ '' '' @ t) = Ret s" "cs_ok (CS 0 62) s"
        "cs_str s = cs_str (mfirst n) @ '' '' @ t"
      using cs_of_string_Ret [of "cs_str (mfirst n) @ '' '' @ t" "CS 0 62"] t(2) len(1) by auto
    then show ?thesis by simp
  qed
  show ?thesis
  proof (cases "cs_str (mmiddle n) = []")
    case True
    then show ?thesis using ok join [of "cs_str (mlast n)"] len(2) by (simp add: PersonName_name_def cs_empty_def)
  next
    case False
    show ?thesis
    proof (cases "length (cs_str (mmiddle n)) + length (cs_str (mlast n)) < 20")
      case True
      then obtain c where c: "cs_append (CS 0 20) (mmiddle n) (mlast n) = Ret c" "cs_ok (CS 0 20) c"
          "cs_str c = cs_str (mmiddle n) @ cs_str (mlast n)"
        using cs_append_fits [OF ok(2,3)] by auto
      then show ?thesis using False True ok join [of "cs_str c"] by (simp add: PersonName_name_def cs_empty_def cs_plus_def)
    next
      case big: False
      then show ?thesis using False ok cs_append_over [OF ok(2,3)]
        by (auto simp: PersonName_name_def cs_empty_def cs_plus_def)
    qed
  qed
qed

definition name_of_strings :: "string \<Rightarrow> string \<Rightarrow> string \<Rightarrow> PersonName" where
  "name_of_strings f m l = \<lparr>mfirst = f @ replicate (20 - length f) NUL, mmiddle = m @ replicate (20 - length m) NUL,
     mlast = l @ replicate (20 - length l) NUL\<rparr>"

theorem person_full_name_witness:
  "PersonName_name (name_of_strings ''Ana'' ''Beatriz'' ''Albuquerque99'') = Undef"
proof -
  have "PersonName_wf (name_of_strings ''Ana'' ''Beatriz'' ''Albuquerque99'')"
    "cs_str (mmiddle (name_of_strings ''Ana'' ''Beatriz'' ''Albuquerque99'')) = ''Beatriz''"
    "cs_str (mlast (name_of_strings ''Ana'' ''Beatriz'' ''Albuquerque99'')) = ''Albuquerque99''"
    by code_simp+
  then show ?thesis using person_full_name [of "name_of_strings ''Ana'' ''Beatriz'' ''Albuquerque99''"] by simp
qed

section \<open>Text form\<close>

text \<open>A name that is one word of input and fits.\<close>

definition name_word :: "string \<Rightarrow> bool" where
  "name_word s \<longleftrightarrow> s \<noteq> [] \<and> length s < 20 \<and> NUL \<notin> set s \<and> (\<forall>c\<in>set s. \<not> isspace c)"

lemma space_facts: "isspace CHR '' ''" by code_simp

lemma read_word_front:
  assumes "good is" "rest is = w @ r" "w \<noteq> []" "\<forall>c\<in>set w. \<not> isspace c" "r = [] \<or> isspace (hd r)"
  shows "read_word is = (is\<lparr>rest := r, eofbit := (r = [])\<rparr>, w)"
proof -
  have "\<not> isspace (hd (w @ r))" using assms(3,4) by (cases w) auto
  then have "dropWhile isspace (w @ r) = w @ r" using assms(3) by (cases w) auto
  moreover have "takeWhile (\<lambda>c. \<not> isspace c) (w @ r) = w" "dropWhile (\<lambda>c. \<not> isspace c) (w @ r) = r"
    using assms(4,5) by (induction w) (cases r; auto)+
  ultimately show ?thesis
    using assms(1-3) by (cases "is") (simp add: read_word_def good_def del: dropWhile_eq_Nil_conv)
qed

lemma cs_read_name:
  assumes "good is" "rest is = w @ r" "name_word w" "r = [] \<or> isspace (hd r)"
  shows "\<exists>a. cs_read (CS 0 20) is d = Ret (is\<lparr>rest := r, eofbit := (r = [])\<rparr>, a) \<and> cs_str a = w"
  using read_word_front [OF assms(1,2)] assms(3,4) cs_of_string_Ret [of w "CS 0 20"]
  by (auto simp: cs_read_def cs_copy_string_any name_word_def)

lemma skip_space_space: "good is \<Longrightarrow> rest is = CHR '' '' # r \<Longrightarrow> skip_space is = is\<lparr>rest := r\<rparr>"
  by (simp add: skip_space_def peek_def ignore1_def)

lemma peek_good: "good is \<Longrightarrow> rest is = c # r \<Longrightarrow> peek is = (is, Some c)"
  by (simp add: peek_def)

lemma name_word_hd: "name_word w \<Longrightarrow> \<exists>c t. w = c # t \<and> c \<noteq> CHR '' ''"
  using space_facts by (cases w) (auto simp: name_word_def)

lemma PersonName_read_three:
  assumes "good is" "rest is = f @ '' '' @ m @ '' '' @ l" "name_word f" "name_word m" "name_word l"
  shows "\<exists>is' n'. PersonName_read is n = Ret (is', n') \<and> cs_str (mfirst n') = f \<and> cs_str (mmiddle n') = m \<and> cs_str (mlast n') = l
    \<and> \<not> failbit is'"
proof -
  let ?i1 = "is\<lparr>rest := '' '' @ m @ '' '' @ l, eofbit := False\<rparr>"
  let ?i2 = "is\<lparr>rest := m @ '' '' @ l, eofbit := False\<rparr>"
  let ?i3 = "is\<lparr>rest := '' '' @ l, eofbit := False\<rparr>"
  let ?i4 = "is\<lparr>rest := l, eofbit := False\<rparr>"
  have g: "good ?i1" "good ?i2" "good ?i3" "good ?i4" using assms(1) by (simp_all add: good_def)
  obtain a where a: "cs_read (CS 0 20) is (mfirst n) = Ret (?i1, a)" "cs_str a = f"
    using cs_read_name [OF assms(1,2,3), of "mfirst n"] space_facts by auto
  have s1: "skip_space ?i1 = ?i2" using skip_space_space [OF g(1)] by simp
  obtain c t where c: "m = c # t" "c \<noteq> CHR '' ''" using name_word_hd [OF assms(4)] by blast
  have p: "peek ?i2 = (?i2, Some c)" using peek_good [OF g(2)] c by simp
  obtain b where b: "cs_read (CS 0 20) ?i2 (mmiddle n) = Ret (?i3, b)" "cs_str b = m"
    using cs_read_name [OF g(2) _ assms(4), of "'' '' @ l" "mmiddle n"] space_facts by auto
  have s2: "skip_space ?i3 = ?i4" using skip_space_space [OF g(3)] by simp
  obtain d where d: "cs_read (CS 0 20) ?i4 (mlast n) = Ret (?i4\<lparr>rest := [], eofbit := True\<rparr>, d)" "cs_str d = l"
    using cs_read_name [OF g(4) _ assms(5), of "[]" "mlast n"] by auto
  have "PersonName_read is n = Ret (?i4\<lparr>rest := [], eofbit := True\<rparr>, \<lparr>mfirst = a, mmiddle = b, mlast = d\<rparr>)"
    using a(1) s1 p c(2) b(1) s2 d(1) by (simp add: PersonName_read_def Let_def)
  then show ?thesis using a(2) b(2) d(2) assms(1) by (simp add: good_def)
qed

lemma PersonName_read_two:
  assumes "good is" "rest is = f @ '' '' @ l" "name_word f" "name_word l"
  shows "\<exists>is' n'. PersonName_read is n = Ret (is', n') \<and> cs_str (mfirst n') = f \<and> cs_str (mmiddle n') = l \<and> cs_str (mlast n') = []
    \<and> failbit is'"
proof -
  let ?i1 = "is\<lparr>rest := '' '' @ l, eofbit := False\<rparr>"
  let ?i2 = "is\<lparr>rest := l, eofbit := False\<rparr>"
  let ?i3 = "is\<lparr>rest := [], eofbit := True\<rparr>"
  have g: "good ?i1" "good ?i2" using assms(1) by (simp_all add: good_def)
  obtain a where a: "cs_read (CS 0 20) is (mfirst n) = Ret (?i1, a)" "cs_str a = f"
    using cs_read_name [OF assms(1,2,3), of "mfirst n"] space_facts by auto
  have s1: "skip_space ?i1 = ?i2" using skip_space_space [OF g(1)] by simp
  obtain c t where c: "l = c # t" "c \<noteq> CHR '' ''" using name_word_hd [OF assms(4)] by blast
  have p: "peek ?i2 = (?i2, Some c)" using peek_good [OF g(2)] c by simp
  obtain b where b: "cs_read (CS 0 20) ?i2 (mmiddle n) = Ret (?i3, b)" "cs_str b = l"
    using cs_read_name [OF g(2) _ assms(4), of "[]" "mmiddle n"] by auto
  have s2: "skip_space ?i3 = ?i3\<lparr>failbit := True\<rparr>" by (simp add: skip_space_def peek_def good_def)
  obtain d where d: "cs_read (CS 0 20) (?i3\<lparr>failbit := True\<rparr>) (mlast n) = Ret (?i3\<lparr>failbit := True\<rparr>, d)" "cs_str d = []"
    using cs_of_string_Ret [of "[]" "CS 0 20"] by (auto simp: cs_read_def read_word_def good_def cs_copy_string_any)
  have "PersonName_read is n = Ret (?i3\<lparr>failbit := True\<rparr>, \<lparr>mfirst = a, mmiddle = b, mlast = d\<rparr>)"
    using a(1) s1 p c(2) b(1) s2 d(1) by (simp add: PersonName_read_def Let_def)
  then show ?thesis using a(2) b(2) d(2) by simp
qed

lemma PersonName_write_text:
  assumes "PersonName_wf n"
  shows "PersonName_write os n = Ret (os @ cs_str (mfirst n) @ '' ''
    @ (if cs_str (mmiddle n) = [] then [] else cs_str (mmiddle n) @ '' '') @ cs_str (mlast n))"
proof -
  have ok: "cs_ok (CS 0 20) (mfirst n)" "cs_ok (CS 0 20) (mmiddle n)" "cs_ok (CS 0 20) (mlast n)"
    using assms by (simp_all add: PersonName_wf_def)
  then show ?thesis by (simp add: PersonName_write_def cs_write_def cs_empty_def)
qed

text \<open>
  The text form of a person whose three names are single words, the first not starting with a digit,
  is read back with the same id and names. Without a middle name it is not: the last name comes back as
  the middle name, the last name is empty and the stream has failed.
\<close>

theorem person_text:
  assumes "PersonName_wf (Person_name p)" "name_word (cs_str (mfirst (Person_name p)))" "name_word (cs_str (mlast (Person_name p)))"
    "\<not> isdigit (hd (cs_str (mfirst (Person_name p))))"
    "name_word (cs_str (mmiddle (Person_name p))) \<or> cs_str (mmiddle (Person_name p)) = []"
  shows "\<exists>txt is' q. Person_write_text [] p = Ret txt \<and> Person_read_text (open_istream txt) old = Ret (is', q)
    \<and> person_object q = person_object p \<and> cs_str (mfirst (Person_name q)) = cs_str (mfirst (Person_name p))
    \<and> (name_word (cs_str (mmiddle (Person_name p))) \<longrightarrow>
          cs_str (mmiddle (Person_name q)) = cs_str (mmiddle (Person_name p))
          \<and> cs_str (mlast (Person_name q)) = cs_str (mlast (Person_name p)) \<and> \<not> failbit is')
    \<and> (cs_str (mmiddle (Person_name p)) = [] \<longrightarrow>
          cs_str (mmiddle (Person_name q)) = cs_str (mlast (Person_name p))
          \<and> cs_str (mlast (Person_name q)) = [] \<and> failbit is')"
proof -
  let ?n = "Person_name p"
  let ?f = "cs_str (mfirst ?n)" and ?m = "cs_str (mmiddle ?n)" and ?l = "cs_str (mlast ?n)"
  let ?t = "?f @ '' '' @ (if ?m = [] then [] else ?m @ '' '') @ ?l"
  let ?txt = "Object_write_text [] (person_object p) @ ?t"
  let ?is = "(open_istream ?txt)\<lparr>rest := ?t, eofbit := False\<rparr>"
  have w: "Person_write_text [] p = Ret ?txt"
    using PersonName_write_text [OF assms(1)] by (simp add: Person_write_text_def Person_name_def)
  have hd: "\<not> isdigit (hd ?t)" "?t \<noteq> []" using assms(2,4) by (auto simp: name_word_def)
  have r: "Person_read_text (open_istream ?txt) old = map_out (\<lambda>(is, n).
      (is, \<lparr>person_object = person_object p, person_mdata = (person_mdata old)\<lparr>mname := n\<rparr>\<rparr>)) (PersonName_read ?is (mname (person_mdata old)))"
    using object_text_roundtrip [of "open_istream ?txt" "person_object p" ?t "person_object old"] hd
    by (simp add: Person_read_text_def open_istream_def good_def)
  have g: "good ?is" by (simp add: good_def open_istream_def)
  have shape: "\<exists>is' n'. PersonName_read ?is (mname (person_mdata old)) = Ret (is', n') \<and> cs_str (mfirst n') = ?f
      \<and> (name_word ?m \<longrightarrow> cs_str (mmiddle n') = ?m \<and> cs_str (mlast n') = ?l \<and> \<not> failbit is')
      \<and> (?m = [] \<longrightarrow> cs_str (mmiddle n') = ?l \<and> cs_str (mlast n') = [] \<and> failbit is')"
    if "name_word ?m \<or> ?m = []"
    using that
  proof
    assume m: "name_word ?m"
    then have "?m \<noteq> []" by (simp add: name_word_def)
    then show ?thesis using PersonName_read_three [OF g _ assms(2) m assms(3), of "mname (person_mdata old)"] by auto
  next
    assume m: "?m = []"
    then have "\<not> name_word ?m" by (simp add: name_word_def)
    then show ?thesis using PersonName_read_two [OF g _ assms(2,3), of "mname (person_mdata old)"] m by auto
  qed
  then obtain is' n' where "PersonName_read ?is (mname (person_mdata old)) = Ret (is', n')" "cs_str (mfirst n') = ?f"
      "name_word ?m \<longrightarrow> cs_str (mmiddle n') = ?m \<and> cs_str (mlast n') = ?l \<and> \<not> failbit is'"
      "?m = [] \<longrightarrow> cs_str (mmiddle n') = ?l \<and> cs_str (mlast n') = [] \<and> failbit is'"
    using assms(5) by blast
  then show ?thesis using w r by (auto simp: Person_name_def)
qed

definition sample_person :: "string \<Rightarrow> string \<Rightarrow> string \<Rightarrow> Person" where
  "sample_person f m l = \<lparr>person_object = Object_of 12, person_mdata = Person_data_of (name_of_strings f m l) NULL_DATE\<rparr>"

theorem person_text_witness:
  "\<exists>txt is' q. Person_write_text [] (sample_person ''Ana'' [] ''Costa'') = Ret txt
    \<and> Person_read_text (open_istream txt) (sample_person [] [] []) = Ret (is', q)
    \<and> cs_str (mmiddle (Person_name q)) = ''Costa'' \<and> cs_str (mlast (Person_name q)) = []"
proof -
  let ?n = "Person_name (sample_person ''Ana'' [] ''Costa'')"
  have n: "PersonName_wf ?n" "name_word (cs_str (mfirst ?n))" "name_word (cs_str (mlast ?n))" "\<not> isdigit (hd (cs_str (mfirst ?n)))"
      "name_word (cs_str (mmiddle ?n)) \<or> cs_str (mmiddle ?n) = []"
    by code_simp+
  have "cs_str (mmiddle ?n) = []" "cs_str (mlast ?n) = ''Costa''" by code_simp+
  then show ?thesis using person_text [OF n, of "sample_person [] [] []"] by (metis (no_types, lifting))
qed

section \<open>Binary form\<close>

definition Email_wf :: "Email \<Rightarrow> bool" where
  "Email_wf e \<longleftrightarrow> length (mlocal_part e) = 64 \<and> length (mdomain e) = 255"

definition PhoneNumber_wf :: "PhoneNumber \<Rightarrow> bool" where
  "PhoneNumber_wf p \<longleftrightarrow> length (mcountry_code p) = 4 \<and> length (mareacode p) = 5 \<and> length (mnumber p) = 11"

definition Person_wf :: "Person_data \<Rightarrow> bool" where
  "Person_wf d \<longleftrightarrow> Email_wf (memail1 d) \<and> Email_wf (memail2 d) \<and> Email_wf (memail3 d) \<and> Email_wf (memail4 d) \<and> Email_wf (memail5 d)
     \<and> PersonName_wf (mname d)
     \<and> PhoneNumber_wf (mphone1 d) \<and> PhoneNumber_wf (mphone2 d) \<and> PhoneNumber_wf (mphone3 d) \<and> PhoneNumber_wf (mphone4 d)
     \<and> PhoneNumber_wf (mphone5 d)"

lemma map_char_byte [simp]: "map char_of_byte (map byte_of_char s) = s"
  by (simp add: comp_def)

lemma Email_bytes_inverse:
  assumes "Email_wf e"
  shows "length (Email_bytes e) = 320" "Email_of_bytes (Email_bytes e @ r) = e"
  using assms by (simp_all add: Email_bytes_def Email_of_bytes_def Email_wf_def nth_append comp_def)

lemma PersonName_bytes_inverse:
  assumes "PersonName_wf n"
  shows "length (PersonName_bytes n) = 60" "PersonName_of_bytes (PersonName_bytes n @ r) = n"
  using assms by (simp_all add: PersonName_bytes_def PersonName_of_bytes_def PersonName_wf_def cs_ok_def comp_def)

lemma Date_bytes_inverse: "length (Date_bytes d) = 4" "Date_of_bytes (Date_bytes d @ r) = d"
  by (simp_all add: Date_bytes_def Date_of_bytes_def length_word_bytes bytes_word_bytes nth_append)

lemma PhoneNumber_bytes_inverse:
  assumes "PhoneNumber_wf p"
  shows "length (PhoneNumber_bytes p) = 21" "PhoneNumber_of_bytes (PhoneNumber_bytes p @ r) = p"
  using assms by (simp_all add: PhoneNumber_bytes_def PhoneNumber_of_bytes_def PhoneNumber_wf_def nth_append comp_def)

lemmas part_inverses = Email_bytes_inverse PersonName_bytes_inverse Date_bytes_inverse PhoneNumber_bytes_inverse

lemma Person_data_bytes_length: "Person_wf d \<Longrightarrow> length (Person_data_bytes d) = 1770"
  by (simp add: Person_data_bytes_def Person_wf_def part_inverses)

lemma Person_data_bytes_inverse: "Person_wf d \<Longrightarrow> Person_data_of_bytes (Person_data_bytes d) = d"
  by (simp add: Person_data_bytes_def Person_data_of_bytes_def Person_wf_def part_inverses nth_append)

lemma Person_INFO_wf [simp]: "ClassInfo_wf Person_INFO"
  unfolding Person_INFO_def by (rule static_info_props) (simp_all add: NUL_def)

definition Person_image :: "Person \<Rightarrow> byte list" where
  "Person_image p = Object_image (person_object p) @ ClassInfo_bytes Person_INFO @ Person_data_bytes (person_mdata p)"

lemma Person_read_front:
  assumes "bb_inv bb" "bb_pending bb = Person_image p @ ys" "Person_wf (person_mdata p)" "Person_wf (person_mdata old)"
  shows "\<exists>bb'. Person_read bb old = (bb', p) \<and> bb_inv bb' \<and> bb_pending bb' = ys"
proof -
  let ?d = "Person_data_bytes (person_mdata p)"
  obtain b1 where b1: "Object_read bb (person_object old) = (b1, person_object p)" "bb_inv b1"
      "bb_pending b1 = ClassInfo_bytes Person_INFO @ ?d @ ys"
    by (rule Object_read_front [OF assms(1), of "person_object p"]) (use assms(2) in \<open>simp_all add: Person_image_def\<close>)
  obtain b2 where b2: "read_info b1 = (b2, Person_INFO)" "bb_inv b2" "bb_pending b2 = ?d @ ys"
    by (rule read_info_front [OF b1(2,3)]) simp_all
  obtain b3 where b3: "bb_read b2 (Person_data_bytes (person_mdata old)) = (b3, ?d)" "bb_inv b3" "bb_pending b3 = ys"
    by (rule bb.get_front [OF b2(2,3), of "Person_data_bytes (person_mdata old)"]) (simp_all add: Person_data_bytes_length assms(3,4))
  show ?thesis using b1(1) b2(1) b3 Person_data_bytes_inverse [OF assms(3)] by (simp add: Person_read_def ClassInfo_eq_iff)
qed

interpretation person_object: persistent Person_write Person_read Person_image "\<lambda>p. Person_wf (person_mdata p)"
proof
  fix bb :: BinaryBuffer and x :: Person
  assume "bb_inv bb"
  then show "bb_inv (Person_write bb x) \<and> bb_pending (Person_write bb x) = bb_pending bb @ Person_image x"
    using Object_write_put [of bb "person_object x"] by (simp add: Person_write_def Person_image_def bb.put_inv bb.put_pending)
qed (use Person_read_front in \<open>auto simp: Person_write_def object.write_position Let_def\<close>)

text \<open>
  A person written to a buffer with nothing pending is read back into any person, with the same id
  and the same data; two persons are equal exactly when their data are, whatever their ids.
\<close>

theorem person_binary_roundtrip:
  assumes "bb_inv bb" "bb_pending bb = []" "Person_wf (person_mdata p)" "Person_wf (person_mdata old)"
  shows "(\<exists>bb'. Person_read (Person_write bb p) old = (bb', p) \<and> bb_inv bb' \<and> bb_pending bb' = [])
    \<and> (Person_equals p old \<longleftrightarrow> person_mdata p = person_mdata old)"
proof
  show "\<exists>bb'. Person_read (Person_write bb p) old = (bb', p) \<and> bb_inv bb' \<and> bb_pending bb' = []"
    by (rule person_object.roundtrip [OF assms])
  show "Person_equals p old \<longleftrightarrow> person_mdata p = person_mdata old"
    unfolding Person_equals_def using Person_data_bytes_inverse assms(3,4) by metis
qed

theorem person_binary_roundtrip_witness:
  "\<exists>bb'. Person_read (Person_write (bb_new 0) (sample_person ''Ana'' [] ''Costa'')) (sample_person [] [] []) = (bb', sample_person ''Ana'' [] ''Costa'')"
proof -
  have "Person_wf (person_mdata (sample_person ''Ana'' [] ''Costa''))" "Person_wf (person_mdata (sample_person [] [] []))"
    by code_simp+
  then show ?thesis using person_binary_roundtrip [OF bb_new_inv] by blast
qed

end
