(* ===== verification/Sql.thy ===== *)
theory Sql
  imports Cpp_Std "HOL-Library.Multiset"
begin

text \<open>
  The statements that the data access objects of contact/data send to PostgreSQL, as a datatype, and what
  the server does with them. The server is not part of the sources: it is a record of functions that the
  data access objects take as an argument, and the locale \<open>sql_server\<close> states the documented behaviour of
  SQL that they rely on. A small server that has this behaviour shows that the laws can be met.
\<close>

section \<open>Statements\<close>

datatype sqlval = SNull | SInt int | SText string | SBool bool | SDate string | SDouble "64 word"

text \<open>Expressions: a bound parameter \<open>:name\<close>, a literal, a column, \<open>NULLIF\<close>, \<open>COALESCE\<close>, \<open>CURRENT_DATE\<close> and \<open>e::type\<close>.\<close>

datatype expr =
    Param string
  | Lit sqlval
  | Col string
  | NullIf expr expr
  | Coalesce expr expr
  | CurrentDate
  | Cast expr string

datatype cond = CTrue | Eq expr expr | ILike expr expr | And cond cond | Or cond cond

datatype source = Table string | Func string "expr list"

text \<open>Order keys are columns with a flag for \<open>DESC\<close>; a limit comes with an offset.\<close>

datatype stmt =
    Insert string "(string \<times> expr) list"
  | Select "expr list" source cond "(string \<times> bool) list" "(expr \<times> expr) option"
  | Count string cond
  | Update string "(string \<times> expr) list" cond
  | Delete string cond
  | Call string "expr list"
  | Raw string

type_synonym binds = "(string \<times> sqlval) list"
type_synonym dbrow = "string \<Rightarrow> sqlval"
type_synonym tables = "string \<Rightarrow> dbrow list"
type_synonym settings = "string \<rightharpoonup> string"

text \<open>
  What depends on the schema and on the server's configuration: casts to types other than boolean and
  text, the value a column keeps of what is assigned to it (lengths, padding, rounding), whether the
  constraints (keys, references, checks) admit a new row, accept an update of these rows and allow a row to
  be deleted in the present state of the tables, which tables the triggers write to, which
  tables refer to themselves, the collation, the
  order of dates and the date.
\<close>

record pg =
  pg_cast :: "string \<Rightarrow> string \<Rightarrow> sqlval option"
  pg_store :: "string \<Rightarrow> string \<Rightarrow> sqlval \<Rightarrow> sqlval option"
  pg_admits :: "tables \<Rightarrow> string \<Rightarrow> (string \<times> sqlval) list \<Rightarrow> bool"
  pg_accepts :: "tables \<Rightarrow> string \<Rightarrow> dbrow list \<Rightarrow> (string \<times> sqlval) list \<Rightarrow> bool"
  pg_keeps :: "tables \<Rightarrow> string \<Rightarrow> sqlval \<Rightarrow> bool"
  pg_log :: "string \<Rightarrow> bool"
  pg_self :: "string \<Rightarrow> bool"
  pg_text_le :: "string \<Rightarrow> string \<Rightarrow> bool"
  pg_date_le :: "string \<Rightarrow> string \<Rightarrow> bool"
  pg_ilike :: "string \<Rightarrow> string \<Rightarrow> bool"
  pg_today :: string

section \<open>Evaluation\<close>

definition sql_error :: "'a outcome" where "sql_error = Raise (Runtime_error ''SQL error'')"

definition cast_val :: "pg \<Rightarrow> string \<Rightarrow> sqlval \<Rightarrow> sqlval outcome" where
  "cast_val env ty v =
     (case v of
        SNull \<Rightarrow> Ret SNull
      | SInt i \<Rightarrow> if ty = ''boolean'' then Ret (SBool (i \<noteq> 0)) else if ty = ''text'' then Ret (SText (show_int i)) else sql_error
      | SText s \<Rightarrow> if ty = ''text'' then Ret (SText s) else (case pg_cast env ty s of Some w \<Rightarrow> Ret w | None \<Rightarrow> sql_error)
      | SDate d \<Rightarrow> if ty = ''text'' then Ret (SText d) else if ty = ''date'' then Ret (SDate d) else sql_error
      | SBool b \<Rightarrow> if ty = ''boolean'' then Ret (SBool b) else sql_error
      | SDouble _ \<Rightarrow> sql_error)"

fun eval :: "pg \<Rightarrow> binds \<Rightarrow> dbrow \<Rightarrow> expr \<Rightarrow> sqlval outcome" where
  "eval env b r (Param x) = (case map_of b x of Some v \<Rightarrow> Ret v | None \<Rightarrow> sql_error)"
| "eval env b r (Lit v) = Ret v"
| "eval env b r (Col c) = Ret (r c)"
| "eval env b r (NullIf e f) = bind_outcome (eval env b r e) (\<lambda>v. map_out (\<lambda>w. if v = w then SNull else v) (eval env b r f))"
| "eval env b r (Coalesce e f) = bind_outcome (eval env b r e) (\<lambda>v. if v = SNull then eval env b r f else Ret v)"
| "eval env b r CurrentDate = Ret (SDate (pg_today env))"
| "eval env b r (Cast e ty) = bind_outcome (eval env b r e) (cast_val env ty)"

text \<open>The conditions have no negation, so it is enough to know when one is true; a comparison with \<open>NULL\<close> is not.\<close>

fun holds :: "pg \<Rightarrow> binds \<Rightarrow> dbrow \<Rightarrow> cond \<Rightarrow> bool" where
  "holds env b r CTrue = True"
| "holds env b r (Eq e f) = (\<exists>v. eval env b r e = Ret v \<and> eval env b r f = Ret v \<and> v \<noteq> SNull)"
| "holds env b r (ILike e f) = (\<exists>s p. eval env b r e = Ret (SText s) \<and> eval env b r f = Ret (SText p) \<and> pg_ilike env s p)"
| "holds env b r (And c d) = (holds env b r c \<and> holds env b r d)"
| "holds env b r (Or c d) = (holds env b r c \<or> holds env b r d)"

fun traverse :: "('a \<Rightarrow> 'b outcome) \<Rightarrow> 'a list \<Rightarrow> 'b list outcome" where
  "traverse f [] = Ret []"
| "traverse f (x # xs) = bind_outcome (f x) (\<lambda>y. map_out ((#) y) (traverse f xs))"

definition store_val :: "pg \<Rightarrow> string \<Rightarrow> binds \<Rightarrow> string \<times> expr \<Rightarrow> (string \<times> sqlval) outcome" where
  "store_val env t b ce =
     bind_outcome (eval env b (\<lambda>_. SNull) (snd ce)) (\<lambda>v.
       case pg_store env t (fst ce) v of Some w \<Rightarrow> Ret (fst ce, w) | None \<Rightarrow> sql_error)"

definition stored :: "pg \<Rightarrow> string \<Rightarrow> binds \<Rightarrow> (string \<times> expr) list \<Rightarrow> (string \<times> sqlval) list outcome" where
  "stored env t b ces = traverse (store_val env t b) ces"

definition fill_row :: "dbrow \<Rightarrow> (string \<times> sqlval) list \<Rightarrow> dbrow" where
  "fill_row r vs = (\<lambda>c. case map_of vs c of Some v \<Rightarrow> v | None \<Rightarrow> r c)"

text \<open>Values of one column have one type; across types the order is by kind, with \<open>NULL\<close> last.\<close>

fun kind :: "sqlval \<Rightarrow> nat" where
  "kind (SInt _) = 0"
| "kind (SBool _) = 1"
| "kind (SText _) = 2"
| "kind (SDate _) = 3"
| "kind (SDouble _) = 4"
| "kind SNull = 5"

fun val_le :: "pg \<Rightarrow> sqlval \<Rightarrow> sqlval \<Rightarrow> bool" where
  "val_le env (SInt i) (SInt j) = (i \<le> j)"
| "val_le env (SBool a) (SBool c) = (a \<longrightarrow> c)"
| "val_le env (SText s) (SText t) = pg_text_le env s t"
| "val_le env (SDate s) (SDate t) = pg_date_le env s t"
| "val_le env (SDouble x) (SDouble y) = (x \<le> y)"
| "val_le env v w = (kind v \<le> kind w)"

fun keys_le :: "pg \<Rightarrow> (string \<times> bool) list \<Rightarrow> dbrow \<Rightarrow> dbrow \<Rightarrow> bool" where
  "keys_le env [] r s = True"
| "keys_le env ((c, desc) # ks) r s =
     (if r c = s c then keys_le env ks r s
      else if desc then val_le env (s c) (r c) else val_le env (r c) (s c))"

definition limit_rows :: "pg \<Rightarrow> binds \<Rightarrow> (expr \<times> expr) option \<Rightarrow> 'a list \<Rightarrow> 'a list outcome" where
  "limit_rows env b lim xs =
     (case lim of
        None \<Rightarrow> Ret xs
      | Some (l, f) \<Rightarrow>
          bind_outcome (eval env b (\<lambda>_. SNull) l) (\<lambda>lv. bind_outcome (eval env b (\<lambda>_. SNull) f) (\<lambda>fv.
            case (lv, fv) of
              (SInt n, SInt m) \<Rightarrow> if n < 0 \<or> m < 0 then sql_error else Ret (take (nat n) (drop (nat m) xs))
            | _ \<Rightarrow> sql_error)))"

definition project :: "pg \<Rightarrow> binds \<Rightarrow> expr list \<Rightarrow> dbrow \<Rightarrow> sqlval list outcome" where
  "project env b es r = traverse (eval env b r) es"

section \<open>The server\<close>

text \<open>
  A server executes a statement under the session variables of a connection, and answers \<open>SET\<close> and \<open>RESET\<close>
  statements (given as text) with an error or none.
\<close>

record 'db server =
  execute :: "settings \<Rightarrow> stmt \<Rightarrow> binds \<Rightarrow> 'db \<Rightarrow> sqlval list list outcome \<times> 'db"
  answer_set :: "string \<Rightarrow> 'db \<Rightarrow> exn option"

text \<open>
  The behaviour the data access objects rely on. \<open>INSERT ... RETURNING id\<close> appends one row with a new id and
  the stored values and returns the id, or fails and changes nothing (here and for \<open>UPDATE\<close>, triggers
  may write to the tables of the audit log); \<open>SELECT\<close> gives the projections of the
  rows that satisfy the condition, in the order asked for, and changes nothing; \<open>UPDATE\<close> and \<open>DELETE\<close> change
  exactly the rows that satisfy the condition and return their ids. Columns that a statement does not name
  may be filled by triggers, and a delete may clear references in other rows of a table that refers to itself.
\<close>

definition cols_ok :: "(string \<times> expr) list \<Rightarrow> bool" where
  "cols_ok ces \<longleftrightarrow> distinct (map fst ces) \<and> ''id'' \<notin> set (map fst ces)"

locale sql_server =
  fixes env :: pg
    and sv :: "'db server"
    and rows :: "'db \<Rightarrow> tables"
  assumes insert_law: "cols_ok ces \<Longrightarrow> stored env t b ces = Ret vs \<Longrightarrow> pg_admits env (rows db) t vs \<Longrightarrow>
      \<not> pg_log env t \<Longrightarrow> int (length (rows db t)) < 2 ^ 62 \<Longrightarrow>
      \<exists>i row db'. execute sv se (Insert t ces) b db = (Ret [[SInt i]], db') \<and> 0 < i \<and> i < 2 ^ 63
        \<and> (\<forall>r\<in>set (rows db t). r ''id'' \<noteq> SInt i)
        \<and> rows db' t = rows db t @ [row] \<and> row ''id'' = SInt i \<and> (\<forall>(c, v)\<in>set vs. row c = v)
        \<and> (\<forall>t'. t' \<noteq> t \<longrightarrow> \<not> pg_log env t' \<longrightarrow> rows db' t' = rows db t')"
    and select_law: "\<exists>rs db'. execute sv se (Select es (Table t) w ks lim) b db =
        (bind_outcome (limit_rows env b lim rs) (traverse (project env b es)), db')
        \<and> mset rs = mset (filter (\<lambda>r. holds env b r w) (rows db t)) \<and> sorted_wrt (keys_le env ks) rs \<and> rows db' = rows db"
    and count_law: "\<exists>db'. execute sv se (Count t w) b db =
        (Ret [[SInt (int (length (filter (\<lambda>r. holds env b r w) (rows db t))))]], db') \<and> rows db' = rows db"
    and update_law: "cols_ok ces \<Longrightarrow> stored env t b ces = Ret vs \<Longrightarrow>
      pg_accepts env (rows db) t (filter (\<lambda>r. holds env b r w) (rows db t)) vs \<Longrightarrow> \<not> pg_log env t \<Longrightarrow>
      \<exists>f db'. execute sv se (Update t ces w) b db =
          (Ret (map (\<lambda>r. [r ''id'']) (filter (\<lambda>r. holds env b r w) (rows db t))), db')
        \<and> rows db' t = map (\<lambda>r. if holds env b r w then f r else r) (rows db t)
        \<and> (\<forall>t'. t' \<noteq> t \<longrightarrow> \<not> pg_log env t' \<longrightarrow> rows db' t' = rows db t')
        \<and> (\<forall>r. f r ''id'' = r ''id'' \<and> (\<forall>(c, v)\<in>set vs. f r c = v))"
    and delete_law: "(\<forall>r\<in>set (rows db t). holds env b r w \<longrightarrow> pg_keeps env (rows db) t (r ''id'')) \<Longrightarrow>
      \<exists>db'. execute sv se (Delete t w) b db =
          (Ret (map (\<lambda>r. [r ''id'']) (filter (\<lambda>r. holds env b r w) (rows db t))), db')
        \<and> map (\<lambda>r. r ''id'') (rows db' t) = map (\<lambda>r. r ''id'') (filter (\<lambda>r. \<not> holds env b r w) (rows db t))
        \<and> (\<not> pg_self env t \<longrightarrow> rows db' t = filter (\<lambda>r. \<not> holds env b r w) (rows db t))"
    and failing_law: "execute sv se st b db = (Raise e, db') \<Longrightarrow> rows db' = rows db"

section \<open>A server that has this behaviour\<close>

text \<open>Tables as functions, the least unused id for a new row, rows sorted by insertion.\<close>

definition used_ids :: "dbrow list \<Rightarrow> int list" where
  "used_ids rs = concat (map (\<lambda>r. case r ''id'' of SInt i \<Rightarrow> [i] | _ \<Rightarrow> []) rs)"

definition fresh_id :: "dbrow list \<Rightarrow> int" where
  "fresh_id rs = hd (filter (\<lambda>i. i \<notin> set (used_ids rs)) [1..int (length rs) + 1])"

fun insert_by :: "('a \<Rightarrow> 'a \<Rightarrow> bool) \<Rightarrow> 'a \<Rightarrow> 'a list \<Rightarrow> 'a list" where
  "insert_by le x [] = [x]"
| "insert_by le x (y # ys) = (if le x y then x # y # ys else y # insert_by le x ys)"

definition sort_by :: "('a \<Rightarrow> 'a \<Rightarrow> bool) \<Rightarrow> 'a list \<Rightarrow> 'a list" where
  "sort_by le xs = foldr (insert_by le) xs []"

fun ref_execute :: "pg \<Rightarrow> settings \<Rightarrow> stmt \<Rightarrow> binds \<Rightarrow> tables \<Rightarrow> sqlval list list outcome \<times> tables" where
  "ref_execute env se (Insert t ces) b db =
     (case stored env t b ces of
        Ret vs \<Rightarrow> if pg_admits env db t vs
          then let i = fresh_id (db t) in (Ret [[SInt i]], db(t := db t @ [(fill_row (\<lambda>_. SNull) vs)(''id'' := SInt i)]))
          else (sql_error, db)
      | _ \<Rightarrow> (sql_error, db))"
| "ref_execute env se (Select es (Table t) w ks lim) b db =
     (bind_outcome (limit_rows env b lim (sort_by (keys_le env ks) (filter (\<lambda>r. holds env b r w) (db t))))
        (traverse (project env b es)), db)"
| "ref_execute env se (Select es (Func f xs) w ks lim) b db = (Ret [], db)"
| "ref_execute env se (Count t w) b db = (Ret [[SInt (int (length (filter (\<lambda>r. holds env b r w) (db t))))]], db)"
| "ref_execute env se (Update t ces w) b db =
     (case stored env t b ces of
        Ret vs \<Rightarrow> if pg_accepts env db t (filter (\<lambda>r. holds env b r w) (db t)) vs
          then (Ret (map (\<lambda>r. [r ''id'']) (filter (\<lambda>r. holds env b r w) (db t))),
                db(t := map (\<lambda>r. if holds env b r w then fill_row r vs else r) (db t)))
          else (sql_error, db)
      | _ \<Rightarrow> (sql_error, db))"
| "ref_execute env se (Delete t w) b db =
     (if \<forall>r\<in>set (db t). holds env b r w \<longrightarrow> pg_keeps env db t (r ''id'')
      then (Ret (map (\<lambda>r. [r ''id'']) (filter (\<lambda>r. holds env b r w) (db t))), db(t := filter (\<lambda>r. \<not> holds env b r w) (db t)))
      else (sql_error, db))"
| "ref_execute env se (Call f xs) b db = (Ret [], db)"
| "ref_execute env se (Raw s) b db = (Ret [], db)"

definition ref_server :: "pg \<Rightarrow> tables server" where
  "ref_server env = \<lparr>execute = ref_execute env, answer_set = (\<lambda>s db. None)\<rparr>"

fun text_le :: "string \<Rightarrow> string \<Rightarrow> bool" where
  "text_le [] t = True"
| "text_le (a # s) [] = False"
| "text_le (a # s) (c # t) = (code a < code c \<or> a = c \<and> text_le s t)"

text \<open>A configuration that stores every value as it is, takes every text for a date, and admits every row.\<close>

definition ref_pg :: pg where
  "ref_pg = \<lparr>pg_cast = (\<lambda>ty s. if ty = ''date'' then Some (SDate s) else Some (SText s)), pg_store = (\<lambda>t c v. Some v),
     pg_admits = (\<lambda>db t vs. True), pg_accepts = (\<lambda>db t rs vs. True),
     pg_keeps = (\<lambda>db t v. True), pg_log = (\<lambda>t. False), pg_self = (\<lambda>t. False), pg_text_le = text_le, pg_date_le = text_le, pg_ilike = (\<lambda>s p. s = p), pg_today = ''2026-01-01''\<rparr>"

lemma fresh_id_props:
  "0 < fresh_id rs \<and> fresh_id rs \<le> int (length rs) + 1 \<and> (\<forall>r\<in>set rs. r ''id'' \<noteq> SInt (fresh_id rs))"
proof -
  let ?free = "filter (\<lambda>i. i \<notin> set (used_ids rs)) [1..int (length rs) + 1]"
  have "length (used_ids rs) \<le> length rs"
    by (induction rs) (auto simp: used_ids_def split: sqlval.splits)
  then have card: "card (set (used_ids rs)) \<le> length rs" using card_length le_trans by blast
  have "?free \<noteq> []"
  proof
    assume "?free = []"
    then have "{1..int (length rs) + 1} \<subseteq> set (used_ids rs)" by (auto simp: filter_empty_conv)
    then have "card {1..int (length rs) + 1} \<le> card (set (used_ids rs))" by (intro card_mono) auto
    with card show False by simp
  qed
  then have "fresh_id rs \<in> set ?free" unfolding fresh_id_def by (rule hd_in_set)
  moreover have "i \<in> set (used_ids rs)" if "r \<in> set rs" "r ''id'' = SInt i" for r i
    using that by (auto simp: used_ids_def intro!: bexI [of _ r])
  ultimately show ?thesis by auto
qed

lemma mset_sort_by: "mset (sort_by le xs) = mset xs"
proof -
  have "mset (insert_by le x ys) = add_mset x (mset ys)" for x ys by (induction ys) auto
  then show ?thesis by (induction xs) (auto simp: sort_by_def)
qed

lemma sorted_sort_by:
  assumes "\<And>x y. le x y \<or> le y x" "\<And>x y z. le x y \<Longrightarrow> le y z \<Longrightarrow> le x z"
  shows "sorted_wrt le (sort_by le xs)"
proof -
  have set: "set (insert_by le x ys) = insert x (set ys)" for x ys by (induction ys) auto
  have "sorted_wrt le ys \<Longrightarrow> sorted_wrt le (insert_by le x ys)" for x ys
  proof (induction ys)
    case (Cons y ys)
    then show ?case using assms(1) [of x y] assms(2) [of x y] by (auto simp: set)
  qed simp
  then show ?thesis by (induction xs) (auto simp: sort_by_def)
qed

lemma text_le_linear:
  "text_le s t \<or> text_le t s" "text_le s t \<Longrightarrow> text_le t s \<Longrightarrow> s = t" "text_le s t \<Longrightarrow> text_le t u \<Longrightarrow> text_le s u"
proof -
  show "text_le s t \<or> text_le t s"
    by (induction s t rule: text_le.induct) (auto simp: not_less_iff_gr_or_eq)
  show "text_le s t \<Longrightarrow> text_le t s \<Longrightarrow> s = t"
    by (induction s t rule: text_le.induct) (auto elim: text_le.elims)
  show "text_le s t \<Longrightarrow> text_le t u \<Longrightarrow> text_le s u"
  proof (induction s t arbitrary: u rule: text_le.induct)
    case (3 a s c t)
    then show ?case by (cases u) auto
  qed auto
qed

lemma val_le_linear:
  "val_le ref_pg v w \<or> val_le ref_pg w v" "val_le ref_pg v w \<Longrightarrow> val_le ref_pg w v \<Longrightarrow> v = w"
  "val_le ref_pg v w \<Longrightarrow> val_le ref_pg w x \<Longrightarrow> val_le ref_pg v x"
proof -
  show "val_le ref_pg v w \<or> val_le ref_pg w v"
    using text_le_linear(1) by (cases v; cases w) (auto simp: ref_pg_def)
  show "val_le ref_pg v w \<Longrightarrow> val_le ref_pg w v \<Longrightarrow> v = w"
    using text_le_linear(2) by (cases v; cases w) (auto simp: ref_pg_def)
  show "val_le ref_pg v w \<Longrightarrow> val_le ref_pg w x \<Longrightarrow> val_le ref_pg v x"
    by (cases v; cases w; cases x; simp add: ref_pg_def; blast intro: text_le_linear(3) order_trans)
qed

lemma keys_le_linear:
  "keys_le ref_pg ks r s \<or> keys_le ref_pg ks s r"
  "keys_le ref_pg ks r s \<Longrightarrow> keys_le ref_pg ks s u \<Longrightarrow> keys_le ref_pg ks r u"
proof -
  show "keys_le ref_pg ks r s \<or> keys_le ref_pg ks s r"
  proof (induction ks)
    case (Cons k ks)
    then show ?case using val_le_linear(1) [of "r (fst k)" "s (fst k)"] by (cases k) auto
  qed simp
  show "keys_le ref_pg ks r s \<Longrightarrow> keys_le ref_pg ks s u \<Longrightarrow> keys_le ref_pg ks r u"
  proof (induction ks)
    case (Cons k ks)
    obtain c d where k: "k = (c, d)" by (cases k)
    show ?case
    proof (cases "r c = s c \<or> s c = u c")
      case True
      with Cons k show ?thesis by (auto split: if_splits)
    next
      case False
      then have "(if d then val_le ref_pg (s c) (r c) \<and> val_le ref_pg (u c) (s c) else val_le ref_pg (r c) (s c) \<and> val_le ref_pg (s c) (u c))"
        using Cons.prems k by (auto split: if_splits)
      moreover have "r c \<noteq> u c" using calculation False val_le_linear(2) by (metis (full_types))
      ultimately show ?thesis using k val_le_linear(3) by (auto split: if_splits)
    qed
  qed simp
qed

lemma traverse_map_fst: "traverse (store_val env t b) ces = Ret vs \<Longrightarrow> map fst vs = map fst ces"
  by (induction ces arbitrary: vs) (auto simp: store_val_def sql_error_def outcome_simps split: option.splits)

lemma fill_row_vals: "distinct (map fst vs) \<Longrightarrow> (c, v) \<in> set vs \<Longrightarrow> fill_row r vs c = v"
  by (simp add: fill_row_def)

lemma fill_row_other: "c \<notin> set (map fst vs) \<Longrightarrow> fill_row r vs c = r c"
  by (auto simp: fill_row_def map_of_eq_None_iff [THEN iffD2])

lemma ref_server_laws: "sql_server ref_pg (ref_server ref_pg) (\<lambda>db. db)"
proof
  fix ces t b vs and db :: tables and se
  assume a: "cols_ok ces" "stored ref_pg t b ces = Ret vs" "pg_admits ref_pg db t vs" "int (length (db t)) < 2 ^ 62"
  have vs: "map fst vs = map fst ces" using a(2) traverse_map_fst unfolding stored_def by blast
  let ?i = "fresh_id (db t)"
  let ?row = "(fill_row (\<lambda>_. SNull) vs)(''id'' := SInt ?i)"
  have cols: "distinct (map fst vs)" "''id'' \<notin> set (map fst vs)" using a(1) vs by (simp_all add: cols_ok_def)
  have "?row c = v" if "(c, v) \<in> set vs" for c v
  proof -
    have "c \<in> set (map fst vs)" using that by force
    then have "c \<noteq> ''id''" using cols(2) by blast
    then show ?thesis using fill_row_vals [OF cols(1) that] by simp
  qed
  then have "\<forall>(c, v)\<in>set vs. ?row c = v" by blast
  then show "\<exists>i row db'. execute (ref_server ref_pg) se (Insert t ces) b db = (Ret [[SInt i]], db') \<and> 0 < i \<and> i < 2 ^ 63
      \<and> (\<forall>r\<in>set (db t). r ''id'' \<noteq> SInt i) \<and> db' t = db t @ [row] \<and> row ''id'' = SInt i \<and> (\<forall>(c, v)\<in>set vs. row c = v)
      \<and> (\<forall>t'. t' \<noteq> t \<longrightarrow> \<not> pg_log ref_pg t' \<longrightarrow> db' t' = db t')"
    using a(2-4) fresh_id_props [of "db t"] by (intro exI [of _ ?i] exI [of _ ?row]) (auto simp: ref_server_def Let_def)
next
  fix se es t w ks lim b and db :: tables
  let ?rs = "sort_by (keys_le ref_pg ks) (filter (\<lambda>r. holds ref_pg b r w) (db t))"
  have "sorted_wrt (keys_le ref_pg ks) ?rs" by (rule sorted_sort_by) (fact keys_le_linear)+
  then show "\<exists>rs db'. execute (ref_server ref_pg) se (Select es (Table t) w ks lim) b db =
        (bind_outcome (limit_rows ref_pg b lim rs) (traverse (project ref_pg b es)), db')
        \<and> mset rs = mset (filter (\<lambda>r. holds ref_pg b r w) (db t)) \<and> sorted_wrt (keys_le ref_pg ks) rs \<and> db' = db"
    by (intro exI [of _ ?rs] exI [of _ db]) (simp add: ref_server_def mset_sort_by)
next
  fix ces t b vs se w and db :: tables
  assume a: "cols_ok ces" "stored ref_pg t b ces = Ret vs" "pg_accepts ref_pg db t (filter (\<lambda>r. holds ref_pg b r w) (db t)) vs"
  have vs: "map fst vs = map fst ces" using a(2) traverse_map_fst unfolding stored_def by blast
  have "fill_row r vs ''id'' = r ''id'' \<and> (\<forall>(c, v)\<in>set vs. fill_row r vs c = v)" for r
    using a(1) vs fill_row_vals [of vs _ _ r] fill_row_other [of "''id''" vs r] unfolding cols_ok_def by (auto simp: case_prod_beta)
  then show "\<exists>f db'. execute (ref_server ref_pg) se (Update t ces w) b db =
          (Ret (map (\<lambda>r. [r ''id'']) (filter (\<lambda>r. holds ref_pg b r w) (db t))), db')
        \<and> db' t = map (\<lambda>r. if holds ref_pg b r w then f r else r) (db t)
        \<and> (\<forall>t'. t' \<noteq> t \<longrightarrow> \<not> pg_log ref_pg t' \<longrightarrow> db' t' = db t')
        \<and> (\<forall>r. f r ''id'' = r ''id'' \<and> (\<forall>(c, v)\<in>set vs. f r c = v))"
    using a(2,3) by (intro exI [of _ "\<lambda>r. fill_row r vs"]) (simp add: ref_server_def)
next
  fix se st b e and db db' :: tables
  assume "execute (ref_server ref_pg) se st b db = (Raise e, db')"
  then show "db' = db"
    by (cases "(ref_pg, se, st, b, db)" rule: ref_execute.cases)
       (auto simp: ref_server_def Let_def split: outcome.splits if_splits)
qed (auto simp: ref_server_def)

interpretation ref: sql_server ref_pg "ref_server ref_pg" "\<lambda>db. db"
  by (rule ref_server_laws)

end
