(* ===== verification/Db_Connection.thy ===== *)
theory Db_Connection
  imports Sql
begin

text \<open>
  contact/data/db\_connection.hpp: a session borrows a connection of the pool, sets the variables
  \<open>app.current_user\<close> and \<open>app.locale\<close> by statements with a quoted literal, and resets them and gives the
  connection back at its end. The position that \<open>pool.lease ()\<close> answers is an argument. How the server reads
  a \<open>SET\<close> statement (a string constant ends at a quote that is not doubled) is part of the language SQL.
\<close>

section \<open>Quoting\<close>

definition quote :: char where "quote = CHR 0x27"

fun quote_loop :: "string \<Rightarrow> string \<Rightarrow> string" where
  "quote_loop result [] = result"
| "quote_loop result (c # s) = quote_loop (result @ (if c = quote then [quote, quote] else [c])) s"

definition quote_literal :: "string \<Rightarrow> string" where
  "quote_literal s = quote_loop [quote] s @ [quote]"

text \<open>Reading a string constant after its opening quote: its value and the text after it.\<close>

fun lex_body :: "string \<Rightarrow> (string \<times> string) option" where
  "lex_body [] = None"
| "lex_body (c # s) =
     (if c = quote then
        (case s of
           [] \<Rightarrow> Some ([], [])
         | d # s' \<Rightarrow> if d = quote then map_option (\<lambda>(v, r). (quote # v, r)) (lex_body s') else Some ([], s))
      else map_option (\<lambda>(v, r). (c # v, r)) (lex_body s))"

definition lex_literal :: "string \<Rightarrow> (string \<times> string) option" where
  "lex_literal s = (case s of [] \<Rightarrow> None | c # r \<Rightarrow> if c = quote then lex_body r else None)"

section \<open>Sessions\<close>

definition current_user :: string where "current_user = ''app.current_user''"

definition app_locale :: string where "app_locale = ''app.locale''"

definition dquote :: string where "dquote = [CHR 0x22]"

definition set_text :: "string \<Rightarrow> string \<Rightarrow> string" where
  "set_text name v = ''SET '' @ dquote @ name @ dquote @ '' = '' @ quote_literal v"

definition reset_text :: "string \<Rightarrow> string" where
  "reset_text name = ''RESET '' @ dquote @ name @ dquote"

text \<open>What a \<open>SET\<close> or \<open>RESET\<close> of one of the two variables does; any other text is an error.\<close>

definition read_set :: "string \<Rightarrow> (string \<times> string option) option" where
  "read_set s =
     (if s = reset_text current_user then Some (current_user, None)
      else if s = reset_text app_locale then Some (app_locale, None)
      else
        let pu = ''SET '' @ dquote @ current_user @ dquote @ '' = '';
            pl = ''SET '' @ dquote @ app_locale @ dquote @ '' = ''
        in if take (length pu) s = pu then
             (case lex_literal (drop (length pu) s) of Some (v, []) \<Rightarrow> Some (current_user, Some v) | _ \<Rightarrow> None)
           else if take (length pl) s = pl then
             (case lex_literal (drop (length pl) s) of Some (v, []) \<Rightarrow> Some (app_locale, Some v) | _ \<Rightarrow> None)
           else None)"

record 'db connection =
  database :: 'db
  session_vars :: "nat \<Rightarrow> settings"
  leased :: "nat list"

text \<open>\<open>session_ << text\<close> for a \<open>SET\<close> or \<open>RESET\<close> statement.\<close>

definition send_set :: "'db server \<Rightarrow> nat \<Rightarrow> string \<Rightarrow> 'db connection \<Rightarrow> unit outcome \<times> 'db connection" where
  "send_set sv pos s c =
     (case answer_set sv s (database c) of
        Some e \<Rightarrow> (Raise e, c)
      | None \<Rightarrow>
          (case read_set s of
             Some (name, v) \<Rightarrow> (Ret (), c\<lparr>session_vars := (session_vars c)(pos := (session_vars c pos)(name := v))\<rparr>)
           | None \<Rightarrow> (sql_error, c)))"

text \<open>The constructor: the connection is leased before the variables are set.\<close>

definition ScopedSession_open :: "'db server \<Rightarrow> nat \<Rightarrow> string \<Rightarrow> string \<Rightarrow> 'db connection \<Rightarrow> unit outcome \<times> 'db connection" where
  "ScopedSession_open sv pos username loc c =
     (let c = c\<lparr>leased := pos # leased c\<rparr> in
      case (if username \<noteq> [] then send_set sv pos (set_text current_user username) c else (Ret (), c)) of
        (Ret u, c) \<Rightarrow> if loc \<noteq> [] then send_set sv pos (set_text app_locale loc) c else (Ret (), c)
      | (r, c) \<Rightarrow> (r, c))"

text \<open>The destructor: errors of the two statements are swallowed, the connection is given back.\<close>

definition ScopedSession_close :: "'db server \<Rightarrow> nat \<Rightarrow> 'db connection \<Rightarrow> 'db connection" where
  "ScopedSession_close sv pos c =
     (let c = (case send_set sv pos (reset_text current_user) c of
                 (Ret u, c) \<Rightarrow> snd (send_set sv pos (reset_text app_locale) c)
               | (r, c) \<Rightarrow> c)
      in c\<lparr>leased := remove1 pos (leased c)\<rparr>)"

text \<open>\<open>DbConnection\<close> opens every connection of the pool; \<open>opens\<close> are the answers of \<open>open\<close>.\<close>

fun open_loop :: "exn option list \<Rightarrow> unit outcome" where
  "open_loop [] = Ret ()"
| "open_loop (None # opens) = open_loop opens"
| "open_loop (Some e # opens) = Raise e"

definition DbConnection_of :: "exn option list \<Rightarrow> 'db \<Rightarrow> 'db connection outcome" where
  "DbConnection_of opens db =
     map_out (\<lambda>_. \<lparr>database = db, session_vars = (\<lambda>_. Map.empty), leased = []\<rparr>) (open_loop opens)"

text \<open>\<open>auto s = conn_.session (username, locale); ...\<close>: the statements of a function between the two.\<close>

definition with_session :: "'db server \<Rightarrow> nat \<Rightarrow> string \<Rightarrow> string \<Rightarrow> (settings \<Rightarrow> 'db \<Rightarrow> 'a outcome \<times> 'db)
    \<Rightarrow> 'db connection \<Rightarrow> 'a outcome \<times> 'db connection" where
  "with_session sv pos username loc body c =
     (case ScopedSession_open sv pos username loc c of
        (Ret u, c) \<Rightarrow>
          (case body (session_vars c pos) (database c) of
             (r, db) \<Rightarrow> (r, ScopedSession_close sv pos (c\<lparr>database := db\<rparr>)))
      | (r, c) \<Rightarrow> (bind_outcome r (\<lambda>_. sql_error), c))"

section \<open>No text leaves its quotes\<close>

lemma quote_loop_append: "quote_loop r s = r @ quote_loop [] s"
proof (induction s arbitrary: r)
  case (Cons c s)
  show ?case using Cons [of "r @ (if c = quote then [quote, quote] else [c])"] Cons [of "if c = quote then [quote, quote] else [c]"] by simp
qed simp

lemma lex_quoted: "tail = [] \<or> hd tail \<noteq> quote \<Longrightarrow> lex_body (quote_loop [] s @ quote # tail) = Some (s, tail)"
proof (induction s)
  case Nil
  then show ?case by (cases tail) auto
next
  case (Cons c s)
  then show ?case using quote_loop_append [of "if c = quote then [quote, quote] else [c]" s] by simp
qed

lemma lex_quote_literal: "tail = [] \<or> hd tail \<noteq> quote \<Longrightarrow> lex_literal (quote_literal s @ tail) = Some (s, tail)"
  using lex_quoted [of tail s] quote_loop_append [of "[quote]" s] by (simp add: lex_literal_def quote_literal_def)

lemma read_set_user: "read_set (set_text current_user v) = Some (current_user, Some v)"
  using lex_quote_literal [of "[]" v]
  by (simp add: read_set_def set_text_def reset_text_def current_user_def app_locale_def dquote_def)

lemma read_set_locale: "read_set (set_text app_locale v) = Some (app_locale, Some v)"
  using lex_quote_literal [of "[]" v]
  by (simp add: read_set_def set_text_def reset_text_def current_user_def app_locale_def dquote_def)

lemma read_reset: "read_set (reset_text current_user) = Some (current_user, None)" "read_set (reset_text app_locale) = Some (app_locale, None)"
  by (simp_all add: read_set_def reset_text_def current_user_def app_locale_def dquote_def)

lemma vars_differ [simp]: "current_user \<noteq> app_locale" "app_locale \<noteq> current_user"
  by (simp_all add: current_user_def app_locale_def)

text \<open>The variables of a session with this user and this locale.\<close>

definition vars_for :: "string \<Rightarrow> string \<Rightarrow> settings \<Rightarrow> settings" where
  "vars_for username loc m =
     (let m = (if username \<noteq> [] then m(current_user \<mapsto> username) else m)
      in if loc \<noteq> [] then m(app_locale \<mapsto> loc) else m)"

lemma session_open:
  assumes "\<And>s db. answer_set sv s db = None"
  shows "ScopedSession_open sv pos username loc c =
    (Ret (), c\<lparr>leased := pos # leased c, session_vars := (session_vars c)(pos := vars_for username loc (session_vars c pos))\<rparr>)"
  using assms
  by (simp add: ScopedSession_open_def send_set_def read_set_user read_set_locale vars_for_def Let_def)

lemma session_close:
  assumes "\<And>s db. answer_set sv s db = None"
  shows "ScopedSession_close sv pos c =
    c\<lparr>leased := remove1 pos (leased c),
      session_vars := (session_vars c)(pos := (session_vars c pos)(current_user := None, app_locale := None))\<rparr>"
  using assms by (simp add: ScopedSession_close_def send_set_def read_reset Let_def)

text \<open>A session runs the statements under its variables and leaves no trace in the pool.\<close>

lemma with_session_body:
  assumes "\<And>s db. answer_set sv s db = None" "body (vars_for username loc (session_vars c pos)) (database c) = (r, db)"
  shows "with_session sv pos username loc body c =
    (r, c\<lparr>database := db, session_vars := (session_vars c)(pos := (session_vars c pos)(current_user := None, app_locale := None))\<rparr>)"
proof -
  have "(vars_for username loc m)(current_user := None, app_locale := None) = m(current_user := None, app_locale := None)" for m
    by (auto simp: vars_for_def Let_def)
  then show ?thesis
    using assms(2) by (simp add: with_session_def session_open [OF assms(1)] session_close [OF assms(1)])
qed

lemma with_session_run:
  assumes "\<forall>s db. answer_set sv s db = None" "body (vars_for username loc (session_vars c pos)) (database c) = (r, db)"
  shows "\<exists>c'. with_session sv pos username loc body c = (r, c') \<and> database c' = db"
  using with_session_body [of sv body username loc c pos r db] assms by simp

text \<open>
  C12: Every statement of a session runs with \<open>app.current_user\<close> and \<open>app.locale\<close> equal to the given texts,
  whatever characters they contain, and with the former values where they are empty. Whether the
  statements succeed or throw, afterwards both variables are unset, the pool is as before and what the
  caller gets is what they gave. When the server refuses a \<open>SET\<close>, the exception leaves the constructor and
  the connection is never given back.
\<close>

theorem session_scope:
  "(\<forall>s db. answer_set sv s db = None) \<Longrightarrow>
     (\<exists>c'. with_session sv pos username loc body c
          = (fst (body (vars_for username loc (session_vars c pos)) (database c)), c')
        \<and> database c' = snd (body (vars_for username loc (session_vars c pos)) (database c))
        \<and> leased c' = leased c \<and> session_vars c' pos current_user = None \<and> session_vars c' pos app_locale = None
        \<and> (\<forall>p. p \<noteq> pos \<longrightarrow> session_vars c' p = session_vars c p))
     \<and> lex_literal (quote_literal username) = Some (username, [])
     \<and> (username \<noteq> [] \<longrightarrow>
          with_session (sv\<lparr>answer_set := \<lambda>s db. Some e\<rparr>) pos username loc body c = (Raise e, c\<lparr>leased := pos # leased c\<rparr>))"
proof (intro conjI impI)
  assume ok: "\<forall>s db. answer_set sv s db = None"
  obtain r db where body: "body (vars_for username loc (session_vars c pos)) (database c) = (r, db)" by fastforce
  show "\<exists>c'. with_session sv pos username loc body c
          = (fst (body (vars_for username loc (session_vars c pos)) (database c)), c')
        \<and> database c' = snd (body (vars_for username loc (session_vars c pos)) (database c))
        \<and> leased c' = leased c \<and> session_vars c' pos current_user = None \<and> session_vars c' pos app_locale = None
        \<and> (\<forall>p. p \<noteq> pos \<longrightarrow> session_vars c' p = session_vars c p)"
    using with_session_body [of sv body username loc c pos r db] ok body by simp
  show "lex_literal (quote_literal username) = Some (username, [])" using lex_quote_literal [of "[]"] by simp
  assume "username \<noteq> []"
  then show "with_session (sv\<lparr>answer_set := \<lambda>s db. Some e\<rparr>) pos username loc body c = (Raise e, c\<lparr>leased := pos # leased c\<rparr>)"
    by (simp add: with_session_def ScopedSession_open_def send_set_def Let_def)
qed

theorem session_scope_witness:
  "lex_literal (quote_literal (''x'' @ [quote] @ ''; DROP TABLE t_person; --'')) = Some (''x'' @ [quote] @ ''; DROP TABLE t_person; --'', [])
   \<and> fst (with_session (ref_server ref_pg) 0 ''ana'' [] (\<lambda>se db. (Ret (se current_user), db))
        \<lparr>database = (\<lambda>_. []), session_vars = (\<lambda>_. Map.empty), leased = []\<rparr>) = Ret (Some ''ana'')"
proof -
  have ok: "\<forall>s db. answer_set (ref_server ref_pg) s db = None" by (simp add: ref_server_def)
  let ?c = "\<lparr>database = (\<lambda>_. []), session_vars = (\<lambda>_. Map.empty), leased = []\<rparr> :: tables connection"
  let ?body = "\<lambda>se db. (Ret (se current_user), db)"
  obtain c' where "with_session (ref_server ref_pg) 0 ''ana'' [] ?body ?c
      = (fst (?body (vars_for ''ana'' [] (session_vars ?c 0)) (database ?c)), c')"
    using session_scope [OF ok, of 0 "''ana''" "[]" ?body ?c, THEN conjunct1] by blast
  moreover have "lex_literal (quote_literal (''x'' @ [quote] @ ''; DROP TABLE t_person; --''))
      = Some (''x'' @ [quote] @ ''; DROP TABLE t_person; --'', [])"
    by (rule session_scope [OF ok, of 0 _ "[]" ?body ?c, THEN conjunct2, THEN conjunct1])
  ultimately show ?thesis by (simp add: vars_for_def)
qed

end
