(* ===== verification/Dao.thy ===== *)
theory Dao
  imports Db_Connection
begin

text \<open>
  What all data access objects of contact/data share: SOCI's \<open>use\<close> and \<open>into\<close>, access to a column of a row
  (which throws when the type does not fit), and the four ways their functions execute a statement. The
  client lemmas about inserting, finding, updating and removing a row are proved once, from the laws of
  the server.
\<close>

section \<open>Columns and parameters\<close>

definition bad_cast :: "'a outcome" where "bad_cast = Raise (Runtime_error ''std::bad_cast'')"

definition column :: "sqlval list \<Rightarrow> nat \<Rightarrow> sqlval outcome" where
  "column r i = (if i < length r then Ret (r ! i) else Raise (Out_of_range ''column''))"

definition get_int64 :: "sqlval list \<Rightarrow> nat \<Rightarrow> int64 outcome" where
  "get_int64 r i = bind_outcome (column r i) (\<lambda>v. case v of SInt k \<Rightarrow> Ret (word_of_int k) | _ \<Rightarrow> bad_cast)"

text \<open>SOCI describes a boolean column of PostgreSQL as an integer.\<close>

definition get_int :: "sqlval list \<Rightarrow> nat \<Rightarrow> int outcome" where
  "get_int r i = bind_outcome (column r i) (\<lambda>v. case v of SInt k \<Rightarrow> Ret k | SBool b \<Rightarrow> Ret (if b then 1 else 0) | _ \<Rightarrow> bad_cast)"

definition get_text :: "sqlval list \<Rightarrow> nat \<Rightarrow> string outcome" where
  "get_text r i = bind_outcome (column r i) (\<lambda>v. case v of SText s \<Rightarrow> Ret s | _ \<Rightarrow> bad_cast)"

definition get_double :: "sqlval list \<Rightarrow> nat \<Rightarrow> (64 word) outcome" where
  "get_double r i = bind_outcome (column r i) (\<lambda>v. case v of SDouble d \<Rightarrow> Ret d | _ \<Rightarrow> bad_cast)"

definition use_int64 :: "int64 \<Rightarrow> sqlval" where "use_int64 v = SInt (sint v)"

definition use_bool :: "bool \<Rightarrow> sqlval" where "use_bool b = SInt (if b then 1 else 0)"

definition use_int16 :: "int16 \<Rightarrow> sqlval" where "use_int16 v = SInt (sint v)"

definition get_int16 :: "sqlval list \<Rightarrow> nat \<Rightarrow> int16 outcome" where
  "get_int16 r i = map_out word_of_int (get_int r i)"

definition get_bool :: "sqlval list \<Rightarrow> nat \<Rightarrow> bool outcome" where
  "get_bool r i = map_out (\<lambda>k. k \<noteq> 0) (get_int r i)"

section \<open>Executing a statement\<close>

text \<open>\<open>into (new_id)\<close>: the variable is 0 before and keeps that value when no row is returned.\<close>

definition exec_new_id :: "'db server \<Rightarrow> stmt \<Rightarrow> binds \<Rightarrow> settings \<Rightarrow> 'db \<Rightarrow> int64 outcome \<times> 'db" where
  "exec_new_id sv st b se db =
     (case execute sv se st b db of
        (r, db') \<Rightarrow> (bind_outcome r (\<lambda>rs. case rs of [] \<Rightarrow> Ret 0 | r # _ \<Rightarrow> get_int64 r 0), db'))"

text \<open>\<open>into (ret_id)\<close> followed by \<open>got_data ()\<close>.\<close>

definition exec_got_data :: "'db server \<Rightarrow> stmt \<Rightarrow> binds \<Rightarrow> settings \<Rightarrow> 'db \<Rightarrow> bool outcome \<times> 'db" where
  "exec_got_data sv st b se db = (case execute sv se st b db of (r, db') \<Rightarrow> (map_out (\<lambda>rs. rs \<noteq> []) r, db'))"

text \<open>\<open>into (r)\<close> with a row: nothing when there is no data, else the first row decoded.\<close>

definition exec_row :: "'db server \<Rightarrow> (sqlval list \<Rightarrow> 'a outcome) \<Rightarrow> stmt \<Rightarrow> binds \<Rightarrow> settings \<Rightarrow> 'db \<Rightarrow> 'a option outcome \<times> 'db" where
  "exec_row sv decode st b se db =
     (case execute sv se st b db of
        (r, db') \<Rightarrow> (bind_outcome r (\<lambda>rs. case rs of [] \<Rightarrow> Ret None | r # _ \<Rightarrow> map_out Some (decode r)), db'))"

text \<open>A \<open>rowset\<close> with a loop that decodes every row.\<close>

definition exec_rows :: "'db server \<Rightarrow> (sqlval list \<Rightarrow> 'a outcome) \<Rightarrow> stmt \<Rightarrow> binds \<Rightarrow> settings \<Rightarrow> 'db \<Rightarrow> 'a list outcome \<times> 'db" where
  "exec_rows sv decode st b se db =
     (case execute sv se st b db of (r, db') \<Rightarrow> (bind_outcome r (traverse decode), db'))"

text \<open>\<open>into (count)\<close> with an \<open>int\<close>: a value that does not fit is an error.\<close>

definition exec_count :: "'db server \<Rightarrow> stmt \<Rightarrow> binds \<Rightarrow> settings \<Rightarrow> 'db \<Rightarrow> int outcome \<times> 'db" where
  "exec_count sv st b se db =
     (case execute sv se st b db of
        (r, db') \<Rightarrow> (bind_outcome r (\<lambda>rs. case rs of [] \<Rightarrow> Ret 0 | r # _ \<Rightarrow>
           bind_outcome (column r 0) (\<lambda>v. case v of SInt k \<Rightarrow> if - (2 ^ 31) \<le> k \<and> k < 2 ^ 31 then Ret k else bad_cast | _ \<Rightarrow> bad_cast)), db'))"

definition by_id :: cond where "by_id = Eq (Col ''id'') (Param ''id'')"

definition empty_text :: expr where "empty_text = Lit (SText [])"

text \<open>\<open>NULLIF(:x,'')\<close> and \<open>COALESCE(c,'')\<close>.\<close>

definition null_if_empty :: "string \<Rightarrow> expr" where "null_if_empty x = NullIf (Param x) empty_text"

definition text_or_empty :: "string \<Rightarrow> expr" where "text_or_empty c = Coalesce (Col c) empty_text"

definition int_or_zero :: "string \<Rightarrow> expr" where "int_or_zero c = Coalesce (Col c) (Lit (SInt 0))"

text \<open>\<open>NULLIF(:x,'')::date\<close>, \<open>COALESCE(c::text,'')\<close> and \<open>:x::boolean\<close>.\<close>

definition date_param :: "string \<Rightarrow> expr" where "date_param x = Cast (null_if_empty x) ''date''"

definition date_text :: "string \<Rightarrow> expr" where "date_text c = Coalesce (Cast (Col c) ''text'') empty_text"

definition bool_param :: "string \<Rightarrow> expr" where "bool_param x = Cast (Param x) ''boolean''"

section \<open>Values and rows\<close>

text \<open>An empty text is stored as \<open>NULL\<close>, the id 0 of an optional reference too.\<close>

definition opt_text :: "string \<Rightarrow> sqlval" where "opt_text s = (if s = [] then SNull else SText s)"

definition opt_date :: "string \<Rightarrow> sqlval" where "opt_date s = (if s = [] then SNull else SDate s)"

definition opt_ref :: "int64 \<Rightarrow> sqlval" where "opt_ref v = (if v = 0 then SNull else SInt (sint v))"

text \<open>The columns keep the values given for them, and the constraints admit the row in these tables.\<close>

definition kept :: "pg \<Rightarrow> string \<Rightarrow> (string \<times> sqlval) list \<Rightarrow> bool" where
  "kept env t vs \<longleftrightarrow> list_all (\<lambda>(c, v). pg_store env t c v = Some v) vs"

definition fits :: "pg \<Rightarrow> tables \<Rightarrow> string \<Rightarrow> (string \<times> sqlval) list \<Rightarrow> bool" where
  "fits env db t vs \<longleftrightarrow> kept env t vs \<and> pg_admits env db t vs \<and> \<not> pg_log env t \<and> int (length (db t)) < 2 ^ 62"

text \<open>A text the server reads as the date it prints as this text, or no date.\<close>

definition iso_date :: "pg \<Rightarrow> string \<Rightarrow> bool" where
  "iso_date env s \<longleftrightarrow> s = [] \<or> pg_cast env ''date'' s = Some (SDate s)"

named_theorems sql_simps \<open>evaluation of the statements of the data access objects\<close>

lemma eval_null_if_empty [sql_simps]: "map_of b x = Some (SText s) \<Longrightarrow> eval env b r (null_if_empty x) = Ret (opt_text s)"
  by (simp add: null_if_empty_def empty_text_def opt_text_def)

lemma eval_date [sql_simps]:
  "map_of b x = Some (SText s) \<Longrightarrow> iso_date env s \<Longrightarrow> eval env b r (date_param x) = Ret (opt_date s)"
  by (auto simp: date_param_def null_if_empty_def empty_text_def opt_date_def cast_val_def iso_date_def)

lemma eval_bool [sql_simps]: "map_of b x = Some (use_bool v) \<Longrightarrow> eval env b r (bool_param x) = Ret (SBool v)"
  by (simp add: bool_param_def use_bool_def cast_val_def)

lemma eval_text_or_empty [sql_simps]: "r c = opt_text s \<Longrightarrow> eval env b r (text_or_empty c) = Ret (SText s)"
  by (simp add: text_or_empty_def empty_text_def opt_text_def)

lemma eval_date_text [sql_simps]: "r c = opt_date s \<Longrightarrow> eval env b r (date_text c) = Ret (SText s)"
  by (simp add: date_text_def empty_text_def opt_date_def cast_val_def)

lemma eval_int_or_zero [sql_simps]: "r c = opt_ref v \<Longrightarrow> eval env b r (int_or_zero c) = Ret (SInt (sint v))"
  by (simp add: int_or_zero_def opt_ref_def)

lemma get_simps [sql_simps]:
  "i < length r \<Longrightarrow> r ! i = SText s \<Longrightarrow> get_text r i = Ret s"
  "i < length r \<Longrightarrow> r ! i = SInt (sint (w :: int64)) \<Longrightarrow> get_int64 r i = Ret w"
  "i < length r \<Longrightarrow> r ! i = SBool v \<Longrightarrow> get_bool r i = Ret v"
  "i < length r \<Longrightarrow> r ! i = SInt (sint (h :: int16)) \<Longrightarrow> get_int16 r i = Ret h"
  "i < length r \<Longrightarrow> r ! i = SDouble d \<Longrightarrow> get_double r i = Ret d"
  by (simp_all add: get_text_def get_int64_def get_bool_def get_int16_def get_int_def get_double_def column_def)

text \<open>The evaluation of a list of assignments, one after the other.\<close>

lemma stored_Cons:
  "stored env t b ((c, e) # ces) = bind_outcome (store_val env t b (c, e)) (\<lambda>cv. map_out ((#) cv) (stored env t b ces))"
  by (simp add: stored_def)

lemma stored_Nil: "stored env t b [] = Ret []"
  by (simp add: stored_def)

lemma store_val_Ret: "eval env b (\<lambda>_. SNull) e = Ret v \<Longrightarrow> pg_store env t c v = Some v \<Longrightarrow> store_val env t b (c, e) = Ret (c, v)"
  by (simp add: store_val_def)

lemma project_Cons: "project env b (e # es) r = bind_outcome (eval env b r e) (\<lambda>v. map_out ((#) v) (project env b es r))"
  by (simp add: project_def)

lemma project_Nil: "project env b [] r = Ret []"
  by (simp add: project_def)

lemma holds_by_id: "map_of b ''id'' = Some (use_int64 i) \<Longrightarrow> holds env b r by_id \<longleftrightarrow> r ''id'' = SInt (sint i)"
  by (auto simp: by_id_def use_int64_def)

text \<open>A row that holds these values under this id, and a table that holds these objects, row by row.\<close>

definition row_of :: "(string \<times> sqlval) list \<Rightarrow> int64 \<Rightarrow> dbrow \<Rightarrow> bool" where
  "row_of vs i row \<longleftrightarrow> (\<forall>(c, v)\<in>set vs. row c = v) \<and> row ''id'' = SInt (sint i)"

definition table_of :: "('a \<Rightarrow> (string \<times> sqlval) list) \<Rightarrow> ('a \<Rightarrow> int64) \<Rightarrow> dbrow list \<Rightarrow> 'a list \<Rightarrow> bool" where
  "table_of vals key rs ds \<longleftrightarrow> list_all2 (\<lambda>r d. row_of (vals d) (key d) r) rs ds"

text \<open>What a call may do to the tables other than its own: only the audit log changes.\<close>

definition others_kept :: "pg \<Rightarrow> string \<Rightarrow> tables \<Rightarrow> tables \<Rightarrow> bool" where
  "others_kept env t db db' \<longleftrightarrow> (\<forall>t'. t' \<noteq> t \<longrightarrow> \<not> pg_log env t' \<longrightarrow> db' t' = db t')"

lemma row_of_id: "row_of vs i row \<Longrightarrow> row ''id'' = SInt (sint j) \<longleftrightarrow> i = j"
  by (auto simp: row_of_def dest: signed_word_eqI)

lemma table_of_filter:
  assumes "table_of vals key rs ds" "\<And>r d. row_of (vals d) (key d) r \<Longrightarrow> P r \<longleftrightarrow> Q d"
  shows "table_of vals key (filter P rs) (filter Q ds)"
  using assms(1) unfolding table_of_def by (induction rule: list_all2_induct) (simp_all add: assms(2))

lemma table_of_map:
  assumes "table_of vals key rs ds" "\<And>r d. row_of (vals d) (key d) r \<Longrightarrow> row_of (vals (g d)) (key (g d)) (f r)"
  shows "table_of vals key (map f rs) (map g ds)"
  using assms(1) unfolding table_of_def by (induction rule: list_all2_induct) (simp_all add: assms(2))

lemma table_of_ids: "table_of vals key rs ds \<Longrightarrow> map (\<lambda>r. r ''id'') rs = map (\<lambda>d. SInt (sint (key d))) ds"
  unfolding table_of_def by (induction rule: list_all2_induct) (simp_all add: row_of_def)

lemma table_of_empty [simp]: "table_of vals key [] []"
  by (simp add: table_of_def)

lemma table_of_Nil: "table_of vals key rs ds \<Longrightarrow> rs = [] \<longleftrightarrow> ds = []"
  by (auto simp: table_of_def)

lemma table_of_snoc: "table_of vals key rs ds \<Longrightarrow> row_of (vals d) (key d) r \<Longrightarrow> table_of vals key (rs @ [r]) (ds @ [d])"
  by (simp add: table_of_def list_all2_appendI)

lemma list_all2_in_set: "list_all2 R xs ys \<Longrightarrow> y \<in> set ys \<Longrightarrow> \<exists>x\<in>set xs. R x y"
  by (induction rule: list_all2_induct) auto

lemma filter_key_nonempty: "filter (\<lambda>d. key d = i) ds = [] \<longleftrightarrow> i \<notin> key ` set ds"
  by (auto simp: filter_empty_conv)

lemma filter_key:
  "distinct (map key ds) \<Longrightarrow> filter (\<lambda>d. key d = i) ds = (case find (\<lambda>d. key d = i) ds of None \<Rightarrow> [] | Some d \<Rightarrow> [d])"
proof (induction ds)
  case (Cons d ds)
  show ?case
  proof (cases "key d = i")
    case True
    then have "filter (\<lambda>d. key d = i) ds = []" using Cons.prems True by (auto simp: filter_key_nonempty)
    with True show ?thesis by simp
  qed (use Cons in simp)
qed simp

section \<open>Objects and their table\<close>

text \<open>
  What a data access object has to get right for its table to be a list of its objects: the values it writes
  do not depend on the id, and the columns it selects, decoded, give back the object written. The calls
  are then the operations on that list.
\<close>

locale readable =
  fixes vals :: "'a \<Rightarrow> (string \<times> sqlval) list"
    and key :: "'a \<Rightarrow> int64"
    and columns :: "expr list"
    and decode :: "sqlval list \<Rightarrow> 'a outcome"
  assumes reads: "row_of (vals d) (key d) row \<Longrightarrow> \<exists>ws. project env b columns row = Ret ws \<and> decode ws = Ret d"
begin

lemma decode_all: "table_of vals key rs es \<Longrightarrow> \<exists>wss. traverse (project env b columns) rs = Ret wss \<and> traverse decode wss = Ret es"
  unfolding table_of_def
proof (induction rule: list_all2_induct)
  case (Cons r rs d ds)
  obtain ws where "project env b columns r = Ret ws" "decode ws = Ret d" using reads [OF Cons(1)] by blast
  with Cons.IH show ?case by auto
qed simp

lemma table_of_sorted:
  assumes "table_of vals key rs es" "sorted_wrt (keys_le env ks) rs"
    "\<And>r d r' d'. row_of (vals d) (key d) r \<Longrightarrow> row_of (vals d') (key d') r' \<Longrightarrow> keys_le env ks r r' \<Longrightarrow> le d d'"
  shows "sorted_wrt le es"
  using assms(1,2) unfolding table_of_def
proof (induction rule: list_all2_induct)
  case (Cons r rs d ds)
  have "le d d'" if d': "d' \<in> set ds" for d'
  proof -
    obtain r' where "r' \<in> set rs" "row_of (vals d') (key d') r'" using list_all2_in_set [OF Cons(2) d'] by blast
    then show ?thesis using Cons(1,4) by (intro assms(3) [of d r d' r']) auto
  qed
  with Cons show ?case by simp
qed simp

lemma select_objects:
  assumes "sql_server env sv rows" "table_of vals key (rows db t) ds"
    "\<forall>r d. row_of (vals d) (key d) r \<longrightarrow> (holds env b r w \<longleftrightarrow> P d)"
    "\<forall>r d r' d'. row_of (vals d) (key d) r \<longrightarrow> row_of (vals d') (key d') r' \<longrightarrow> keys_le env ks r r' \<longrightarrow> le d d'"
  shows "\<exists>rs es db'. execute sv se (Select columns (Table t) w ks lim) b db =
      (bind_outcome (limit_rows env b lim rs) (traverse (project env b columns)), db')
    \<and> table_of vals key rs es \<and> mset es = mset (filter P ds) \<and> sorted_wrt le es \<and> rows db' = rows db"
proof -
  obtain rs db' where rs: "execute sv se (Select columns (Table t) w ks lim) b db =
      (bind_outcome (limit_rows env b lim rs) (traverse (project env b columns)), db')"
      "mset rs = mset (filter (\<lambda>r. holds env b r w) (rows db t))" "sorted_wrt (keys_le env ks) rs" "rows db' = rows db"
    using sql_server.select_law [OF assms(1)] by blast
  have "table_of vals key (filter (\<lambda>r. holds env b r w) (rows db t)) (filter P ds)"
    using assms(2) by (rule table_of_filter) (simp add: assms(3))
  then obtain es where es: "table_of vals key rs es" "mset es = mset (filter P ds)"
    using list_all2_reorder_left_invariance [OF _ rs(2)] unfolding table_of_def by blast
  with rs table_of_sorted [OF es(1) rs(3), of le] assms(4) show ?thesis by blast
qed

lemma select_call:
  assumes "sql_server env sv rows" "\<forall>s db. answer_set sv s db = None" "table_of vals key (rows (database c) t) ds"
    "\<forall>r d. row_of (vals d) (key d) r \<longrightarrow> (holds env b r w \<longleftrightarrow> P d)"
    "\<forall>r d r' d'. row_of (vals d) (key d) r \<longrightarrow> row_of (vals d') (key d') r' \<longrightarrow> keys_le env ks r r' \<longrightarrow> le d d'"
  shows "\<exists>es c'. with_session sv pos u l (exec_rows sv decode (Select columns (Table t) w ks None) b) c = (Ret es, c')
    \<and> mset es = mset (filter P ds) \<and> sorted_wrt le es \<and> rows (database c') = rows (database c)"
proof -
  obtain rs es db' where rs: "execute sv (vars_for u l (session_vars c pos)) (Select columns (Table t) w ks None) b (database c) =
      (bind_outcome (limit_rows env b None rs) (traverse (project env b columns)), db')"
      "table_of vals key rs es" "mset es = mset (filter P ds)" "sorted_wrt le es" "rows db' = rows (database c)"
    using select_objects [OF assms(1,3-5)] by blast
  have "exec_rows sv decode (Select columns (Table t) w ks None) b (vars_for u l (session_vars c pos)) (database c) = (Ret es, db')"
    using rs(1) decode_all [OF rs(2), of env b] by (auto simp: exec_rows_def limit_rows_def)
  then have "\<exists>c'. with_session sv pos u l (exec_rows sv decode (Select columns (Table t) w ks None) b) c = (Ret es, c') \<and> database c' = db'"
    by (intro with_session_run assms(2))
  with rs(3-5) show ?thesis by blast
qed

text \<open>A page of the sorted objects: \<open>LIMIT n OFFSET m\<close>.\<close>

lemma page_call:
  assumes "sql_server env sv rows" "\<forall>s db. answer_set sv s db = None" "table_of vals key (rows (database c) t) ds"
    "\<forall>r d. row_of (vals d) (key d) r \<longrightarrow> (holds env b r w \<longleftrightarrow> P d)"
    "\<forall>r d r' d'. row_of (vals d) (key d) r \<longrightarrow> row_of (vals d') (key d') r' \<longrightarrow> keys_le env ks r r' \<longrightarrow> le d d'"
    "eval env b (\<lambda>_. SNull) x = Ret (SInt n)" "eval env b (\<lambda>_. SNull) y = Ret (SInt m)" "0 \<le> n" "0 \<le> m"
  shows "\<exists>es c'. with_session sv pos u l (exec_rows sv decode (Select columns (Table t) w ks (Some (x, y))) b) c
      = (Ret (take (nat n) (drop (nat m) es)), c')
    \<and> mset es = mset (filter P ds) \<and> sorted_wrt le es \<and> rows (database c') = rows (database c)"
proof -
  obtain rs es db' where rs: "execute sv (vars_for u l (session_vars c pos)) (Select columns (Table t) w ks (Some (x, y))) b (database c) =
      (bind_outcome (limit_rows env b (Some (x, y)) rs) (traverse (project env b columns)), db')"
      "table_of vals key rs es" "mset es = mset (filter P ds)" "sorted_wrt le es" "rows db' = rows (database c)"
    using select_objects [OF assms(1,3-5)] by blast
  have "table_of vals key (take (nat n) (drop (nat m) rs)) (take (nat n) (drop (nat m) es))"
    using rs(2) unfolding table_of_def by (intro list_all2_takeI list_all2_dropI)
  then have "exec_rows sv decode (Select columns (Table t) w ks (Some (x, y))) b (vars_for u l (session_vars c pos)) (database c)
      = (Ret (take (nat n) (drop (nat m) es)), db')"
    using rs(1) decode_all [of "take (nat n) (drop (nat m) rs)" "take (nat n) (drop (nat m) es)" env b] assms(6-9)
    by (auto simp: exec_rows_def limit_rows_def)
  then have "\<exists>c'. with_session sv pos u l (exec_rows sv decode (Select columns (Table t) w ks (Some (x, y))) b) c
      = (Ret (take (nat n) (drop (nat m) es)), c') \<and> database c' = db'"
    by (intro with_session_run assms(2))
  with rs(3-5) show ?thesis by blast
qed

text \<open>The first row of a selection, perhaps with \<open>LIMIT 1\<close>: some object that satisfies the condition, if there is one.\<close>

lemma first_call:
  assumes "sql_server env sv rows" "\<forall>s db. answer_set sv s db = None" "table_of vals key (rows (database c) t) ds"
    "\<forall>r d. row_of (vals d) (key d) r \<longrightarrow> (holds env b r w \<longleftrightarrow> P d)"
    "\<forall>r d. row_of (vals d) (key d) r \<longrightarrow> P d \<longrightarrow> (\<exists>ws. project env b columns r = Ret ws \<and> dec ws = Ret d)"
    "lim = None \<or> lim = Some (Lit (SInt 1), Lit (SInt 0))"
  shows "\<exists>x c'. with_session sv pos u l (exec_row sv dec (Select columns (Table t) w ks lim) b) c = (Ret x, c')
    \<and> rows (database c') = rows (database c) \<and> (x = None \<longrightarrow> filter P ds = []) \<and> (\<forall>d. x = Some d \<longrightarrow> d \<in> set (filter P ds))"
proof -
  obtain rs es db' where rs: "execute sv (vars_for u l (session_vars c pos)) (Select columns (Table t) w ks lim) b (database c) =
      (bind_outcome (limit_rows env b lim rs) (traverse (project env b columns)), db')"
      "table_of vals key rs es" "mset es = mset (filter P ds)" "rows db' = rows (database c)"
    using select_objects [OF assms(1,3,4), of ks "\<lambda>_ _. True" "vars_for u l (session_vars c pos)" lim] by auto
  have set: "set es = set (filter P ds)" using rs(3) by (metis set_mset_mset)
  define x where "x = (case es of [] \<Rightarrow> None | d # _ \<Rightarrow> Some d)"
  have "exec_row sv dec (Select columns (Table t) w ks lim) b (vars_for u l (session_vars c pos)) (database c) = (Ret x, db')"
  proof (cases rs)
    case Nil
    then have "es = []" using table_of_Nil [OF rs(2)] by simp
    with Nil show ?thesis using rs(1) assms(6) by (auto simp: exec_row_def limit_rows_def x_def)
  next
    case (Cons r rs')
    then obtain d es' where es: "es = d # es'" "row_of (vals d) (key d) r" using rs(2) unfolding table_of_def by (auto simp: list_all2_Cons1)
    then have "P d" using set by auto
    then obtain ws where ws: "project env b columns r = Ret ws" "dec ws = Ret d" using assms(5) es(2) by blast
    obtain wss where "traverse (project env b columns) rs = Ret wss" using decode_all [OF rs(2)] by blast
    then obtain wss' where "traverse (project env b columns) rs' = Ret wss'" "wss = ws # wss'" using Cons ws(1) by (auto simp: outcome_simps)
    with Cons show ?thesis using rs(1) assms(6) ws es(1) by (auto simp: exec_row_def limit_rows_def x_def)
  qed
  then have "\<exists>c'. with_session sv pos u l (exec_row sv dec (Select columns (Table t) w ks lim) b) c = (Ret x, c') \<and> database c' = db'"
    by (intro with_session_run assms(2))
  moreover have "x = None \<longrightarrow> filter P ds = []" "\<forall>d. x = Some d \<longrightarrow> d \<in> set (filter P ds)"
  proof -
    show "x = None \<longrightarrow> filter P ds = []" unfolding set_empty [symmetric] set [symmetric] by (cases es) (simp_all add: x_def)
    show "\<forall>d. x = Some d \<longrightarrow> d \<in> set (filter P ds)" unfolding set [symmetric] by (cases es) (simp_all add: x_def)
  qed
  ultimately show ?thesis using rs(4) by blast
qed

lemma find_call:
  assumes "sql_server env sv rows" "\<forall>s db. answer_set sv s db = None" "table_of vals key (rows (database c) t) ds" "distinct (map key ds)"
  shows "\<exists>c'. with_session sv pos u l (exec_row sv decode (Select columns (Table t) by_id [] None) [(''id'', use_int64 i)]) c
    = (Ret (find (\<lambda>d. key d = i) ds), c') \<and> rows (database c') = rows (database c)"
proof -
  let ?b = "[(''id'', use_int64 i)]"
  have id: "\<forall>r d. row_of (vals d) (key d) r \<longrightarrow> (holds env ?b r by_id \<longleftrightarrow> key d = i)"
    using holds_by_id [of ?b i env] by (simp add: row_of_id)
  have dec: "\<forall>r d. row_of (vals d) (key d) r \<longrightarrow> key d = i \<longrightarrow> (\<exists>ws. project env ?b columns r = Ret ws \<and> decode ws = Ret d)"
    using reads by blast
  obtain x c' where x: "with_session sv pos u l (exec_row sv decode (Select columns (Table t) by_id [] None) ?b) c = (Ret x, c')"
      "rows (database c') = rows (database c)" "x = None \<longrightarrow> filter (\<lambda>d. key d = i) ds = []" "\<forall>d. x = Some d \<longrightarrow> d \<in> set (filter (\<lambda>d. key d = i) ds)"
    using first_call [OF assms(1-3) id dec, of None pos u l "[]"] by blast
  have "x = find (\<lambda>d. key d = i) ds"
    using x(3,4) filter_key [OF assms(4), of i] by (cases x) (auto split: option.splits)
  with x(1,2) show ?thesis by blast
qed

lemma count_call:
  assumes "sql_server env sv rows" "\<forall>s db. answer_set sv s db = None" "table_of vals key (rows (database c) t) ds"
    "\<forall>r d. row_of (vals d) (key d) r \<longrightarrow> (holds env b r w \<longleftrightarrow> P d)" "int (length ds) < 2 ^ 31"
  shows "\<exists>c'. with_session sv pos u l (exec_count sv (Count t w) b) c = (Ret (int (length (filter P ds))), c')
    \<and> rows (database c') = rows (database c)"
proof -
  obtain db' where n: "execute sv (vars_for u l (session_vars c pos)) (Count t w) b (database c) =
      (Ret [[SInt (int (length (filter (\<lambda>r. holds env b r w) (rows (database c) t))))]], db')" "rows db' = rows (database c)"
    using sql_server.count_law [OF assms(1)] by blast
  have "table_of vals key (filter (\<lambda>r. holds env b r w) (rows (database c) t)) (filter P ds)"
    using assms(3) by (rule table_of_filter) (simp add: assms(4))
  then have "length (filter (\<lambda>r. holds env b r w) (rows (database c) t)) = length (filter P ds)"
    unfolding table_of_def by (rule list_all2_lengthD)
  moreover have "int (length (filter P ds)) < 2 ^ 31" using assms(5) length_filter_le [of P ds] by linarith
  ultimately have "exec_count sv (Count t w) b (vars_for u l (session_vars c pos)) (database c) = (Ret (int (length (filter P ds))), db')"
    using n(1) by (simp add: exec_count_def column_def)
  then have "\<exists>c'. with_session sv pos u l (exec_count sv (Count t w) b) c = (Ret (int (length (filter P ds))), c') \<and> database c' = db'"
    by (intro with_session_run assms(2))
  with n(2) show ?thesis by blast
qed

lemma remove_call:
  assumes "sql_server env sv rows" "\<forall>s db. answer_set sv s db = None" "table_of vals key (rows (database c) t) ds"
    "i \<in> key ` set ds \<Longrightarrow> pg_keeps env (rows (database c)) t (SInt (sint i))"
  shows "\<exists>c'. with_session sv pos u l (exec_got_data sv (Delete t by_id) [(''id'', use_int64 i)]) c = (Ret (i \<in> key ` set ds), c')
    \<and> map (\<lambda>r. r ''id'') (rows (database c') t) = map (\<lambda>d. SInt (sint (key d))) (filter (\<lambda>d. key d \<noteq> i) ds)
    \<and> (\<not> pg_self env t \<longrightarrow> table_of vals key (rows (database c') t) (filter (\<lambda>d. key d \<noteq> i) ds))"
proof -
  let ?b = "[(''id'', use_int64 i)]" and ?rs = "rows (database c) t"
  have by_id: "holds env ?b r by_id \<longleftrightarrow> r ''id'' = SInt (sint i)" for r by (rule holds_by_id) simp
  have in_table: "(\<exists>r\<in>set ?rs. r ''id'' = SInt (sint i)) \<longleftrightarrow> i \<in> key ` set ds"
  proof -
    have "(\<exists>r\<in>set ?rs. r ''id'' = SInt (sint i)) \<longleftrightarrow> SInt (sint i) \<in> set (map (\<lambda>r. r ''id'') ?rs)" by (auto simp: image_iff) metis+
    also have "\<dots> \<longleftrightarrow> i \<in> key ` set ds" unfolding table_of_ids [OF assms(3)] by (auto dest: signed_word_eqI)
    finally show ?thesis .
  qed
  then have "\<forall>r\<in>set ?rs. holds env ?b r by_id \<longrightarrow> pg_keeps env (rows (database c)) t (r ''id'')"
    using assms(4) by (auto simp: by_id)
  then obtain db' where d: "execute sv (vars_for u l (session_vars c pos)) (Delete t by_id) ?b (database c) =
          (Ret (map (\<lambda>r. [r ''id'']) (filter (\<lambda>r. holds env ?b r by_id) ?rs)), db')"
      "map (\<lambda>r. r ''id'') (rows db' t) = map (\<lambda>r. r ''id'') (filter (\<lambda>r. \<not> holds env ?b r by_id) ?rs)"
      "\<not> pg_self env t \<longrightarrow> rows db' t = filter (\<lambda>r. \<not> holds env ?b r by_id) ?rs"
    using sql_server.delete_law [OF assms(1)] by blast
  have kept: "table_of vals key (filter (\<lambda>r. \<not> holds env ?b r by_id) ?rs) (filter (\<lambda>d. key d \<noteq> i) ds)"
    using assms(3) by (rule table_of_filter) (simp add: by_id row_of_id)
  have "exec_got_data sv (Delete t by_id) ?b (vars_for u l (session_vars c pos)) (database c) = (Ret (i \<in> key ` set ds), db')"
    using d(1) in_table by (auto simp: exec_got_data_def filter_empty_conv by_id)
  then have "\<exists>c'. with_session sv pos u l (exec_got_data sv (Delete t by_id) ?b) c = (Ret (i \<in> key ` set ds), c') \<and> database c' = db'"
    by (intro with_session_run assms(2))
  then show ?thesis using d(2,3) kept table_of_ids [OF kept] by auto
qed

end

locale dto = readable vals key columns decode
  for vals :: "'a \<Rightarrow> (string \<times> sqlval) list" and key :: "'a \<Rightarrow> int64" and columns :: "expr list" and decode :: "sqlval list \<Rightarrow> 'a outcome" +
  fixes with_key :: "int64 \<Rightarrow> 'a \<Rightarrow> 'a"
  assumes key_with: "key (with_key i d) = i"
    and vals_with: "vals (with_key i d) = vals d"
begin

lemma insert_call:
  assumes "sql_server env sv rows" "\<forall>s db. answer_set sv s db = None" "table_of vals key (rows (database c) t) ds"
    "cols_ok ces" "stored env t b ces = Ret (vals d)" "fits env (rows (database c)) t (vals d)"
  shows "\<exists>i c'. with_session sv pos u l (exec_new_id sv (Insert t ces) b) c = (Ret i, c') \<and> i \<noteq> 0 \<and> i \<notin> key ` set ds
    \<and> table_of vals key (rows (database c') t) (ds @ [with_key i d]) \<and> others_kept env t (rows (database c)) (rows (database c'))"
proof -
  have fit: "pg_admits env (rows (database c)) t (vals d)" "\<not> pg_log env t" "int (length (rows (database c) t)) < 2 ^ 62"
    using assms(6) by (simp_all add: fits_def)
  obtain k row db' where k: "execute sv (vars_for u l (session_vars c pos)) (Insert t ces) b (database c) = (Ret [[SInt k]], db')"
      "0 < k" "k < 2 ^ 63" "\<forall>r\<in>set (rows (database c) t). r ''id'' \<noteq> SInt k" "rows db' t = rows (database c) t @ [row]"
      "row ''id'' = SInt k" "\<forall>(c, v)\<in>set (vals d). row c = v"
      "\<forall>t'. t' \<noteq> t \<longrightarrow> \<not> pg_log env t' \<longrightarrow> rows db' t' = rows (database c) t'"
    using sql_server.insert_law [OF assms(1), OF assms(4,5) fit] by blast
  define i where "i = (word_of_int k :: int64)"
  have sint: "sint i = k" using k(2,3) unfolding i_def by (simp add: signed_of_int signed_take_bit_int_eq_self)
  then have "i \<noteq> 0" using k(2) by auto
  moreover have "exec_new_id sv (Insert t ces) b (vars_for u l (session_vars c pos)) (database c) = (Ret i, db')"
    using k(1) by (simp add: exec_new_id_def get_int64_def column_def i_def)
  then have "\<exists>c'. with_session sv pos u l (exec_new_id sv (Insert t ces) b) c = (Ret i, c') \<and> database c' = db'"
    by (intro with_session_run assms(2))
  moreover have "i \<notin> key ` set ds"
  proof
    assume "i \<in> key ` set ds"
    then have "SInt k \<in> set (map (\<lambda>d. SInt (sint (key d))) ds)" using sint by auto
    then have "SInt k \<in> set (map (\<lambda>r. r ''id'') (rows (database c) t))" using table_of_ids [OF assms(3)] by simp
    with k(4) show False by auto
  qed
  moreover have "table_of vals key (rows db' t) (ds @ [with_key i d])"
    unfolding k(5) using assms(3) by (rule table_of_snoc) (simp add: row_of_def key_with vals_with k(6,7) sint)
  ultimately show ?thesis using k(8) unfolding others_kept_def by blast
qed

lemma update_call:
  assumes "sql_server env sv rows" "\<forall>s db. answer_set sv s db = None" "table_of vals key (rows (database c) t) ds"
    "cols_ok ces" "stored env t b ces = Ret (vals d)" "map_of b ''id'' = Some (use_int64 (key d))" "\<not> pg_log env t"
    "pg_accepts env (rows (database c)) t (filter (\<lambda>r. r ''id'' = SInt (sint (key d))) (rows (database c) t)) (vals d)"
  shows "\<exists>c'. with_session sv pos u l (exec_got_data sv (Update t ces by_id) b) c = (Ret (key d \<in> key ` set ds), c')
    \<and> table_of vals key (rows (database c') t) (map (\<lambda>e. if key e = key d then d else e) ds)
    \<and> others_kept env t (rows (database c)) (rows (database c'))"
proof -
  have by_id: "holds env b r by_id \<longleftrightarrow> r ''id'' = SInt (sint (key d))" for r by (rule holds_by_id) (fact assms(6))
  have acc: "pg_accepts env (rows (database c)) t (filter (\<lambda>r. holds env b r by_id) (rows (database c) t)) (vals d)"
    using assms(8) by (simp add: by_id)
  obtain f db' where f: "execute sv (vars_for u l (session_vars c pos)) (Update t ces by_id) b (database c) =
          (Ret (map (\<lambda>r. [r ''id'']) (filter (\<lambda>r. holds env b r by_id) (rows (database c) t))), db')"
      "rows db' t = map (\<lambda>r. if holds env b r by_id then f r else r) (rows (database c) t)"
      "\<forall>t'. t' \<noteq> t \<longrightarrow> \<not> pg_log env t' \<longrightarrow> rows db' t' = rows (database c) t'"
      "\<forall>r. f r ''id'' = r ''id'' \<and> (\<forall>(c, v)\<in>set (vals d). f r c = v)"
    using sql_server.update_law [OF assms(1), OF assms(4,5) acc assms(7)] by blast
  have "table_of vals key (filter (\<lambda>r. holds env b r by_id) (rows (database c) t)) (filter (\<lambda>e. key e = key d) ds)"
    using assms(3) by (rule table_of_filter) (simp add: by_id row_of_id)
  then have "filter (\<lambda>r. holds env b r by_id) (rows (database c) t) \<noteq> [] \<longleftrightarrow> key d \<in> key ` set ds"
    using table_of_Nil filter_key_nonempty [of key "key d" ds] by blast
  then have "exec_got_data sv (Update t ces by_id) b (vars_for u l (session_vars c pos)) (database c) = (Ret (key d \<in> key ` set ds), db')"
    using f(1) by (simp add: exec_got_data_def)
  then have "\<exists>c'. with_session sv pos u l (exec_got_data sv (Update t ces by_id) b) c = (Ret (key d \<in> key ` set ds), c') \<and> database c' = db'"
    by (intro with_session_run assms(2))
  moreover have "table_of vals key (rows db' t) (map (\<lambda>e. if key e = key d then d else e) ds)"
    unfolding f(2) using assms(3)
  proof (rule table_of_map)
    fix r e assume "row_of (vals e) (key e) r"
    then show "row_of (vals (if key e = key d then d else e)) (key (if key e = key d then d else e)) (if holds env b r by_id then f r else r)"
      using f(4) by (auto simp: by_id row_of_id) (auto simp: row_of_def)
  qed
  ultimately show ?thesis using f(3) unfolding others_kept_def by blast
qed

end

section \<open>An empty connection to the small server\<close>

definition empty_connection :: "tables connection" where
  "empty_connection = \<lparr>database = (\<lambda>_. []), session_vars = (\<lambda>_. Map.empty), leased = []\<rparr>"

lemma empty_database [simp]: "database empty_connection = (\<lambda>_. [])"
  by (simp add: empty_connection_def)

lemma ref_answers: "\<forall>s db. answer_set (ref_server ref_pg) s db = None"
  by (simp add: ref_server_def)

lemma ref_kept [simp]: "kept ref_pg t vs"
  by (induction vs) (auto simp: kept_def ref_pg_def)

lemma ref_fits [simp]: "fits ref_pg (\<lambda>_. []) t vs"
  by (simp add: fits_def) (simp add: ref_pg_def)

lemma ref_iso_date [simp]: "iso_date ref_pg s"
  by (simp add: iso_date_def ref_pg_def)

lemma ref_constraints [simp]:
  "pg_accepts ref_pg db t rs vs" "pg_admits ref_pg db t vs" "pg_keeps ref_pg db t v" "\<not> pg_log ref_pg t" "\<not> pg_self ref_pg t"
  by (simp_all add: ref_pg_def)

end
