(* ===== verification/Person_Dao.thy ===== *)
theory Person_Dao
  imports Dao
begin

text \<open>contact/data/person\_dao.hpp: the table of persons.\<close>

section \<open>The data access object\<close>

record PersonDTO =
  person_id :: int64
  first_name :: string
  middle_name :: string
  last_name :: string
  federal_tax_id :: string
  identification_number :: string
  passport_number :: string
  passport_country :: string
  passport_expiry :: string
  date_of_birth :: string
  person_keywords :: string

definition PersonDTO_default :: PersonDTO where
  "PersonDTO_default = \<lparr>person_id = 0, first_name = [], middle_name = [], last_name = [], federal_tax_id = [],
     identification_number = [], passport_number = [], passport_country = [], passport_expiry = [], date_of_birth = [],
     person_keywords = []\<rparr>"

definition PersonDTO_of :: "string \<Rightarrow> string \<Rightarrow> PersonDTO" where
  "PersonDTO_of f l = PersonDTO_default\<lparr>first_name := f, last_name := l\<rparr>"

definition person_assignments :: "(string \<times> expr) list" where
  "person_assignments =
     [(''first_name'', Param ''first_name''), (''middle_name'', null_if_empty ''middle_name''),
      (''last_name'', Param ''last_name''), (''federal_tax_id'', null_if_empty ''federal_tax_id''),
      (''identification_number'', null_if_empty ''identification_number''),
      (''passport_number'', null_if_empty ''passport_number''), (''passport_country'', null_if_empty ''passport_country''),
      (''passport_expiry'', date_param ''passport_expiry''),
      (''date_of_birth'', date_param ''date_of_birth''), (''keywords'', null_if_empty ''keywords'')]"

definition person_binds :: "PersonDTO \<Rightarrow> binds" where
  "person_binds p =
     [(''first_name'', SText (first_name p)), (''middle_name'', SText (middle_name p)), (''last_name'', SText (last_name p)),
      (''federal_tax_id'', SText (federal_tax_id p)), (''identification_number'', SText (identification_number p)),
      (''passport_number'', SText (passport_number p)), (''passport_country'', SText (passport_country p)),
      (''passport_expiry'', SText (passport_expiry p)), (''date_of_birth'', SText (date_of_birth p)),
      (''keywords'', SText (person_keywords p))]"

definition PersonDAO_insert :: "'db server \<Rightarrow> nat \<Rightarrow> PersonDTO \<Rightarrow> string \<Rightarrow> 'db connection \<Rightarrow> int64 outcome \<times> 'db connection" where
  "PersonDAO_insert sv pos p username =
     with_session sv pos username [] (exec_new_id sv (Insert ''t_person'' person_assignments) (person_binds p))"

definition person_columns :: "expr list" where
  "person_columns =
     [Col ''id'', Col ''first_name'', text_or_empty ''middle_name'', Col ''last_name'', text_or_empty ''federal_tax_id'',
      text_or_empty ''identification_number'', text_or_empty ''passport_number'', text_or_empty ''passport_country'',
      date_text ''passport_expiry'', date_text ''date_of_birth'',
      text_or_empty ''keywords'']"

definition PersonDTO_of_row :: "sqlval list \<Rightarrow> PersonDTO outcome" where
  "PersonDTO_of_row r =
     bind_outcome (get_int64 r 0) (\<lambda>i. bind_outcome (get_text r 1) (\<lambda>fn. bind_outcome (get_text r 2) (\<lambda>mn.
     bind_outcome (get_text r 3) (\<lambda>ln. bind_outcome (get_text r 4) (\<lambda>tax. bind_outcome (get_text r 5) (\<lambda>idn.
     bind_outcome (get_text r 6) (\<lambda>pn. bind_outcome (get_text r 7) (\<lambda>pc. bind_outcome (get_text r 8) (\<lambda>pe.
     bind_outcome (get_text r 9) (\<lambda>dob. bind_outcome (get_text r 10) (\<lambda>kw.
     Ret \<lparr>person_id = i, first_name = fn, middle_name = mn, last_name = ln, federal_tax_id = tax, identification_number = idn,
       passport_number = pn, passport_country = pc, passport_expiry = pe, date_of_birth = dob, person_keywords = kw\<rparr>)))))))))))"

definition PersonDAO_find_by_id :: "'db server \<Rightarrow> nat \<Rightarrow> int64 \<Rightarrow> 'db connection \<Rightarrow> PersonDTO option outcome \<times> 'db connection" where
  "PersonDAO_find_by_id sv pos i =
     with_session sv pos [] []
       (exec_row sv PersonDTO_of_row (Select person_columns (Table ''t_person'') by_id [] None) [(''id'', use_int64 i)])"

definition PersonDAO_update :: "'db server \<Rightarrow> nat \<Rightarrow> PersonDTO \<Rightarrow> string \<Rightarrow> 'db connection \<Rightarrow> bool outcome \<times> 'db connection" where
  "PersonDAO_update sv pos p username =
     with_session sv pos username []
       (exec_got_data sv (Update ''t_person'' person_assignments by_id) (person_binds p @ [(''id'', use_int64 (person_id p))]))"

definition PersonDAO_remove :: "'db server \<Rightarrow> nat \<Rightarrow> int64 \<Rightarrow> string \<Rightarrow> 'db connection \<Rightarrow> bool outcome \<times> 'db connection" where
  "PersonDAO_remove sv pos i username =
     with_session sv pos username [] (exec_got_data sv (Delete ''t_person'' by_id) [(''id'', use_int64 i)])"

definition PersonDAO_list_all :: "'db server \<Rightarrow> nat \<Rightarrow> int \<Rightarrow> int \<Rightarrow> 'db connection \<Rightarrow> PersonDTO list outcome \<times> 'db connection" where
  "PersonDAO_list_all sv pos limit offset =
     with_session sv pos [] []
       (exec_rows sv PersonDTO_of_row
         (Select person_columns (Table ''t_person'') CTrue [(''last_name'', False), (''first_name'', False)]
            (Some (Param ''lim'', Param ''off'')))
         [(''lim'', SInt limit), (''off'', SInt offset)])"

definition PersonDAO_find_by_last_name :: "'db server \<Rightarrow> nat \<Rightarrow> string \<Rightarrow> 'db connection \<Rightarrow> PersonDTO list outcome \<times> 'db connection" where
  "PersonDAO_find_by_last_name sv pos pattern =
     (let like_pattern = ''%'' @ pattern @ ''%'' in
      with_session sv pos [] []
        (exec_rows sv PersonDTO_of_row
          (Select person_columns (Table ''t_person'') (ILike (Col ''last_name'') (Param ''pat''))
             [(''last_name'', False), (''first_name'', False)] None)
          [(''pat'', SText like_pattern)]))"

section \<open>Rows and persons\<close>

text \<open>The values of the columns that hold a person, and what a row with these values is read as.\<close>

definition person_values :: "PersonDTO \<Rightarrow> (string \<times> sqlval) list" where
  "person_values p =
     [(''first_name'', SText (first_name p)), (''middle_name'', opt_text (middle_name p)), (''last_name'', SText (last_name p)),
      (''federal_tax_id'', opt_text (federal_tax_id p)), (''identification_number'', opt_text (identification_number p)),
      (''passport_number'', opt_text (passport_number p)), (''passport_country'', opt_text (passport_country p)),
      (''passport_expiry'', opt_date (passport_expiry p)), (''date_of_birth'', opt_date (date_of_birth p)),
      (''keywords'', opt_text (person_keywords p))]"

lemma person_cols_ok: "cols_ok person_assignments"
  by (simp add: cols_ok_def person_assignments_def)

lemma person_stored:
  assumes "kept env ''t_person'' (person_values p)" "iso_date env (passport_expiry p)" "iso_date env (date_of_birth p)"
  shows "stored env ''t_person'' (person_binds p @ b) person_assignments = Ret (person_values p)"
  using assms(1)
  by (simp add: kept_def person_assignments_def person_values_def stored_Cons stored_Nil store_val_Ret person_binds_def
      eval_null_if_empty eval_date [OF _ assms(2)] eval_date [OF _ assms(3)])

lemma person_reads:
  assumes "row_of (person_values p) (person_id p) row"
  shows "\<exists>ws. project env b person_columns row = Ret ws \<and> PersonDTO_of_row ws = Ret p"
proof -
  have cols: "row ''first_name'' = SText (first_name p)" "row ''middle_name'' = opt_text (middle_name p)"
    "row ''last_name'' = SText (last_name p)" "row ''federal_tax_id'' = opt_text (federal_tax_id p)"
    "row ''identification_number'' = opt_text (identification_number p)" "row ''passport_number'' = opt_text (passport_number p)"
    "row ''passport_country'' = opt_text (passport_country p)" "row ''passport_expiry'' = opt_date (passport_expiry p)"
    "row ''date_of_birth'' = opt_date (date_of_birth p)" "row ''keywords'' = opt_text (person_keywords p)"
    "row ''id'' = SInt (sint (person_id p))"
    using assms by (simp_all add: row_of_def person_values_def)
  let ?ws = "[SInt (sint (person_id p)), SText (first_name p), SText (middle_name p), SText (last_name p), SText (federal_tax_id p),
      SText (identification_number p), SText (passport_number p), SText (passport_country p), SText (passport_expiry p),
      SText (date_of_birth p), SText (person_keywords p)]"
  have "project env b person_columns row = Ret ?ws"
    using cols by (simp add: person_columns_def project_Cons project_Nil sql_simps)
  moreover have "PersonDTO_of_row ?ws = Ret p"
    by (simp add: PersonDTO_of_row_def get_simps)
  ultimately show ?thesis by blast
qed

interpretation person: dto person_values person_id person_columns PersonDTO_of_row "\<lambda>i p. p\<lparr>person_id := i\<rparr>"
  by unfold_locales (simp_all add: person_values_def person_reads)

text \<open>The persons that the table holds, and the order of the lists of persons.\<close>

abbreviation persons_in :: "tables \<Rightarrow> PersonDTO list \<Rightarrow> bool" where
  "persons_in db ps \<equiv> table_of person_values person_id (db ''t_person'') ps"

definition name_le :: "pg \<Rightarrow> PersonDTO \<Rightarrow> PersonDTO \<Rightarrow> bool" where
  "name_le env p q \<longleftrightarrow>
     (if last_name p = last_name q then first_name p = first_name q \<or> pg_text_le env (first_name p) (first_name q)
      else pg_text_le env (last_name p) (last_name q))"

lemma person_order:
  "\<forall>r p r' q. row_of (person_values p) (person_id p) r \<longrightarrow> row_of (person_values q) (person_id q) r' \<longrightarrow>
     keys_le env [(''last_name'', False), (''first_name'', False)] r r' \<longrightarrow> name_le env p q"
  by (auto simp: row_of_def person_values_def name_le_def split: if_splits)

text \<open>
  C11: The table of persons is a list of persons. A person whose columns keep their values is inserted under
  a new id, at the end of the list, and \<open>find_by_id\<close> gives back exactly the person with the id asked for:
  all ten texts are the same, the empty ones having been stored as \<open>NULL\<close>. Other tables keep their rows.
\<close>

theorem person_insert_find:
  assumes "sql_server env sv rows" "\<forall>s db. answer_set sv s db = None" "persons_in (rows (database c)) ps"
    "distinct (map person_id ps)" "fits env (rows (database c)) ''t_person'' (person_values p)"
    "iso_date env (passport_expiry p)" "iso_date env (date_of_birth p)"
  shows "\<exists>i c'. PersonDAO_insert sv pos p username c = (Ret i, c') \<and> i \<noteq> 0 \<and> i \<notin> person_id ` set ps
    \<and> persons_in (rows (database c')) (ps @ [p\<lparr>person_id := i\<rparr>]) \<and> others_kept env ''t_person'' (rows (database c)) (rows (database c'))
    \<and> (\<forall>j. \<exists>c''. PersonDAO_find_by_id sv pos' j c' = (Ret (if j = i then Some (p\<lparr>person_id := i\<rparr>) else find (\<lambda>q. person_id q = j) ps), c'')
        \<and> rows (database c'') = rows (database c'))"
proof -
  have "kept env ''t_person'' (person_values p)" using assms(5) by (simp add: fits_def)
  then have st: "stored env ''t_person'' (person_binds p) person_assignments = Ret (person_values p)"
    using person_stored [of env p "[]"] assms(6,7) by simp
  obtain i c' where ins: "PersonDAO_insert sv pos p username c = (Ret i, c')" "i \<noteq> 0" "i \<notin> person_id ` set ps"
      "persons_in (rows (database c')) (ps @ [p\<lparr>person_id := i\<rparr>])" "others_kept env ''t_person'' (rows (database c)) (rows (database c'))"
    using person.insert_call [OF assms(1-3) person_cols_ok st assms(5), of pos username "[]"] unfolding PersonDAO_insert_def by blast
  have keys: "distinct (map person_id (ps @ [p\<lparr>person_id := i\<rparr>]))" using assms(4) ins(3) by simp
  have "find (\<lambda>q. person_id q = j) (ps @ [p\<lparr>person_id := i\<rparr>]) = (if j = i then Some (p\<lparr>person_id := i\<rparr>) else find (\<lambda>q. person_id q = j) ps)" for j
    using ins(3) by (induction ps) auto
  then have "\<exists>c''. PersonDAO_find_by_id sv pos' j c' = (Ret (if j = i then Some (p\<lparr>person_id := i\<rparr>) else find (\<lambda>q. person_id q = j) ps), c'')
      \<and> rows (database c'') = rows (database c')" for j
    using person.find_call [OF assms(1,2) ins(4) keys, of pos' "[]" "[]" j] unfolding PersonDAO_find_by_id_def by simp
  with ins show ?thesis by blast
qed

theorem person_insert_find_witness:
  "\<exists>i c' c''. PersonDAO_insert (ref_server ref_pg) 0 (PersonDTO_of ''Ana'' ''Costa'') ''admin'' empty_connection = (Ret i, c')
     \<and> PersonDAO_find_by_id (ref_server ref_pg) 0 i c' = (Ret (Some ((PersonDTO_of ''Ana'' ''Costa'')\<lparr>person_id := i\<rparr>)), c'')"
proof -
  let ?p = "PersonDTO_of ''Ana'' ''Costa''"
  obtain i c' where ins: "PersonDAO_insert (ref_server ref_pg) 0 ?p ''admin'' empty_connection = (Ret i, c')"
      and find: "\<forall>j. \<exists>c''. PersonDAO_find_by_id (ref_server ref_pg) 0 j c' =
        (Ret (if j = i then Some (?p\<lparr>person_id := i\<rparr>) else find (\<lambda>q. person_id q = j) []), c'') \<and> database c'' = database c'"
    using person_insert_find [OF ref_server_laws ref_answers, of empty_connection "[]" ?p 0 "''admin''" 0] by auto
  show ?thesis using ins find [rule_format, of i] by auto
qed

text \<open>
  C24: \<open>update\<close> replaces the person with the id of its argument and says whether there is one, \<open>remove\<close> takes the
  person with this id out of the list and says whether there was one; no other person changes. \<open>list_all\<close>
  gives the requested page of all persons and \<open>find_by_last_name\<close> exactly those whose last name contains
  the pattern (in the sense of \<open>ILIKE\<close>), both by last name and then by first name.
\<close>

theorem person_table_operations:
  assumes "sql_server env sv rows" "\<forall>s db. answer_set sv s db = None" "persons_in (rows (database c)) ps"
    "kept env ''t_person'' (person_values p)" "iso_date env (passport_expiry p)" "iso_date env (date_of_birth p)"
    "pg_accepts env (rows (database c)) ''t_person'' (filter (\<lambda>r. r ''id'' = SInt (sint (person_id p))) (rows (database c) ''t_person'')) (person_values p)"
    "\<not> pg_log env ''t_person''" "\<not> pg_self env ''t_person''" "pg_keeps env (rows (database c)) ''t_person'' (SInt (sint i))"
    "0 \<le> limit" "0 \<le> offset"
  shows "(\<exists>c'. PersonDAO_update sv pos p username c = (Ret (person_id p \<in> person_id ` set ps), c')
        \<and> persons_in (rows (database c')) (map (\<lambda>q. if person_id q = person_id p then p else q) ps)
        \<and> others_kept env ''t_person'' (rows (database c)) (rows (database c')))
    \<and> (\<exists>c'. PersonDAO_remove sv pos i username c = (Ret (i \<in> person_id ` set ps), c')
        \<and> persons_in (rows (database c')) (filter (\<lambda>q. person_id q \<noteq> i) ps))
    \<and> (\<exists>qs c'. PersonDAO_list_all sv pos limit offset c = (Ret (take (nat limit) (drop (nat offset) qs)), c')
        \<and> mset qs = mset ps \<and> sorted_wrt (name_le env) qs \<and> rows (database c') = rows (database c))
    \<and> (\<exists>qs c'. PersonDAO_find_by_last_name sv pos pattern c = (Ret qs, c')
        \<and> mset qs = mset (filter (\<lambda>q. pg_ilike env (last_name q) (''%'' @ pattern @ ''%'')) ps)
        \<and> sorted_wrt (name_le env) qs \<and> rows (database c') = rows (database c))"
proof (intro conjI)
  let ?b = "person_binds p @ [(''id'', use_int64 (person_id p))]"
  have "map_of ?b ''id'' = Some (use_int64 (person_id p))" by (simp add: person_binds_def)
  then show "\<exists>c'. PersonDAO_update sv pos p username c = (Ret (person_id p \<in> person_id ` set ps), c')
        \<and> persons_in (rows (database c')) (map (\<lambda>q. if person_id q = person_id p then p else q) ps)
        \<and> others_kept env ''t_person'' (rows (database c)) (rows (database c'))"
    unfolding PersonDAO_update_def
    by (rule person.update_call [OF assms(1-3) person_cols_ok person_stored [OF assms(4-6)] _ assms(8,7)])
  show "\<exists>c'. PersonDAO_remove sv pos i username c = (Ret (i \<in> person_id ` set ps), c')
        \<and> persons_in (rows (database c')) (filter (\<lambda>q. person_id q \<noteq> i) ps)"
    using person.remove_call [OF assms(1-3,10), of pos username "[]"] assms(9) unfolding PersonDAO_remove_def by blast
  let ?lim = "[(''lim'', SInt limit), (''off'', SInt offset)]"
  have all: "\<forall>r q. row_of (person_values q) (person_id q) r \<longrightarrow> (holds env ?lim r CTrue \<longleftrightarrow> True)"
    and page: "eval env ?lim (\<lambda>_. SNull) (Param ''lim'') = Ret (SInt limit)" "eval env ?lim (\<lambda>_. SNull) (Param ''off'') = Ret (SInt offset)"
    by simp_all
  show "\<exists>qs c'. PersonDAO_list_all sv pos limit offset c = (Ret (take (nat limit) (drop (nat offset) qs)), c')
        \<and> mset qs = mset ps \<and> sorted_wrt (name_le env) qs \<and> rows (database c') = rows (database c)"
    using person.page_call [OF assms(1-3) all person_order page assms(11,12), of pos "[]" "[]"] unfolding PersonDAO_list_all_def by simp
  have "\<forall>r q. row_of (person_values q) (person_id q) r \<longrightarrow>
      (holds env [(''pat'', SText (''%'' @ pattern @ ''%''))] r (ILike (Col ''last_name'') (Param ''pat''))
        \<longleftrightarrow> pg_ilike env (last_name q) (''%'' @ pattern @ ''%''))"
    by (auto simp: row_of_def person_values_def)
  from person.select_call [OF assms(1-3) this person_order, of pos "[]" "[]"]
  show "\<exists>qs c'. PersonDAO_find_by_last_name sv pos pattern c = (Ret qs, c')
        \<and> mset qs = mset (filter (\<lambda>q. pg_ilike env (last_name q) (''%'' @ pattern @ ''%'')) ps)
        \<and> sorted_wrt (name_le env) qs \<and> rows (database c') = rows (database c)"
    unfolding PersonDAO_find_by_last_name_def Let_def .
qed

text \<open>A connection whose table of persons holds Ana with id 1.\<close>

definition ana :: PersonDTO where "ana = (PersonDTO_of ''Ana'' ''Costa'')\<lparr>person_id := 1\<rparr>"

definition ana_connection :: "tables connection" where
  "ana_connection = empty_connection\<lparr>database :=
     (\<lambda>_. [])(''t_person'' := [(fill_row (\<lambda>_. SNull) (person_values ana))(''id'' := SInt 1)])\<rparr>"

theorem person_table_operations_witness:
  "fst (PersonDAO_update (ref_server ref_pg) 0 (ana\<lparr>first_name := ''Anna''\<rparr>) ''admin'' ana_connection) = Ret True
   \<and> fst (PersonDAO_remove (ref_server ref_pg) 0 2 ''admin'' ana_connection) = Ret False
   \<and> fst (PersonDAO_list_all (ref_server ref_pg) 0 50 0 ana_connection) = Ret [ana]"
proof -
  have "persons_in (database ana_connection) [ana]"
    by (simp add: ana_connection_def table_of_def row_of_def person_values_def fill_row_def ana_def)
  from person_table_operations [OF ref_server_laws ref_answers, OF this, of "ana\<lparr>first_name := ''Anna''\<rparr>" 2 50 0 0 "''admin''" "[]"]
  show ?thesis by (auto simp: ana_def)
qed

end
