(* ===== verification/Contact_Dao.thy ===== *)
theory Contact_Dao
  imports Dao
begin

text \<open>
  contact/data/contact\_dao.hpp: phones, e-mails and addresses of persons and of organizations. The three
  tables have the same shape, an owner that is either a person or an organization and a preferred mark;
  what follows from that shape is proved once.
\<close>

section \<open>Owners\<close>

definition owner_person :: "(string \<times> expr) list" where
  "owner_person = [(''person_id'', Param ''pid''), (''org_unit_id'', Lit SNull)]"

definition owner_org :: "(string \<times> expr) list" where
  "owner_org = [(''person_id'', Lit SNull), (''org_unit_id'', Param ''oid'')]"

text \<open>The two branches of the insert functions; with no owner or with two, nothing is executed and \<open>new_id\<close> is still 0.\<close>

definition insert_owned :: "'db server \<Rightarrow> string \<Rightarrow> int64 \<Rightarrow> int64 \<Rightarrow> (string \<times> expr) list \<Rightarrow> binds \<Rightarrow> settings \<Rightarrow> 'db \<Rightarrow> int64 outcome \<times> 'db" where
  "insert_owned sv t person_id org_unit_id ces b =
     (if person_id \<noteq> 0 \<and> org_unit_id = 0 then exec_new_id sv (Insert t (owner_person @ ces)) ((''pid'', use_int64 person_id) # b)
      else if person_id = 0 \<and> org_unit_id \<noteq> 0 then exec_new_id sv (Insert t (owner_org @ ces)) ((''oid'', use_int64 org_unit_id) # b)
      else (\<lambda>se db. (Ret 0, db)))"

definition for_person :: "expr list \<Rightarrow> string \<Rightarrow> stmt" where
  "for_person columns t = Select columns (Table t) (Eq (Col ''person_id'') (Param ''pid'')) [(''is_preferred'', True), (''id'', False)] None"

section \<open>Phones\<close>

record PhoneDTO =
  phone_id :: int64
  phone_person_id :: int64
  phone_org_unit_id :: int64
  country_code :: string
  area_code :: string
  number :: string
  extension :: string
  is_mobile :: bool
  phone_qualifier_id :: int16
  phone_is_preferred :: bool

definition PhoneDTO_default :: PhoneDTO where
  "PhoneDTO_default = \<lparr>phone_id = 0, phone_person_id = 0, phone_org_unit_id = 0, country_code = [], area_code = [], number = [],
     extension = [], is_mobile = False, phone_qualifier_id = 3, phone_is_preferred = False\<rparr>"

definition phone_assignments :: "(string \<times> expr) list" where
  "phone_assignments =
     [(''country_code'', Param ''cc''), (''area_code'', Param ''ac''), (''number'', Param ''num''), (''extension'', null_if_empty ''ext''),
      (''is_mobile'', bool_param ''mob''), (''qualifier_id'', Param ''qid''), (''is_preferred'', bool_param ''pref'')]"

definition phone_binds :: "PhoneDTO \<Rightarrow> binds" where
  "phone_binds p =
     [(''cc'', SText (country_code p)), (''ac'', SText (area_code p)), (''num'', SText (number p)), (''ext'', SText (extension p)),
      (''mob'', use_bool (is_mobile p)), (''qid'', use_int16 (phone_qualifier_id p)), (''pref'', use_bool (phone_is_preferred p))]"

definition insert_phone :: "'db server \<Rightarrow> nat \<Rightarrow> PhoneDTO \<Rightarrow> string \<Rightarrow> 'db connection \<Rightarrow> int64 outcome \<times> 'db connection" where
  "insert_phone sv pos p username =
     with_session sv pos username []
       (insert_owned sv ''t_phone'' (phone_person_id p) (phone_org_unit_id p) phone_assignments (phone_binds p))"

definition phone_columns :: "expr list" where
  "phone_columns =
     [Col ''id'', int_or_zero ''person_id'', int_or_zero ''org_unit_id'', Col ''country_code'', text_or_empty ''area_code'', Col ''number'',
      text_or_empty ''extension'', Col ''is_mobile'', Col ''qualifier_id'', Col ''is_preferred'']"

definition PhoneDTO_of_row :: "sqlval list \<Rightarrow> PhoneDTO outcome" where
  "PhoneDTO_of_row r =
     bind_outcome (get_int64 r 0) (\<lambda>i. bind_outcome (get_int64 r 1) (\<lambda>pid. bind_outcome (get_int64 r 2) (\<lambda>oid.
     bind_outcome (get_text r 3) (\<lambda>cc. bind_outcome (get_text r 4) (\<lambda>ac. bind_outcome (get_text r 5) (\<lambda>num.
     bind_outcome (get_text r 6) (\<lambda>ext. bind_outcome (get_bool r 7) (\<lambda>mob. bind_outcome (get_int16 r 8) (\<lambda>qid.
     bind_outcome (get_bool r 9) (\<lambda>pref.
     Ret \<lparr>phone_id = i, phone_person_id = pid, phone_org_unit_id = oid, country_code = cc, area_code = ac, number = num,
       extension = ext, is_mobile = mob, phone_qualifier_id = qid, phone_is_preferred = pref\<rparr>))))))))))"

definition phones_for_person :: "'db server \<Rightarrow> nat \<Rightarrow> int64 \<Rightarrow> 'db connection \<Rightarrow> PhoneDTO list outcome \<times> 'db connection" where
  "phones_for_person sv pos person_id =
     with_session sv pos [] [] (exec_rows sv PhoneDTO_of_row (for_person phone_columns ''t_phone'') [(''pid'', use_int64 person_id)])"

definition remove_phone :: "'db server \<Rightarrow> nat \<Rightarrow> int64 \<Rightarrow> string \<Rightarrow> 'db connection \<Rightarrow> bool outcome \<times> 'db connection" where
  "remove_phone sv pos i username =
     with_session sv pos username [] (exec_got_data sv (Delete ''t_phone'' by_id) [(''id'', use_int64 i)])"

section \<open>E-mails\<close>

record EmailDTO =
  email_id :: int64
  email_person_id :: int64
  email_org_unit_id :: int64
  email :: string
  email_qualifier_id :: int16
  email_is_preferred :: bool
  is_verified :: bool

definition EmailDTO_default :: EmailDTO where
  "EmailDTO_default = \<lparr>email_id = 0, email_person_id = 0, email_org_unit_id = 0, email = [], email_qualifier_id = 3,
     email_is_preferred = False, is_verified = False\<rparr>"

definition email_assignments :: "(string \<times> expr) list" where
  "email_assignments =
     [(''email'', Param ''email''), (''qualifier_id'', Param ''qid''), (''is_preferred'', bool_param ''pref''), (''is_verified'', bool_param ''ver'')]"

definition email_binds :: "EmailDTO \<Rightarrow> binds" where
  "email_binds e =
     [(''email'', SText (email e)), (''qid'', use_int16 (email_qualifier_id e)), (''pref'', use_bool (email_is_preferred e)),
      (''ver'', use_bool (is_verified e))]"

definition insert_email :: "'db server \<Rightarrow> nat \<Rightarrow> EmailDTO \<Rightarrow> string \<Rightarrow> 'db connection \<Rightarrow> int64 outcome \<times> 'db connection" where
  "insert_email sv pos e username =
     with_session sv pos username []
       (insert_owned sv ''t_email'' (email_person_id e) (email_org_unit_id e) email_assignments (email_binds e))"

definition email_columns :: "expr list" where
  "email_columns =
     [Col ''id'', int_or_zero ''person_id'', int_or_zero ''org_unit_id'', Col ''email'', Col ''qualifier_id'', Col ''is_preferred'', Col ''is_verified'']"

definition EmailDTO_of_row :: "sqlval list \<Rightarrow> EmailDTO outcome" where
  "EmailDTO_of_row r =
     bind_outcome (get_int64 r 0) (\<lambda>i. bind_outcome (get_int64 r 1) (\<lambda>pid. bind_outcome (get_int64 r 2) (\<lambda>oid.
     bind_outcome (get_text r 3) (\<lambda>em. bind_outcome (get_int16 r 4) (\<lambda>qid. bind_outcome (get_bool r 5) (\<lambda>pref.
     bind_outcome (get_bool r 6) (\<lambda>ver.
     Ret \<lparr>email_id = i, email_person_id = pid, email_org_unit_id = oid, email = em, email_qualifier_id = qid,
       email_is_preferred = pref, is_verified = ver\<rparr>)))))))"

definition emails_for_person :: "'db server \<Rightarrow> nat \<Rightarrow> int64 \<Rightarrow> 'db connection \<Rightarrow> EmailDTO list outcome \<times> 'db connection" where
  "emails_for_person sv pos person_id =
     with_session sv pos [] [] (exec_rows sv EmailDTO_of_row (for_person email_columns ''t_email'') [(''pid'', use_int64 person_id)])"

definition remove_email :: "'db server \<Rightarrow> nat \<Rightarrow> int64 \<Rightarrow> string \<Rightarrow> 'db connection \<Rightarrow> bool outcome \<times> 'db connection" where
  "remove_email sv pos i username =
     with_session sv pos username [] (exec_got_data sv (Delete ''t_email'' by_id) [(''id'', use_int64 i)])"

section \<open>Addresses\<close>

text \<open>A \<open>double\<close> is kept as its 64 bits.\<close>

record AddressDTO =
  address_id :: int64
  address_person_id :: int64
  address_org_unit_id :: int64
  street_line1 :: string
  street_line2 :: string
  city :: string
  state_province :: string
  postal_code :: string
  country :: string
  address_qualifier_id :: int16
  address_is_preferred :: bool
  latitude :: "64 word"
  longitude :: "64 word"

definition AddressDTO_default :: AddressDTO where
  "AddressDTO_default = \<lparr>address_id = 0, address_person_id = 0, address_org_unit_id = 0, street_line1 = [], street_line2 = [], city = [],
     state_province = [], postal_code = [], country = [], address_qualifier_id = 3, address_is_preferred = False, latitude = 0, longitude = 0\<rparr>"

definition address_assignments :: "(string \<times> expr) list" where
  "address_assignments =
     [(''street_line1'', Param ''sl1''), (''street_line2'', null_if_empty ''sl2''), (''city'', Param ''city''),
      (''state_province'', null_if_empty ''state''), (''postal_code'', null_if_empty ''pc''), (''country'', Param ''ctry''),
      (''qualifier_id'', Param ''qid''), (''is_preferred'', bool_param ''pref''), (''latitude'', Param ''lat''), (''longitude'', Param ''lng'')]"

definition address_binds :: "AddressDTO \<Rightarrow> binds" where
  "address_binds a =
     [(''sl1'', SText (street_line1 a)), (''sl2'', SText (street_line2 a)), (''city'', SText (city a)), (''state'', SText (state_province a)),
      (''pc'', SText (postal_code a)), (''ctry'', SText (country a)), (''qid'', use_int16 (address_qualifier_id a)),
      (''pref'', use_bool (address_is_preferred a)), (''lat'', SDouble (latitude a)), (''lng'', SDouble (longitude a))]"

definition insert_address :: "'db server \<Rightarrow> nat \<Rightarrow> AddressDTO \<Rightarrow> string \<Rightarrow> 'db connection \<Rightarrow> int64 outcome \<times> 'db connection" where
  "insert_address sv pos a username =
     with_session sv pos username []
       (insert_owned sv ''t_address'' (address_person_id a) (address_org_unit_id a) address_assignments (address_binds a))"

definition double_or_zero :: "string \<Rightarrow> expr" where "double_or_zero c = Coalesce (Col c) (Lit (SDouble 0))"

definition address_columns :: "expr list" where
  "address_columns =
     [Col ''id'', int_or_zero ''person_id'', int_or_zero ''org_unit_id'', Col ''street_line1'', text_or_empty ''street_line2'', Col ''city'',
      text_or_empty ''state_province'', text_or_empty ''postal_code'', Col ''country'', Col ''qualifier_id'', Col ''is_preferred'',
      double_or_zero ''latitude'', double_or_zero ''longitude'']"

definition AddressDTO_of_row :: "sqlval list \<Rightarrow> AddressDTO outcome" where
  "AddressDTO_of_row r =
     bind_outcome (get_int64 r 0) (\<lambda>i. bind_outcome (get_int64 r 1) (\<lambda>pid. bind_outcome (get_int64 r 2) (\<lambda>oid.
     bind_outcome (get_text r 3) (\<lambda>l1. bind_outcome (get_text r 4) (\<lambda>l2. bind_outcome (get_text r 5) (\<lambda>cty.
     bind_outcome (get_text r 6) (\<lambda>st. bind_outcome (get_text r 7) (\<lambda>pc. bind_outcome (get_text r 8) (\<lambda>ctry.
     bind_outcome (get_int16 r 9) (\<lambda>qid. bind_outcome (get_bool r 10) (\<lambda>pref. bind_outcome (get_double r 11) (\<lambda>lat.
     bind_outcome (get_double r 12) (\<lambda>lng.
     Ret \<lparr>address_id = i, address_person_id = pid, address_org_unit_id = oid, street_line1 = l1, street_line2 = l2, city = cty,
       state_province = st, postal_code = pc, country = ctry, address_qualifier_id = qid, address_is_preferred = pref,
       latitude = lat, longitude = lng\<rparr>)))))))))))))"

definition addresses_for_person :: "'db server \<Rightarrow> nat \<Rightarrow> int64 \<Rightarrow> 'db connection \<Rightarrow> AddressDTO list outcome \<times> 'db connection" where
  "addresses_for_person sv pos person_id =
     with_session sv pos [] [] (exec_rows sv AddressDTO_of_row (for_person address_columns ''t_address'') [(''pid'', use_int64 person_id)])"

definition remove_address :: "'db server \<Rightarrow> nat \<Rightarrow> int64 \<Rightarrow> string \<Rightarrow> 'db connection \<Rightarrow> bool outcome \<times> 'db connection" where
  "remove_address sv pos i username =
     with_session sv pos username [] (exec_got_data sv (Delete ''t_address'' by_id) [(''id'', use_int64 i)])"

section \<open>Tables with an owner\<close>

text \<open>Preferred objects come first, then the order is that of the ids.\<close>

definition preferred_le :: "('a \<Rightarrow> bool) \<Rightarrow> ('a \<Rightarrow> int64) \<Rightarrow> 'a \<Rightarrow> 'a \<Rightarrow> bool" where
  "preferred_le preferred key d e \<longleftrightarrow> (if preferred d = preferred e then sint (key d) \<le> sint (key e) else preferred d)"

locale owned_dto = dto vals key columns decode with_key
  for vals :: "'a \<Rightarrow> (string \<times> sqlval) list" and key :: "'a \<Rightarrow> int64" and columns :: "expr list"
    and decode :: "sqlval list \<Rightarrow> 'a outcome" and with_key :: "int64 \<Rightarrow> 'a \<Rightarrow> 'a" +
  fixes t :: string
    and person :: "'a \<Rightarrow> int64"
    and org :: "'a \<Rightarrow> int64"
    and preferred :: "'a \<Rightarrow> bool"
    and rest_vals :: "'a \<Rightarrow> (string \<times> sqlval) list"
    and ces :: "(string \<times> expr) list"
    and bnds :: "'a \<Rightarrow> binds"
  assumes vals_owner: "vals d = [(''person_id'', opt_ref (person d)), (''org_unit_id'', opt_ref (org d))] @ rest_vals d"
    and stored_rest: "x \<in> {''pid'', ''oid''} \<Longrightarrow> kept env t (rest_vals d) \<Longrightarrow> stored env t ((x, v) # bnds d) ces = Ret (rest_vals d)"
    and owner_cols: "cols_ok (owner_person @ ces)"
    and preferred_col: "(''is_preferred'', SBool (preferred d)) \<in> set (rest_vals d)"
begin

lemma insert_owned_call:
  assumes "sql_server env sv rows" "\<forall>s db. answer_set sv s db = None" "table_of vals key (rows (database c) t) ds"
    "fits env (rows (database c)) t (vals d)" "(person d = 0) \<noteq> (org d = 0)"
  shows "\<exists>i c'. with_session sv pos u l (insert_owned sv t (person d) (org d) ces (bnds d)) c = (Ret i, c') \<and> i \<noteq> 0 \<and> i \<notin> key ` set ds
    \<and> table_of vals key (rows (database c') t) (ds @ [with_key i d]) \<and> others_kept env t (rows (database c)) (rows (database c'))"
proof -
  have kept: "kept env t (vals d)" using assms(4) by (simp add: fits_def)
  then have rest: "kept env t (rest_vals d)"
    and owner: "pg_store env t ''person_id'' (opt_ref (person d)) = Some (opt_ref (person d))"
      "pg_store env t ''org_unit_id'' (opt_ref (org d)) = Some (opt_ref (org d))"
    by (simp_all add: kept_def vals_owner)
  have cols: "cols_ok (owner_org @ ces)" using owner_cols by (simp add: cols_ok_def owner_org_def owner_person_def)
  show ?thesis
  proof (cases "person d = 0")
    case True
    then have "stored env t ((''oid'', use_int64 (org d)) # bnds d) (owner_org @ ces) = Ret (vals d)"
      using stored_rest [OF _ rest, of "''oid''" "use_int64 (org d)"] owner assms(5)
      by (simp add: owner_org_def stored_Cons store_val_def vals_owner opt_ref_def use_int64_def)
    from insert_call [OF assms(1-3) cols this assms(4), of pos u l] show ?thesis
      using True assms(5) by (simp add: insert_owned_def)
  next
    case False
    then have "stored env t ((''pid'', use_int64 (person d)) # bnds d) (owner_person @ ces) = Ret (vals d)"
      using stored_rest [OF _ rest, of "''pid''" "use_int64 (person d)"] owner assms(5)
      by (simp add: owner_person_def stored_Cons store_val_def vals_owner opt_ref_def use_int64_def)
    from insert_call [OF assms(1-3) owner_cols this assms(4), of pos u l] show ?thesis
      using False assms(5) by (simp add: insert_owned_def)
  qed
qed

lemma insert_unowned_call:
  assumes "\<forall>s db. answer_set sv s db = None" "(person d = 0) = (org d = 0)"
  shows "\<exists>c'. with_session sv pos u l (insert_owned sv t (person d) (org d) ces (bnds d)) c = (Ret 0, c') \<and> database c' = database c"
  using assms(2) by (intro with_session_run assms(1)) (auto simp: insert_owned_def)

lemma for_person_call:
  assumes "sql_server env sv rows" "\<forall>s db. answer_set sv s db = None" "table_of vals key (rows (database c) t) ds"
  shows "\<exists>es c'. with_session sv pos u l (exec_rows sv decode (for_person columns t) [(''pid'', use_int64 p)]) c = (Ret es, c')
    \<and> mset es = mset (filter (\<lambda>d. person d = p \<and> p \<noteq> 0) ds) \<and> sorted_wrt (preferred_le preferred key) es
    \<and> rows (database c') = rows (database c)"
  unfolding for_person_def
proof (rule select_call [OF assms])
  show "\<forall>r d. row_of (vals d) (key d) r \<longrightarrow>
      (holds env [(''pid'', use_int64 p)] r (Eq (Col ''person_id'') (Param ''pid'')) \<longleftrightarrow> person d = p \<and> p \<noteq> 0)"
    by (auto simp: row_of_def vals_owner use_int64_def opt_ref_def dest: signed_word_eqI)
  have cols: "r ''is_preferred'' = SBool (preferred d) \<and> r ''id'' = SInt (sint (key d))" if "row_of (vals d) (key d) r" for r d
    using that preferred_col [of d] by (auto simp: row_of_def vals_owner)
  show "\<forall>r d r' d'. row_of (vals d) (key d) r \<longrightarrow> row_of (vals d') (key d') r' \<longrightarrow>
      keys_le env [(''is_preferred'', True), (''id'', False)] r r' \<longrightarrow> preferred_le preferred key d d'"
  proof (intro allI impI)
    fix r d r' d' assume rows: "row_of (vals d) (key d) r" "row_of (vals d') (key d') r'"
      and le: "keys_le env [(''is_preferred'', True), (''id'', False)] r r'"
    show "preferred_le preferred key d d'"
      using le cols [OF rows(1)] cols [OF rows(2)] by (auto simp: preferred_le_def split: if_splits)
  qed
qed

text \<open>All operations of a table with an owner.\<close>

lemma owned_operations:
  assumes "sql_server env sv rows" "\<forall>s db. answer_set sv s db = None" "table_of vals key (rows (database c) t) ds"
    "fits env (rows (database c)) t (vals d)" "\<not> pg_self env t" "pg_keeps env (rows (database c)) t (SInt (sint i))"
  shows "(if (person d = 0) \<noteq> (org d = 0)
      then \<exists>k c'. with_session sv pos u l (insert_owned sv t (person d) (org d) ces (bnds d)) c = (Ret k, c') \<and> k \<noteq> 0 \<and> k \<notin> key ` set ds
        \<and> table_of vals key (rows (database c') t) (ds @ [with_key k d]) \<and> others_kept env t (rows (database c)) (rows (database c'))
      else \<exists>c'. with_session sv pos u l (insert_owned sv t (person d) (org d) ces (bnds d)) c = (Ret 0, c') \<and> database c' = database c)
    \<and> (\<exists>es c'. with_session sv pos u' l' (exec_rows sv decode (for_person columns t) [(''pid'', use_int64 p)]) c = (Ret es, c')
        \<and> mset es = mset (filter (\<lambda>d. person d = p \<and> p \<noteq> 0) ds) \<and> sorted_wrt (preferred_le preferred key) es
        \<and> rows (database c') = rows (database c))
    \<and> (\<exists>c'. with_session sv pos u l (exec_got_data sv (Delete t by_id) [(''id'', use_int64 i)]) c = (Ret (i \<in> key ` set ds), c')
        \<and> table_of vals key (rows (database c') t) (filter (\<lambda>d. key d \<noteq> i) ds))"
  using insert_owned_call [OF assms(1-4), of pos u l] insert_unowned_call [OF assms(2), of d pos u l c]
    for_person_call [OF assms(1-3), of pos u' l' p] remove_call [OF assms(1-3,6), of pos u l] assms(5)
  by (cases "(person d = 0) = (org d = 0)") auto

end

section \<open>The three tables\<close>

definition phone_rest :: "PhoneDTO \<Rightarrow> (string \<times> sqlval) list" where
  "phone_rest p =
     [(''country_code'', SText (country_code p)), (''area_code'', SText (area_code p)), (''number'', SText (number p)),
      (''extension'', opt_text (extension p)), (''is_mobile'', SBool (is_mobile p)),
      (''qualifier_id'', SInt (sint (phone_qualifier_id p))), (''is_preferred'', SBool (phone_is_preferred p))]"

definition email_rest :: "EmailDTO \<Rightarrow> (string \<times> sqlval) list" where
  "email_rest e =
     [(''email'', SText (email e)), (''qualifier_id'', SInt (sint (email_qualifier_id e))),
      (''is_preferred'', SBool (email_is_preferred e)), (''is_verified'', SBool (is_verified e))]"

definition address_rest :: "AddressDTO \<Rightarrow> (string \<times> sqlval) list" where
  "address_rest a =
     [(''street_line1'', SText (street_line1 a)), (''street_line2'', opt_text (street_line2 a)), (''city'', SText (city a)),
      (''state_province'', opt_text (state_province a)), (''postal_code'', opt_text (postal_code a)), (''country'', SText (country a)),
      (''qualifier_id'', SInt (sint (address_qualifier_id a))), (''is_preferred'', SBool (address_is_preferred a)),
      (''latitude'', SDouble (latitude a)), (''longitude'', SDouble (longitude a))]"

definition owner_values :: "int64 \<Rightarrow> int64 \<Rightarrow> (string \<times> sqlval) list" where
  "owner_values p o' = [(''person_id'', opt_ref p), (''org_unit_id'', opt_ref o')]"

definition phone_values :: "PhoneDTO \<Rightarrow> (string \<times> sqlval) list" where
  "phone_values p = owner_values (phone_person_id p) (phone_org_unit_id p) @ phone_rest p"

definition email_values :: "EmailDTO \<Rightarrow> (string \<times> sqlval) list" where
  "email_values e = owner_values (email_person_id e) (email_org_unit_id e) @ email_rest e"

definition address_values :: "AddressDTO \<Rightarrow> (string \<times> sqlval) list" where
  "address_values a = owner_values (address_person_id a) (address_org_unit_id a) @ address_rest a"

lemma eval_double_or_zero: "r c = SDouble d \<Longrightarrow> eval env b r (double_or_zero c) = Ret (SDouble d)"
  by (simp add: double_or_zero_def)

lemma phone_reads:
  assumes "row_of (phone_values p) (phone_id p) row"
  shows "\<exists>ws. project env b phone_columns row = Ret ws \<and> PhoneDTO_of_row ws = Ret p"
proof -
  let ?ws = "[SInt (sint (phone_id p)), SInt (sint (phone_person_id p)), SInt (sint (phone_org_unit_id p)), SText (country_code p),
      SText (area_code p), SText (number p), SText (extension p), SBool (is_mobile p), SInt (sint (phone_qualifier_id p)), SBool (phone_is_preferred p)]"
  have area: "eval env b row (text_or_empty ''area_code'') = Ret (SText (area_code p))"
    using assms by (simp add: row_of_def phone_values_def phone_rest_def owner_values_def text_or_empty_def)
  have "project env b phone_columns row = Ret ?ws"
    using assms by (simp add: row_of_def phone_values_def phone_rest_def owner_values_def phone_columns_def project_Cons project_Nil area sql_simps)
  moreover have "PhoneDTO_of_row ?ws = Ret p" by (simp add: PhoneDTO_of_row_def get_simps)
  ultimately show ?thesis by blast
qed

lemma email_reads:
  assumes "row_of (email_values e) (email_id e) row"
  shows "\<exists>ws. project env b email_columns row = Ret ws \<and> EmailDTO_of_row ws = Ret e"
proof -
  let ?ws = "[SInt (sint (email_id e)), SInt (sint (email_person_id e)), SInt (sint (email_org_unit_id e)), SText (email e),
      SInt (sint (email_qualifier_id e)), SBool (email_is_preferred e), SBool (is_verified e)]"
  have "project env b email_columns row = Ret ?ws"
    using assms by (simp add: row_of_def email_values_def email_rest_def owner_values_def email_columns_def project_Cons project_Nil sql_simps)
  moreover have "EmailDTO_of_row ?ws = Ret e" by (simp add: EmailDTO_of_row_def get_simps)
  ultimately show ?thesis by blast
qed

lemma address_reads:
  assumes "row_of (address_values a) (address_id a) row"
  shows "\<exists>ws. project env b address_columns row = Ret ws \<and> AddressDTO_of_row ws = Ret a"
proof -
  let ?ws = "[SInt (sint (address_id a)), SInt (sint (address_person_id a)), SInt (sint (address_org_unit_id a)), SText (street_line1 a),
      SText (street_line2 a), SText (city a), SText (state_province a), SText (postal_code a), SText (country a),
      SInt (sint (address_qualifier_id a)), SBool (address_is_preferred a), SDouble (latitude a), SDouble (longitude a)]"
  have "project env b address_columns row = Ret ?ws"
    using assms
    by (simp add: row_of_def address_values_def address_rest_def owner_values_def address_columns_def project_Cons project_Nil sql_simps eval_double_or_zero)
  moreover have "AddressDTO_of_row ?ws = Ret a" by (simp add: AddressDTO_of_row_def get_simps)
  ultimately show ?thesis by blast
qed

lemma owner_cols_ok:
  "cols_ok (owner_person @ phone_assignments)" "cols_ok (owner_person @ email_assignments)" "cols_ok (owner_person @ address_assignments)"
  by (simp_all add: cols_ok_def owner_person_def phone_assignments_def email_assignments_def address_assignments_def)

lemma contact_stored:
  assumes "x \<in> {''pid'', ''oid''}"
  shows "kept env t (phone_rest p) \<Longrightarrow> stored env t ((x, v) # phone_binds p) phone_assignments = Ret (phone_rest p)"
    and "kept env t (email_rest e) \<Longrightarrow> stored env t ((x, v) # email_binds e) email_assignments = Ret (email_rest e)"
    and "kept env t (address_rest a) \<Longrightarrow> stored env t ((x, v) # address_binds a) address_assignments = Ret (address_rest a)"
  using assms
  by (auto simp: kept_def phone_rest_def phone_assignments_def phone_binds_def email_rest_def email_assignments_def email_binds_def
      address_rest_def address_assignments_def address_binds_def stored_Cons stored_Nil store_val_Ret eval_null_if_empty eval_bool use_int16_def)

interpretation phone: owned_dto phone_values phone_id phone_columns PhoneDTO_of_row "\<lambda>i p. p\<lparr>phone_id := i\<rparr>"
  "''t_phone''" phone_person_id phone_org_unit_id phone_is_preferred phone_rest phone_assignments phone_binds
  by unfold_locales (simp_all add: phone_reads owner_cols_ok contact_stored phone_values_def phone_rest_def owner_values_def)

interpretation email: owned_dto email_values email_id email_columns EmailDTO_of_row "\<lambda>i d. d\<lparr>email_id := i\<rparr>"
  "''t_email''" email_person_id email_org_unit_id email_is_preferred email_rest email_assignments email_binds
  by unfold_locales (simp_all add: email_reads owner_cols_ok contact_stored email_values_def email_rest_def owner_values_def)

interpretation address: owned_dto address_values address_id address_columns AddressDTO_of_row "\<lambda>i d. d\<lparr>address_id := i\<rparr>"
  "''t_address''" address_person_id address_org_unit_id address_is_preferred address_rest address_assignments address_binds
  by unfold_locales (simp_all add: address_reads owner_cols_ok contact_stored address_values_def address_rest_def owner_values_def)

abbreviation phones_in :: "tables \<Rightarrow> PhoneDTO list \<Rightarrow> bool" where
  "phones_in db ds \<equiv> table_of phone_values phone_id (db ''t_phone'') ds"

text \<open>
  C23: The table of phones is a list of phones. A phone with exactly one owner is inserted under a new id; with
  no owner, or with a person and an organization, nothing is executed and the result is 0.
  \<open>phones_for_person\<close> gives exactly the phones of the person with all their fields, the preferred ones first
  and then by id, and nothing for the id 0; \<open>remove_phone\<close> takes out the phone with this id and says
  whether there was one.
\<close>

theorem phone_table:
  assumes "sql_server env sv rows" "\<forall>s db. answer_set sv s db = None" "phones_in (rows (database c)) ds"
    "fits env (rows (database c)) ''t_phone'' (phone_values d)" "\<not> pg_self env ''t_phone''" "pg_keeps env (rows (database c)) ''t_phone'' (SInt (sint i))"
  shows "(if (phone_person_id d = 0) \<noteq> (phone_org_unit_id d = 0)
      then \<exists>k c'. insert_phone sv pos d username c = (Ret k, c') \<and> k \<noteq> 0 \<and> k \<notin> phone_id ` set ds
        \<and> phones_in (rows (database c')) (ds @ [d\<lparr>phone_id := k\<rparr>]) \<and> others_kept env ''t_phone'' (rows (database c)) (rows (database c'))
      else \<exists>c'. insert_phone sv pos d username c = (Ret 0, c') \<and> database c' = database c)
    \<and> (\<exists>es c'. phones_for_person sv pos p c = (Ret es, c') \<and> mset es = mset (filter (\<lambda>d. phone_person_id d = p \<and> p \<noteq> 0) ds)
        \<and> sorted_wrt (preferred_le phone_is_preferred phone_id) es \<and> rows (database c') = rows (database c))
    \<and> (\<exists>c'. remove_phone sv pos i username c = (Ret (i \<in> phone_id ` set ds), c')
        \<and> phones_in (rows (database c')) (filter (\<lambda>d. phone_id d \<noteq> i) ds))"
  unfolding insert_phone_def phones_for_person_def remove_phone_def
  by (rule phone.owned_operations [OF assms])

theorem phone_table_witness:
  "\<exists>k c'. insert_phone (ref_server ref_pg) 0 (PhoneDTO_default\<lparr>phone_person_id := 7\<rparr>) ''admin'' empty_connection = (Ret k, c') \<and> k \<noteq> 0
     \<and> phones_in (database c') [PhoneDTO_default\<lparr>phone_person_id := 7, phone_id := k\<rparr>]"
  using phone_table [OF ref_server_laws ref_answers, of empty_connection "[]" "PhoneDTO_default\<lparr>phone_person_id := 7\<rparr>" 1 0 "''admin''" 7]
  by (simp add: PhoneDTO_default_def) blast

abbreviation emails_in :: "tables \<Rightarrow> EmailDTO list \<Rightarrow> bool" where
  "emails_in db ds \<equiv> table_of email_values email_id (db ''t_email'') ds"

text \<open>
  The same for e-mails: \<open>insert_email\<close> needs exactly one owner, \<open>emails_for_person\<close> gives exactly the e-mails
  of the person, preferred ones first, and \<open>remove_email\<close> takes out the one with this id.
\<close>

theorem email_table:
  assumes "sql_server env sv rows" "\<forall>s db. answer_set sv s db = None" "emails_in (rows (database c)) ds"
    "fits env (rows (database c)) ''t_email'' (email_values d)" "\<not> pg_self env ''t_email''" "pg_keeps env (rows (database c)) ''t_email'' (SInt (sint i))"
  shows "(if (email_person_id d = 0) \<noteq> (email_org_unit_id d = 0)
      then \<exists>k c'. insert_email sv pos d username c = (Ret k, c') \<and> k \<noteq> 0 \<and> k \<notin> email_id ` set ds
        \<and> emails_in (rows (database c')) (ds @ [d\<lparr>email_id := k\<rparr>]) \<and> others_kept env ''t_email'' (rows (database c)) (rows (database c'))
      else \<exists>c'. insert_email sv pos d username c = (Ret 0, c') \<and> database c' = database c)
    \<and> (\<exists>es c'. emails_for_person sv pos p c = (Ret es, c') \<and> mset es = mset (filter (\<lambda>d. email_person_id d = p \<and> p \<noteq> 0) ds)
        \<and> sorted_wrt (preferred_le email_is_preferred email_id) es \<and> rows (database c') = rows (database c))
    \<and> (\<exists>c'. remove_email sv pos i username c = (Ret (i \<in> email_id ` set ds), c')
        \<and> emails_in (rows (database c')) (filter (\<lambda>d. email_id d \<noteq> i) ds))"
  unfolding insert_email_def emails_for_person_def remove_email_def
  by (rule email.owned_operations [OF assms])

theorem email_table_witness:
  "\<exists>c'. insert_email (ref_server ref_pg) 0 (EmailDTO_default\<lparr>email := ''a@b.com''\<rparr>) ''admin'' empty_connection = (Ret 0, c')
     \<and> database c' = database empty_connection"
  using email_table [OF ref_server_laws ref_answers, of empty_connection "[]" "EmailDTO_default\<lparr>email := ''a@b.com''\<rparr>" 1 0 "''admin''" 7]
  by (simp add: EmailDTO_default_def)

abbreviation addresses_in :: "tables \<Rightarrow> AddressDTO list \<Rightarrow> bool" where
  "addresses_in db ds \<equiv> table_of address_values address_id (db ''t_address'') ds"

text \<open>
  The same for addresses: \<open>insert_address\<close> needs exactly one owner, \<open>addresses_for_person\<close> gives exactly the
  addresses of the person with all their fields, preferred ones first, and \<open>remove_address\<close> takes out the
  one with this id.
\<close>

theorem address_table:
  assumes "sql_server env sv rows" "\<forall>s db. answer_set sv s db = None" "addresses_in (rows (database c)) ds"
    "fits env (rows (database c)) ''t_address'' (address_values d)" "\<not> pg_self env ''t_address''" "pg_keeps env (rows (database c)) ''t_address'' (SInt (sint i))"
  shows "(if (address_person_id d = 0) \<noteq> (address_org_unit_id d = 0)
      then \<exists>k c'. insert_address sv pos d username c = (Ret k, c') \<and> k \<noteq> 0 \<and> k \<notin> address_id ` set ds
        \<and> addresses_in (rows (database c')) (ds @ [d\<lparr>address_id := k\<rparr>]) \<and> others_kept env ''t_address'' (rows (database c)) (rows (database c'))
      else \<exists>c'. insert_address sv pos d username c = (Ret 0, c') \<and> database c' = database c)
    \<and> (\<exists>es c'. addresses_for_person sv pos p c = (Ret es, c') \<and> mset es = mset (filter (\<lambda>d. address_person_id d = p \<and> p \<noteq> 0) ds)
        \<and> sorted_wrt (preferred_le address_is_preferred address_id) es \<and> rows (database c') = rows (database c))
    \<and> (\<exists>c'. remove_address sv pos i username c = (Ret (i \<in> address_id ` set ds), c')
        \<and> addresses_in (rows (database c')) (filter (\<lambda>d. address_id d \<noteq> i) ds))"
  unfolding insert_address_def addresses_for_person_def remove_address_def
  by (rule address.owned_operations [OF assms])

theorem address_table_witness:
  "\<exists>k c'. insert_address (ref_server ref_pg) 0 (AddressDTO_default\<lparr>address_org_unit_id := 3\<rparr>) ''admin'' empty_connection = (Ret k, c') \<and> k \<noteq> 0
     \<and> addresses_in (database c') [AddressDTO_default\<lparr>address_org_unit_id := 3, address_id := k\<rparr>]"
  using address_table [OF ref_server_laws ref_answers, of empty_connection "[]" "AddressDTO_default\<lparr>address_org_unit_id := 3\<rparr>" 1 0 "''admin''" 7]
  by (simp add: AddressDTO_default_def) blast

end
