(* ===== verification/Visibility_Dao.thy ===== *)
theory Visibility_Dao
  imports Dao
begin

text \<open>contact/data/visibility\_dao.hpp: who may see and edit which data of a person.\<close>

section \<open>The data access object\<close>

record DataVisibilityDTO =
  visibility_id :: int64
  owner_person_id :: int64
  data_category :: string
  viewer_person_id :: int64
  viewer_role_id :: int64
  viewer_org_unit_id :: int64
  can_view :: bool
  can_edit :: bool

definition DataVisibilityDTO_default :: DataVisibilityDTO where
  "DataVisibilityDTO_default = \<lparr>visibility_id = 0, owner_person_id = 0, data_category = [], viewer_person_id = 0, viewer_role_id = 0,
     viewer_org_unit_id = 0, can_view = True, can_edit = False\<rparr>"

definition visibility_assignments :: "expr \<Rightarrow> expr \<Rightarrow> expr \<Rightarrow> (string \<times> expr) list" where
  "visibility_assignments vp vr vo =
     [(''owner_person_id'', Param ''owner''), (''data_category'', Param ''cat''), (''viewer_person_id'', vp), (''viewer_role_id'', vr),
      (''viewer_org_unit_id'', vo), (''can_view'', bool_param ''cv''), (''can_edit'', bool_param ''ce'')]"

definition visibility_binds :: "DataVisibilityDTO \<Rightarrow> string \<times> sqlval \<Rightarrow> binds" where
  "visibility_binds v viewer =
     [(''owner'', use_int64 (owner_person_id v)), (''cat'', SText (data_category v)), viewer,
      (''cv'', use_bool (can_view v)), (''ce'', use_bool (can_edit v))]"

definition VisibilityDAO_insert :: "'db server \<Rightarrow> nat \<Rightarrow> DataVisibilityDTO \<Rightarrow> string \<Rightarrow> 'db connection \<Rightarrow> int64 outcome \<times> 'db connection" where
  "VisibilityDAO_insert sv pos v username =
     with_session sv pos username []
       (if viewer_person_id v \<noteq> 0 then
          exec_new_id sv (Insert ''t_datavisibility'' (visibility_assignments (Param ''vp'') (Lit SNull) (Lit SNull)))
            (visibility_binds v (''vp'', use_int64 (viewer_person_id v)))
        else if viewer_role_id v \<noteq> 0 then
          exec_new_id sv (Insert ''t_datavisibility'' (visibility_assignments (Lit SNull) (Param ''vr'') (Lit SNull)))
            (visibility_binds v (''vr'', use_int64 (viewer_role_id v)))
        else if viewer_org_unit_id v \<noteq> 0 then
          exec_new_id sv (Insert ''t_datavisibility'' (visibility_assignments (Lit SNull) (Lit SNull) (Param ''vo'')))
            (visibility_binds v (''vo'', use_int64 (viewer_org_unit_id v)))
        else (\<lambda>se db. (Ret 0, db)))"

definition visibility_columns :: "expr list" where
  "visibility_columns =
     [Col ''id'', Col ''owner_person_id'', Col ''data_category'', int_or_zero ''viewer_person_id'', int_or_zero ''viewer_role_id'',
      int_or_zero ''viewer_org_unit_id'', Col ''can_view'', Col ''can_edit'']"

definition DataVisibilityDTO_of_row :: "sqlval list \<Rightarrow> DataVisibilityDTO outcome" where
  "DataVisibilityDTO_of_row r =
     bind_outcome (get_int64 r 0) (\<lambda>i. bind_outcome (get_int64 r 1) (\<lambda>owner. bind_outcome (get_text r 2) (\<lambda>cat.
     bind_outcome (get_int64 r 3) (\<lambda>vp. bind_outcome (get_int64 r 4) (\<lambda>vr. bind_outcome (get_int64 r 5) (\<lambda>vo.
     bind_outcome (get_bool r 6) (\<lambda>cv. bind_outcome (get_bool r 7) (\<lambda>ce.
     Ret \<lparr>visibility_id = i, owner_person_id = owner, data_category = cat, viewer_person_id = vp, viewer_role_id = vr,
       viewer_org_unit_id = vo, can_view = cv, can_edit = ce\<rparr>))))))))"

definition rules_for_owner :: "'db server \<Rightarrow> nat \<Rightarrow> int64 \<Rightarrow> 'db connection \<Rightarrow> DataVisibilityDTO list outcome \<times> 'db connection" where
  "rules_for_owner sv pos owner =
     with_session sv pos [] []
       (exec_rows sv DataVisibilityDTO_of_row
         (Select visibility_columns (Table ''t_datavisibility'') (Eq (Col ''owner_person_id'') (Param ''oid'')) [(''id'', False)] None)
         [(''oid'', use_int64 owner)])"

definition view_condition :: cond where
  "view_condition =
     And (Eq (Col ''owner_person_id'') (Param ''oid'')) (And (Eq (Col ''viewer_person_id'') (Param ''vid''))
       (And (Or (Eq (Col ''data_category'') (Param ''cat'')) (Eq (Col ''data_category'') (Lit (SText ''All''))))
            (Eq (Col ''can_view'') (Lit (SBool True)))))"

definition VisibilityDAO_can_view :: "'db server \<Rightarrow> nat \<Rightarrow> int64 \<Rightarrow> int64 \<Rightarrow> string \<Rightarrow> 'db connection \<Rightarrow> bool outcome \<times> 'db connection" where
  "VisibilityDAO_can_view sv pos owner viewer category c =
     (case with_session sv pos [] []
         (exec_count sv (Count ''t_datavisibility'' view_condition)
            [(''oid'', use_int64 owner), (''vid'', use_int64 viewer), (''cat'', SText category)]) c of
        (r, c') \<Rightarrow> (map_out (\<lambda>count. count > 0) r, c'))"

definition VisibilityDAO_remove :: "'db server \<Rightarrow> nat \<Rightarrow> int64 \<Rightarrow> string \<Rightarrow> 'db connection \<Rightarrow> bool outcome \<times> 'db connection" where
  "VisibilityDAO_remove sv pos i username =
     with_session sv pos username [] (exec_got_data sv (Delete ''t_datavisibility'' by_id) [(''id'', use_int64 i)])"

section \<open>Rules\<close>

definition visibility_values :: "DataVisibilityDTO \<Rightarrow> (string \<times> sqlval) list" where
  "visibility_values v =
     [(''owner_person_id'', SInt (sint (owner_person_id v))), (''data_category'', SText (data_category v)),
      (''viewer_person_id'', opt_ref (viewer_person_id v)), (''viewer_role_id'', opt_ref (viewer_role_id v)),
      (''viewer_org_unit_id'', opt_ref (viewer_org_unit_id v)), (''can_view'', SBool (can_view v)), (''can_edit'', SBool (can_edit v))]"

text \<open>Of the viewers only the first that is not 0 is kept.\<close>

definition first_viewer :: "DataVisibilityDTO \<Rightarrow> DataVisibilityDTO" where
  "first_viewer v =
     (if viewer_person_id v \<noteq> 0 then v\<lparr>viewer_role_id := 0, viewer_org_unit_id := 0\<rparr>
      else if viewer_role_id v \<noteq> 0 then v\<lparr>viewer_org_unit_id := 0\<rparr>
      else v)"

definition has_viewer :: "DataVisibilityDTO \<Rightarrow> bool" where
  "has_viewer v \<longleftrightarrow> viewer_person_id v \<noteq> 0 \<or> viewer_role_id v \<noteq> 0 \<or> viewer_org_unit_id v \<noteq> 0"

text \<open>The rule lets this person see data of this category.\<close>

definition allows :: "int64 \<Rightarrow> int64 \<Rightarrow> string \<Rightarrow> DataVisibilityDTO \<Rightarrow> bool" where
  "allows owner viewer category v \<longleftrightarrow> owner_person_id v = owner \<and> viewer_person_id v = viewer \<and> viewer \<noteq> 0
     \<and> (data_category v = category \<or> data_category v = ''All'') \<and> can_view v"

lemma visibility_reads:
  assumes "row_of (visibility_values v) (visibility_id v) row"
  shows "\<exists>ws. project env b visibility_columns row = Ret ws \<and> DataVisibilityDTO_of_row ws = Ret v"
proof -
  let ?ws = "[SInt (sint (visibility_id v)), SInt (sint (owner_person_id v)), SText (data_category v), SInt (sint (viewer_person_id v)),
      SInt (sint (viewer_role_id v)), SInt (sint (viewer_org_unit_id v)), SBool (can_view v), SBool (can_edit v)]"
  have "project env b visibility_columns row = Ret ?ws"
    using assms by (simp add: row_of_def visibility_values_def visibility_columns_def project_Cons project_Nil sql_simps)
  moreover have "DataVisibilityDTO_of_row ?ws = Ret v" by (simp add: DataVisibilityDTO_of_row_def get_simps)
  ultimately show ?thesis by blast
qed

interpretation visibility: dto visibility_values visibility_id visibility_columns DataVisibilityDTO_of_row "\<lambda>i v. v\<lparr>visibility_id := i\<rparr>"
  by unfold_locales (simp_all add: visibility_reads visibility_values_def)

lemma visibility_cols_ok: "cols_ok (visibility_assignments a b c)"
  by (simp add: cols_ok_def visibility_assignments_def)

text \<open>What the three statements write is the rule with one viewer.\<close>

lemma visibility_stored:
  assumes "kept env t (visibility_values (first_viewer v))"
  shows "viewer_person_id v \<noteq> 0 \<Longrightarrow> stored env t (visibility_binds v (''vp'', use_int64 (viewer_person_id v)))
      (visibility_assignments (Param ''vp'') (Lit SNull) (Lit SNull)) = Ret (visibility_values (first_viewer v))"
    and "viewer_person_id v = 0 \<Longrightarrow> viewer_role_id v \<noteq> 0 \<Longrightarrow> stored env t (visibility_binds v (''vr'', use_int64 (viewer_role_id v)))
      (visibility_assignments (Lit SNull) (Param ''vr'') (Lit SNull)) = Ret (visibility_values (first_viewer v))"
    and "viewer_person_id v = 0 \<Longrightarrow> viewer_role_id v = 0 \<Longrightarrow> viewer_org_unit_id v \<noteq> 0 \<Longrightarrow>
      stored env t (visibility_binds v (''vo'', use_int64 (viewer_org_unit_id v)))
      (visibility_assignments (Lit SNull) (Lit SNull) (Param ''vo'')) = Ret (visibility_values (first_viewer v))"
  using assms
  by (simp_all add: kept_def visibility_values_def first_viewer_def visibility_assignments_def visibility_binds_def stored_Cons stored_Nil
      store_val_Ret eval_bool use_int64_def opt_ref_def)

lemma visibility_insert_call:
  assumes "sql_server env sv rows" "\<forall>s db. answer_set sv s db = None"
    "table_of visibility_values visibility_id (rows (database c) ''t_datavisibility'') vs"
    "fits env (rows (database c)) ''t_datavisibility'' (visibility_values (first_viewer v))" "has_viewer v"
  shows "\<exists>i c'. VisibilityDAO_insert sv pos v username c = (Ret i, c') \<and> i \<noteq> 0 \<and> i \<notin> visibility_id ` set vs
    \<and> table_of visibility_values visibility_id (rows (database c') ''t_datavisibility'') (vs @ [(first_viewer v)\<lparr>visibility_id := i\<rparr>])
    \<and> others_kept env ''t_datavisibility'' (rows (database c)) (rows (database c'))"
proof -
  have kept: "kept env ''t_datavisibility'' (visibility_values (first_viewer v))" using assms(4) by (simp add: fits_def)
  note call = visibility.insert_call [OF assms(1-3) visibility_cols_ok _ assms(4), of _ _ _ _ pos username "[]"]
  consider "viewer_person_id v \<noteq> 0" | "viewer_person_id v = 0" "viewer_role_id v \<noteq> 0"
    | "viewer_person_id v = 0" "viewer_role_id v = 0" "viewer_org_unit_id v \<noteq> 0"
    using assms(5) unfolding has_viewer_def by blast
  then show ?thesis
  proof cases
    case 1
    from call [OF visibility_stored(1) [OF kept 1]] 1 show ?thesis by (simp add: VisibilityDAO_insert_def)
  next
    case 2
    from call [OF visibility_stored(2) [OF kept 2]] 2 show ?thesis by (simp add: VisibilityDAO_insert_def)
  next
    case 3
    from call [OF visibility_stored(3) [OF kept 3]] 3 show ?thesis by (simp add: VisibilityDAO_insert_def)
  qed
qed

text \<open>
  The table of visibility rules is a list of rules. \<open>insert\<close> appends a rule under a new id, keeping of the
  viewers only the first that is not 0 (so a rule with one viewer is kept as it is), and does nothing and
  returns 0 when there is none. \<open>rules_for_owner\<close> gives exactly the rules of the owner, by id.
  \<open>remove\<close> takes out the rule with this id.
\<close>

theorem visibility_rules:
  assumes "sql_server env sv rows" "\<forall>s db. answer_set sv s db = None"
    "table_of visibility_values visibility_id (rows (database c) ''t_datavisibility'') vs"
    "fits env (rows (database c)) ''t_datavisibility'' (visibility_values (first_viewer v))"
    "\<not> pg_self env ''t_datavisibility''" "pg_keeps env (rows (database c)) ''t_datavisibility'' (SInt (sint i))"
  shows "(if has_viewer v
      then \<exists>k c'. VisibilityDAO_insert sv pos v username c = (Ret k, c') \<and> k \<noteq> 0 \<and> k \<notin> visibility_id ` set vs
        \<and> table_of visibility_values visibility_id (rows (database c') ''t_datavisibility'') (vs @ [(first_viewer v)\<lparr>visibility_id := k\<rparr>])
        \<and> others_kept env ''t_datavisibility'' (rows (database c)) (rows (database c'))
      else \<exists>c'. VisibilityDAO_insert sv pos v username c = (Ret 0, c') \<and> database c' = database c)
    \<and> (\<exists>es c'. rules_for_owner sv pos owner c = (Ret es, c') \<and> mset es = mset (filter (\<lambda>v. owner_person_id v = owner) vs)
        \<and> sorted_wrt (\<lambda>v w. sint (visibility_id v) \<le> sint (visibility_id w)) es \<and> rows (database c') = rows (database c))
    \<and> (\<exists>c'. VisibilityDAO_remove sv pos i username c = (Ret (i \<in> visibility_id ` set vs), c')
        \<and> table_of visibility_values visibility_id (rows (database c') ''t_datavisibility'') (filter (\<lambda>v. visibility_id v \<noteq> i) vs))"
proof (intro conjI)
  have none: "\<exists>c'. VisibilityDAO_insert sv pos v username c = (Ret 0, c') \<and> database c' = database c" if "\<not> has_viewer v"
    using that unfolding VisibilityDAO_insert_def by (intro with_session_run assms(2)) (simp add: has_viewer_def)
  show "if has_viewer v
      then \<exists>k c'. VisibilityDAO_insert sv pos v username c = (Ret k, c') \<and> k \<noteq> 0 \<and> k \<notin> visibility_id ` set vs
        \<and> table_of visibility_values visibility_id (rows (database c') ''t_datavisibility'') (vs @ [(first_viewer v)\<lparr>visibility_id := k\<rparr>])
        \<and> others_kept env ''t_datavisibility'' (rows (database c)) (rows (database c'))
      else \<exists>c'. VisibilityDAO_insert sv pos v username c = (Ret 0, c') \<and> database c' = database c"
    using visibility_insert_call [OF assms(1-4), of pos username] none by simp
  show "\<exists>es c'. rules_for_owner sv pos owner c = (Ret es, c') \<and> mset es = mset (filter (\<lambda>v. owner_person_id v = owner) vs)
        \<and> sorted_wrt (\<lambda>v w. sint (visibility_id v) \<le> sint (visibility_id w)) es \<and> rows (database c') = rows (database c)"
    unfolding rules_for_owner_def
    by (rule visibility.select_call [OF assms(1-3)])
       (auto simp: row_of_def visibility_values_def use_int64_def dest: signed_word_eqI split: if_splits)
  show "\<exists>c'. VisibilityDAO_remove sv pos i username c = (Ret (i \<in> visibility_id ` set vs), c')
        \<and> table_of visibility_values visibility_id (rows (database c') ''t_datavisibility'') (filter (\<lambda>v. visibility_id v \<noteq> i) vs)"
    using visibility.remove_call [OF assms(1-3,6), of pos username "[]"] assms(5) unfolding VisibilityDAO_remove_def by blast
qed

theorem visibility_rules_witness:
  "\<exists>k c'. VisibilityDAO_insert (ref_server ref_pg) 0
       (DataVisibilityDTO_default\<lparr>owner_person_id := 1, data_category := ''All'', viewer_role_id := 5, viewer_org_unit_id := 9\<rparr>) [] empty_connection
     = (Ret k, c') \<and> k \<noteq> 0
     \<and> table_of visibility_values visibility_id (database c' ''t_datavisibility'')
         [DataVisibilityDTO_default\<lparr>visibility_id := k, owner_person_id := 1, data_category := ''All'', viewer_role_id := 5\<rparr>]"
  using visibility_rules [OF ref_server_laws ref_answers, of empty_connection "[]"
      "DataVisibilityDTO_default\<lparr>owner_person_id := 1, data_category := ''All'', viewer_role_id := 5, viewer_org_unit_id := 9\<rparr>" 1 0 "[]" 1]
  by (simp add: DataVisibilityDTO_default_def has_viewer_def first_viewer_def) blast

text \<open>
  C22: \<open>can_view\<close> answers whether one of the rules lets this person see this category of the owner's data (a
  rule for the category \<open>All\<close> does); it changes nothing. In particular a rule for a role or an
  organization never lets anyone see anything.
\<close>

theorem can_view_decides:
  assumes "sql_server env sv rows" "\<forall>s db. answer_set sv s db = None"
    "table_of visibility_values visibility_id (rows (database c) ''t_datavisibility'') vs" "int (length vs) < 2 ^ 31"
  shows "\<exists>c'. VisibilityDAO_can_view sv pos owner viewer category c = (Ret (\<exists>v\<in>set vs. allows owner viewer category v), c')
    \<and> rows (database c') = rows (database c)
    \<and> ((\<forall>v\<in>set vs. viewer_person_id v = 0) \<longrightarrow> fst (VisibilityDAO_can_view sv pos owner viewer category c) = Ret False)"
proof -
  let ?b = "[(''oid'', use_int64 owner), (''vid'', use_int64 viewer), (''cat'', SText category)]"
  have "\<forall>r v. row_of (visibility_values v) (visibility_id v) r \<longrightarrow> (holds env ?b r view_condition \<longleftrightarrow> allows owner viewer category v)"
    by (auto simp: row_of_def visibility_values_def view_condition_def use_int64_def opt_ref_def allows_def dest: signed_word_eqI)
  then obtain c' where c': "with_session sv pos [] [] (exec_count sv (Count ''t_datavisibility'' view_condition) ?b) c =
      (Ret (int (length (filter (allows owner viewer category) vs))), c')" "rows (database c') = rows (database c)"
    using visibility.count_call [OF assms(1-3) _ assms(4), of ?b view_condition "allows owner viewer category" pos "[]" "[]"] by blast
  have "(0 < length (filter (allows owner viewer category) vs)) = (\<exists>v\<in>set vs. allows owner viewer category v)"
    by (auto simp: filter_empty_conv)
  then have call: "VisibilityDAO_can_view sv pos owner viewer category c = (Ret (\<exists>v\<in>set vs. allows owner viewer category v), c')"
    using c'(1) by (simp add: VisibilityDAO_can_view_def)
  moreover have "\<not> (\<exists>v\<in>set vs. allows owner viewer category v)" if "\<forall>v\<in>set vs. viewer_person_id v = 0"
    using that by (auto simp: allows_def)
  ultimately show ?thesis using c'(2) by auto
qed

definition rule_connection :: "tables connection" where
  "rule_connection = empty_connection\<lparr>database := (\<lambda>_. [])(''t_datavisibility'' :=
     [(fill_row (\<lambda>_. SNull) (visibility_values (DataVisibilityDTO_default\<lparr>owner_person_id := 1, data_category := ''All'', viewer_person_id := 2\<rparr>)))
        (''id'' := SInt 0)])\<rparr>"

theorem can_view_decides_witness:
  "fst (VisibilityDAO_can_view (ref_server ref_pg) 0 1 2 ''Phone'' rule_connection) = Ret True
   \<and> fst (VisibilityDAO_can_view (ref_server ref_pg) 0 1 3 ''Phone'' rule_connection) = Ret False"
proof -
  let ?v = "DataVisibilityDTO_default\<lparr>owner_person_id := 1, data_category := ''All'', viewer_person_id := 2\<rparr>"
  have tab: "table_of visibility_values visibility_id (database rule_connection ''t_datavisibility'') [?v]"
    by (simp add: rule_connection_def table_of_def row_of_def visibility_values_def fill_row_def DataVisibilityDTO_default_def)
  have "(\<exists>v\<in>set [?v]. allows 1 2 ''Phone'' v) = True" "(\<exists>v\<in>set [?v]. allows 1 3 ''Phone'' v) = False"
    by (simp_all add: allows_def DataVisibilityDTO_default_def)
  then show ?thesis
    using can_view_decides [OF ref_server_laws ref_answers, OF tab, of 0 1 2 "''Phone''"]
      can_view_decides [OF ref_server_laws ref_answers, OF tab, of 0 1 3 "''Phone''"] by auto
qed

end
