(* ===== verification/Org_Dao.thy ===== *)
theory Org_Dao
  imports Dao
begin

text \<open>contact/data/org\_dao.hpp: organizational units, their localized names and their hierarchy.\<close>

section \<open>The data access object\<close>

record OrgUnitDTO =
  org_id :: int64
  parent_id :: int64
  org_type :: string
  org_federal_tax_id :: string
  org_is_active :: bool
  org_keywords :: string

definition OrgUnitDTO_default :: OrgUnitDTO where
  "OrgUnitDTO_default = \<lparr>org_id = 0, parent_id = 0, org_type = [], org_federal_tax_id = [], org_is_active = True, org_keywords = []\<rparr>"

record LocalizedOrgUnitDTO =
  localized_org_id :: int64
  localized_org_unit_id :: int64
  localized_org_locale_id :: int16
  localized_org_name :: string

record OrgHierarchyDTO =
  hierarchy_id :: int64
  hierarchy_parent_id :: int64
  hierarchy_name :: string
  hierarchy_org_type :: string
  hierarchy_keywords :: string
  depth :: int

text \<open>The assignments are those of \<open>INSERT\<close> and of \<open>UPDATE\<close>; the parent is \<open>NULL\<close> or a parameter.\<close>

definition org_assignments :: "expr \<Rightarrow> (string \<times> expr) list" where
  "org_assignments parent =
     [(''parent_id'', parent), (''org_type'', Param ''org_type''), (''federal_tax_id'', null_if_empty ''tax_id''),
      (''is_active'', bool_param ''active''), (''keywords'', null_if_empty ''keywords'')]"

definition org_binds :: "OrgUnitDTO \<Rightarrow> binds" where
  "org_binds u =
     [(''org_type'', SText (org_type u)), (''tax_id'', SText (org_federal_tax_id u)), (''active'', use_bool (org_is_active u)),
      (''keywords'', SText (org_keywords u))]"

definition OrgDAO_insert :: "'db server \<Rightarrow> nat \<Rightarrow> OrgUnitDTO \<Rightarrow> string \<Rightarrow> 'db connection \<Rightarrow> int64 outcome \<times> 'db connection" where
  "OrgDAO_insert sv pos u username =
     with_session sv pos username []
       (if parent_id u = 0 then exec_new_id sv (Insert ''t_orgunit'' (org_assignments (Lit SNull))) (org_binds u)
        else exec_new_id sv (Insert ''t_orgunit'' (org_assignments (Param ''parent_id'')))
          ((''parent_id'', use_int64 (parent_id u)) # org_binds u))"

definition insert_localized :: "'db server \<Rightarrow> nat \<Rightarrow> LocalizedOrgUnitDTO \<Rightarrow> string \<Rightarrow> 'db connection \<Rightarrow> int64 outcome \<times> 'db connection" where
  "insert_localized sv pos loc username =
     with_session sv pos username []
       (exec_new_id sv (Insert ''t_localizedorgunit''
            [(''org_unit_id'', Param ''org_unit_id''), (''locale_id'', Param ''locale_id''), (''name'', Param ''name'')])
          [(''org_unit_id'', use_int64 (localized_org_unit_id loc)), (''locale_id'', use_int16 (localized_org_locale_id loc)),
           (''name'', SText (localized_org_name loc))])"

definition org_columns :: "expr list" where
  "org_columns =
     [Col ''id'', int_or_zero ''parent_id'', Col ''org_type'', text_or_empty ''federal_tax_id'', Col ''is_active'', text_or_empty ''keywords'']"

definition OrgUnitDTO_of_row :: "sqlval list \<Rightarrow> OrgUnitDTO outcome" where
  "OrgUnitDTO_of_row r =
     bind_outcome (get_int64 r 0) (\<lambda>i. bind_outcome (get_int64 r 1) (\<lambda>pid. bind_outcome (get_text r 2) (\<lambda>ty.
     bind_outcome (get_text r 3) (\<lambda>tax. bind_outcome (get_bool r 4) (\<lambda>act. bind_outcome (get_text r 5) (\<lambda>kw.
     Ret \<lparr>org_id = i, parent_id = pid, org_type = ty, org_federal_tax_id = tax, org_is_active = act, org_keywords = kw\<rparr>))))))"

definition OrgDAO_find_by_id :: "'db server \<Rightarrow> nat \<Rightarrow> int64 \<Rightarrow> 'db connection \<Rightarrow> OrgUnitDTO option outcome \<times> 'db connection" where
  "OrgDAO_find_by_id sv pos i =
     with_session sv pos [] []
       (exec_row sv OrgUnitDTO_of_row (Select org_columns (Table ''t_orgunit'') by_id [] None) [(''id'', use_int64 i)])"

definition OrgDAO_update :: "'db server \<Rightarrow> nat \<Rightarrow> OrgUnitDTO \<Rightarrow> string \<Rightarrow> 'db connection \<Rightarrow> bool outcome \<times> 'db connection" where
  "OrgDAO_update sv pos u username =
     with_session sv pos username []
       (if parent_id u = 0 then
          exec_got_data sv (Update ''t_orgunit'' (org_assignments (Lit SNull)) by_id) (org_binds u @ [(''id'', use_int64 (org_id u))])
        else
          exec_got_data sv (Update ''t_orgunit'' (org_assignments (Param ''parent_id'')) by_id)
            ((''parent_id'', use_int64 (parent_id u)) # org_binds u @ [(''id'', use_int64 (org_id u))]))"

definition OrgDAO_remove :: "'db server \<Rightarrow> nat \<Rightarrow> int64 \<Rightarrow> string \<Rightarrow> 'db connection \<Rightarrow> bool outcome \<times> 'db connection" where
  "OrgDAO_remove sv pos i username =
     with_session sv pos username [] (exec_got_data sv (Delete ''t_orgunit'' by_id) [(''id'', use_int64 i)])"

definition OrgHierarchyDTO_of_row :: "sqlval list \<Rightarrow> OrgHierarchyDTO outcome" where
  "OrgHierarchyDTO_of_row r =
     bind_outcome (get_int64 r 0) (\<lambda>i. bind_outcome (get_int64 r 1) (\<lambda>pid. bind_outcome (get_text r 2) (\<lambda>nm.
     bind_outcome (get_text r 3) (\<lambda>ty. bind_outcome (get_text r 4) (\<lambda>kw. bind_outcome (get_int r 5) (\<lambda>d.
     Ret \<lparr>hierarchy_id = i, hierarchy_parent_id = pid, hierarchy_name = nm, hierarchy_org_type = ty, hierarchy_keywords = kw, depth = d\<rparr>))))))"

definition hierarchy :: "'db server \<Rightarrow> nat \<Rightarrow> string \<Rightarrow> 'db connection \<Rightarrow> OrgHierarchyDTO list outcome \<times> 'db connection" where
  "hierarchy sv pos loc =
     with_session sv pos [] loc
       (exec_rows sv OrgHierarchyDTO_of_row
         (Select [Col ''id'', int_or_zero ''parent_id'', Col ''name'', Col ''org_type'', text_or_empty ''keywords'', Col ''depth'']
            (Func ''fn_org_hierarchy'' [Param ''loc'']) CTrue [] None)
         [(''loc'', SText loc)])"

definition find_children :: "'db server \<Rightarrow> nat \<Rightarrow> int64 \<Rightarrow> 'db connection \<Rightarrow> OrgUnitDTO list outcome \<times> 'db connection" where
  "find_children sv pos parent =
     with_session sv pos [] []
       (exec_rows sv OrgUnitDTO_of_row
         (Select org_columns (Table ''t_orgunit'') (Eq (Col ''parent_id'') (Param ''pid'')) [(''id'', False)] None)
         [(''pid'', use_int64 parent)])"

section \<open>Units and rows\<close>

definition org_values :: "OrgUnitDTO \<Rightarrow> (string \<times> sqlval) list" where
  "org_values u =
     [(''parent_id'', opt_ref (parent_id u)), (''org_type'', SText (org_type u)), (''federal_tax_id'', opt_text (org_federal_tax_id u)),
      (''is_active'', SBool (org_is_active u)), (''keywords'', opt_text (org_keywords u))]"

lemma org_reads:
  assumes "row_of (org_values u) (org_id u) row"
  shows "\<exists>ws. project env b org_columns row = Ret ws \<and> OrgUnitDTO_of_row ws = Ret u"
proof -
  let ?ws = "[SInt (sint (org_id u)), SInt (sint (parent_id u)), SText (org_type u), SText (org_federal_tax_id u), SBool (org_is_active u),
      SText (org_keywords u)]"
  have "project env b org_columns row = Ret ?ws"
    using assms by (simp add: row_of_def org_values_def org_columns_def project_Cons project_Nil sql_simps)
  moreover have "OrgUnitDTO_of_row ?ws = Ret u" by (simp add: OrgUnitDTO_of_row_def get_simps)
  ultimately show ?thesis by blast
qed

interpretation org: dto org_values org_id org_columns OrgUnitDTO_of_row "\<lambda>i u. u\<lparr>org_id := i\<rparr>"
  by unfold_locales (simp_all add: org_reads org_values_def)

abbreviation orgs_in :: "tables \<Rightarrow> OrgUnitDTO list \<Rightarrow> bool" where
  "orgs_in db us \<equiv> table_of org_values org_id (db ''t_orgunit'') us"

lemma org_cols_ok: "cols_ok (org_assignments e)"
  by (simp add: cols_ok_def org_assignments_def)

text \<open>Both statements write the same values: the parent 0 is \<open>NULL\<close>.\<close>

lemma org_stored:
  assumes "kept env t (org_values u)"
  shows "parent_id u = 0 \<Longrightarrow> stored env t (org_binds u @ b) (org_assignments (Lit SNull)) = Ret (org_values u)"
    and "parent_id u \<noteq> 0 \<Longrightarrow>
      stored env t ((''parent_id'', use_int64 (parent_id u)) # org_binds u @ b) (org_assignments (Param ''parent_id'')) = Ret (org_values u)"
  using assms
  by (simp_all add: kept_def org_values_def org_assignments_def org_binds_def stored_Cons stored_Nil store_val_Ret eval_null_if_empty eval_bool
      use_int64_def opt_ref_def)

lemma org_insert_call:
  assumes "sql_server env sv rows" "\<forall>s db. answer_set sv s db = None" "orgs_in (rows (database c)) us"
    "fits env (rows (database c)) ''t_orgunit'' (org_values u)"
  shows "\<exists>i c'. OrgDAO_insert sv pos u username c = (Ret i, c') \<and> i \<noteq> 0 \<and> i \<notin> org_id ` set us
    \<and> orgs_in (rows (database c')) (us @ [u\<lparr>org_id := i\<rparr>]) \<and> others_kept env ''t_orgunit'' (rows (database c)) (rows (database c'))"
proof -
  have kept: "kept env ''t_orgunit'' (org_values u)" using assms(4) by (simp add: fits_def)
  note call = org.insert_call [OF assms(1-3) org_cols_ok _ assms(4), of _ _ pos username "[]"]
  show ?thesis
  proof (cases "parent_id u = 0")
    case True
    from call [OF org_stored(1) [OF kept True, of "[]"]] True show ?thesis by (simp add: OrgDAO_insert_def)
  next
    case False
    from call [OF org_stored(2) [OF kept False, of "[]"]] False show ?thesis by (simp add: OrgDAO_insert_def)
  qed
qed

lemma org_update_call:
  assumes "sql_server env sv rows" "\<forall>s db. answer_set sv s db = None" "orgs_in (rows (database c)) us"
    "kept env ''t_orgunit'' (org_values u)" "\<not> pg_log env ''t_orgunit''"
    "pg_accepts env (rows (database c)) ''t_orgunit'' (filter (\<lambda>r. r ''id'' = SInt (sint (org_id u))) (rows (database c) ''t_orgunit'')) (org_values u)"
  shows "\<exists>c'. OrgDAO_update sv pos u username c = (Ret (org_id u \<in> org_id ` set us), c')
    \<and> orgs_in (rows (database c')) (map (\<lambda>v. if org_id v = org_id u then u else v) us)
    \<and> others_kept env ''t_orgunit'' (rows (database c)) (rows (database c'))"
proof (cases "parent_id u = 0")
  case True
  have "map_of (org_binds u @ [(''id'', use_int64 (org_id u))]) ''id'' = Some (use_int64 (org_id u))" by (simp add: org_binds_def)
  from org.update_call [OF assms(1-3) org_cols_ok org_stored(1) [OF assms(4) True] this assms(5,6), of pos username "[]"] True
  show ?thesis by (simp add: OrgDAO_update_def)
next
  case False
  have "map_of ((''parent_id'', use_int64 (parent_id u)) # org_binds u @ [(''id'', use_int64 (org_id u))]) ''id'' = Some (use_int64 (org_id u))"
    by (simp add: org_binds_def)
  from org.update_call [OF assms(1-3) org_cols_ok org_stored(2) [OF assms(4) False] this assms(5,6), of pos username "[]"] False
  show ?thesis by (simp add: OrgDAO_update_def)
qed

text \<open>
  The table of organizational units is a list of units. \<open>insert\<close> appends the unit under a new id, and
  \<open>update\<close> replaces the unit with its id and says whether there is one, in both the parent 0 standing for a
  root. \<open>find_by_id\<close> gives the unit with this id, \<open>find_children\<close> exactly the units with this parent in the
  order of their ids (none for the parent 0, although roots are read back with it). \<open>remove\<close> leaves
  exactly the units with other ids.
\<close>

theorem org_table:
  assumes "sql_server env sv rows" "\<forall>s db. answer_set sv s db = None" "orgs_in (rows (database c)) us" "distinct (map org_id us)"
    "fits env (rows (database c)) ''t_orgunit'' (org_values u)"
    "pg_accepts env (rows (database c)) ''t_orgunit'' (filter (\<lambda>r. r ''id'' = SInt (sint (org_id u))) (rows (database c) ''t_orgunit'')) (org_values u)"
    "pg_keeps env (rows (database c)) ''t_orgunit'' (SInt (sint i))"
  shows "(\<exists>k c'. OrgDAO_insert sv pos u username c = (Ret k, c') \<and> k \<noteq> 0 \<and> k \<notin> org_id ` set us
        \<and> orgs_in (rows (database c')) (us @ [u\<lparr>org_id := k\<rparr>]) \<and> others_kept env ''t_orgunit'' (rows (database c)) (rows (database c')))
    \<and> (\<exists>c'. OrgDAO_update sv pos u username c = (Ret (org_id u \<in> org_id ` set us), c')
        \<and> orgs_in (rows (database c')) (map (\<lambda>v. if org_id v = org_id u then u else v) us)
        \<and> others_kept env ''t_orgunit'' (rows (database c)) (rows (database c')))
    \<and> (\<exists>c'. OrgDAO_find_by_id sv pos i c = (Ret (find (\<lambda>v. org_id v = i) us), c') \<and> rows (database c') = rows (database c))
    \<and> (\<exists>vs c'. find_children sv pos p c = (Ret vs, c') \<and> mset vs = mset (filter (\<lambda>v. parent_id v = p \<and> p \<noteq> 0) us)
        \<and> sorted_wrt (\<lambda>v w. sint (org_id v) \<le> sint (org_id w)) vs \<and> rows (database c') = rows (database c))
    \<and> (\<exists>c'. OrgDAO_remove sv pos i username c = (Ret (i \<in> org_id ` set us), c')
        \<and> map (\<lambda>r. r ''id'') (rows (database c') ''t_orgunit'') = map (\<lambda>v. SInt (sint (org_id v))) (filter (\<lambda>v. org_id v \<noteq> i) us))"
proof (intro conjI)
  have fit: "kept env ''t_orgunit'' (org_values u)" "\<not> pg_log env ''t_orgunit''" using assms(5) by (simp_all add: fits_def)
  show "\<exists>k c'. OrgDAO_insert sv pos u username c = (Ret k, c') \<and> k \<noteq> 0 \<and> k \<notin> org_id ` set us
        \<and> orgs_in (rows (database c')) (us @ [u\<lparr>org_id := k\<rparr>]) \<and> others_kept env ''t_orgunit'' (rows (database c)) (rows (database c'))"
    by (rule org_insert_call [OF assms(1-3,5)])
  show "\<exists>c'. OrgDAO_update sv pos u username c = (Ret (org_id u \<in> org_id ` set us), c')
        \<and> orgs_in (rows (database c')) (map (\<lambda>v. if org_id v = org_id u then u else v) us)
        \<and> others_kept env ''t_orgunit'' (rows (database c)) (rows (database c'))"
    by (rule org_update_call [OF assms(1-3) fit assms(6)])
  show "\<exists>c'. OrgDAO_find_by_id sv pos i c = (Ret (find (\<lambda>v. org_id v = i) us), c') \<and> rows (database c') = rows (database c)"
    unfolding OrgDAO_find_by_id_def by (rule org.find_call [OF assms(1-4)])
  show "\<exists>vs c'. find_children sv pos p c = (Ret vs, c') \<and> mset vs = mset (filter (\<lambda>v. parent_id v = p \<and> p \<noteq> 0) us)
        \<and> sorted_wrt (\<lambda>v w. sint (org_id v) \<le> sint (org_id w)) vs \<and> rows (database c') = rows (database c)"
    unfolding find_children_def
    by (rule org.select_call [OF assms(1-3)])
       (auto simp: row_of_def org_values_def use_int64_def opt_ref_def dest: signed_word_eqI split: if_splits)
  show "\<exists>c'. OrgDAO_remove sv pos i username c = (Ret (i \<in> org_id ` set us), c')
        \<and> map (\<lambda>r. r ''id'') (rows (database c') ''t_orgunit'') = map (\<lambda>v. SInt (sint (org_id v))) (filter (\<lambda>v. org_id v \<noteq> i) us)"
    using org.remove_call [OF assms(1-3,7), of pos username "[]"] unfolding OrgDAO_remove_def by blast
qed

theorem org_table_witness:
  "\<exists>k c'. OrgDAO_insert (ref_server ref_pg) 0 (OrgUnitDTO_default\<lparr>parent_id := 4, org_type := ''Team''\<rparr>) ''admin'' empty_connection = (Ret k, c')
     \<and> k \<noteq> 0 \<and> orgs_in (database c') [OrgUnitDTO_default\<lparr>org_id := k, parent_id := 4, org_type := ''Team''\<rparr>]"
  using org_table [OF ref_server_laws ref_answers, of empty_connection "[]" "OrgUnitDTO_default\<lparr>parent_id := 4, org_type := ''Team''\<rparr>" 1 0 "''admin''" 4]
  by (simp add: OrgUnitDTO_default_def) blast

end
