(* ===== verification/Role_Dao.thy ===== *)
theory Role_Dao
  imports Dao
begin

text \<open>contact/data/role\_dao.hpp: roles, the relations of persons to organizations, and the roles of persons.\<close>

section \<open>Roles\<close>

record RoleDTO =
  role_id :: int64
  role_org_unit_id :: int64
  role_is_active :: bool

definition RoleDTO_default :: RoleDTO where
  "RoleDTO_default = \<lparr>role_id = 0, role_org_unit_id = 0, role_is_active = True\<rparr>"

record LocalizedRoleDTO =
  localized_role_id :: int64
  localized_role_role_id :: int64
  localized_role_locale_id :: int16
  localized_role_name :: string
  localized_role_description :: string

definition insert_role :: "'db server \<Rightarrow> nat \<Rightarrow> RoleDTO \<Rightarrow> string \<Rightarrow> 'db connection \<Rightarrow> int64 outcome \<times> 'db connection" where
  "insert_role sv pos r username =
     with_session sv pos username []
       (if role_org_unit_id r = 0 then
          exec_new_id sv (Insert ''t_role'' [(''org_unit_id'', Lit SNull), (''is_active'', bool_param ''active'')])
            [(''active'', use_bool (role_is_active r))]
        else
          exec_new_id sv (Insert ''t_role'' [(''org_unit_id'', Param ''oid''), (''is_active'', bool_param ''active'')])
            [(''oid'', use_int64 (role_org_unit_id r)), (''active'', use_bool (role_is_active r))])"

definition insert_localized_role :: "'db server \<Rightarrow> nat \<Rightarrow> LocalizedRoleDTO \<Rightarrow> string \<Rightarrow> 'db connection \<Rightarrow> int64 outcome \<times> 'db connection" where
  "insert_localized_role sv pos lr username =
     with_session sv pos username []
       (exec_new_id sv (Insert ''t_localizedrole''
            [(''role_id'', Param ''rid''), (''locale_id'', Param ''lid''), (''name'', Param ''name''), (''description'', null_if_empty ''desc'')])
          [(''rid'', use_int64 (localized_role_role_id lr)), (''lid'', use_int16 (localized_role_locale_id lr)),
           (''name'', SText (localized_role_name lr)), (''desc'', SText (localized_role_description lr))])"

definition role_columns :: "expr list" where
  "role_columns = [Col ''id'', int_or_zero ''org_unit_id'', Col ''is_active'']"

definition RoleDTO_of_row :: "sqlval list \<Rightarrow> RoleDTO outcome" where
  "RoleDTO_of_row r =
     bind_outcome (get_int64 r 0) (\<lambda>i. bind_outcome (get_int64 r 1) (\<lambda>oid. bind_outcome (get_bool r 2) (\<lambda>act.
     Ret \<lparr>role_id = i, role_org_unit_id = oid, role_is_active = act\<rparr>)))"

definition find_role_by_id :: "'db server \<Rightarrow> nat \<Rightarrow> int64 \<Rightarrow> 'db connection \<Rightarrow> RoleDTO option outcome \<times> 'db connection" where
  "find_role_by_id sv pos i =
     with_session sv pos [] []
       (exec_row sv RoleDTO_of_row (Select role_columns (Table ''t_role'') by_id [] None) [(''id'', use_int64 i)])"

definition remove_role :: "'db server \<Rightarrow> nat \<Rightarrow> int64 \<Rightarrow> string \<Rightarrow> 'db connection \<Rightarrow> bool outcome \<times> 'db connection" where
  "remove_role sv pos i username =
     with_session sv pos username [] (exec_got_data sv (Delete ''t_role'' by_id) [(''id'', use_int64 i)])"

section \<open>Relations of persons to organizations\<close>

record PersonOrgRelationDTO =
  relation_id :: int64
  relation_person_id :: int64
  relation_org_unit_id :: int64
  relationship :: string
  start_date :: string
  relation_end_date :: string
  relation_is_active :: bool

definition relation_assignments :: "(string \<times> expr) list" where
  "relation_assignments =
     [(''person_id'', Param ''pid''), (''org_unit_id'', Param ''oid''), (''relationship'', Cast (Param ''rel'') ''relationship_type''),
      (''start_date'', Cast (Param ''sd'') ''date''), (''end_date'', date_param ''ed''), (''is_active'', bool_param ''active'')]"

definition relation_binds :: "PersonOrgRelationDTO \<Rightarrow> binds" where
  "relation_binds p =
     [(''pid'', use_int64 (relation_person_id p)), (''oid'', use_int64 (relation_org_unit_id p)), (''rel'', SText (relationship p)),
      (''sd'', SText (start_date p)), (''ed'', SText (relation_end_date p)), (''active'', use_bool (relation_is_active p))]"

definition insert_person_org_relation :: "'db server \<Rightarrow> nat \<Rightarrow> PersonOrgRelationDTO \<Rightarrow> string \<Rightarrow> 'db connection \<Rightarrow> int64 outcome \<times> 'db connection" where
  "insert_person_org_relation sv pos p username =
     with_session sv pos username [] (exec_new_id sv (Insert ''t_personorgrelation'' relation_assignments) (relation_binds p))"

definition relation_columns :: "expr list" where
  "relation_columns =
     [Col ''id'', Col ''person_id'', Col ''org_unit_id'', Cast (Col ''relationship'') ''text'', Cast (Col ''start_date'') ''text'',
      date_text ''end_date'', Col ''is_active'']"

definition PersonOrgRelationDTO_of_row :: "sqlval list \<Rightarrow> PersonOrgRelationDTO outcome" where
  "PersonOrgRelationDTO_of_row r =
     bind_outcome (get_int64 r 0) (\<lambda>i. bind_outcome (get_int64 r 1) (\<lambda>pid. bind_outcome (get_int64 r 2) (\<lambda>oid.
     bind_outcome (get_text r 3) (\<lambda>rel. bind_outcome (get_text r 4) (\<lambda>sd. bind_outcome (get_text r 5) (\<lambda>ed.
     bind_outcome (get_bool r 6) (\<lambda>act.
     Ret \<lparr>relation_id = i, relation_person_id = pid, relation_org_unit_id = oid, relationship = rel, start_date = sd,
       relation_end_date = ed, relation_is_active = act\<rparr>)))))))"

definition relations_for_person :: "'db server \<Rightarrow> nat \<Rightarrow> int64 \<Rightarrow> 'db connection \<Rightarrow> PersonOrgRelationDTO list outcome \<times> 'db connection" where
  "relations_for_person sv pos person =
     with_session sv pos [] []
       (exec_rows sv PersonOrgRelationDTO_of_row
         (Select relation_columns (Table ''t_personorgrelation'') (Eq (Col ''person_id'') (Param ''pid'')) [(''start_date'', True)] None)
         [(''pid'', use_int64 person)])"

section \<open>Roles of persons\<close>

record PersonRoleDTO =
  person_role_id :: int64
  person_role_person_id :: int64
  person_role_role_id :: int64
  assigned_date :: string
  person_role_end_date :: string
  is_primary :: bool

definition PersonRoleDTO_default :: PersonRoleDTO where
  "PersonRoleDTO_default = \<lparr>person_role_id = 0, person_role_person_id = 0, person_role_role_id = 0, assigned_date = [],
     person_role_end_date = [], is_primary = False\<rparr>"

definition assigned_date_expr :: expr where
  "assigned_date_expr = Cast (Coalesce (null_if_empty ''ad'') (Cast CurrentDate ''text'')) ''date''"

definition person_role_assignments :: "(string \<times> expr) list" where
  "person_role_assignments =
     [(''person_id'', Param ''pid''), (''role_id'', Param ''rid''), (''assigned_date'', assigned_date_expr), (''end_date'', date_param ''ed''),
      (''is_primary'', bool_param ''primary'')]"

definition person_role_binds :: "PersonRoleDTO \<Rightarrow> binds" where
  "person_role_binds p =
     [(''pid'', use_int64 (person_role_person_id p)), (''rid'', use_int64 (person_role_role_id p)), (''ad'', SText (assigned_date p)),
      (''ed'', SText (person_role_end_date p)), (''primary'', use_bool (is_primary p))]"

definition assign_role :: "'db server \<Rightarrow> nat \<Rightarrow> PersonRoleDTO \<Rightarrow> string \<Rightarrow> 'db connection \<Rightarrow> int64 outcome \<times> 'db connection" where
  "assign_role sv pos p username =
     with_session sv pos username [] (exec_new_id sv (Insert ''t_personrole'' person_role_assignments) (person_role_binds p))"

definition person_role_columns :: "expr list" where
  "person_role_columns =
     [Col ''id'', Col ''person_id'', Col ''role_id'', Cast (Col ''assigned_date'') ''text'', date_text ''end_date'', Col ''is_primary'']"

definition PersonRoleDTO_of_row :: "sqlval list \<Rightarrow> PersonRoleDTO outcome" where
  "PersonRoleDTO_of_row r =
     bind_outcome (get_int64 r 0) (\<lambda>i. bind_outcome (get_int64 r 1) (\<lambda>pid. bind_outcome (get_int64 r 2) (\<lambda>rid.
     bind_outcome (get_text r 3) (\<lambda>ad. bind_outcome (get_text r 4) (\<lambda>ed. bind_outcome (get_bool r 5) (\<lambda>pri.
     Ret \<lparr>person_role_id = i, person_role_person_id = pid, person_role_role_id = rid, assigned_date = ad, person_role_end_date = ed,
       is_primary = pri\<rparr>))))))"

definition roles_for_person :: "'db server \<Rightarrow> nat \<Rightarrow> int64 \<Rightarrow> 'db connection \<Rightarrow> PersonRoleDTO list outcome \<times> 'db connection" where
  "roles_for_person sv pos person =
     with_session sv pos [] []
       (exec_rows sv PersonRoleDTO_of_row
         (Select person_role_columns (Table ''t_personrole'') (Eq (Col ''person_id'') (Param ''pid'')) [(''is_primary'', True), (''id'', False)] None)
         [(''pid'', use_int64 person)])"

definition unassign_role :: "'db server \<Rightarrow> nat \<Rightarrow> int64 \<Rightarrow> string \<Rightarrow> 'db connection \<Rightarrow> bool outcome \<times> 'db connection" where
  "unassign_role sv pos i username =
     with_session sv pos username [] (exec_got_data sv (Delete ''t_personrole'' by_id) [(''id'', use_int64 i)])"

section \<open>Objects and rows\<close>

definition role_values :: "RoleDTO \<Rightarrow> (string \<times> sqlval) list" where
  "role_values r = [(''org_unit_id'', opt_ref (role_org_unit_id r)), (''is_active'', SBool (role_is_active r))]"

definition relation_values :: "PersonOrgRelationDTO \<Rightarrow> (string \<times> sqlval) list" where
  "relation_values p =
     [(''person_id'', SInt (sint (relation_person_id p))), (''org_unit_id'', SInt (sint (relation_org_unit_id p))),
      (''relationship'', SText (relationship p)), (''start_date'', SDate (start_date p)), (''end_date'', opt_date (relation_end_date p)),
      (''is_active'', SBool (relation_is_active p))]"

definition person_role_values :: "PersonRoleDTO \<Rightarrow> (string \<times> sqlval) list" where
  "person_role_values p =
     [(''person_id'', SInt (sint (person_role_person_id p))), (''role_id'', SInt (sint (person_role_role_id p))),
      (''assigned_date'', SDate (assigned_date p)), (''end_date'', opt_date (person_role_end_date p)), (''is_primary'', SBool (is_primary p))]"

text \<open>An assignment without a date is one of today.\<close>

definition dated :: "pg \<Rightarrow> PersonRoleDTO \<Rightarrow> PersonRoleDTO" where
  "dated env p = (if assigned_date p = [] then p\<lparr>assigned_date := pg_today env\<rparr> else p)"

lemma eval_text_cast: "r c = SText s \<Longrightarrow> eval env b r (Cast (Col c) ''text'') = Ret (SText s)"
  "r c = SDate s \<Longrightarrow> eval env b r (Cast (Col c) ''text'') = Ret (SText s)"
  by (simp_all add: cast_val_def)

lemma eval_param_cast: "map_of b x = Some (SText s) \<Longrightarrow> ty \<noteq> ''text'' \<Longrightarrow> pg_cast env ty s = Some v \<Longrightarrow> eval env b r (Cast (Param x) ty) = Ret v"
  by (simp add: cast_val_def)

lemma eval_assigned_date:
  assumes "map_of b ''ad'' = Some (SText (assigned_date p))" "pg_cast env ''date'' (assigned_date (dated env p)) = Some (SDate (assigned_date (dated env p)))"
  shows "eval env b r assigned_date_expr = Ret (SDate (assigned_date (dated env p)))"
  using assms by (cases "assigned_date p = []") (simp_all add: assigned_date_expr_def eval_null_if_empty opt_text_def cast_val_def dated_def)

lemma role_reads:
  assumes "row_of (role_values d) (role_id d) row"
  shows "\<exists>ws. project env b role_columns row = Ret ws \<and> RoleDTO_of_row ws = Ret d"
proof -
  let ?ws = "[SInt (sint (role_id d)), SInt (sint (role_org_unit_id d)), SBool (role_is_active d)]"
  have "project env b role_columns row = Ret ?ws"
    using assms by (simp add: row_of_def role_values_def role_columns_def project_Cons project_Nil sql_simps)
  moreover have "RoleDTO_of_row ?ws = Ret d" by (simp add: RoleDTO_of_row_def get_simps)
  ultimately show ?thesis by blast
qed

lemma relation_reads:
  assumes "row_of (relation_values d) (relation_id d) row"
  shows "\<exists>ws. project env b relation_columns row = Ret ws \<and> PersonOrgRelationDTO_of_row ws = Ret d"
proof -
  let ?ws = "[SInt (sint (relation_id d)), SInt (sint (relation_person_id d)), SInt (sint (relation_org_unit_id d)), SText (relationship d),
      SText (start_date d), SText (relation_end_date d), SBool (relation_is_active d)]"
  have "project env b relation_columns row = Ret ?ws"
    using assms by (simp add: row_of_def relation_values_def relation_columns_def project_Cons project_Nil cast_val_def eval_date_text)
  moreover have "PersonOrgRelationDTO_of_row ?ws = Ret d" by (simp add: PersonOrgRelationDTO_of_row_def get_simps)
  ultimately show ?thesis by blast
qed

lemma person_role_reads:
  assumes "row_of (person_role_values d) (person_role_id d) row"
  shows "\<exists>ws. project env b person_role_columns row = Ret ws \<and> PersonRoleDTO_of_row ws = Ret d"
proof -
  let ?ws = "[SInt (sint (person_role_id d)), SInt (sint (person_role_person_id d)), SInt (sint (person_role_role_id d)),
      SText (assigned_date d), SText (person_role_end_date d), SBool (is_primary d)]"
  have "project env b person_role_columns row = Ret ?ws"
    using assms by (simp add: row_of_def person_role_values_def person_role_columns_def project_Cons project_Nil cast_val_def eval_date_text)
  moreover have "PersonRoleDTO_of_row ?ws = Ret d" by (simp add: PersonRoleDTO_of_row_def get_simps)
  ultimately show ?thesis by blast
qed

interpretation role: dto role_values role_id role_columns RoleDTO_of_row "\<lambda>i d. d\<lparr>role_id := i\<rparr>"
  by unfold_locales (simp_all add: role_reads role_values_def)

interpretation relation: dto relation_values relation_id relation_columns PersonOrgRelationDTO_of_row "\<lambda>i d. d\<lparr>relation_id := i\<rparr>"
  by unfold_locales (simp_all add: relation_reads relation_values_def)

interpretation person_role: dto person_role_values person_role_id person_role_columns PersonRoleDTO_of_row "\<lambda>i d. d\<lparr>person_role_id := i\<rparr>"
  by unfold_locales (simp_all add: person_role_reads person_role_values_def)

lemma relation_stored:
  assumes "kept env t (relation_values d)" "iso_date env (relation_end_date d)" "pg_cast env ''date'' (start_date d) = Some (SDate (start_date d))"
    "pg_cast env ''relationship_type'' (relationship d) = Some (SText (relationship d))"
  shows "stored env t (relation_binds d) relation_assignments = Ret (relation_values d)"
  using assms(1)
  by (simp add: kept_def relation_values_def relation_assignments_def relation_binds_def stored_Cons stored_Nil store_val_Ret eval_bool
      eval_date [OF _ assms(2)] cast_val_def assms(3,4) use_int64_def)

lemma person_role_stored:
  assumes "kept env t (person_role_values (dated env d))" "iso_date env (person_role_end_date d)"
    "pg_cast env ''date'' (assigned_date (dated env d)) = Some (SDate (assigned_date (dated env d)))"
  shows "stored env t (person_role_binds d) person_role_assignments = Ret (person_role_values (dated env d))"
proof -
  have same: "person_role_person_id (dated env d) = person_role_person_id d" "person_role_role_id (dated env d) = person_role_role_id d"
    "person_role_end_date (dated env d) = person_role_end_date d" "is_primary (dated env d) = is_primary d"
    by (simp_all add: dated_def)
  have date: "eval env (person_role_binds d) (\<lambda>_. SNull) assigned_date_expr = Ret (SDate (assigned_date (dated env d)))"
    by (rule eval_assigned_date [OF _ assms(3)]) (simp add: person_role_binds_def)
  show ?thesis
    using assms(1) date
    by (simp add: kept_def person_role_values_def person_role_assignments_def person_role_binds_def stored_Cons stored_Nil store_val_Ret
        eval_bool eval_date [OF _ assms(2)] same use_int64_def)
qed

text \<open>
  The table of roles is a list of roles: \<open>insert_role\<close> appends the role under a new id (the organization 0
  standing for none), \<open>find_role_by_id\<close> gives the role with this id and \<open>remove_role\<close> takes it out.
\<close>

theorem role_table:
  assumes "sql_server env sv rows" "\<forall>s db. answer_set sv s db = None" "table_of role_values role_id (rows (database c) ''t_role'') ds"
    "distinct (map role_id ds)" "fits env (rows (database c)) ''t_role'' (role_values d)" "\<not> pg_self env ''t_role''"
    "pg_keeps env (rows (database c)) ''t_role'' (SInt (sint i))"
  shows "(\<exists>k c'. insert_role sv pos d username c = (Ret k, c') \<and> k \<noteq> 0 \<and> k \<notin> role_id ` set ds
        \<and> table_of role_values role_id (rows (database c') ''t_role'') (ds @ [d\<lparr>role_id := k\<rparr>])
        \<and> others_kept env ''t_role'' (rows (database c)) (rows (database c')))
    \<and> (\<exists>c'. find_role_by_id sv pos i c = (Ret (find (\<lambda>e. role_id e = i) ds), c') \<and> rows (database c') = rows (database c))
    \<and> (\<exists>c'. remove_role sv pos i username c = (Ret (i \<in> role_id ` set ds), c')
        \<and> table_of role_values role_id (rows (database c') ''t_role'') (filter (\<lambda>e. role_id e \<noteq> i) ds))"
proof (intro conjI)
  let ?ces = "\<lambda>e. [(''org_unit_id'', e), (''is_active'', bool_param ''active'')]"
  have kept: "kept env ''t_role'' (role_values d)" using assms(5) by (simp add: fits_def)
  have cols: "cols_ok (?ces e)" for e by (simp add: cols_ok_def)
  note call = role.insert_call [OF assms(1-3) cols _ assms(5), of _ _ pos username "[]"]
  show "\<exists>k c'. insert_role sv pos d username c = (Ret k, c') \<and> k \<noteq> 0 \<and> k \<notin> role_id ` set ds
        \<and> table_of role_values role_id (rows (database c') ''t_role'') (ds @ [d\<lparr>role_id := k\<rparr>])
        \<and> others_kept env ''t_role'' (rows (database c)) (rows (database c'))"
  proof (cases "role_org_unit_id d = 0")
    case True
    then have "stored env ''t_role'' [(''active'', use_bool (role_is_active d))] (?ces (Lit SNull)) = Ret (role_values d)"
      using kept by (simp add: kept_def role_values_def stored_Cons stored_Nil store_val_Ret eval_bool opt_ref_def)
    from call [OF this] True show ?thesis by (simp add: insert_role_def)
  next
    case False
    then have "stored env ''t_role'' [(''oid'', use_int64 (role_org_unit_id d)), (''active'', use_bool (role_is_active d))] (?ces (Param ''oid''))
        = Ret (role_values d)"
      using kept by (simp add: kept_def role_values_def stored_Cons stored_Nil store_val_Ret eval_bool opt_ref_def use_int64_def)
    from call [OF this] False show ?thesis by (simp add: insert_role_def)
  qed
  show "\<exists>c'. find_role_by_id sv pos i c = (Ret (find (\<lambda>e. role_id e = i) ds), c') \<and> rows (database c') = rows (database c)"
    unfolding find_role_by_id_def by (rule role.find_call [OF assms(1-4)])
  show "\<exists>c'. remove_role sv pos i username c = (Ret (i \<in> role_id ` set ds), c')
        \<and> table_of role_values role_id (rows (database c') ''t_role'') (filter (\<lambda>e. role_id e \<noteq> i) ds)"
    using role.remove_call [OF assms(1-3,7), of pos username "[]"] assms(6) unfolding remove_role_def by blast
qed

theorem role_table_witness:
  "\<exists>k c'. insert_role (ref_server ref_pg) 0 RoleDTO_default [] empty_connection = (Ret k, c') \<and> k \<noteq> 0
     \<and> table_of role_values role_id (database c' ''t_role'') [RoleDTO_default\<lparr>role_id := k\<rparr>]"
  using role_table [OF ref_server_laws ref_answers, of empty_connection "[]" RoleDTO_default 1 0 "[]"] by simp blast

text \<open>
  The relations of persons to organizations, and the roles of persons, are lists. A relation whose
  dates and kind the server reads back as they are is appended under a new id; \<open>relations_for_person\<close> gives
  exactly the relations of the person, those that started last first. \<open>assign_role\<close> appends the assignment,
  with today's date where it has none; \<open>roles_for_person\<close> gives exactly the roles of the person, primary ones
  first and then by id, and \<open>unassign_role\<close> takes out the assignment with this id.
\<close>

theorem person_roles_and_relations:
  assumes "sql_server env sv rows" "\<forall>s db. answer_set sv s db = None"
    "table_of relation_values relation_id (rows (database c) ''t_personorgrelation'') rels"
    "fits env (rows (database c)) ''t_personorgrelation'' (relation_values rel)" "iso_date env (relation_end_date rel)"
    "pg_cast env ''date'' (start_date rel) = Some (SDate (start_date rel))"
    "pg_cast env ''relationship_type'' (relationship rel) = Some (SText (relationship rel))"
    "table_of person_role_values person_role_id (rows (database c) ''t_personrole'') ds"
    "fits env (rows (database c)) ''t_personrole'' (person_role_values (dated env d))" "iso_date env (person_role_end_date d)"
    "pg_cast env ''date'' (assigned_date (dated env d)) = Some (SDate (assigned_date (dated env d)))"
    "\<not> pg_self env ''t_personrole''" "pg_keeps env (rows (database c)) ''t_personrole'' (SInt (sint i))"
  shows "(\<exists>k c'. insert_person_org_relation sv pos rel username c = (Ret k, c') \<and> k \<noteq> 0 \<and> k \<notin> relation_id ` set rels
        \<and> table_of relation_values relation_id (rows (database c') ''t_personorgrelation'') (rels @ [rel\<lparr>relation_id := k\<rparr>])
        \<and> others_kept env ''t_personorgrelation'' (rows (database c)) (rows (database c')))
    \<and> (\<exists>es c'. relations_for_person sv pos p c = (Ret es, c') \<and> mset es = mset (filter (\<lambda>e. relation_person_id e = p) rels)
        \<and> sorted_wrt (\<lambda>e f. start_date e = start_date f \<or> pg_date_le env (start_date f) (start_date e)) es \<and> rows (database c') = rows (database c))
    \<and> (\<exists>k c'. assign_role sv pos d username c = (Ret k, c') \<and> k \<noteq> 0 \<and> k \<notin> person_role_id ` set ds
        \<and> table_of person_role_values person_role_id (rows (database c') ''t_personrole'') (ds @ [(dated env d)\<lparr>person_role_id := k\<rparr>])
        \<and> others_kept env ''t_personrole'' (rows (database c)) (rows (database c')))
    \<and> (\<exists>es c'. roles_for_person sv pos p c = (Ret es, c') \<and> mset es = mset (filter (\<lambda>e. person_role_person_id e = p) ds)
        \<and> sorted_wrt (\<lambda>e f. if is_primary e = is_primary f then sint (person_role_id e) \<le> sint (person_role_id f) else is_primary e) es
        \<and> rows (database c') = rows (database c))
    \<and> (\<exists>c'. unassign_role sv pos i username c = (Ret (i \<in> person_role_id ` set ds), c')
        \<and> table_of person_role_values person_role_id (rows (database c') ''t_personrole'') (filter (\<lambda>e. person_role_id e \<noteq> i) ds))"
proof (intro conjI)
  have kept: "kept env ''t_personorgrelation'' (relation_values rel)" "kept env ''t_personrole'' (person_role_values (dated env d))"
    using assms(4,9) by (simp_all add: fits_def)
  have cols: "cols_ok relation_assignments" "cols_ok person_role_assignments"
    by (simp_all add: cols_ok_def relation_assignments_def person_role_assignments_def)
  show "\<exists>k c'. insert_person_org_relation sv pos rel username c = (Ret k, c') \<and> k \<noteq> 0 \<and> k \<notin> relation_id ` set rels
        \<and> table_of relation_values relation_id (rows (database c') ''t_personorgrelation'') (rels @ [rel\<lparr>relation_id := k\<rparr>])
        \<and> others_kept env ''t_personorgrelation'' (rows (database c)) (rows (database c'))"
    unfolding insert_person_org_relation_def
    by (rule relation.insert_call [OF assms(1-3) cols(1) relation_stored [OF kept(1) assms(5-7)] assms(4)])
  show "\<exists>es c'. relations_for_person sv pos p c = (Ret es, c') \<and> mset es = mset (filter (\<lambda>e. relation_person_id e = p) rels)
        \<and> sorted_wrt (\<lambda>e f. start_date e = start_date f \<or> pg_date_le env (start_date f) (start_date e)) es \<and> rows (database c') = rows (database c)"
    unfolding relations_for_person_def
    by (rule relation.select_call [OF assms(1-3)])
       (auto simp: row_of_def relation_values_def use_int64_def dest: signed_word_eqI split: if_splits)
  show "\<exists>k c'. assign_role sv pos d username c = (Ret k, c') \<and> k \<noteq> 0 \<and> k \<notin> person_role_id ` set ds
        \<and> table_of person_role_values person_role_id (rows (database c') ''t_personrole'') (ds @ [(dated env d)\<lparr>person_role_id := k\<rparr>])
        \<and> others_kept env ''t_personrole'' (rows (database c)) (rows (database c'))"
    unfolding assign_role_def
    by (rule person_role.insert_call [OF assms(1,2,8) cols(2) person_role_stored [OF kept(2) assms(10,11)] assms(9)])
  show "\<exists>es c'. roles_for_person sv pos p c = (Ret es, c') \<and> mset es = mset (filter (\<lambda>e. person_role_person_id e = p) ds)
        \<and> sorted_wrt (\<lambda>e f. if is_primary e = is_primary f then sint (person_role_id e) \<le> sint (person_role_id f) else is_primary e) es
        \<and> rows (database c') = rows (database c)"
    unfolding roles_for_person_def
    by (rule person_role.select_call [OF assms(1,2,8)])
       (auto simp: row_of_def person_role_values_def use_int64_def dest: signed_word_eqI split: if_splits)
  show "\<exists>c'. unassign_role sv pos i username c = (Ret (i \<in> person_role_id ` set ds), c')
        \<and> table_of person_role_values person_role_id (rows (database c') ''t_personrole'') (filter (\<lambda>e. person_role_id e \<noteq> i) ds)"
    using person_role.remove_call [OF assms(1,2,8,13), of pos username "[]"] assms(12) unfolding unassign_role_def by blast
qed

theorem person_roles_and_relations_witness:
  "\<exists>k c'. assign_role (ref_server ref_pg) 0 PersonRoleDTO_default [] empty_connection = (Ret k, c') \<and> k \<noteq> 0
     \<and> table_of person_role_values person_role_id (database c' ''t_personrole'')
         [PersonRoleDTO_default\<lparr>person_role_id := k, assigned_date := ''2026-01-01''\<rparr>]"
proof -
  let ?rel = "\<lparr>relation_id = 0, relation_person_id = 1, relation_org_unit_id = 2, relationship = ''Employee'', start_date = ''2025-03-01'',
      relation_end_date = [], relation_is_active = True\<rparr>"
  have casts: "pg_cast ref_pg ''date'' s = Some (SDate s)" "pg_cast ref_pg ''relationship_type'' s = Some (SText s)" for s
    by (simp_all add: ref_pg_def)
  have dated: "dated ref_pg PersonRoleDTO_default = PersonRoleDTO_default\<lparr>assigned_date := ''2026-01-01''\<rparr>"
    by (simp add: dated_def PersonRoleDTO_default_def ref_pg_def)
  show ?thesis
    using person_roles_and_relations [OF ref_server_laws ref_answers, of empty_connection "[]" ?rel "[]" PersonRoleDTO_default 1 0 "[]" 1]
    by (simp add: casts dated) (auto simp: PersonRoleDTO_default_def)
qed

end
