(* ===== verification/Locale_Dao.thy ===== *)
theory Locale_Dao
  imports Dao
begin

text \<open>contact/data/locale\_dao.hpp: the table of locales.\<close>

section \<open>The data access object\<close>

record LocaleDTO =
  locale_id :: int16
  locale_code :: string
  is_default :: bool

definition locale_columns :: "expr list" where
  "locale_columns = [Col ''id'', Col ''code'', Col ''is_default'']"

definition LocaleDTO_of_row :: "sqlval list \<Rightarrow> LocaleDTO outcome" where
  "LocaleDTO_of_row r =
     bind_outcome (get_int16 r 0) (\<lambda>i. bind_outcome (get_text r 1) (\<lambda>code. bind_outcome (get_bool r 2) (\<lambda>def.
     Ret \<lparr>locale_id = i, locale_code = code, is_default = def\<rparr>)))"

definition LocaleDAO_list_all :: "'db server \<Rightarrow> nat \<Rightarrow> 'db connection \<Rightarrow> LocaleDTO list outcome \<times> 'db connection" where
  "LocaleDAO_list_all sv pos =
     with_session sv pos [] [] (exec_rows sv LocaleDTO_of_row (Select locale_columns (Table ''t_locale'') CTrue [(''id'', False)] None) [])"

definition find_by_code :: "'db server \<Rightarrow> nat \<Rightarrow> string \<Rightarrow> 'db connection \<Rightarrow> LocaleDTO option outcome \<times> 'db connection" where
  "find_by_code sv pos cd =
     with_session sv pos [] []
       (exec_row sv LocaleDTO_of_row (Select locale_columns (Table ''t_locale'') (Eq (Col ''code'') (Param ''c'')) [] None) [(''c'', SText cd)])"

text \<open>\<open>get_default\<close> does not read the third column: it is \<open>TRUE\<close> in every row selected.\<close>

definition default_of_row :: "sqlval list \<Rightarrow> LocaleDTO outcome" where
  "default_of_row r =
     bind_outcome (get_int16 r 0) (\<lambda>i. bind_outcome (get_text r 1) (\<lambda>code.
     Ret \<lparr>locale_id = i, locale_code = code, is_default = True\<rparr>))"

definition get_default :: "'db server \<Rightarrow> nat \<Rightarrow> 'db connection \<Rightarrow> LocaleDTO option outcome \<times> 'db connection" where
  "get_default sv pos =
     with_session sv pos [] []
       (exec_row sv default_of_row
         (Select locale_columns (Table ''t_locale'') (Eq (Col ''is_default'') (Lit (SBool True))) [] (Some (Lit (SInt 1), Lit (SInt 0)))) [])"

definition refresh_materialized_views :: "'db server \<Rightarrow> nat \<Rightarrow> 'db connection \<Rightarrow> unit outcome \<times> 'db connection" where
  "refresh_materialized_views sv pos =
     with_session sv pos [] [] (\<lambda>se db. case execute sv se (Call ''fn_refresh_locale_mvs'' []) [] db of (r, db') \<Rightarrow> (map_out (\<lambda>_. ()) r, db'))"

section \<open>Locales and rows\<close>

definition locale_values :: "LocaleDTO \<Rightarrow> (string \<times> sqlval) list" where
  "locale_values d = [(''code'', SText (locale_code d)), (''is_default'', SBool (is_default d))]"

definition locale_key :: "LocaleDTO \<Rightarrow> int64" where "locale_key d = scast (locale_id d)"

lemma sint_locale_key [simp]: "sint (locale_key d) = sint (locale_id d)"
  unfolding locale_key_def by (rule sint_up_scast) (simp add: is_up)

lemma locale_project:
  "row_of (locale_values d) (locale_key d) row \<Longrightarrow>
     project env b locale_columns row = Ret [SInt (sint (locale_id d)), SText (locale_code d), SBool (is_default d)]"
  by (simp add: row_of_def locale_values_def locale_columns_def project_Cons project_Nil)

lemma locale_holds:
  "\<forall>r d. row_of (locale_values d) (locale_key d) r \<longrightarrow> (holds env [(''c'', SText cd)] r (Eq (Col ''code'') (Param ''c'')) \<longleftrightarrow> locale_code d = cd)"
  "\<forall>r d. row_of (locale_values d) (locale_key d) r \<longrightarrow> (holds env b r (Eq (Col ''is_default'') (Lit (SBool True))) \<longleftrightarrow> is_default d)"
  by (auto simp: row_of_def locale_values_def)

lemma locale_decodes:
  "\<forall>r d. row_of (locale_values d) (locale_key d) r \<longrightarrow> P d \<longrightarrow> (\<exists>ws. project env b locale_columns r = Ret ws \<and> LocaleDTO_of_row ws = Ret d)"
  "\<forall>r d. row_of (locale_values d) (locale_key d) r \<longrightarrow> is_default d \<longrightarrow> (\<exists>ws. project env b locale_columns r = Ret ws \<and> default_of_row ws = Ret d)"
  by (simp_all add: locale_project LocaleDTO_of_row_def default_of_row_def get_simps)

interpretation loc: readable locale_values locale_key locale_columns LocaleDTO_of_row
  by unfold_locales (simp add: locale_project LocaleDTO_of_row_def get_simps)

abbreviation locales_in :: "tables \<Rightarrow> LocaleDTO list \<Rightarrow> bool" where
  "locales_in db ds \<equiv> table_of locale_values locale_key (db ''t_locale'') ds"

text \<open>
  \<open>list_all\<close> gives all locales by id. When no two have the same code, \<open>find_by_code\<close> gives the one with this
  code if there is one. \<open>get_default\<close> gives a locale that is marked as the default, and none only if no
  locale is marked. None of them changes the tables.
\<close>

theorem locale_lookup:
  assumes "sql_server env sv rows" "\<forall>s db. answer_set sv s db = None" "locales_in (rows (database c)) ds" "distinct (map locale_code ds)"
  shows "(\<exists>es c'. LocaleDAO_list_all sv pos c = (Ret es, c') \<and> mset es = mset ds
        \<and> sorted_wrt (\<lambda>d e. sint (locale_id d) \<le> sint (locale_id e)) es \<and> rows (database c') = rows (database c))
    \<and> (\<exists>c'. find_by_code sv pos cd c = (Ret (find (\<lambda>d. locale_code d = cd) ds), c') \<and> rows (database c') = rows (database c))
    \<and> (\<exists>x c'. get_default sv pos c = (Ret x, c') \<and> rows (database c') = rows (database c)
        \<and> (x = None \<longrightarrow> \<not> (\<exists>d\<in>set ds. is_default d)) \<and> (\<forall>d. x = Some d \<longrightarrow> d \<in> set ds \<and> is_default d))"
proof (intro conjI)
  have all: "\<exists>es c'. LocaleDAO_list_all sv pos c = (Ret es, c') \<and> mset es = mset (filter (\<lambda>_. True) ds)
        \<and> sorted_wrt (\<lambda>d e. sint (locale_id d) \<le> sint (locale_id e)) es \<and> rows (database c') = rows (database c)"
    unfolding LocaleDAO_list_all_def
    by (rule loc.select_call [OF assms(1-3)]) (auto simp: row_of_def split: if_splits)
  then show "\<exists>es c'. LocaleDAO_list_all sv pos c = (Ret es, c') \<and> mset es = mset ds
        \<and> sorted_wrt (\<lambda>d e. sint (locale_id d) \<le> sint (locale_id e)) es \<and> rows (database c') = rows (database c)" by simp
  obtain x c' where x: "find_by_code sv pos cd c = (Ret x, c')" "rows (database c') = rows (database c)"
      "x = None \<longrightarrow> filter (\<lambda>d. locale_code d = cd) ds = []" "\<forall>d. x = Some d \<longrightarrow> d \<in> set (filter (\<lambda>d. locale_code d = cd) ds)"
    unfolding find_by_code_def
    using loc.first_call [OF assms(1-3) locale_holds(1) locale_decodes(1), where lim = None and pos = pos and u = "[]" and l = "[]" and ks = "[]"] by blast
  have "x = find (\<lambda>d. locale_code d = cd) ds"
    using x(3,4) filter_key [OF assms(4), of cd] by (cases x) (auto split: option.splits)
  with x(1,2) show "\<exists>c'. find_by_code sv pos cd c = (Ret (find (\<lambda>d. locale_code d = cd) ds), c') \<and> rows (database c') = rows (database c)"
    by blast
  obtain y c' where y: "get_default sv pos c = (Ret y, c')" "rows (database c') = rows (database c)"
      "y = None \<longrightarrow> filter is_default ds = []" "\<forall>d. y = Some d \<longrightarrow> d \<in> set (filter is_default ds)"
    unfolding get_default_def
    using loc.first_call [OF assms(1-3) locale_holds(2) locale_decodes(2), where lim = "Some (Lit (SInt 1), Lit (SInt 0))" and pos = pos and u = "[]" and l = "[]" and ks = "[]"] by blast
  then show "\<exists>x c'. get_default sv pos c = (Ret x, c') \<and> rows (database c') = rows (database c)
        \<and> (x = None \<longrightarrow> \<not> (\<exists>d\<in>set ds. is_default d)) \<and> (\<forall>d. x = Some d \<longrightarrow> d \<in> set ds \<and> is_default d)"
    by (intro exI [of _ y] exI [of _ c']) (auto simp: filter_empty_conv)
qed

definition pt_BR :: LocaleDTO where "pt_BR = \<lparr>locale_id = 1, locale_code = ''pt-BR'', is_default = True\<rparr>"

definition locale_connection :: "tables connection" where
  "locale_connection = empty_connection\<lparr>database :=
     (\<lambda>_. [])(''t_locale'' := [(fill_row (\<lambda>_. SNull) (locale_values pt_BR))(''id'' := SInt 1)])\<rparr>"

theorem locale_lookup_witness:
  "fst (LocaleDAO_list_all (ref_server ref_pg) 0 locale_connection) = Ret [pt_BR]
   \<and> fst (find_by_code (ref_server ref_pg) 0 ''pt-BR'' locale_connection) = Ret (Some pt_BR)"
proof -
  have "locales_in (database locale_connection) [pt_BR]"
    by (simp add: locale_connection_def table_of_def row_of_def locale_values_def fill_row_def pt_BR_def)
  note lookup = locale_lookup [OF ref_server_laws ref_answers, OF this, of 0 "''pt-BR''"]
  obtain es c' where "LocaleDAO_list_all (ref_server ref_pg) 0 locale_connection = (Ret es, c')" "mset es = mset [pt_BR]"
    using lookup by auto
  moreover have "find (\<lambda>d. locale_code d = ''pt-BR'') [pt_BR] = Some pt_BR" by (simp add: pt_BR_def)
  then obtain c' where "find_by_code (ref_server ref_pg) 0 ''pt-BR'' locale_connection = (Ret (Some pt_BR), c')"
    using lookup by auto
  ultimately show ?thesis by simp
qed

end
