(* ===== verification/Search_Dao.thy ===== *)
theory Search_Dao
  imports Dao
begin

text \<open>
  contact/data/search\_dao.hpp: full-text search. The three functions call functions of the server and decode
  their rows; the rank is a \<open>double\<close> that is cast to \<open>float\<close>.
\<close>

section \<open>The cast from double to float\<close>

text \<open>The bits of IEEE 754: round to nearest, ties to even; too large values become infinite, NaN stays NaN.\<close>

definition round_even :: "nat \<Rightarrow> nat \<Rightarrow> nat" where
  "round_even s k =
     (let q = s div 2 ^ k; r = s mod 2 ^ k; h = 2 ^ (k - 1)
      in if r > h \<or> r = h \<and> odd q then q + 1 else q)"

definition float_of_double :: "64 word \<Rightarrow> 32 word" where
  "float_of_double w =
     (let n = unat w; sign = n div 2 ^ 63 * 2 ^ 31; e = n div 2 ^ 52 mod 2 ^ 11; m = n mod 2 ^ 52
      in word_of_nat (sign +
         (if e = 2047 then 255 * 2 ^ 23 + (if m = 0 then 0 else 2 ^ 22 + m div 2 ^ 29 mod 2 ^ 22)
          else if e = 0 then 0
          else if e \<ge> 897 then min ((e - 897) * 2 ^ 23 + round_even (2 ^ 52 + m) 29) (255 * 2 ^ 23)
          else round_even (2 ^ 52 + m) (29 + (897 - e)))))"

section \<open>The data access object\<close>

record SearchResultDTO =
  entity_type :: string
  entity_id :: int64
  display_name :: string
  result_keywords :: string
  result_rank :: "32 word"

record PersonSearchResultDTO =
  found_person_id :: int64
  found_first_name :: string
  found_last_name :: string
  found_person_keywords :: string
  found_person_rank :: "32 word"

record OrgSearchResultDTO =
  found_org_id :: int64
  found_org_name :: string
  found_org_type :: string
  found_org_keywords :: string
  found_org_rank :: "32 word"

definition search_binds :: "string \<Rightarrow> int \<Rightarrow> string \<Rightarrow> binds" where
  "search_binds query limit ts_config = [(''q'', SText query), (''lim'', SInt limit), (''cfg'', SText ts_config)]"

definition search_function :: "string \<Rightarrow> source" where
  "search_function f = Func f [Param ''q'', Param ''lim'', Cast (Param ''cfg'') ''regconfig'']"

definition PersonSearchResultDTO_of_row :: "sqlval list \<Rightarrow> PersonSearchResultDTO outcome" where
  "PersonSearchResultDTO_of_row r =
     bind_outcome (get_int64 r 0) (\<lambda>i. bind_outcome (get_text r 1) (\<lambda>fn. bind_outcome (get_text r 2) (\<lambda>ln.
     bind_outcome (get_text r 3) (\<lambda>kw. bind_outcome (get_double r 4) (\<lambda>d.
     Ret \<lparr>found_person_id = i, found_first_name = fn, found_last_name = ln, found_person_keywords = kw, found_person_rank = float_of_double d\<rparr>)))))"

definition search_persons :: "'db server \<Rightarrow> nat \<Rightarrow> string \<Rightarrow> int \<Rightarrow> string \<Rightarrow> 'db connection \<Rightarrow> PersonSearchResultDTO list outcome \<times> 'db connection" where
  "search_persons sv pos query limit ts_config =
     with_session sv pos [] []
       (exec_rows sv PersonSearchResultDTO_of_row
         (Select [Col ''id'', Col ''first_name'', Col ''last_name'', text_or_empty ''keywords'', Col ''rank'']
            (search_function ''fn_search_persons'') CTrue [] None)
         (search_binds query limit ts_config))"

definition OrgSearchResultDTO_of_row :: "sqlval list \<Rightarrow> OrgSearchResultDTO outcome" where
  "OrgSearchResultDTO_of_row r =
     bind_outcome (get_int64 r 0) (\<lambda>i. bind_outcome (get_text r 1) (\<lambda>nm. bind_outcome (get_text r 2) (\<lambda>ty.
     bind_outcome (get_text r 3) (\<lambda>kw. bind_outcome (get_double r 4) (\<lambda>d.
     Ret \<lparr>found_org_id = i, found_org_name = nm, found_org_type = ty, found_org_keywords = kw, found_org_rank = float_of_double d\<rparr>)))))"

definition search_orgunits :: "'db server \<Rightarrow> nat \<Rightarrow> string \<Rightarrow> int \<Rightarrow> string \<Rightarrow> 'db connection \<Rightarrow> OrgSearchResultDTO list outcome \<times> 'db connection" where
  "search_orgunits sv pos query limit ts_config =
     with_session sv pos [] []
       (exec_rows sv OrgSearchResultDTO_of_row
         (Select [Col ''id'', Col ''name'', Col ''org_type'', text_or_empty ''keywords'', Col ''rank'']
            (search_function ''fn_search_orgunits'') CTrue [] None)
         (search_binds query limit ts_config))"

definition SearchResultDTO_of_row :: "sqlval list \<Rightarrow> SearchResultDTO outcome" where
  "SearchResultDTO_of_row r =
     bind_outcome (get_text r 0) (\<lambda>ty. bind_outcome (get_int64 r 1) (\<lambda>i. bind_outcome (get_text r 2) (\<lambda>nm.
     bind_outcome (get_text r 3) (\<lambda>kw. bind_outcome (get_double r 4) (\<lambda>d.
     Ret \<lparr>entity_type = ty, entity_id = i, display_name = nm, result_keywords = kw, result_rank = float_of_double d\<rparr>)))))"

definition search_contacts :: "'db server \<Rightarrow> nat \<Rightarrow> string \<Rightarrow> int \<Rightarrow> string \<Rightarrow> 'db connection \<Rightarrow> SearchResultDTO list outcome \<times> 'db connection" where
  "search_contacts sv pos query limit ts_config =
     with_session sv pos [] []
       (exec_rows sv SearchResultDTO_of_row
         (Select [Col ''entity_type'', Col ''entity_id'', Col ''display_name'', text_or_empty ''keywords'', Col ''rank'']
            (search_function ''fn_search_contacts'') CTrue [] None)
         (search_binds query limit ts_config))"

section \<open>A rank that is a float is kept\<close>

text \<open>The bits of the double with the value of a float that is neither subnormal, infinite nor NaN.\<close>

definition double_of_float :: "bool \<Rightarrow> nat \<Rightarrow> nat \<Rightarrow> 64 word" where
  "double_of_float sign e f = word_of_nat ((if sign then 2 ^ 63 else 0) + (e + 896) * 2 ^ 52 + f * 2 ^ 29)"

lemma round_even_exact: "0 < k \<Longrightarrow> round_even (q * 2 ^ k) k = q"
  by (simp add: round_even_def)

lemma unat_of_nat_fits: "n < 2 ^ 64 \<Longrightarrow> unat (word_of_nat n :: 64 word) = n"
  by (simp add: unsigned_of_nat take_bit_nat_eq_self)

lemma fields_of_sum:
  fixes s e m :: nat
  assumes "e < 2048" "m < 2 ^ 52"
  shows "(s * 2 ^ 63 + e * 2 ^ 52 + m) div 2 ^ 63 = s" "(s * 2 ^ 63 + e * 2 ^ 52 + m) div 2 ^ 52 mod 2 ^ 11 = e"
    "(s * 2 ^ 63 + e * 2 ^ 52 + m) mod 2 ^ 52 = m"
proof -
  have n: "s * 2 ^ 63 + e * 2 ^ 52 + m = m + (e + s * 2 ^ 11) * 2 ^ 52" by simp
  have top: "(s * 2 ^ 63 + e * 2 ^ 52 + m) div 2 ^ 52 = e + s * 2 ^ 11" unfolding n using assms(2) by (subst div_mult_self1) simp_all
  show "(s * 2 ^ 63 + e * 2 ^ 52 + m) mod 2 ^ 52 = m" unfolding n using assms(2) by (subst mod_mult_self1) simp
  show "(s * 2 ^ 63 + e * 2 ^ 52 + m) div 2 ^ 52 mod 2 ^ 11 = e" unfolding top using assms(1) by (subst mod_mult_self1) simp
  have "(s * 2 ^ 63 + e * 2 ^ 52 + m) div (2 ^ 52 * 2 ^ 11) = (e + s * 2 ^ 11) div 2 ^ 11" unfolding div_mult2_eq top ..
  also have "\<dots> = s" using assms(1) by (subst div_mult_self1) simp_all
  finally show "(s * 2 ^ 63 + e * 2 ^ 52 + m) div 2 ^ 63 = s" by simp
qed

lemma float_of_widened:
  assumes "0 < e" "e < 255" "f < 2 ^ 23"
  shows "float_of_double (double_of_float sign e f) = word_of_nat ((if sign then 2 ^ 31 else 0) + e * 2 ^ 23 + f)"
proof -
  define s where "s = (if sign then 1 else 0 :: nat)"
  let ?n = "s * 2 ^ 63 + (e + 896) * 2 ^ 52 + f * 2 ^ 29"
  have m: "f * 2 ^ 29 < 2 ^ 52" using assms(3) by simp
  have e: "e + 896 < 2048" using assms(2) by simp
  have "?n < 2 ^ 64" using m e by (simp add: s_def)
  then have "unat (word_of_nat ?n :: 64 word) = ?n"
    by (rule unat_of_nat_fits)
  moreover have "double_of_float sign e f = word_of_nat ?n" unfolding double_of_float_def s_def by (cases sign) simp_all
  ultimately have n: "unat (double_of_float sign e f) = ?n" by simp
  have round: "round_even (2 ^ 52 + f * 2 ^ 29) 29 = 2 ^ 23 + f"
    using round_even_exact [of 29 "2 ^ 23 + f"] by (simp add: algebra_simps)
  have c: "e + 896 \<noteq> 2047" "e + 896 \<noteq> 0" "e + 896 \<ge> 897" using assms(1,2) by simp_all
  have "min ((e + 896 - 897) * 2 ^ 23 + (2 ^ 23 + f)) (255 * 2 ^ 23) = e * 2 ^ 23 + f"
  proof -
    have "(e + 896 - 897) * 2 ^ 23 + (2 ^ 23 + f) = e * 2 ^ 23 + f" using assms(1) by (cases e) simp_all
    then show ?thesis using assms by simp
  qed
  then have "float_of_double (double_of_float sign e f) = word_of_nat (s * 2 ^ 31 + (e * 2 ^ 23 + f))"
    using c by (simp only: float_of_double_def Let_def n fields_of_sum [OF e m] round if_False if_True)
  also have "s * 2 ^ 31 + (e * 2 ^ 23 + f) = (if sign then 2 ^ 31 else 0) + e * 2 ^ 23 + f" by (simp add: s_def)
  finally show ?thesis .
qed

end
