(* ===== verification/Audit_Dao.thy ===== *)
theory Audit_Dao
  imports Dao
begin

text \<open>
  contact/data/audit\_dao.hpp: browsing and purging the audit log. \<open>search\<close> builds the text of its statement
  from its arguments; the other functions call functions of the server.
\<close>

section \<open>The data access object\<close>

record AuditLogDTO =
  source_table :: string
  log_id :: int64
  action :: string
  action_by :: string
  action_at :: string
  old_data :: string
  new_data :: string

record EntityTimestampDTO =
  created_at :: string
  created_by :: string
  updated_at :: string
  updated_by :: string

definition audit_where :: "string \<Rightarrow> string \<Rightarrow> string \<Rightarrow> string \<Rightarrow> string" where
  "audit_where act aby from' to' =
     ''WHERE 1=1''
     @ (if act \<noteq> [] then '' AND action = '' @ [quote] @ act @ [quote] else [])
     @ (if aby \<noteq> [] then '' AND action_by = '' @ [quote] @ aby @ [quote] else [])
     @ (if from' \<noteq> [] then '' AND action_at >= '' @ [quote] @ from' @ [quote] @ ''::timestamptz'' else [])
     @ (if to' \<noteq> [] then '' AND action_at < '' @ [quote] @ to' @ [quote] @ ''::timestamptz'' else [])"

definition audit_query :: "string \<Rightarrow> string \<Rightarrow> string" where
  "audit_query log_table where' =
     ''SELECT log_id, action, action_by, action_at::text, COALESCE(old_data::text,'' @ [quote] @ ''{}'' @ [quote]
     @ ''), COALESCE(new_data::text,'' @ [quote] @ ''{}'' @ [quote] @ '') FROM '' @ log_table @ '' '' @ where' @ '' ORDER BY action_at DESC''"

definition AuditLogDTO_of_row :: "sqlval list \<Rightarrow> AuditLogDTO outcome" where
  "AuditLogDTO_of_row r =
     bind_outcome (get_int64 r 0) (\<lambda>i. bind_outcome (get_text r 1) (\<lambda>act. bind_outcome (get_text r 2) (\<lambda>aby.
     bind_outcome (get_text r 3) (\<lambda>aat. bind_outcome (get_text r 4) (\<lambda>old. bind_outcome (get_text r 5) (\<lambda>new.
     Ret \<lparr>source_table = [], log_id = i, action = act, action_by = aby, action_at = aat, old_data = old, new_data = new\<rparr>))))))"

definition AuditDAO_search :: "'db server \<Rightarrow> nat \<Rightarrow> string \<Rightarrow> string \<Rightarrow> string \<Rightarrow> string \<Rightarrow> string \<Rightarrow> 'db connection
    \<Rightarrow> AuditLogDTO list outcome \<times> 'db connection" where
  "AuditDAO_search sv pos log_table act aby from' to' =
     with_session sv pos [] []
       (exec_rows sv AuditLogDTO_of_row (Raw (audit_query log_table (audit_where act aby from' to'))) [])"

definition source_row :: "sqlval list \<Rightarrow> AuditLogDTO outcome" where
  "source_row r =
     bind_outcome (get_text r 0) (\<lambda>t. bind_outcome (get_int64 r 1) (\<lambda>i. bind_outcome (get_text r 2) (\<lambda>act.
     bind_outcome (get_text r 3) (\<lambda>aby. bind_outcome (get_text r 4) (\<lambda>aat. bind_outcome (get_text r 5) (\<lambda>old.
     bind_outcome (get_text r 6) (\<lambda>new.
     Ret \<lparr>source_table = t, log_id = i, action = act, action_by = aby, action_at = aat, old_data = old, new_data = new\<rparr>)))))))"

definition json_text :: "string \<Rightarrow> expr" where "json_text c = Coalesce (Cast (Col c) ''text'') (Lit (SText ''{}''))"

definition search_all :: "'db server \<Rightarrow> nat \<Rightarrow> string \<Rightarrow> string \<Rightarrow> string \<Rightarrow> string \<Rightarrow> int \<Rightarrow> 'db connection
    \<Rightarrow> AuditLogDTO list outcome \<times> 'db connection" where
  "search_all sv pos act aby from' to' limit =
     with_session sv pos [] []
       (exec_rows sv source_row
         (Select [Col ''source_table'', Col ''log_id'', Col ''action'', Col ''action_by'', Cast (Col ''action_at'') ''text'',
                  json_text ''old_data'', json_text ''new_data'']
            (Func ''fn_search_all_audit_logs'' [Cast (null_if_empty ''act'') ''char'', null_if_empty ''aby'',
               Cast (null_if_empty ''fr'') ''timestamptz'', Cast (null_if_empty ''to2'') ''timestamptz'', Param ''lim''])
            CTrue [] None)
         [(''act'', SText act), (''aby'', SText aby), (''fr'', SText from'), (''to2'', SText to'), (''lim'', SInt limit)])"

definition purge :: "'db server \<Rightarrow> nat \<Rightarrow> string \<Rightarrow> string \<Rightarrow> 'db connection \<Rightarrow> int64 outcome \<times> 'db connection" where
  "purge sv pos log_table before =
     with_session sv pos [] []
       (exec_new_id sv (Call ''fn_purge_audit_log'' [Param ''tbl'', Cast (Param ''before'') ''timestamptz''])
          [(''tbl'', SText log_table), (''before'', SText before)])"

definition EntityTimestampDTO_of_row :: "sqlval list \<Rightarrow> EntityTimestampDTO outcome" where
  "EntityTimestampDTO_of_row r =
     bind_outcome (get_text r 0) (\<lambda>ca. bind_outcome (get_text r 1) (\<lambda>cb. bind_outcome (get_text r 2) (\<lambda>ua. bind_outcome (get_text r 3) (\<lambda>ub.
     Ret \<lparr>created_at = ca, created_by = cb, updated_at = ua, updated_by = ub\<rparr>))))"

definition entity_timestamps :: "'db server \<Rightarrow> nat \<Rightarrow> string \<Rightarrow> int64 \<Rightarrow> 'db connection \<Rightarrow> EntityTimestampDTO option outcome \<times> 'db connection" where
  "entity_timestamps sv pos log_table entity_id =
     with_session sv pos [] []
       (exec_row sv EntityTimestampDTO_of_row
         (Select [date_text ''created_at'', text_or_empty ''created_by'', date_text ''updated_at'', text_or_empty ''updated_by'']
            (Func ''fn_entity_timestamps'' [Param ''tbl'', Param ''eid'']) CTrue [] None)
         [(''tbl'', SText log_table), (''eid'', use_int64 entity_id)])"

section \<open>What the server reads\<close>

text \<open>
  The string constants of a statement as PostgreSQL reads it, in their order: quoted identifiers and comments, which may be
  nested, are skipped, and backslashes mean themselves (\<open>standard_conforming_strings\<close>). \<open>None\<close> stands for a text that ends inside
  one of these, and for what is not interpreted here: a dollar sign, which may open a constant, and a quote right after a word,
  which may open a constant of another kind. A constant that is continued on another line is listed in its parts.
\<close>

definition double_quote :: char where "double_quote = CHR 0x22"

definition newline :: "char \<Rightarrow> bool" where "newline c \<longleftrightarrow> c = CHR 0x0A \<or> c = CHR 0x0D"

definition word_char :: "char \<Rightarrow> bool" where
  "word_char c \<longleftrightarrow> isalnum c \<or> c = CHR ''_'' \<or> c = CHR ''&'' \<or> 128 \<le> code c"

fun skip_identifier :: "string \<Rightarrow> string option" where
  "skip_identifier [] = None"
| "skip_identifier (c # s) =
     (if c = double_quote then
        (case s of [] \<Rightarrow> Some [] | d # s' \<Rightarrow> if d = double_quote then skip_identifier s' else Some s)
      else skip_identifier s)"

fun skip_comment :: "nat \<Rightarrow> string \<Rightarrow> string option" where
  "skip_comment n [] = None"
| "skip_comment n [c] = None"
| "skip_comment n (c # d # s) =
     (if c = CHR ''*'' \<and> d = CHR ''/'' then (if n = 0 then Some s else skip_comment (n - 1) s)
      else if c = CHR ''/'' \<and> d = CHR ''*'' then skip_comment (n + 1) s
      else skip_comment n (d # s))"

lemma lex_body_shorter: "lex_body s = Some (v, r) \<Longrightarrow> length r \<le> length s"
  by (induction s arbitrary: v r rule: lex_body.induct) (fastforce split: if_splits list.splits)+

lemma skip_identifier_shorter: "skip_identifier s = Some r \<Longrightarrow> length r \<le> length s"
  by (induction s arbitrary: r rule: skip_identifier.induct) (fastforce split: if_splits list.splits)+

lemma skip_comment_shorter: "skip_comment n s = Some r \<Longrightarrow> length r \<le> length s"
  by (induction n s arbitrary: r rule: skip_comment.induct) (fastforce split: if_splits)+

text \<open>The flag says whether the character before is part of a word.\<close>

function sql_constants :: "bool \<Rightarrow> string \<Rightarrow> string list option" where
  "sql_constants w [] = Some []"
| "sql_constants w (c # s) =
     (if c = quote then
        (if w then None else case lex_body s of None \<Rightarrow> None | Some (v, r) \<Rightarrow> map_option ((#) v) (sql_constants False r))
      else if c = double_quote then (case skip_identifier s of None \<Rightarrow> None | Some r \<Rightarrow> sql_constants False r)
      else if c = CHR ''$'' then None
      else if c = CHR ''-'' \<and> s \<noteq> [] \<and> hd s = CHR ''-'' then sql_constants False (dropWhile (\<lambda>x. \<not> newline x) s)
      else if c = CHR ''/'' \<and> s \<noteq> [] \<and> hd s = CHR ''*'' then
        (case skip_comment 0 (tl s) of None \<Rightarrow> None | Some r \<Rightarrow> sql_constants False r)
      else sql_constants (word_char c) s)"
  by pat_completeness auto
termination
proof (relation "measure (length \<circ> snd)")
  fix c s r assume "skip_comment 0 (tl s) = Some r"
  then show "((False, r), w, c # s) \<in> measure (length \<circ> snd)" for w :: bool
    using skip_comment_shorter [of 0 "tl s" r] by (cases s) auto
qed (auto dest: lex_body_shorter skip_identifier_shorter simp: le_imp_less_Suc length_dropWhile_le)

section \<open>Reading the statement\<close>

text \<open>Characters that open nothing, and texts of them.\<close>

definition plain_text :: "string \<Rightarrow> bool" where
  "plain_text s \<longleftrightarrow> list_all (\<lambda>c. c \<noteq> quote \<and> c \<noteq> double_quote \<and> c \<noteq> CHR ''$'' \<and> c \<noteq> CHR ''-'' \<and> c \<noteq> CHR ''/'') s"

definition plain_start :: "string \<Rightarrow> bool" where "plain_start t \<longleftrightarrow> t \<noteq> [] \<and> hd t \<noteq> quote"

definition separated :: "string \<Rightarrow> bool" where "separated s \<longleftrightarrow> s \<noteq> [] \<and> \<not> word_char (last s)"

lemma plain_append [simp]: "plain_text (s @ t) \<longleftrightarrow> plain_text s \<and> plain_text t"
  by (simp add: plain_text_def)

lemma constants_flag: "plain_start t \<Longrightarrow> sql_constants w t = sql_constants False t"
  by (cases t) (auto simp: plain_start_def)

lemma constants_plain: "plain_text s \<Longrightarrow> sql_constants w (s @ t) = sql_constants (if s = [] then w else word_char (last s)) t"
  by (induction s arbitrary: w) (auto simp: plain_text_def)

lemma constants_separated: "plain_text s \<Longrightarrow> separated s \<Longrightarrow> sql_constants w (s @ t) = sql_constants False t"
  by (simp add: constants_plain separated_def)

lemma constants_before: "plain_text s \<Longrightarrow> plain_start t \<Longrightarrow> sql_constants w (s @ t) = sql_constants False t"
  by (metis constants_plain constants_flag)

lemma lex_body_plain: "quote \<notin> set v \<Longrightarrow> t = [] \<or> hd t \<noteq> quote \<Longrightarrow> lex_body (v @ quote # t) = Some (v, t)"
  by (induction v) (auto split: list.splits)

lemma constants_literal:
  assumes "plain_text pre" "separated pre" "quote \<notin> set v" "plain_start t"
  shows "sql_constants w (pre @ quote # v @ quote # t) = map_option ((#) v) (sql_constants False t)"
  using assms lex_body_plain [of v t] by (simp add: constants_separated plain_start_def)

lemma constants_comment:
  "plain_text s \<Longrightarrow> list_all (\<lambda>c. \<not> newline c) u \<Longrightarrow> sql_constants w (s @ ''--'' @ u) = Some []"
proof -
  assume "plain_text s" and u: "list_all (\<lambda>c. \<not> newline c) u"
  have "dropWhile (\<lambda>c. \<not> newline c) (CHR ''-'' # u) = []" using u by (simp add: dropWhile_eq_Nil_conv list_all_iff newline_def)
  then show ?thesis using \<open>plain_text s\<close> by (simp add: constants_plain quote_def double_quote_def)
qed

declare sql_constants.simps(2) [simp del]

text \<open>The condition of one filter; it is followed by a text that does not start with a quote.\<close>

definition filter_text :: "string \<Rightarrow> string \<Rightarrow> string \<Rightarrow> string" where
  "filter_text pre v suf = (if v \<noteq> [] then pre @ quote # v @ quote # suf else [])"

lemma constants_filter:
  assumes "plain_text pre" "separated pre" "quote \<notin> set v" "plain_text suf" "plain_start (suf @ t)" "plain_start t"
  shows "sql_constants w (filter_text pre v suf @ t) = map_option ((@) (filter (\<lambda>x. x \<noteq> []) [v])) (sql_constants False t)"
proof (cases "v = []")
  case True
  then show ?thesis using constants_flag [OF assms(6), of w] by (cases "sql_constants False t") (simp_all add: filter_text_def)
next
  case False
  have "sql_constants w (pre @ quote # v @ quote # suf @ t) = map_option ((#) v) (sql_constants False (suf @ t))"
    by (rule constants_literal [OF assms(1-3,5)])
  with False constants_before [OF assms(4,6), of False] show ?thesis
    by (cases "sql_constants False t") (simp_all add: filter_text_def)
qed

lemma plain_start_filter: "plain_start pre \<Longrightarrow> plain_start t \<Longrightarrow> plain_start (filter_text pre v suf @ t)"
  by (simp add: plain_start_def filter_text_def)

definition where_end :: "string \<Rightarrow> string \<Rightarrow> string" where
  "where_end from' to' = filter_text '' AND action_at >= '' from' ''::timestamptz'' @ filter_text '' AND action_at < '' to' ''::timestamptz''
     @ '' ORDER BY action_at DESC''"

lemma audit_where_filters:
  "audit_where act aby from' to' @ '' ORDER BY action_at DESC''
     = ''WHERE 1=1'' @ filter_text '' AND action = '' act [] @ filter_text '' AND action_by = '' aby [] @ where_end from' to'"
  by (simp add: audit_where_def filter_text_def where_end_def)

lemma plain_texts:
  "plain_text '' AND action = ''" "plain_text '' AND action_by = ''" "plain_text '' AND action_at >= ''" "plain_text '' AND action_at < ''"
  "plain_text ''::timestamptz''" "plain_text '' ORDER BY action_at DESC''" "plain_text ''WHERE 1=1''" "plain_text ([] :: string)" "plain_text '' ''"
  "plain_text ''SELECT log_id, action, action_by, action_at::text, COALESCE(old_data::text,''"
  "plain_text ''), COALESCE(new_data::text,''" "plain_text '') FROM ''"
  by code_simp+

lemma separated_texts:
  "separated '' AND action = ''" "separated '' AND action_by = ''" "separated '' AND action_at >= ''" "separated '' AND action_at < ''"
  "separated ''SELECT log_id, action, action_by, action_at::text, COALESCE(old_data::text,''"
  "separated ''), COALESCE(new_data::text,''"
  by code_simp+

lemma plain_starts:
  "plain_start '' ORDER BY action_at DESC''" "plain_start '' AND action_by = ''" "plain_start '' AND action_at >= ''"
  "plain_start '' AND action_at < ''" "plain_start (''::timestamptz'' @ t)" "plain_start '' AND action = ''"
  "plain_start (''), COALESCE(new_data::text,'' @ t)" "plain_start ('') FROM '' @ t)" "plain_start ('' '' @ t)"
  by (simp_all add: plain_start_def quote_def)

lemma where_end_start: "plain_start (where_end from' to')"
  unfolding where_end_def by (intro plain_start_filter plain_starts)

lemma constants_where_end:
  assumes "quote \<notin> set from'" "quote \<notin> set to'"
  shows "sql_constants w (where_end from' to') = Some (filter (\<lambda>x. x \<noteq> []) [from', to'])"
proof -
  let ?t = "'' ORDER BY action_at DESC''"
  let ?t4 = "filter_text '' AND action_at < '' to' ''::timestamptz'' @ ?t"
  have 0: "sql_constants w ?t = Some []" for w using constants_plain [OF plain_texts(6), of w "[]"] by simp
  have 4: "sql_constants w ?t4 = Some (filter (\<lambda>x. x \<noteq> []) [to'])" for w
    using constants_filter [OF plain_texts(4) separated_texts(4) assms(2) plain_texts(5) plain_starts(5) plain_starts(1), of w] 0 by simp
  have "plain_start ?t4" by (intro plain_start_filter plain_starts)
  from constants_filter [OF plain_texts(3) separated_texts(3) assms(1) plain_texts(5) plain_starts(5) this, of w] 4
  show ?thesis by (simp add: where_end_def)
qed

text \<open>The statement up to the name of the table, and the filters that come before \<open>action_by\<close>.\<close>

lemma constants_query:
  "sql_constants False (audit_query log_table wh) = map_option (\<lambda>cs. ''{}'' # ''{}'' # cs)
     (sql_constants False ('') FROM '' @ log_table @ '' '' @ wh @ '' ORDER BY action_at DESC''))"
proof -
  let ?t = "log_table @ '' '' @ wh @ '' ORDER BY action_at DESC''"
  have q: "quote \<notin> set ''{}''" by (simp add: quote_def)
  have "sql_constants False (''), COALESCE(new_data::text,'' @ quote # ''{}'' @ quote # '') FROM '' @ ?t)
      = map_option ((#) ''{}'') (sql_constants False ('') FROM '' @ ?t))"
    by (rule constants_literal [OF plain_texts(11) separated_texts(6) q plain_starts(8)])
  moreover have "sql_constants False (audit_query log_table wh) = map_option ((#) ''{}'')
      (sql_constants False (''), COALESCE(new_data::text,'' @ quote # ''{}'' @ quote # '') FROM '' @ ?t))"
    unfolding audit_query_def append_assoc append_Cons append_Nil
    by (rule constants_literal [OF plain_texts(10) separated_texts(5) q plain_starts(7), unfolded append_Cons append_Nil])
  ultimately show ?thesis by (simp add: option.map_comp comp_def)
qed

lemma constants_table:
  assumes "plain_text log_table"
  shows "sql_constants False ('') FROM '' @ log_table @ '' '' @ t) = sql_constants False ('' '' @ t)"
  using constants_before [of "'') FROM '' @ log_table" "'' '' @ t" False] plain_texts(12) assms plain_starts(9)
  by (simp only: plain_append append_assoc)

lemma constants_action:
  assumes "quote \<notin> set act" "plain_start t"
  shows "sql_constants False ('' '' @ ''WHERE 1=1'' @ filter_text '' AND action = '' act [] @ t)
     = map_option ((@) (filter (\<lambda>x. x \<noteq> []) [act])) (sql_constants False t)"
proof -
  have "plain_start (filter_text '' AND action = '' act [] @ t)" by (intro plain_start_filter plain_starts assms(2))
  then have "sql_constants False ('' '' @ ''WHERE 1=1'' @ filter_text '' AND action = '' act [] @ t)
      = sql_constants False (filter_text '' AND action = '' act [] @ t)"
    using constants_before [of "'' '' @ ''WHERE 1=1''" _ False] plain_texts(7,9) by (simp only: plain_append append_assoc)
  then show ?thesis
    using constants_filter [OF plain_texts(1) separated_texts(1) assms(1) plain_texts(8) _ assms(2), of False] assms(2)
    by (simp only: append_Nil)
qed

text \<open>The statement goes to the server as a C string.\<close>

definition sent :: "string \<Rightarrow> string" where "sent s = takeWhile (\<lambda>c. code c \<noteq> 0) s"

lemma sent_all: "list_all (\<lambda>c. code c \<noteq> 0) s \<Longrightarrow> sent s = s"
  by (simp add: sent_def takeWhile_eq_all_conv list_all_iff)

lemma audit_query_all:
  assumes P: "P quote"
    and fixed: "list_all P ''SELECT log_id, action, action_by, action_at::text, COALESCE(old_data::text,{}), COALESCE(new_data::text, FROM WHERE 1=1 AND = >= < ::timestamptz ORDER BY DESC''"
  shows "list_all P (audit_query log_table (audit_where act aby from' to')) \<longleftrightarrow>
     list_all P log_table \<and> list_all P act \<and> list_all P aby \<and> list_all P from' \<and> list_all P to'"
  using assms by (simp add: audit_query_def audit_where_def)

lemma audit_query_sent:
  assumes "list_all (\<lambda>c. code c \<noteq> 0) (log_table @ act @ aby @ from' @ to')"
  shows "sent (audit_query log_table (audit_where act aby from' to')) = audit_query log_table (audit_where act aby from' to')"
  using assms by (intro sent_all, subst audit_query_all) (simp_all add: quote_def code_def)

lemma constants_filters:
  assumes "plain_text log_table" "quote \<notin> set act"
  shows "sql_constants False (audit_query log_table (audit_where act aby from' to')) =
     map_option (\<lambda>cs. ''{}'' # ''{}'' # filter (\<lambda>x. x \<noteq> []) [act] @ cs)
       (sql_constants False (filter_text '' AND action_by = '' aby [] @ where_end from' to'))"
proof -
  have "plain_start (filter_text '' AND action_by = '' aby [] @ where_end from' to')"
    by (intro plain_start_filter plain_starts where_end_start)
  from constants_action [OF assms(2) this] show ?thesis
    unfolding constants_query constants_table [OF assms(1)] audit_where_filters by (simp add: option.map_comp comp_def)
qed

lemma constants_no_quote:
  assumes "plain_text log_table" "quote \<notin> set (act @ aby @ from' @ to')"
  shows "sql_constants False (audit_query log_table (audit_where act aby from' to')) =
     Some ([''{}'', ''{}''] @ filter (\<lambda>x. x \<noteq> []) [act, aby, from', to'])"
proof -
  have q: "quote \<notin> set act" "quote \<notin> set aby" "quote \<notin> set from'" "quote \<notin> set to'" using assms(2) by auto
  have "sql_constants False (filter_text '' AND action_by = '' aby [] @ where_end from' to')
      = map_option ((@) (filter (\<lambda>x. x \<noteq> []) [aby])) (sql_constants False (where_end from' to'))"
    by (rule constants_filter [OF plain_texts(2) separated_texts(2) q(2) plain_texts(8) _ where_end_start])
      (simp only: append_Nil where_end_start)
  then show ?thesis unfolding constants_filters [OF assms(1) q(1)] using constants_where_end [OF q(3,4)] by simp
qed

lemma constants_quote:
  assumes "plain_text log_table" "quote \<notin> set act" "quote \<notin> set a" "b \<noteq> []" "hd b \<noteq> quote"
  shows "sql_constants False (audit_query log_table (audit_where act (a @ quote # b) from' to')) =
     map_option (\<lambda>cs. [''{}'', ''{}''] @ filter (\<lambda>x. x \<noteq> []) [act] @ a # cs) (sql_constants False (b @ quote # where_end from' to'))"
proof -
  have "plain_start (b @ quote # where_end from' to')" using assms(4,5) by (simp add: plain_start_def)
  from constants_literal [OF plain_texts(2) separated_texts(2) assms(3) this, of False]
  have "sql_constants False (filter_text '' AND action_by = '' (a @ quote # b) [] @ where_end from' to')
      = map_option ((#) a) (sql_constants False (b @ quote # where_end from' to'))"
    by (simp add: filter_text_def)
  then show ?thesis unfolding constants_filters [OF assms(1,2)] by (simp add: option.map_comp comp_def)
qed

lemma constants_commented:
  assumes "plain_text t" "list_all (\<lambda>c. \<not> newline c) (u @ act @ aby @ from' @ to')"
  shows "sql_constants False (audit_query (t @ ''--'' @ u) (audit_where act aby from' to')) = Some [''{}'', ''{}'']"
proof -
  let ?r = "u @ '' '' @ audit_where act aby from' to' @ '' ORDER BY action_at DESC''"
  have "list_all (\<lambda>c. \<not> newline c) ?r" using assms(2) by (simp add: audit_where_def newline_def quote_def)
  with assms(1) have "sql_constants False (('') FROM '' @ t) @ ''--'' @ ?r) = Some []"
    by (intro constants_comment) (simp_all only: plain_append plain_texts simp_thms)
  then show ?thesis unfolding constants_query by (simp only: append_assoc option.map)
qed

text \<open>
  C29: The arguments of \<open>search\<close> are pasted into the statement. When the name of the table holds no character that opens a
  constant, a quoted identifier or a comment, and no argument holds a quote, the server reads exactly the two constants of the
  code and the filters that are not empty, in their order. When \<open>action_by\<close> holds a quote that is not doubled, only the text
  before the quote is the filter and the text after it is read as part of the statement. When the name of the table holds
  the start of a line comment and nothing ends the line, no filter is read at all. No text holds a zero character, which would end the
  statement.
\<close>

theorem audit_query_literals:
  assumes "list_all (\<lambda>c. code c \<noteq> 0) (log_table @ act @ aby @ from' @ to')"
    and "quote \<notin> set (act @ from' @ to')"
  shows "(plain_text log_table \<and> quote \<notin> set aby \<longrightarrow>
        sql_constants False (sent (audit_query log_table (audit_where act aby from' to'))) =
          Some ([''{}'', ''{}''] @ filter (\<lambda>x. x \<noteq> []) [act, aby, from', to']))
    \<and> (\<forall>a b. plain_text log_table \<and> aby = a @ quote # b \<and> quote \<notin> set a \<and> b \<noteq> [] \<and> hd b \<noteq> quote \<longrightarrow>
        sql_constants False (sent (audit_query log_table (audit_where act aby from' to'))) =
          map_option (\<lambda>cs. [''{}'', ''{}''] @ filter (\<lambda>x. x \<noteq> []) [act] @ a # cs)
            (sql_constants False (b @ quote # where_end from' to')))
    \<and> (\<forall>t u. log_table = t @ ''--'' @ u \<and> plain_text t \<and> list_all (\<lambda>c. \<not> newline c) (u @ act @ aby @ from' @ to') \<longrightarrow>
        sql_constants False (sent (audit_query log_table (audit_where act aby from' to'))) = Some [''{}'', ''{}''])"
  unfolding audit_query_sent [OF assms(1)]
proof (intro conjI allI impI; elim conjE)
  assume "plain_text log_table" "quote \<notin> set aby"
  then show "sql_constants False (audit_query log_table (audit_where act aby from' to')) =
      Some ([''{}'', ''{}''] @ filter (\<lambda>x. x \<noteq> []) [act, aby, from', to'])"
    using assms(2) by (intro constants_no_quote) auto
next
  fix a b assume "plain_text log_table" "quote \<notin> set a" "b \<noteq> []" "hd b \<noteq> quote" and aby: "aby = a @ quote # b"
  then show "sql_constants False (audit_query log_table (audit_where act aby from' to')) =
      map_option (\<lambda>cs. [''{}'', ''{}''] @ filter (\<lambda>x. x \<noteq> []) [act] @ a # cs) (sql_constants False (b @ quote # where_end from' to'))"
    unfolding aby using assms(2) by (intro constants_quote) auto
next
  fix t u assume "plain_text t" "list_all (\<lambda>c. \<not> newline c) (u @ act @ aby @ from' @ to')" and t: "log_table = t @ ''--'' @ u"
  then show "sql_constants False (audit_query log_table (audit_where act aby from' to')) = Some [''{}'', ''{}'']"
    unfolding t by (intro constants_commented)
qed

text \<open>A search for the updates of one user; a name that ends the constant; and a table name with a comment.\<close>

theorem audit_query_literals_witness:
  "sql_constants False (sent (audit_query ''t_log_person'' (audit_where ''U'' ''ann'' ''2026-01-01'' []))) =
     Some [''{}'', ''{}'', ''U'', ''ann'', ''2026-01-01'']
   \<and> sql_constants False (sent (audit_query ''t_log_person'' (audit_where [] (''x'' @ quote # '' OR '' @ quote # ''1'' @ quote # ''='' @ quote # ''1'') [] []))) =
     Some [''{}'', ''{}'', ''x'', ''1'', ''1'']
   \<and> sql_constants False (sent (audit_query ''t_log_person --'' (audit_where ''U'' ''ann'' [] []))) = Some [''{}'', ''{}'']"
proof (intro conjI)
  have p: "plain_text ''t_log_person''" "plain_text ''t_log_person ''" by code_simp+
  show "sql_constants False (sent (audit_query ''t_log_person'' (audit_where ''U'' ''ann'' ''2026-01-01'' []))) =
     Some [''{}'', ''{}'', ''U'', ''ann'', ''2026-01-01'']"
    using conjunct1 [OF audit_query_literals [of "''t_log_person''" "''U''" "''ann''" "''2026-01-01''" "[]"]] p(1)
    by (simp add: quote_def code_def)
  let ?b = "'' OR '' @ quote # ''1'' @ quote # ''='' @ quote # ''1''"
  have "list_all (\<lambda>c. code c \<noteq> 0) (''t_log_person'' @ [] @ (''x'' @ quote # ?b) @ [] @ [])" by code_simp
  moreover have "quote \<notin> set ([] @ [] @ [])" by simp
  ultimately have "sql_constants False (sent (audit_query ''t_log_person'' (audit_where [] (''x'' @ quote # ?b) [] []))) =
      map_option (\<lambda>cs. [''{}'', ''{}''] @ filter (\<lambda>x. x \<noteq> []) [[]] @ ''x'' # cs) (sql_constants False (?b @ quote # where_end [] []))"
    by (rule conjunct1 [OF conjunct2 [OF audit_query_literals], rule_format]) (intro conjI p(1) refl; code_simp)
  moreover have "sql_constants False (?b @ quote # where_end [] []) = Some [''1'', ''1'']" by code_simp
  ultimately show "sql_constants False (sent (audit_query ''t_log_person'' (audit_where [] (''x'' @ quote # ?b) [] []))) =
      Some [''{}'', ''{}'', ''x'', ''1'', ''1'']"
    by (simp only: option.map filter.simps simp_thms if_False append_Cons append_Nil)
  show "sql_constants False (sent (audit_query ''t_log_person --'' (audit_where ''U'' ''ann'' [] []))) = Some [''{}'', ''{}'']"
    by (rule conjunct2 [OF conjunct2 [OF audit_query_literals], rule_format, of _ _ _ _ _ "''t_log_person ''" "[]"])
      (use p(2) in \<open>simp add: code_def quote_def newline_def; fail | code_simp\<close>)+
qed

end
