(* ===== verification/Path.thy ===== *)
theory Path
  imports Objects
begin

text \<open>
  path.hpp: the class \<open>Path\<close>, a \<open>std::filesystem::path\<close> that is an \<open>Object\<close>, and \<open>CPath\<close>. The part of
  \<open>std::filesystem\<close> that it uses is modelled for POSIX: a path is a text, its elements are the names between
  slashes; a file system without links maps the list of names of a file or directory to its content.
  Functions that may throw are called in functions declared \<open>noexcept\<close>, so an error ends the program.
\<close>

section \<open>std::filesystem::path\<close>

definition slash :: char where "slash = CHR ''/''"

definition path_filename :: "string \<Rightarrow> string" where
  "path_filename p = rev (takeWhile (\<lambda>c. c \<noteq> slash) (rev p))"

definition without_filename :: "string \<Rightarrow> string" where
  "without_filename p = rev (dropWhile (\<lambda>c. c \<noteq> slash) (rev p))"

definition without_slashes :: "string \<Rightarrow> string" where
  "without_slashes p = rev (dropWhile (\<lambda>c. c = slash) (rev p))"

definition path_parent :: "string \<Rightarrow> string" where
  "path_parent p = (let q = without_filename p in if list_all (\<lambda>c. c = slash) q then q else without_slashes q)"

definition path_absolute :: "string \<Rightarrow> bool" where
  "path_absolute p \<longleftrightarrow> p \<noteq> [] \<and> hd p = slash"

definition path_root :: "string \<Rightarrow> string" where
  "path_root p = (if path_absolute p then [slash] else [])"

text \<open>The extension starts at the last dot, unless that is the first character or the name is \<open>..\<close>.\<close>

definition dot_position :: "string \<Rightarrow> nat option" where
  "dot_position f = (if f = ''..'' then None else case rfind_char f CHR ''.'' of Some (Suc i) \<Rightarrow> Some (Suc i) | _ \<Rightarrow> None)"

definition path_stem :: "string \<Rightarrow> string" where
  "path_stem p = (let f = path_filename p in case dot_position f of None \<Rightarrow> f | Some i \<Rightarrow> take i f)"

definition path_extension :: "string \<Rightarrow> string" where
  "path_extension p = (let f = path_filename p in case dot_position f of None \<Rightarrow> [] | Some i \<Rightarrow> drop i f)"

definition path_replace_extension :: "string \<Rightarrow> string \<Rightarrow> string" where
  "path_replace_extension p e =
     take (length p - length (path_extension p)) p @ (if e = [] then [] else if hd e = CHR ''.'' then e else CHR ''.'' # e)"

definition path_append :: "string \<Rightarrow> string \<Rightarrow> string" where
  "path_append p q =
     (if path_absolute q then q else (if path_filename p \<noteq> [] then p @ [slash] else p) @ q)"

text \<open>The elements that iteration gives and \<open>==\<close> compares: root, names, and an empty one after a final slash.\<close>

definition path_names :: "string \<Rightarrow> string list" where
  "path_names p = filter (\<lambda>f. f \<noteq> []) (String_Util.fields slash p)"

definition path_elements :: "string \<Rightarrow> string list" where
  "path_elements p = (if path_absolute p then [[slash]] else []) @ path_names p
     @ (if path_names p \<noteq> [] \<and> path_filename p = [] then [[]] else [])"

section \<open>A file system\<close>

datatype node = Directory | Regular string

type_synonym filesystem = "string list \<rightharpoonup> node"

record os =
  files :: filesystem
  cwd :: "string list"

text \<open>
  The place that a path names. A \<open>..\<close> takes away the name before it, whether or not that name exists; theory Path\_Resolve
  looks at every name on the way.
\<close>

definition step_name :: "string list \<Rightarrow> string \<Rightarrow> string list" where
  "step_name loc n = (if n = ''.'' then loc else if n = ''..'' then butlast loc else loc @ [n])"

definition location :: "os \<Rightarrow> string \<Rightarrow> string list" where
  "location w p = foldl step_name (if path_absolute p then [] else cwd w) (path_names p)"

text \<open>The empty path names nothing, and a path that ends in a slash does not name a regular file.\<close>

definition node_at :: "os \<Rightarrow> string \<Rightarrow> node option" where
  "node_at w p =
     (if p = [] then None
      else case files w (location w p) of
        Some (Regular c) \<Rightarrow> if path_filename p = [] then None else Some (Regular c)
      | n \<Rightarrow> n)"

fun mkdirs :: "filesystem \<Rightarrow> string list \<Rightarrow> string list \<Rightarrow> filesystem option" where
  "mkdirs m d [] = Some m"
| "mkdirs m d (n # ns) =
     (let e = d @ [n] in
      case m e of
        None \<Rightarrow> mkdirs (m(e \<mapsto> Directory)) e ns
      | Some Directory \<Rightarrow> mkdirs m e ns
      | Some (Regular c) \<Rightarrow> None)"

definition fs_error :: "'a outcome" where "fs_error = Raise (Runtime_error ''filesystem_error'')"

definition create_directories :: "os \<Rightarrow> string \<Rightarrow> os outcome" where
  "create_directories w p =
     (if p = [] then fs_error
      else case mkdirs (files w) [] (location w p) of None \<Rightarrow> fs_error | Some m \<Rightarrow> Ret (w\<lparr>files := m\<rparr>))"

definition remove_all :: "os \<Rightarrow> string \<Rightarrow> os" where
  "remove_all w p = w\<lparr>files := (\<lambda>k. if take (length (location w p)) k = location w p then None else files w k)\<rparr>"

definition fs_remove :: "os \<Rightarrow> string \<Rightarrow> os" where
  "fs_remove w p = w\<lparr>files := (files w)(location w p := None)\<rparr>"

section \<open>The class Path\<close>

record Path = Object +
  pathname :: string

definition Path_of :: "string \<Rightarrow> int64 \<Rightarrow> Path" where
  "Path_of p i = \<lparr>mid = i, pathname = p\<rparr>"

definition Path_default :: Path where "Path_default = Path_of ''.'' NULL_ID"

text \<open>The copy constructor takes the path and not the id.\<close>

definition Path_copy :: "Path \<Rightarrow> int64 \<Rightarrow> Path" where
  "Path_copy p aid = Path_of (pathname p) aid"

text \<open>The factory makes a new object for every call.\<close>

definition Path_get :: "string \<Rightarrow> int64 \<Rightarrow> Path" where "Path_get p aid = Path_of p aid"

definition Path_clone :: "Path \<Rightarrow> Path" where "Path_clone apath = Path_get (pathname apath) (mid apath)"

definition Path_is_valid :: "string \<Rightarrow> bool" where "Path_is_valid p = True"

definition Path_is_directory :: "os \<Rightarrow> Path \<Rightarrow> bool" where
  "Path_is_directory w p \<longleftrightarrow> node_at w (pathname p) = Some Directory"

definition Path_exists :: "os \<Rightarrow> Path \<Rightarrow> bool" where
  "Path_exists w p \<longleftrightarrow> node_at w (pathname p) \<noteq> None"

text \<open>\<open>remove_all\<close> answers the number of removed entries, which is not 0 here.\<close>

definition Path_remove :: "os \<Rightarrow> Path \<Rightarrow> bool \<times> os" where
  "Path_remove w p =
     (if Path_exists w p then
        if Path_is_directory w p then (True, remove_all w (pathname p)) else (True, fs_remove w (pathname p))
      else (True, w))"

text \<open>The results of the functions below are new objects, made by the constructor from \<open>fs::path\<close>.\<close>

definition Path_parent_path :: "Path \<Rightarrow> Path" where "Path_parent_path p = Path_of (path_parent (pathname p)) NULL_ID"

definition Path_root_path :: "Path \<Rightarrow> Path" where "Path_root_path p = Path_of (path_root (pathname p)) NULL_ID"

definition Path_filename :: "Path \<Rightarrow> Path" where "Path_filename p = Path_of (path_filename (pathname p)) NULL_ID"

definition Path_stem :: "Path \<Rightarrow> Path" where "Path_stem p = Path_of (path_stem (pathname p)) NULL_ID"

definition Path_filename_only :: "Path \<Rightarrow> Path" where "Path_filename_only p = Path_stem p"

definition Path_extension :: "Path \<Rightarrow> Path" where "Path_extension p = Path_of (path_extension (pathname p)) NULL_ID"

definition Path_replace_extension :: "Path \<Rightarrow> string \<Rightarrow> Path" where
  "Path_replace_extension p s = p\<lparr>pathname := path_replace_extension (pathname p) s\<rparr>"

definition Path_replace_extension_path :: "Path \<Rightarrow> Path \<Rightarrow> Path" where
  "Path_replace_extension_path p q = p\<lparr>pathname := path_replace_extension (pathname p) (pathname q)\<rparr>"

definition Path_make_preferred :: "Path \<Rightarrow> Path" where "Path_make_preferred p = p"

definition Path_remove_filename :: "Path \<Rightarrow> Path" where
  "Path_remove_filename p = p\<lparr>pathname := without_filename (pathname p)\<rparr>"

definition Path_assign :: "Path \<Rightarrow> string \<Rightarrow> Path" where "Path_assign p s = p\<lparr>pathname := s\<rparr>"

text \<open>\<open>s.back ()\<close> of an empty text is undefined behaviour.\<close>

definition Path_remove_trailing_separator :: "Path \<Rightarrow> Path outcome" where
  "Path_remove_trailing_separator p =
     (if path_filename (pathname p) = [] then
        let s = pathname p in
        if s = [] then Undef
        else if last s = slash then Ret (Path_assign p (butlast s))
        else Ret p
      else Ret p)"

definition Path_copy_without_trailing_separator :: "Path \<Rightarrow> Path outcome" where
  "Path_copy_without_trailing_separator p =
     map_out (\<lambda>q. Path_copy q NULL_ID) (Path_remove_trailing_separator (Path_copy p NULL_ID))"

definition Path_initialize :: "Path \<Rightarrow> string \<Rightarrow> int64 \<Rightarrow> Path \<times> bool" where
  "Path_initialize p q aid = (p\<lparr>pathname := q, mid := aid\<rparr>, True)"

definition Path_debug_string :: "Path \<Rightarrow> string" where
  "Path_debug_string p = Object_debug_string (Object.truncate p) @ '' path = '' @ pathname p"

definition Path_create_dir :: "os \<Rightarrow> Path \<Rightarrow> os outcome" where
  "Path_create_dir w p =
     noexcept
       (if path_filename (pathname p) \<noteq> [] \<and> path_parent (pathname p) \<noteq> []
        then create_directories w (pathname (Path_parent_path p))
        else create_directories w (pathname p))"

definition Path_size :: "Path \<Rightarrow> nat" where "Path_size p = length (pathname p)"

definition Path_divide_assign :: "Path \<Rightarrow> string \<Rightarrow> Path" where
  "Path_divide_assign p s = p\<lparr>pathname := path_append (pathname p) s\<rparr>"

definition Path_plus :: "Path \<Rightarrow> string \<Rightarrow> Path" where
  "Path_plus p s = Path_copy (Path_divide_assign (Path_copy p NULL_ID) s) NULL_ID"

definition Path_eq :: "Path \<Rightarrow> Path \<Rightarrow> bool" where
  "Path_eq p q \<longleftrightarrow> path_elements (pathname q) = path_elements (pathname p)"

definition Path_neq_string :: "Path \<Rightarrow> string \<Rightarrow> bool" where "Path_neq_string p s \<longleftrightarrow> \<not> Path_eq p (Path_of s NULL_ID)"

text \<open>\<open>CPath\<close>: a path in a string of fixed size; \<open>MAX_PATH\<close> is \<open>PATH_MAX\<close>.\<close>

definition MAX_PATH :: nat where "MAX_PATH = 4096"

abbreviation CPath :: cs_type where "CPath \<equiv> CS 0 MAX_PATH"

definition path_to_cpath :: "Path \<Rightarrow> cs outcome" where "path_to_cpath path = cs_of_string CPath (pathname path)"

definition cpath_to_path :: "cs \<Rightarrow> Path outcome" where
  "cpath_to_path c = map_out (\<lambda>s. Path_copy (Path_of s NULL_ID) NULL_ID) (noexcept (cs_to_string c))"

text \<open>\<open>putenv\<close> is an argument; it answers 0 for success.\<close>

definition set_tmp_env_var :: "(string \<Rightarrow> int) \<Rightarrow> Path \<Rightarrow> Path outcome" where
  "set_tmp_env_var putenv path =
     (if putenv (''TMP='' @ pathname path) \<noteq> 0 then runtime_error ''Error setting TMP environment variable.'' else Ret path)"

section \<open>Parts of a path\<close>

lemma without_filename_append: "without_filename p @ path_filename p = p"
  by (simp add: without_filename_def path_filename_def flip: rev_append)

lemma slash_not_in_filename: "slash \<notin> set (path_filename p)"
  using set_takeWhileD by (fastforce simp: path_filename_def)

lemma without_filename_end: "without_filename p = [] \<or> last (without_filename p) = slash"
proof (cases "dropWhile (\<lambda>c. c \<noteq> slash) (rev p)")
  case (Cons c cs)
  then have "c = slash" by (metis (mono_tags, lifting) dropWhile_eq_Cons_conv)
  with Cons show ?thesis by (simp add: without_filename_def)
qed (simp add: without_filename_def)

lemma filename_empty: "path_filename p = [] \<longleftrightarrow> p = [] \<or> last p = slash"
  by (cases p rule: rev_cases) (auto simp: path_filename_def)

lemma fields_snoc_slash: "String_Util.fields ch (q @ [ch]) = String_Util.fields ch q @ [[]]"
proof (induction q)
  case (Cons x q)
  obtain f fs where "String_Util.fields ch q = f # fs" using fields_nonempty by (metis list.exhaust)
  with Cons show ?case by auto
qed simp

lemma fields_snoc: "f = [] \<or> ch \<notin> set f \<Longrightarrow> String_Util.fields ch (q @ ch # f) = String_Util.fields ch q @ [f]"
proof (induction q)
  case Nil
  then show ?case by (cases "f = []") (simp_all add: fields_single)
next
  case (Cons x q)
  obtain f' fs where "String_Util.fields ch q = f' # fs" using fields_nonempty by (metis list.exhaust)
  with Cons show ?case by auto
qed

lemma names_nil [simp]: "path_names [] = []"
  by (simp add: path_names_def)

lemma names_snoc_slash [simp]: "path_names (q @ [slash]) = path_names q"
  by (simp add: path_names_def fields_snoc_slash)

lemma names_snoc: "slash \<notin> set f \<Longrightarrow> f \<noteq> [] \<Longrightarrow> path_names (q @ slash # f) = path_names q @ [f]"
  by (simp add: path_names_def fields_snoc)

lemma names_single: "slash \<notin> set f \<Longrightarrow> f \<noteq> [] \<Longrightarrow> path_names f = [f]"
  by (simp add: path_names_def fields_single)

lemma names_without_slashes: "path_names (without_slashes q) = path_names q"
proof (induction q rule: rev_induct)
  case (snoc c q)
  then show ?case by (cases "c = slash") (simp_all add: without_slashes_def)
qed (simp add: without_slashes_def)

lemma names_all_slashes: "list_all (\<lambda>c. c = slash) q \<Longrightarrow> path_names q = []"
  by (induction q rule: rev_induct) auto

lemma names_filename: "path_filename p \<noteq> [] \<Longrightarrow> path_names p = path_names (without_filename p) @ [path_filename p]"
proof -
  assume f: "path_filename p \<noteq> []"
  note parts = without_filename_append [of p] slash_not_in_filename [of p]
  show ?thesis
  proof (cases "without_filename p" rule: rev_cases)
    case Nil
    then have "path_filename p = p" using parts(1) by simp
    then show ?thesis using Nil f parts(2) by (simp add: names_single)
  next
    case (snoc q c)
    then have "c = slash" using without_filename_end [of p] by simp
    then have p: "p = q @ slash # path_filename p" using snoc parts(1) by simp
    have "path_names p = path_names q @ [path_filename p]"
      by (subst p) (rule names_snoc [OF parts(2) f])
    then show ?thesis using snoc \<open>c = slash\<close> by simp
  qed
qed

lemma without_slashes_cases: "list_all (\<lambda>c. c = slash) q \<or> without_slashes q \<noteq> [] \<and> last (without_slashes q) \<noteq> slash \<and> hd (without_slashes q) = hd q"
proof (induction q rule: rev_induct)
  case (snoc c q)
  then show ?case
    by (cases "c = slash") (auto simp: without_slashes_def hd_append list_all_iff)
qed simp

lemma parent_names:
  assumes "path_filename p \<noteq> []"
  shows "path_names p = path_names (path_parent p) @ [path_filename p]" "path_absolute (path_parent p) = path_absolute p"
    "path_names (path_parent p) \<noteq> [] \<Longrightarrow> path_filename (path_parent p) \<noteq> []"
proof -
  let ?q = "without_filename p"
  have abs: "path_absolute p = path_absolute ?q"
  proof (cases "?q = []")
    case True
    then have "p = path_filename p" using without_filename_append [of p] by simp
    then have "hd p \<noteq> slash" using slash_not_in_filename [of p] assms by (metis hd_in_set)
    with True show ?thesis by (simp add: path_absolute_def)
  next
    case False
    have "hd p = hd ?q" using without_filename_append [of p] False by (metis hd_append2)
    moreover have "p \<noteq> []" using False by (auto simp: without_filename_def)
    ultimately show ?thesis using False by (simp add: path_absolute_def)
  qed
  have "path_names (path_parent p) = path_names ?q \<and> path_absolute (path_parent p) = path_absolute ?q
    \<and> (path_names (path_parent p) \<noteq> [] \<longrightarrow> path_filename (path_parent p) \<noteq> [])"
  proof (cases "list_all (\<lambda>c. c = slash) ?q")
    case True
    then show ?thesis using names_all_slashes [OF True] by (simp add: path_parent_def)
  next
    case False
    then have q: "without_slashes ?q \<noteq> []" "last (without_slashes ?q) \<noteq> slash" "hd (without_slashes ?q) = hd ?q" "?q \<noteq> []"
      using without_slashes_cases [of ?q] by auto
    then show ?thesis using False by (simp add: path_parent_def names_without_slashes path_absolute_def filename_empty)
  qed
  then show "path_names p = path_names (path_parent p) @ [path_filename p]" "path_absolute (path_parent p) = path_absolute p"
    "path_names (path_parent p) \<noteq> [] \<Longrightarrow> path_filename (path_parent p) \<noteq> []"
    using names_filename [OF assms] abs by simp_all
qed

text \<open>The parent has exactly one element less.\<close>

lemma elements_parent:
  assumes "path_filename p \<noteq> []"
  shows "path_elements p = path_elements (path_parent p) @ [path_filename p]"
  using parent_names [OF assms] assms by (auto simp: path_elements_def)

lemma location_parent:
  assumes "path_filename p \<noteq> []" "path_filename p \<noteq> ''.''" "path_filename p \<noteq> ''..''"
  shows "location w p = location w (path_parent p) @ [path_filename p]"
  using parent_names [OF assms(1)] assms by (simp add: location_def step_name_def)

lemma dot_position_less: "dot_position f = Some i \<Longrightarrow> 0 < i \<and> i < length f"
  by (auto simp: dot_position_def rfind_char_def find_index_Some split: if_splits option.splits nat.splits)

lemma stem_extension: "path_stem p @ path_extension p = path_filename p"
  by (simp add: path_stem_def path_extension_def Let_def split: option.splits)

lemma split_at_filename:
  assumes "slash \<notin> set f" "q = [] \<or> last q = slash"
  shows "without_filename (q @ f) = q" "path_filename (q @ f) = f"
proof -
  have f: "takeWhile (\<lambda>c. c \<noteq> slash) (rev f) = rev f" "dropWhile (\<lambda>c. c \<noteq> slash) (rev f) = []"
    using assms(1) by (auto simp: takeWhile_eq_all_conv dropWhile_eq_Nil_conv)
  have "dropWhile (\<lambda>c. c \<noteq> slash) (rev f @ rev q) = dropWhile (\<lambda>c. c \<noteq> slash) (rev q)"
    "takeWhile (\<lambda>c. c \<noteq> slash) (rev f @ rev q) = rev f @ takeWhile (\<lambda>c. c \<noteq> slash) (rev q)"
    using assms(1) by (intro dropWhile_append2 takeWhile_append2; auto)+
  moreover have "dropWhile (\<lambda>c. c \<noteq> slash) (rev q) = rev q" "takeWhile (\<lambda>c. c \<noteq> slash) (rev q) = []"
    using assms(2) by (cases q rule: rev_cases; simp)+
  ultimately show "without_filename (q @ f) = q" "path_filename (q @ f) = f"
    by (simp_all add: without_filename_def path_filename_def)
qed

lemma parent_shape: "path_parent p = [] \<or> list_all (\<lambda>c. c = slash) (path_parent p) \<or> last (path_parent p) \<noteq> slash"
  using without_slashes_cases [of "without_filename p"] by (auto simp: path_parent_def Let_def)

lemma without_slashes_snoc: "q = [] \<or> last q \<noteq> slash \<Longrightarrow> without_slashes (q @ [slash]) = q"
  by (cases q rule: rev_cases) (simp_all add: without_slashes_def)

lemma parent_append:
  assumes "slash \<notin> set f" "f \<noteq> []" "q = [] \<or> list_all (\<lambda>c. c = slash) q \<or> last q \<noteq> slash"
  shows "path_parent (path_append q f) = q" "path_filename (path_append q f) = f"
proof -
  have rel: "\<not> path_absolute f" using assms(1,2) by (cases f) (auto simp: path_absolute_def)
  have "path_parent (path_append q f) = q \<and> path_filename (path_append q f) = f"
  proof (cases "path_filename q = []")
    case True
    then have q: "q = [] \<or> last q = slash" by (simp add: filename_empty)
    then have "list_all (\<lambda>c. c = slash) q" using assms(3) by auto
    then show ?thesis using True rel split_at_filename [OF assms(1) q] by (simp add: path_append_def path_parent_def Let_def)
  next
    case False
    then have q: "q \<noteq> []" "last q \<noteq> slash" by (simp_all add: filename_empty)
    have "q @ [slash] = [] \<or> last (q @ [slash]) = slash" by simp
    note split = split_at_filename [OF assms(1) this]
    have "\<not> list_all (\<lambda>c. c = slash) (q @ [slash])" using q by (auto simp: list_all_iff)
    then show ?thesis using False rel split without_slashes_snoc [of q] q by (simp add: path_append_def path_parent_def Let_def)
  qed
  then show "path_parent (path_append q f) = q" "path_filename (path_append q f) = f" by simp_all
qed

text \<open>
  A path with a file name has the elements of its parent and then that name, and appending the name to
  the parent gives an equal path. The stem followed by the extension is the file name. \<open>copy\<close> of a path that is
  not empty drops a final slash without changing its names, except that of the root nothing remains; for
  the empty path the behaviour is undefined.
\<close>

theorem path_parts:
  "(path_filename (pathname p) \<noteq> [] \<longrightarrow>
      path_elements (pathname p) = path_elements (pathname (Path_parent_path p)) @ [pathname (Path_filename p)]
    \<and> Path_eq p (Path_divide_assign (Path_parent_path p) (pathname (Path_filename p))))
  \<and> pathname (Path_stem p) @ pathname (Path_extension p) = pathname (Path_filename p)
  \<and> (if pathname p = [] then Path_remove_trailing_separator p = Undef
     else \<exists>q. Path_remove_trailing_separator p = Ret q \<and> mid q = mid p \<and> path_names (pathname q) = path_names (pathname p)
        \<and> (pathname p = [slash] \<longrightarrow> pathname q = []))"
proof (intro conjI impI)
  assume f: "path_filename (pathname p) \<noteq> []"
  show "path_elements (pathname p) = path_elements (pathname (Path_parent_path p)) @ [pathname (Path_filename p)]"
    using elements_parent [OF f] by (simp add: Path_parent_path_def Path_filename_def Path_of_def)
  let ?r = "path_append (path_parent (pathname p)) (path_filename (pathname p))"
  have r: "path_parent ?r = path_parent (pathname p)" "path_filename ?r = path_filename (pathname p)"
    using parent_append [OF slash_not_in_filename f parent_shape] by simp_all
  show "Path_eq p (Path_divide_assign (Path_parent_path p) (pathname (Path_filename p)))"
    using elements_parent [of ?r] elements_parent [OF f] r f
    by (simp add: Path_eq_def Path_divide_assign_def Path_parent_path_def Path_filename_def Path_of_def)
next
  show "pathname (Path_stem p) @ pathname (Path_extension p) = pathname (Path_filename p)"
    by (simp add: Path_stem_def Path_extension_def Path_filename_def Path_of_def stem_extension)
  have "path_names (butlast s) = path_names s" if "s \<noteq> []" "last s = slash" for s
    using names_snoc_slash [of "butlast s"] that append_butlast_last_id [of s] by metis
  then show "if pathname p = [] then Path_remove_trailing_separator p = Undef
     else \<exists>q. Path_remove_trailing_separator p = Ret q \<and> mid q = mid p \<and> path_names (pathname q) = path_names (pathname p)
        \<and> (pathname p = [slash] \<longrightarrow> pathname q = [])"
    by (auto simp: Path_remove_trailing_separator_def Path_assign_def filename_empty Let_def)
qed

theorem path_parts_witness:
  "path_elements ''/tmp/a.txt'' = path_elements (pathname (Path_parent_path (Path_of ''/tmp/a.txt'' 7))) @ [''a.txt'']"
proof -
  have "path_filename ''/tmp/a.txt'' = ''a.txt''" by (simp add: path_filename_def slash_def)
  then show ?thesis using path_parts [of "Path_of ''/tmp/a.txt'' 7"] by (simp add: Path_of_def Path_filename_def)
qed

section \<open>Directories\<close>

text \<open>The root is a directory, and what exists is in a directory.\<close>

definition fs_wf :: "filesystem \<Rightarrow> bool" where
  "fs_wf m \<longleftrightarrow> m [] = Some Directory \<and> (\<forall>d n. m (d @ [n]) \<noteq> None \<longrightarrow> m d = Some Directory)"

lemma mkdirs_props:
  assumes "mkdirs m d ns = Some m'" "fs_wf m" "m d = Some Directory"
  shows "fs_wf m' \<and> m' (d @ ns) = Some Directory \<and> (\<forall>k. m k \<noteq> None \<longrightarrow> m' k = m k)
    \<and> (\<forall>k. m' k \<noteq> m k \<longrightarrow> m' k = Some Directory \<and> prefix k (d @ ns))"
  using assms
proof (induction m d ns rule: mkdirs.induct)
  case (2 m d n ns)
  show ?case
  proof (cases "m (d @ [n])")
    case None
    let ?m = "m(d @ [n] \<mapsto> Directory)"
    have wf: "fs_wf ?m"
      using 2(4,5) None unfolding fs_wf_def by (auto simp: fun_upd_def)
    have "mkdirs ?m (d @ [n]) ns = Some m'" using 2(3) None by (simp add: Let_def)
    from 2(1) [OF refl None this wf fun_upd_same]
    have IH: "fs_wf m'" "m' (d @ n # ns) = Some Directory" "\<And>k. ?m k \<noteq> None \<Longrightarrow> m' k = ?m k"
      "\<And>k. m' k \<noteq> ?m k \<Longrightarrow> m' k = Some Directory \<and> prefix k (d @ n # ns)"
      unfolding append_assoc append_Cons append_Nil by blast+
    have "m' k = Some Directory \<and> prefix k (d @ n # ns)" if ch: "m' k \<noteq> m k" for k
    proof (cases "k = d @ [n]")
      case True
      then show ?thesis using IH(3) [of k] by simp
    next
      case False
      then have "?m k = m k" by simp
      then show ?thesis using IH(4) [of k] ch by simp
    qed
    moreover have "m' k = m k" if "m k \<noteq> None" for k
    proof -
      have "?m k = m k" using that None by auto
      then show ?thesis using IH(3) [of k] that by simp
    qed
    ultimately show ?thesis using IH(1,2) by blast
  next
    case (Some x)
    then have dir: "x = Directory" "mkdirs m (d @ [n]) ns = Some m'" using 2(3) by (auto simp: Let_def split: node.splits)
    from 2(2) [OF refl _ _ this(2) 2(4)] Some dir(1) show ?thesis by auto
  qed
qed simp

lemma mkdirs_Some: "(\<forall>j \<le> length ns. \<forall>c. m (d @ take j ns) \<noteq> Some (Regular c)) \<Longrightarrow> \<exists>m'. mkdirs m d ns = Some m'"
proof (induction m d ns rule: mkdirs.induct)
  case (2 m d n ns)
  have reg: "m (d @ n # take j ns) \<noteq> Some (Regular c)" if "j \<le> length ns" for j c
    using 2(3) [rule_format, of "Suc j" c] that by simp
  show ?case
  proof (cases "m (d @ [n])")
    case None
    have "\<forall>j \<le> length ns. \<forall>c. (m(d @ [n] \<mapsto> Directory)) ((d @ [n]) @ take j ns) \<noteq> Some (Regular c)" using reg by auto
    from 2(1) [OF refl None this] None show ?thesis by (simp add: Let_def fun_upd_def)
  next
    case (Some x)
    then have x: "x = Directory" using reg [of 0] by (cases x) auto
    have "\<forall>j \<le> length ns. \<forall>c. m ((d @ [n]) @ take j ns) \<noteq> Some (Regular c)" using reg by auto
    from 2(2) [OF refl _ _ this] Some x show ?thesis by (auto simp: Let_def)
  qed
qed simp

lemma create_directories_props:
  assumes "fs_wf (files w)" "p \<noteq> []" "\<forall>k c. prefix k (location w p) \<longrightarrow> files w k \<noteq> Some (Regular c)"
  shows "\<exists>w'. create_directories w p = Ret w' \<and> cwd w' = cwd w \<and> fs_wf (files w') \<and> files w' (location w p) = Some Directory
    \<and> (\<forall>k. files w k \<noteq> None \<longrightarrow> files w' k = files w k)
    \<and> (\<forall>k. files w' k \<noteq> files w k \<longrightarrow> files w' k = Some Directory \<and> prefix k (location w p))"
proof -
  have "\<forall>j \<le> length (location w p). \<forall>c. files w ([] @ take j (location w p)) \<noteq> Some (Regular c)"
    using assms(3) by (simp add: take_is_prefix)
  then obtain m where m: "mkdirs (files w) [] (location w p) = Some m" using mkdirs_Some by blast
  have "files w [] = Some Directory" using assms(1) by (simp add: fs_wf_def)
  from mkdirs_props [OF m assms(1) this] m assms(2) show ?thesis by (simp add: create_directories_def)
qed

lemma location_bare:
  assumes "n \<noteq> []" "slash \<notin> set n" "n \<noteq> ''.''" "n \<noteq> ''..''"
  shows "location w n = cwd w @ [n]" "path_filename n = n" "path_parent n = []"
proof -
  have "hd n \<noteq> slash" using assms(1,2) by (metis hd_in_set)
  then show "location w n = cwd w @ [n]"
    using assms by (simp add: location_def path_absolute_def names_single step_name_def)
  have "without_filename ([] @ n) = [] \<and> path_filename ([] @ n) = n"
    using split_at_filename [OF assms(2), of "[]"] by simp
  then show "path_filename n = n" "path_parent n = []" by (simp_all add: path_parent_def)
qed

text \<open>A name without a directory part: a directory of that name is made, or, when it is the name of a file, an error is reported.\<close>

lemma create_dir_bare:
  assumes wf: "fs_wf (files w)" and n: "n \<noteq> []" "slash \<notin> set n" "n \<noteq> ''.''" "n \<noteq> ''..''"
    and cwd: "files w (cwd w) = Some Directory" and new: "files w (cwd w @ [n]) = None"
  shows "\<exists>w'. Path_create_dir w (Path_of n i) = Ret w' \<and> files w' (cwd w @ [n]) = Some Directory
        \<and> node_at w' n = Some Directory \<and> (\<forall>k. k \<noteq> cwd w @ [n] \<longrightarrow> files w' k = files w k) \<and> cwd w' = cwd w"
proof -
  note bare = location_bare [OF n]
  have up: "files w k = Some Directory" if "strict_prefix k (cwd w @ [n])" for k
  proof -
    have "prefix k (cwd w)" using that by (metis prefix_snoc prefix_order.le_less_trans prefix_order.less_irrefl strict_prefix_def)
    then obtain r where r: "cwd w = k @ r" by (auto simp: prefix_def)
    have "files w (k @ r) \<noteq> None \<Longrightarrow> files w (k @ r) = Some Directory \<or> r \<noteq> [] \<Longrightarrow> r = [] \<or> files w k = Some Directory"
    proof (induction r rule: rev_induct)
      case (snoc x r)
      have "files w (k @ r) = Some Directory" using snoc.prems(1) wf unfolding fs_wf_def by (metis append_assoc)
      then show ?case using snoc.IH by (cases "r = []") auto
    qed simp
    then show ?thesis using cwd r by auto
  qed
  have "\<forall>k c. prefix k (location w n) \<longrightarrow> files w k \<noteq> Some (Regular c)"
    using up new bare(1) by (metis node.distinct(1) option.distinct(1) option.inject strict_prefix_def)
  then obtain w' where w': "create_directories w n = Ret w'" "cwd w' = cwd w" "files w' (location w n) = Some Directory"
      "\<forall>k. files w k \<noteq> None \<longrightarrow> files w' k = files w k"
      "\<forall>k. files w' k \<noteq> files w k \<longrightarrow> files w' k = Some Directory \<and> prefix k (location w n)"
    using create_directories_props [OF wf n(1)] by blast
  have "files w' k = files w k" if "k \<noteq> cwd w @ [n]" for k
    using w'(4,5) up that bare(1) by (metis option.distinct(1) strict_prefix_def)
  moreover have "location w' n = location w n" using w'(2) by (simp add: location_def)
  moreover have "Path_create_dir w (Path_of n i) = Ret w'" using w'(1) bare by (simp add: Path_create_dir_def Path_of_def)
  ultimately show "\<exists>w'. Path_create_dir w (Path_of n i) = Ret w' \<and> files w' (cwd w @ [n]) = Some Directory
        \<and> node_at w' n = Some Directory \<and> (\<forall>k. k \<noteq> cwd w @ [n] \<longrightarrow> files w' k = files w k) \<and> cwd w' = cwd w"
    using w'(2,3) bare n(1) by (intro exI [of _ w']) (simp add: node_at_def)
qed

lemma mkdirs_regular: "m (d @ ns) = Some (Regular c) \<Longrightarrow> ns \<noteq> [] \<Longrightarrow> mkdirs m d ns = None"
proof (induction m d ns rule: mkdirs.induct)
  case (2 m d n ns)
  show ?case
  proof (cases "ns = []")
    case False
    then show ?thesis using 2 by (auto simp: Let_def fun_upd_def split: option.splits node.splits)
  qed (use 2 in \<open>simp add: Let_def\<close>)
qed simp

lemma create_dir_over_file:
  assumes n: "n \<noteq> []" "slash \<notin> set n" "n \<noteq> ''.''" "n \<noteq> ''..''" and "files w (cwd w @ [n]) = Some (Regular c)"
  shows "Path_create_dir w (Path_of n i) = Terminate"
  using location_bare [OF n] mkdirs_regular [of "files w" "[]" "cwd w @ [n]" c] assms
  by (simp add: Path_create_dir_def Path_of_def create_directories_def fs_error_def)

text \<open>
  \<open>create_dir\<close> of a path with a file name and a directory part makes the directory with all its parents
  when none of them is a regular file, and changes nothing else: what existed is kept, and what is new is a
  directory on the way. For a name without a directory part it does not make the current directory, as
  its comment says, but a directory that takes the name of the file.
\<close>

theorem create_dir_behaviour:
  assumes wf: "fs_wf (files w)" and f: "path_filename (pathname p) \<noteq> []" and q: "path_parent (pathname p) \<noteq> []"
    and reg: "\<forall>k c. prefix k (location w (path_parent (pathname p))) \<longrightarrow> files w k \<noteq> Some (Regular c)"
    and n: "n \<noteq> []" "slash \<notin> set n" "n \<noteq> ''.''" "n \<noteq> ''..''" and cwd: "files w (cwd w) = Some Directory" and new: "files w (cwd w @ [n]) = None"
  shows "(\<exists>w'. Path_create_dir w p = Ret w' \<and> fs_wf (files w') \<and> files w' (location w (path_parent (pathname p))) = Some Directory
        \<and> (\<forall>k. files w k \<noteq> None \<longrightarrow> files w' k = files w k)
        \<and> (\<forall>k. files w' k \<noteq> files w k \<longrightarrow> files w' k = Some Directory \<and> prefix k (location w (path_parent (pathname p)))))
    \<and> (\<exists>w'. Path_create_dir w (Path_of n i) = Ret w' \<and> files w' (cwd w @ [n]) = Some Directory
        \<and> node_at w' n = Some Directory \<and> (\<forall>k. k \<noteq> cwd w @ [n] \<longrightarrow> files w' k = files w k))"
proof (intro conjI)
  from create_directories_props [OF wf q reg] f q
  show "\<exists>w'. Path_create_dir w p = Ret w' \<and> fs_wf (files w') \<and> files w' (location w (path_parent (pathname p))) = Some Directory
        \<and> (\<forall>k. files w k \<noteq> None \<longrightarrow> files w' k = files w k)
        \<and> (\<forall>k. files w' k \<noteq> files w k \<longrightarrow> files w' k = Some Directory \<and> prefix k (location w (path_parent (pathname p))))"
    by (auto simp: Path_create_dir_def Path_parent_path_def Path_of_def)
  show "\<exists>w'. Path_create_dir w (Path_of n i) = Ret w' \<and> files w' (cwd w @ [n]) = Some Directory
        \<and> node_at w' n = Some Directory \<and> (\<forall>k. k \<noteq> cwd w @ [n] \<longrightarrow> files w' k = files w k)"
    using create_dir_bare [OF wf n cwd new, of i] by blast
qed

text \<open>A file system with the directory \<open>/home\<close>, which is the current one.\<close>

definition home_os :: os where
  "home_os = \<lparr>files = [[] \<mapsto> Directory, [''home''] \<mapsto> Directory], cwd = [''home'']\<rparr>"

lemma home_wf: "fs_wf (files home_os)"
  by (auto simp: fs_wf_def home_os_def)

lemma home_no_regular: "files home_os k \<noteq> Some (Regular c)"
  by (auto simp: home_os_def)

theorem create_dir_behaviour_witness:
  "\<exists>w'. Path_create_dir home_os (Path_of ''b.txt'' 1) = Ret w' \<and> files w' [''home'', ''b.txt''] = Some Directory"
proof -
  have p: "path_filename (pathname (Path_of ''/tmp/a.txt'' 1)) \<noteq> []" "path_parent (pathname (Path_of ''/tmp/a.txt'' 1)) \<noteq> []"
    by (simp_all add: Path_of_def path_filename_def path_parent_def without_filename_def without_slashes_def slash_def)
  have n: "''b.txt'' \<noteq> []" "slash \<notin> set ''b.txt''" "''b.txt'' \<noteq> ''.''" "''b.txt'' \<noteq> ''..''" by (simp_all add: slash_def)
  have w: "files home_os (cwd home_os) = Some Directory" "files home_os (cwd home_os @ [''b.txt'']) = None" by (simp_all add: home_os_def)
  obtain w' where "Path_create_dir home_os (Path_of ''b.txt'' 1) = Ret w'" "files w' (cwd home_os @ [''b.txt'']) = Some Directory"
    using create_dir_behaviour [OF home_wf p _ n w, of 1] home_no_regular by blast
  then show ?thesis by (simp add: home_os_def)
qed

text \<open>
  After \<open>remove\<close> the path does not exist, nor does anything below a removed directory; nothing else changes,
  and the answer is true whether or not there was something to remove.
\<close>

theorem path_remove_behaviour:
  assumes "Path_remove w p = (r, w')" "fs_wf (files w)"
  shows "r \<and> \<not> Path_exists w' p \<and> (\<forall>k. \<not> prefix (location w (pathname p)) k \<longrightarrow> files w' k = files w k)
    \<and> (Path_is_directory w p \<longrightarrow> (\<forall>k. prefix (location w (pathname p)) k \<longrightarrow> files w' k = None))
    \<and> (\<not> Path_exists w p \<longrightarrow> w' = w)"
proof -
  have take: "take (length l) k = l \<longleftrightarrow> prefix l k" for l k :: "string list" by (auto simp: take_is_prefix prefix_def) (metis append_take_drop_id)
  have loc: "location (w\<lparr>files := m\<rparr>) q = location w q" for m q by (simp add: location_def)
  show ?thesis
    using assms(1)
    by (auto simp: Path_remove_def Path_exists_def Path_is_directory_def remove_all_def fs_remove_def node_at_def loc take split: if_splits option.splits node.splits)
qed

theorem path_remove_behaviour_witness:
  "\<not> Path_exists (snd (Path_remove home_os (Path_of ''/home'' 1))) (Path_of ''/home'' 1)"
proof -
  obtain r w' where r: "Path_remove home_os (Path_of ''/home'' 1) = (r, w')" by (cases "Path_remove home_os (Path_of ''/home'' 1)")
  from path_remove_behaviour [OF this home_wf] r show ?thesis by simp
qed

text \<open>A path shorter than \<open>MAX_PATH\<close> survives the conversion to a fixed-size string and back, without its id.\<close>

lemma cpath_roundtrip:
  assumes "NUL \<notin> set (pathname p)" "length (pathname p) < MAX_PATH"
  shows "\<exists>c. path_to_cpath p = Ret c \<and> cpath_to_path c = Ret (Path_of (pathname p) NULL_ID)"
proof -
  obtain c where c: "cs_of_string CPath (pathname p) = Ret c" "cs_ok CPath c" "cs_str c = pathname p"
    using cs_of_string_Ret [of "pathname p" CPath] assms by (auto simp: CS_def)
  then have "cs_to_string c = Ret (pathname p)" by (metis cs_ok_to_string)
  with c(1) show ?thesis by (simp add: path_to_cpath_def cpath_to_path_def Path_copy_def Path_of_def)
qed

end
