(* ===== verification/File.thy ===== *)
theory File
  imports Path
begin

text \<open>
  file.hpp: open modes, the classes \<open>File\<close>, \<open>TextFile\<close> and \<open>TmpTextFile\<close> over \<open>std::fstream\<close>, and the generator of
  random file names. The stream is modelled on the file system of theory Path: what is written is in the
  file at once, and the only errors are those of the open mode and of the file system's shape. Results are
  pairs of an outcome and the operating system's state, because a call that throws may have changed it.
\<close>

section \<open>Open modes\<close>

record OpenMode =
  mode_in :: bool
  mode_out :: bool
  mode_binary :: bool
  mode_app :: bool
  mode_ate :: bool
  mode_trunc :: bool

definition is_bin_mode :: "OpenMode \<Rightarrow> bool" where "is_bin_mode m = mode_binary m"

definition is_text_mode :: "OpenMode \<Rightarrow> bool" where "is_text_mode m = (\<not> is_bin_mode m)"

definition OpenMode_add :: "string \<Rightarrow> bool \<Rightarrow> string \<Rightarrow> string" where
  "OpenMode_add s b name = (if b then s @ (if s = [] then name else '' | '' @ name) else s)"

definition OpenMode_to_string :: "OpenMode \<Rightarrow> string" where
  "OpenMode_to_string m =
     (let s = (if mode_in m then ''in'' else []);
          s = OpenMode_add s (mode_out m) ''out'';
          s = OpenMode_add s (mode_binary m) ''binary'';
          s = OpenMode_add s (mode_app m) ''app'';
          s = OpenMode_add s (mode_ate m) ''ate'';
          s = OpenMode_add s (mode_trunc m) ''trunc''
      in s)"

definition no_mode :: OpenMode where
  "no_mode = \<lparr>mode_in = False, mode_out = False, mode_binary = False, mode_app = False, mode_ate = False, mode_trunc = False\<rparr>"

definition BinMode_of :: "OpenMode \<Rightarrow> OpenMode outcome" where
  "BinMode_of m =
     (if \<not> is_bin_mode m then Raise (Lib_error (''BinMode::BinMode (): Error: Invalid binary mode: '' @ OpenMode_to_string m)) else Ret m)"

definition TextMode_of :: "OpenMode \<Rightarrow> OpenMode outcome" where
  "TextMode_of m =
     (if \<not> is_text_mode m then Raise (Lib_error (''TextMode::TextMode(): Error: Invalid text mode: '' @ OpenMode_to_string m)) else Ret m)"

definition BIN_READ :: OpenMode where "BIN_READ = no_mode\<lparr>mode_binary := True, mode_in := True\<rparr>"
definition BIN_WRITE :: OpenMode where "BIN_WRITE = no_mode\<lparr>mode_binary := True, mode_out := True\<rparr>"
definition BIN_APPEND :: OpenMode where "BIN_APPEND = no_mode\<lparr>mode_binary := True, mode_app := True\<rparr>"
definition BIN_ATE :: OpenMode where "BIN_ATE = no_mode\<lparr>mode_binary := True, mode_ate := True\<rparr>"
definition BIN_RW :: OpenMode where "BIN_RW = no_mode\<lparr>mode_binary := True, mode_in := True, mode_out := True\<rparr>"
definition BIN_RW_ATE :: OpenMode where "BIN_RW_ATE = BIN_RW\<lparr>mode_ate := True\<rparr>"
definition TEXT_READ :: OpenMode where "TEXT_READ = no_mode\<lparr>mode_in := True\<rparr>"
definition TEXT_WRITE :: OpenMode where "TEXT_WRITE = no_mode\<lparr>mode_out := True\<rparr>"
definition TEXT_APPEND :: OpenMode where "TEXT_APPEND = no_mode\<lparr>mode_app := True\<rparr>"
definition TEXT_ATE :: OpenMode where "TEXT_ATE = no_mode\<lparr>mode_ate := True\<rparr>"
definition TEXT_RW :: OpenMode where "TEXT_RW = no_mode\<lparr>mode_in := True, mode_out := True\<rparr>"
definition TEXT_RWA :: OpenMode where "TEXT_RWA = TEXT_RW\<lparr>mode_app := True\<rparr>"
definition TEXT_RW_ATE :: OpenMode where "TEXT_RW_ATE = TEXT_RW\<lparr>mode_ate := True\<rparr>"
definition DEFAULT_BIN_MODE :: OpenMode where "DEFAULT_BIN_MODE = BIN_RW"
definition DEFAULT_TEXT_MODE :: OpenMode where "DEFAULT_TEXT_MODE = TEXT_RWA"
definition DEFAULT_OPEN_MODE :: OpenMode where "DEFAULT_OPEN_MODE = DEFAULT_BIN_MODE"

section \<open>std::fstream\<close>

record fstream =
  opened :: "(string list \<times> OpenMode) option"
  stream_pos :: nat
  failbit :: bool

definition new_fstream :: fstream where "new_fstream = \<lparr>opened = None, stream_pos = 0, failbit = False\<rparr>"

text \<open>
  The table of \<open>basic_filebuf::open\<close>: whether the flags are one of its combinations, whether a missing file is
  made, whether the content is dropped.
\<close>

definition mode_valid :: "OpenMode \<Rightarrow> bool" where
  "mode_valid m \<longleftrightarrow> (if mode_app m then \<not> mode_trunc m else if mode_trunc m then mode_out m else mode_in m \<or> mode_out m)"

definition mode_creates :: "OpenMode \<Rightarrow> bool" where
  "mode_creates m \<longleftrightarrow> mode_app m \<or> mode_trunc m \<or> mode_out m \<and> \<not> mode_in m"

definition mode_truncates :: "OpenMode \<Rightarrow> bool" where
  "mode_truncates m \<longleftrightarrow> mode_trunc m \<or> mode_out m \<and> \<not> mode_in m \<and> \<not> mode_app m"

definition mode_writes :: "OpenMode \<Rightarrow> bool" where "mode_writes m \<longleftrightarrow> mode_out m \<or> mode_app m"

definition fstream_open :: "fstream \<Rightarrow> string \<Rightarrow> OpenMode \<Rightarrow> os \<Rightarrow> fstream \<times> os" where
  "fstream_open st p m w =
     (let loc = location w p in
      if opened st \<noteq> None \<or> \<not> mode_valid m \<or> path_filename p = [] then (st\<lparr>failbit := True\<rparr>, w)
      else case files w loc of
        Some Directory \<Rightarrow>
          if mode_writes m then (st\<lparr>failbit := True\<rparr>, w) else (\<lparr>opened = Some (loc, m), stream_pos = 0, failbit = False\<rparr>, w)
      | Some (Regular c) \<Rightarrow>
          let c = (if mode_truncates m then [] else c) in
          (\<lparr>opened = Some (loc, m), stream_pos = (if mode_ate m then length c else 0), failbit = False\<rparr>,
           w\<lparr>files := (files w)(loc \<mapsto> Regular c)\<rparr>)
      | None \<Rightarrow>
          if mode_creates m \<and> loc \<noteq> [] \<and> files w (butlast loc) = Some Directory
          then (\<lparr>opened = Some (loc, m), stream_pos = 0, failbit = False\<rparr>, w\<lparr>files := (files w)(loc \<mapsto> Regular [])\<rparr>)
          else (st\<lparr>failbit := True\<rparr>, w))"

definition content_at :: "os \<Rightarrow> string list \<Rightarrow> string" where
  "content_at w loc = (case files w loc of Some (Regular c) \<Rightarrow> c | _ \<Rightarrow> [])"

definition overwrite :: "string \<Rightarrow> nat \<Rightarrow> string \<Rightarrow> string" where
  "overwrite c i s = take i (c @ replicate (i - length c) NUL) @ s @ drop (i + length s) c"

definition fstream_write :: "fstream \<Rightarrow> string \<Rightarrow> os \<Rightarrow> fstream \<times> os" where
  "fstream_write st s w =
     (case opened st of
        None \<Rightarrow> (st\<lparr>failbit := True\<rparr>, w)
      | Some (loc, m) \<Rightarrow>
          if failbit st then (st, w)
          else if \<not> mode_writes m then (st\<lparr>failbit := True\<rparr>, w)
          else let c = content_at w loc; i = (if mode_app m then length c else stream_pos st) in
            (st\<lparr>stream_pos := i + length s\<rparr>, w\<lparr>files := (files w)(loc \<mapsto> Regular (overwrite c i s))\<rparr>))"

definition fstream_seekg0 :: "fstream \<Rightarrow> fstream" where
  "fstream_seekg0 st = (if failbit st then st else if opened st = None then st\<lparr>failbit := True\<rparr> else st\<lparr>stream_pos := 0\<rparr>)"

definition fstream_read :: "fstream \<Rightarrow> nat \<Rightarrow> os \<Rightarrow> fstream \<times> string" where
  "fstream_read st n w =
     (case opened st of
        None \<Rightarrow> (st\<lparr>failbit := True\<rparr>, [])
      | Some (loc, m) \<Rightarrow>
          if failbit st then (st, [])
          else if \<not> mode_in m then (st\<lparr>failbit := True\<rparr>, [])
          else let got = take n (drop (stream_pos st) (content_at w loc)) in
            (st\<lparr>stream_pos := stream_pos st + length got, failbit := (length got < n)\<rparr>, got))"

section \<open>The class File\<close>

record File = Object +
  file_mode :: OpenMode
  file_fullpath :: Path
  file_stream :: fstream

definition MAX_BUFFER_SIZE :: "64 word" where "MAX_BUFFER_SIZE = xor 1024 3"

definition bind_io :: "'a outcome \<times> os \<Rightarrow> ('a \<Rightarrow> os \<Rightarrow> 'b outcome \<times> os) \<Rightarrow> 'b outcome \<times> os" where
  "bind_io r f =
     (case r of
        (Ret x, w) \<Rightarrow> f x w
      | (Raise e, w) \<Rightarrow> (Raise e, w)
      | (Terminate, w) \<Rightarrow> (Terminate, w)
      | (Undef, w) \<Rightarrow> (Undef, w))"

definition File_is_open :: "File \<Rightarrow> bool" where "File_is_open f \<longleftrightarrow> opened (file_stream f) \<noteq> None"

definition File_fail :: "File \<Rightarrow> bool" where "File_fail f = failbit (file_stream f)"

definition File_file_open :: "File \<Rightarrow> OpenMode \<Rightarrow> os \<Rightarrow> File outcome \<times> os" where
  "File_file_open f mode w =
     (case fstream_open (file_stream f) (pathname (file_fullpath f)) mode w of
        (st, w) \<Rightarrow>
          if failbit st then (log_and_throw ''File::file_open(): Error: Could not open file '', w)
          else (Ret (f\<lparr>file_stream := st\<rparr>), w))"

definition File_of :: "Path \<Rightarrow> int64 \<Rightarrow> OpenMode \<Rightarrow> os \<Rightarrow> File outcome \<times> os" where
  "File_of full_path i mode w =
     (case Path_create_dir w full_path of
        Ret w' \<Rightarrow>
          File_file_open \<lparr>mid = i, file_mode = mode, file_fullpath = Path_copy full_path NULL_ID, file_stream = new_fstream\<rparr> mode w'
      | _ \<Rightarrow> (Terminate, w))"

text \<open>A stream that has failed before is still failed after it was closed.\<close>

definition File_close :: "File \<Rightarrow> os \<Rightarrow> File outcome \<times> os" where
  "File_close f w =
     (if File_is_open f then
        let f = f\<lparr>file_stream := (file_stream f)\<lparr>opened := None\<rparr>\<rparr> in
        (noexcept (if File_fail f
           then log_and_throw (''File::~File(): Error: Could not close file '' @ pathname (file_fullpath f)) else Ret f), w)
      else (Ret f, w))"

text \<open>
  The destructor closes the file and then gives the stream, which \<open>new\<close> has made, to \<open>free\<close>: the behaviour of that is
  undefined.
\<close>

definition File_destroy :: "File \<Rightarrow> os \<Rightarrow> unit outcome \<times> os" where
  "File_destroy f w = (case File_close f w of (r, w) \<Rightarrow> (bind_outcome r (\<lambda>_. Undef), w))"

definition File_exists :: "File \<Rightarrow> os \<Rightarrow> bool" where "File_exists f w = Path_exists w (file_fullpath f)"

text \<open>\<open>fs::remove\<close> throws for a directory that is not empty.\<close>

definition File_remove :: "File \<Rightarrow> os \<Rightarrow> bool outcome \<times> os" where
  "File_remove f w =
     bind_io (if File_is_open f then File_close f w else (Ret f, w)) (\<lambda>f w.
       let p = pathname (file_fullpath f) in
       case node_at w p of
         None \<Rightarrow> (Ret False, w)
       | Some (Regular c) \<Rightarrow> (Ret True, fs_remove w p)
       | Some Directory \<Rightarrow> if \<exists>n. files w (location w p @ [n]) \<noteq> None then (fs_error, w) else (Ret True, fs_remove w p))"

definition File_initialize :: "File \<Rightarrow> Path \<Rightarrow> int64 \<Rightarrow> OpenMode \<Rightarrow> File \<times> bool" where
  "File_initialize f p i mode = (f\<lparr>file_fullpath := (file_fullpath f)\<lparr>pathname := pathname p\<rparr>, file_mode := mode, mid := i\<rparr>, True)"

definition File_debug_string :: "File \<Rightarrow> string" where
  "File_debug_string f = Object_debug_string (Object.truncate f) @ '' path = '' @ pathname (file_fullpath f)"

text \<open>An error of \<open>open\<close> is not looked at here.\<close>

definition File_open :: "File \<Rightarrow> OpenMode \<Rightarrow> os \<Rightarrow> File \<times> os" where
  "File_open f mode w =
     (let f = f\<lparr>file_mode := mode\<rparr> in
      if \<not> File_is_open f then
        (case fstream_open (file_stream f) (pathname (file_fullpath f)) (file_mode f) w of (st, w) \<Rightarrow> (f\<lparr>file_stream := st\<rparr>, w))
      else (f, w))"

definition File_get_stream :: "File \<Rightarrow> os \<Rightarrow> File \<times> os" where "File_get_stream f w = File_open f DEFAULT_OPEN_MODE w"

definition File_size :: "File \<Rightarrow> os \<Rightarrow> nat outcome" where
  "File_size f w = (case node_at w (pathname (file_fullpath f)) of Some (Regular c) \<Rightarrow> Ret (length c) | _ \<Rightarrow> noexcept fs_error)"

definition File_is_bin_read :: "File \<Rightarrow> bool" where "File_is_bin_read f \<longleftrightarrow> file_mode f = BIN_READ"
definition File_is_bin_write :: "File \<Rightarrow> bool" where "File_is_bin_write f \<longleftrightarrow> file_mode f = BIN_WRITE"
definition File_is_bin_rw :: "File \<Rightarrow> bool" where "File_is_bin_rw f \<longleftrightarrow> file_mode f = BIN_RW_ATE"
definition File_is_text_read :: "File \<Rightarrow> bool" where "File_is_text_read f \<longleftrightarrow> file_mode f = TEXT_READ"
definition File_is_text_write :: "File \<Rightarrow> bool" where "File_is_text_write f \<longleftrightarrow> file_mode f = TEXT_WRITE"
definition File_is_text_rw :: "File \<Rightarrow> bool" where "File_is_text_rw f \<longleftrightarrow> file_mode f = TEXT_RW_ATE"

text \<open>
  The functions on a \<open>FILE*\<close>, with what the C functions answer as arguments: the message of an error number (theory
  Error\_Report makes it as the code does), the results of \<open>fseek\<close> and \<open>ftell\<close>, and \<open>errno\<close>. In the message the file is
  named by \<open>_fullpath.to_string ()\<close>, which is that of \<open>Object\<close>: the id of the path.
\<close>

definition log_and_throw_if_error :: "(int \<Rightarrow> string) \<Rightarrow> File \<Rightarrow> int \<Rightarrow> string \<Rightarrow> unit outcome" where
  "log_and_throw_if_error strerror f error error_msg =
     (if error \<noteq> 0 then Raise (Lib_error (error_msg @ '' in file '' @ Object_to_string (Object.truncate (file_fullpath f)) @ '' '' @ strerror error)) else Ret ())"

definition move_cursor :: "(int \<Rightarrow> string) \<Rightarrow> File \<Rightarrow> int \<Rightarrow> unit outcome" where
  "move_cursor strerror f fseek =
     (if fseek \<noteq> 0 then log_and_throw_if_error strerror f fseek ''File::move_cursor(): Error: Could not move cursor to position.'' else Ret ())"

definition File_position :: "(int \<Rightarrow> string) \<Rightarrow> File \<Rightarrow> int \<Rightarrow> int \<Rightarrow> int outcome" where
  "File_position strerror f ftell errno =
     (if ftell = - 1 then
        map_out (\<lambda>_. ftell) (log_and_throw_if_error strerror f errno ''File::position(): Error: Could not get file position '')
      else Ret ftell)"

text \<open>The size as \<open>ftell\<close> gives it, converted to \<open>size_t\<close>.\<close>

definition File_size_FILE :: "(int \<Rightarrow> string) \<Rightarrow> File \<Rightarrow> int \<Rightarrow> int \<Rightarrow> 64 word outcome" where
  "File_size_FILE strerror f fseek ftell = noexcept (map_out (\<lambda>_. word_of_int ftell) (move_cursor strerror f fseek))"

text \<open>
  The position found is stored in a variable of the inner block, so the cursor is never moved afterwards; and
  \<open>open ()\<close> replaces the mode just set by its default one.
\<close>

definition change_mode :: "(int \<Rightarrow> string) \<Rightarrow> File \<Rightarrow> OpenMode \<Rightarrow> int \<Rightarrow> int \<Rightarrow> os \<Rightarrow> File outcome \<times> os" where
  "change_mode strerror f mode ftell errno w =
     bind_io
       (if File_is_open f
        then bind_io (File_position strerror f ftell errno, w) (\<lambda>_. File_close f)
        else (Ret f, w))
       (\<lambda>f w. case File_open (f\<lparr>file_mode := mode\<rparr>) DEFAULT_OPEN_MODE w of (f, w) \<Rightarrow> (Ret f, w))"

definition set_binary_mode :: "(int \<Rightarrow> string) \<Rightarrow> File \<Rightarrow> int \<Rightarrow> int \<Rightarrow> os \<Rightarrow> File outcome \<times> os" where
  "set_binary_mode strerror f ftell errno w = (case change_mode strerror f BIN_RW ftell errno w of (r, w) \<Rightarrow> (noexcept r, w))"

definition set_text_mode :: "(int \<Rightarrow> string) \<Rightarrow> File \<Rightarrow> int \<Rightarrow> int \<Rightarrow> os \<Rightarrow> File outcome \<times> os" where
  "set_text_mode strerror f ftell errno w = change_mode strerror f TEXT_RW ftell errno w"

section \<open>The class TextFile\<close>

definition TextFile_write :: "File \<Rightarrow> string \<Rightarrow> os \<Rightarrow> File outcome \<times> os" where
  "TextFile_write f content w =
     (case (if \<not> File_is_open f then File_open f DEFAULT_OPEN_MODE w else (f, w)) of
        (f, w) \<Rightarrow>
          (case fstream_write (file_stream f) content w of
             (st, w) \<Rightarrow>
               let f = f\<lparr>file_stream := st\<rparr> in
               if File_fail f then (log_and_throw ''TextFile::write(): Error: Could not write to the file '', w) else (Ret f, w)))"

definition TextFile_append :: "File \<Rightarrow> string \<Rightarrow> os \<Rightarrow> File outcome \<times> os" where
  "TextFile_append f content w =
     (case (if \<not> File_is_open f then File_open f DEFAULT_OPEN_MODE w else (f, w)) of (f, w) \<Rightarrow> TextFile_write f content w)"

text \<open>
  An exception in the body of a constructor destroys the base \<open>File\<close>. The only exceptions there come from a
  stream that has failed.
\<close>

definition unwind_File :: "File \<Rightarrow> 'a outcome \<times> os \<Rightarrow> 'a outcome \<times> os" where
  "unwind_File f r =
     (case r of
        (Raise e, w) \<Rightarrow>
          (case File_destroy (f\<lparr>file_stream := (file_stream f)\<lparr>failbit := True\<rparr>\<rparr>) w of
             (Ret u, w) \<Rightarrow> (Raise e, w)
           | (Undef, w) \<Rightarrow> (Undef, w)
           | (other, w) \<Rightarrow> (Terminate, w))
      | r \<Rightarrow> r)"

definition TextFile_of :: "Path \<Rightarrow> string \<Rightarrow> OpenMode \<Rightarrow> int64 \<Rightarrow> os \<Rightarrow> File outcome \<times> os" where
  "TextFile_of full_path content mode i w =
     bind_io (File_of full_path i mode w) (\<lambda>f w. unwind_File f (
       if File_exists f w then
         if content \<noteq> [] then TextFile_append f content w
         else (case File_open f mode w of (f, w) \<Rightarrow> (Ret f, w))
       else
         (case File_open f mode w of (f, w) \<Rightarrow> bind_io (TextFile_write f content w) File_close)))"

text \<open>\<open>EOF\<close> is -1, which as a \<open>char\<close> is the character 255.\<close>

definition TextFile_get_char :: "File \<Rightarrow> char \<Rightarrow> os \<Rightarrow> bool \<times> char \<times> File" where
  "TextFile_get_char f c w =
     (if \<not> File_is_open f \<or> \<not> is_text_mode (file_mode f) then (False, c, f)
      else case fstream_read (file_stream f) 1 w of
        (st, got) \<Rightarrow> let c = (case got of [] \<Rightarrow> CHR 0xFF | x # _ \<Rightarrow> x) in (c \<noteq> CHR 0xFF, c, f\<lparr>file_stream := st\<rparr>))"

text \<open>\<open>read_line\<close> opens a stream of its own on the path every time.\<close>

definition TextFile_read_line :: "File \<Rightarrow> string \<Rightarrow> os \<Rightarrow> bool \<times> string" where
  "TextFile_read_line f line w =
     (if \<not> File_is_open f \<or> \<not> is_text_mode (file_mode f) then (False, line)
      else case node_at w (pathname (file_fullpath f)) of
        Some (Regular c) \<Rightarrow> if c = [] then (False, []) else (True, takeWhile (\<lambda>x. x \<noteq> CHR 0x0A) c)
      | Some Directory \<Rightarrow> (False, [])
      | None \<Rightarrow> (False, line))"

text \<open>\<open>S (content)\<close> ends at the first null character.\<close>

definition TextFile_read :: "File \<Rightarrow> os \<Rightarrow> (string \<times> File) outcome \<times> os" where
  "TextFile_read f w =
     (case (if \<not> File_is_open f then File_open f TEXT_READ w else (f, w)) of
        (f, w) \<Rightarrow>
          (bind_outcome (File_size f w) (\<lambda>count.
             case fstream_read (fstream_seekg0 (file_stream f)) count w of
               (st, content) \<Rightarrow>
                 if length content \<noteq> count then log_and_throw ''TextFile::read(): Error: Could not read the file ''
                 else Ret (takeWhile (\<lambda>x. x \<noteq> NUL) content, f\<lparr>file_stream := st\<rparr>)), w))"

text \<open>A temporary file: the directory \<open>tmp\<close> is \<open>TMP_PATH\<close>; the overload for C strings does not use it.\<close>

definition TmpTextFile_of :: "Path \<Rightarrow> string \<Rightarrow> string \<Rightarrow> int64 \<Rightarrow> os \<Rightarrow> File outcome \<times> os" where
  "TmpTextFile_of tmp file_name content i w =
     TextFile_of (Path_of (path_append (pathname tmp) file_name) NULL_ID) content DEFAULT_TEXT_MODE i w"

definition TmpTextFile_of_cstr :: "string \<Rightarrow> string \<Rightarrow> int64 \<Rightarrow> os \<Rightarrow> File outcome \<times> os" where
  "TmpTextFile_of_cstr file_name content i w = TextFile_of (Path_of file_name NULL_ID) content DEFAULT_TEXT_MODE i w"

text \<open>The destructor is \<open>noexcept\<close>; that nothing was removed is only logged.\<close>

definition TmpTextFile_destroy :: "File \<Rightarrow> os \<Rightarrow> unit outcome \<times> os" where
  "TmpTextFile_destroy f w =
     (case File_remove f w of
        (r, w) \<Rightarrow> bind_io (noexcept r, w) (\<lambda>_. File_destroy (f\<lparr>file_stream := (file_stream f)\<lparr>opened := None\<rparr>\<rparr>)))"

section \<open>The class BinaryFile\<close>

text \<open>\<open>None\<close> is the null pointer; \<open>errno\<close> is an argument, and for the value 0 nothing is thrown.\<close>

definition BinaryFile_append :: "(int \<Rightarrow> string) \<Rightarrow> int \<Rightarrow> File \<Rightarrow> string option \<Rightarrow> os \<Rightarrow> File outcome \<times> os" where
  "BinaryFile_append strerror errno f data w =
     (case data of
        None \<Rightarrow> (Ret f, w)
      | Some bytes \<Rightarrow>
          if bytes = [] then (Ret f, w)
          else case (if \<not> File_is_open f then File_open f BIN_RW_ATE w else (f, w)) of
            (f, w) \<Rightarrow>
              (case fstream_write (file_stream f) bytes w of
                 (st, w) \<Rightarrow>
                   let f = f\<lparr>file_stream := st\<rparr> in
                   if failbit st then
                     (map_out (\<lambda>_. f) (log_and_throw_if_error strerror f errno ''BinaryFile::append(): Error: Could not append data to the file ''), w)
                   else (Ret f, w)))"

definition BinaryFile_of :: "(int \<Rightarrow> string) \<Rightarrow> int \<Rightarrow> Path \<Rightarrow> OpenMode \<Rightarrow> string option \<Rightarrow> int64 \<Rightarrow> os \<Rightarrow> File outcome \<times> os" where
  "BinaryFile_of strerror errno full_path mode data i w =
     bind_io (File_of full_path i mode w) (\<lambda>f w. unwind_File f (BinaryFile_append strerror errno f data w))"

section \<open>Random file names\<close>

definition DEFAULT_LENGTH :: nat where "DEFAULT_LENGTH = 8"

definition CHARS :: string where "CHARS = ''0123456789ABCDEFGHIJKLMNOPQRSTUVWXYZabcdefghijklmnopqrstuvwxyz''"

text \<open>The numbers drawn are a sequence \<open>r\<close>, each less than the number of characters.\<close>

definition drawn :: "(nat \<Rightarrow> nat) \<Rightarrow> nat \<Rightarrow> char" where "drawn r i = CHARS ! r i"

fun first_char_loop :: "(nat \<Rightarrow> nat) \<Rightarrow> nat \<Rightarrow> nat \<Rightarrow> (char \<times> nat) outcome" where
  "first_char_loop r 0 i = Ret (drawn r i, i)"
| "first_char_loop r (Suc count) i =
     (if isdigit (drawn r i) then
        if count = 0 then runtime_error ''RandomFileNameGenerator::random_string(): Error: Could not generate a random string after 1000 tries.''
        else first_char_loop r count (i + 1)
      else Ret (drawn r i, i))"

text \<open>For the length 0 the counter wraps and the text grows until its length is exceeded.\<close>

definition random_string :: "(nat \<Rightarrow> nat) \<Rightarrow> nat \<Rightarrow> string outcome" where
  "random_string r len =
     bind_outcome (first_char_loop r 1000 0) (\<lambda>(c, i).
       if len = 0 then Raise (Runtime_error ''basic_string::append'')
       else Ret (c # map (\<lambda>k. drawn r (i + 1 + k)) [0..<len - 1]))"

datatype ExtensionType = FIXED | RANDOM | NONE | NUMERIC_SEQUENCE | CHAR_SEQUENCE | FUNCTION

record RandomFileNameGenerator =
  mextension_type :: ExtensionType
  mextension :: string
  mcustom_ext_function :: string

definition RandomFileNameGenerator_default :: RandomFileNameGenerator where
  "RandomFileNameGenerator_default = \<lparr>mextension_type = FIXED, mextension = ''txt'', mcustom_ext_function = []\<rparr>"

definition get_extension :: "RandomFileNameGenerator \<Rightarrow> (nat \<Rightarrow> nat) \<Rightarrow> string outcome" where
  "get_extension g r =
     (case mextension_type g of
        FIXED \<Rightarrow> Ret (mextension g)
      | RANDOM \<Rightarrow> random_string r DEFAULT_LENGTH
      | NONE \<Rightarrow> Ret []
      | CHAR_SEQUENCE \<Rightarrow> Ret []
      | FUNCTION \<Rightarrow> Ret (mcustom_ext_function g)
      | NUMERIC_SEQUENCE \<Rightarrow> Ret [])"

text \<open>The argument \<open>extension\<close> is not used. Each call of \<open>random_string\<close> has a generator of its own.\<close>

definition random_file_name :: "RandomFileNameGenerator \<Rightarrow> (nat \<Rightarrow> nat) \<Rightarrow> (nat \<Rightarrow> nat) \<Rightarrow> string \<Rightarrow> string \<Rightarrow> string \<Rightarrow> Path \<Rightarrow> Path outcome" where
  "random_file_name g r r' name_prefix name_suffix extension path =
     bind_outcome (random_string r DEFAULT_LENGTH) (\<lambda>s.
       map_out (\<lambda>e. Path_of (path_append (pathname path) (name_prefix @ s @ name_suffix @ ''.'' @ e)) NULL_ID) (get_extension g r'))"


section \<open>Text files\<close>

lemma mode_simps [simp]:
  "mode_in TEXT_RWA" "mode_out TEXT_RWA" "mode_app TEXT_RWA" "\<not> mode_ate TEXT_RWA" "\<not> mode_trunc TEXT_RWA" "\<not> mode_binary TEXT_RWA"
  "mode_in BIN_RW" "mode_out BIN_RW" "mode_binary BIN_RW" "\<not> mode_app BIN_RW" "\<not> mode_ate BIN_RW" "\<not> mode_trunc BIN_RW"
  "mode_in TEXT_READ" "\<not> mode_out TEXT_READ" "\<not> mode_app TEXT_READ" "\<not> mode_ate TEXT_READ" "\<not> mode_trunc TEXT_READ" "\<not> mode_binary TEXT_READ"
  by (simp_all add: TEXT_RWA_def TEXT_RW_def BIN_RW_def TEXT_READ_def no_mode_def)

lemmas mode_defs = mode_valid_def mode_creates_def mode_truncates_def mode_writes_def

lemma bind_io_simps [simp]:
  "bind_io (Ret x, w) g = g x w" "bind_io (Raise e, w) g = (Raise e, w)" "bind_io (Terminate, w) g = (Terminate, w)" "bind_io (Undef, w) g = (Undef, w)"
  by (simp_all add: bind_io_def)

lemma unwind_File_simps [simp]:
  "unwind_File f (Ret x, w) = (Ret x, w)" "File_is_open f \<Longrightarrow> unwind_File f (Raise e, w) = (Terminate, w)"
  by (simp_all add: unwind_File_def File_destroy_def File_close_def File_is_open_def File_fail_def log_and_throw_def)

lemma overwrite_end [simp]: "overwrite c (length c) s = c @ s"
  by (simp add: overwrite_def)

lemma overwrite_start [simp]: "overwrite c 0 s = s @ drop (length s) c"
  by (simp add: overwrite_def)

lemma location_files [simp]: "location (w\<lparr>files := m\<rparr>) p = location w p"
  by (simp add: location_def)

text \<open>A stream that is open on the regular file of its path, with nothing failed.\<close>

definition on_file :: "File \<Rightarrow> OpenMode \<Rightarrow> string \<Rightarrow> os \<Rightarrow> bool" where
  "on_file f m c w \<longleftrightarrow>
     opened (file_stream f) = Some (location w (pathname (file_fullpath f)), m) \<and> \<not> failbit (file_stream f)
     \<and> path_filename (pathname (file_fullpath f)) \<noteq> [] \<and> files w (location w (pathname (file_fullpath f))) = Some (Regular c)"

lemma on_file_open: "on_file f m c w \<Longrightarrow> File_is_open f"
  by (simp add: on_file_def File_is_open_def)

lemma on_file_node: "on_file f m c w \<Longrightarrow> node_at w (pathname (file_fullpath f)) = Some (Regular c)"
  by (auto simp: on_file_def node_at_def path_filename_def)

text \<open>What the operations do on such a stream.\<close>

lemma on_file_write:
  assumes "on_file f m c w" "mode_writes m"
  shows "\<exists>f'. TextFile_write f s w = (Ret f', w\<lparr>files := (files w)(location w (pathname (file_fullpath f)) \<mapsto>
           Regular (if mode_app m then c @ s else overwrite c (stream_pos (file_stream f)) s))\<rparr>)
    \<and> file_fullpath f' = file_fullpath f \<and> file_mode f' = file_mode f \<and> mid f' = mid f
    \<and> on_file f' m (if mode_app m then c @ s else overwrite c (stream_pos (file_stream f)) s)
        (w\<lparr>files := (files w)(location w (pathname (file_fullpath f)) \<mapsto>
           Regular (if mode_app m then c @ s else overwrite c (stream_pos (file_stream f)) s))\<rparr>)"
  using assms by (simp add: TextFile_write_def on_file_def File_is_open_def fstream_write_def content_at_def File_fail_def Let_def)

lemma on_file_append:
  assumes "on_file f m c w" shows "TextFile_append f s w = TextFile_write f s w"
  using on_file_open [OF assms] by (simp add: TextFile_append_def)

lemma on_file_read:
  assumes "on_file f m c w" "mode_in m"
  shows "\<exists>f'. TextFile_read f w = (Ret (takeWhile (\<lambda>x. x \<noteq> NUL) c, f'), w) \<and> on_file f' m c w"
  using on_file_node [OF assms(1)] on_file_open [OF assms(1)] assms
  by (simp add: TextFile_read_def File_size_def on_file_def fstream_seekg0_def fstream_read_def content_at_def Let_def)

lemma on_file_close:
  assumes "on_file f m c w"
  shows "File_close f w = (Ret (f\<lparr>file_stream := (file_stream f)\<lparr>opened := None\<rparr>\<rparr>), w)" "File_destroy f w = (Undef, w)"
  using assms by (simp_all add: File_destroy_def File_close_def on_file_def File_is_open_def File_fail_def)

text \<open>Opening the file of a path for appending, when the directories can be made.\<close>

definition writable_place :: "os \<Rightarrow> string \<Rightarrow> string \<Rightarrow> bool" where
  "writable_place w p c \<longleftrightarrow>
     path_filename p \<noteq> [] \<and> path_filename p \<noteq> ''.'' \<and> path_filename p \<noteq> ''..'' \<and> path_parent p \<noteq> []
     \<and> (\<forall>k c. prefix k (location w (path_parent p)) \<longrightarrow> files w k \<noteq> Some (Regular c))
     \<and> (files w (location w p) = Some (Regular c) \<or> files w (location w p) = None \<and> c = [])"

lemma File_of_app:
  assumes wf: "fs_wf (files w)" and place: "writable_place w (pathname p) c"
  shows "\<exists>f w'. File_of p i TEXT_RWA w = (Ret f, w') \<and> on_file f TEXT_RWA c w' \<and> cwd w' = cwd w
    \<and> file_fullpath f = Path_of (pathname p) NULL_ID \<and> mid f = i \<and> file_mode f = TEXT_RWA
    \<and> (\<forall>k. k \<noteq> location w (pathname p) \<longrightarrow> files w k \<noteq> None \<longrightarrow> files w' k = files w k)
    \<and> (\<forall>k. k \<noteq> location w (pathname p) \<longrightarrow> files w' k \<noteq> files w k \<longrightarrow> files w' k = Some Directory \<and> prefix k (location w (path_parent (pathname p))))"
proof -
  let ?p = "pathname p" and ?d = "location w (path_parent (pathname p))" and ?loc = "location w (pathname p)"
  have nm: "path_filename ?p \<noteq> []" "path_filename ?p \<noteq> ''.''" "path_filename ?p \<noteq> ''..''" "path_parent ?p \<noteq> []"
    and reg: "\<forall>k c. prefix k ?d \<longrightarrow> files w k \<noteq> Some (Regular c)"
    and c: "files w ?loc = Some (Regular c) \<or> files w ?loc = None \<and> c = []"
    using place by (auto simp: writable_place_def)
  have loc: "?loc = ?d @ [path_filename ?p]" using location_parent [OF nm(1-3)] by simp
  obtain w1 where w1: "create_directories w (path_parent ?p) = Ret w1" "cwd w1 = cwd w" "files w1 ?d = Some Directory"
      "\<And>k. files w k \<noteq> None \<Longrightarrow> files w1 k = files w k"
      "\<And>k. files w1 k \<noteq> files w k \<Longrightarrow> files w1 k = Some Directory \<and> prefix k ?d"
    using create_directories_props [OF wf nm(4) reg] by blast
  have mk: "Path_create_dir w p = Ret w1" using nm w1(1) by (simp add: Path_create_dir_def Path_parent_path_def Path_of_def)
  have loc1: "location w1 ?p = ?loc" using w1(2) by (simp add: location_def)
  have "\<not> prefix ?loc ?d" unfolding loc by (metis append_self_conv not_Cons_self2 prefixE prefix_order.dual_order.eq_iff same_prefix_nil append_prefixD prefixI)
  then have c1: "files w1 ?loc = Some (Regular c) \<or> files w1 ?loc = None \<and> c = []" using c w1(4,5) by metis
  let ?w = "w1\<lparr>files := (files w1)(?loc \<mapsto> Regular c)\<rparr>"
  let ?f = "\<lparr>mid = i, file_mode = TEXT_RWA, file_fullpath = Path_of ?p NULL_ID, file_stream = \<lparr>opened = Some (?loc, TEXT_RWA), stream_pos = 0, failbit = False\<rparr>\<rparr>"
  have "fstream_open new_fstream ?p TEXT_RWA w1 = (\<lparr>opened = Some (?loc, TEXT_RWA), stream_pos = 0, failbit = False\<rparr>, ?w)"
    using c1 nm w1(3) loc loc1 by (auto simp: fstream_open_def new_fstream_def mode_defs Let_def)
  then have "File_of p i TEXT_RWA w = (Ret ?f, ?w)"
    using mk by (simp add: File_of_def File_file_open_def Path_copy_def Path_of_def)
  moreover have "on_file ?f TEXT_RWA c ?w" using nm loc1 by (simp add: on_file_def Path_of_def)
  ultimately show ?thesis using w1(2,4,5) by (intro exI [of _ ?f] exI [of _ ?w]) auto
qed

text \<open>The constructor for a path with a directory part.\<close>

lemma TextFile_of_appends:
  assumes "fs_wf (files w)" "writable_place w (pathname p) c"
  shows "\<exists>f w'. TextFile_of p content DEFAULT_TEXT_MODE i w = (Ret f, w')
    \<and> files w' (location w (pathname p)) = Some (Regular (c @ content))
    \<and> (\<forall>k. k \<noteq> location w (pathname p) \<longrightarrow> files w' k = files w k
         \<or> files w k = None \<and> files w' k = Some Directory \<and> prefix k (location w (path_parent (pathname p))))
    \<and> (\<exists>f' g. TextFile_read f w' = (Ret (takeWhile (\<lambda>x. x \<noteq> NUL) (c @ content), f'), w')
         \<and> File_close f' w' = (Ret g, w') \<and> File_destroy f' w' = (Undef, w'))"
proof -
  obtain f w1 where f: "File_of p i TEXT_RWA w = (Ret f, w1)" "on_file f TEXT_RWA c w1" "cwd w1 = cwd w"
      "file_fullpath f = Path_of (pathname p) NULL_ID"
      "\<forall>k. k \<noteq> location w (pathname p) \<longrightarrow> files w k \<noteq> None \<longrightarrow> files w1 k = files w k"
      "\<forall>k. k \<noteq> location w (pathname p) \<longrightarrow> files w1 k \<noteq> files w k \<longrightarrow> files w1 k = Some Directory \<and> prefix k (location w (path_parent (pathname p)))"
    using File_of_app [OF assms, of i] by blast
  have loc: "location w1 (pathname (file_fullpath f)) = location w (pathname p)" using f(3,4) by (simp add: location_def Path_of_def)
  have ex: "File_exists f w1" using on_file_node [OF f(2)] by (simp add: File_exists_def Path_exists_def)
  let ?w = "w1\<lparr>files := (files w1)(location w (pathname p) \<mapsto> Regular (c @ content))\<rparr>"
  have "\<exists>f' w'. TextFile_of p content DEFAULT_TEXT_MODE i w = (Ret f', w') \<and> files w' = (files w1)(location w (pathname p) \<mapsto> Regular (c @ content))
      \<and> on_file f' TEXT_RWA (c @ content) w'"
  proof (cases "content = []")
    case True
    have "files w1 (location w (pathname p)) = Some (Regular c)" using f(2) loc by (simp add: on_file_def)
    then have "files w1 = (files w1)(location w (pathname p) \<mapsto> Regular c)" by auto
    moreover have "File_open f TEXT_RWA w1 = (f\<lparr>file_mode := TEXT_RWA\<rparr>, w1)"
      using on_file_open [OF f(2)] by (auto simp: File_open_def File_is_open_def Let_def)
    moreover have "on_file (f\<lparr>file_mode := TEXT_RWA\<rparr>) TEXT_RWA c w1" using f(2) by (simp add: on_file_def)
    ultimately show ?thesis using True f(1) ex by (simp add: TextFile_of_def DEFAULT_TEXT_MODE_def)
  next
    case False
    obtain f' where "TextFile_write f content w1 = (Ret f', ?w)" "on_file f' TEXT_RWA (c @ content) ?w"
      using on_file_write [OF f(2), of content] loc by (auto simp: mode_writes_def)
    then show ?thesis using False f(1) ex on_file_append [OF f(2)] by (simp add: TextFile_of_def DEFAULT_TEXT_MODE_def)
  qed
  then obtain f' w' where f': "TextFile_of p content DEFAULT_TEXT_MODE i w = (Ret f', w')"
      "files w' = (files w1)(location w (pathname p) \<mapsto> Regular (c @ content))" "on_file f' TEXT_RWA (c @ content) w'"
    by blast
  obtain g where "TextFile_read f' w' = (Ret (takeWhile (\<lambda>x. x \<noteq> NUL) (c @ content), g), w')" "on_file g TEXT_RWA (c @ content) w'"
    using on_file_read [OF f'(3)] by auto
  moreover have "files w' k = files w k \<or> files w k = None \<and> files w' k = Some Directory \<and> prefix k (location w (path_parent (pathname p)))"
    if "k \<noteq> location w (pathname p)" for k
    using f(5,6) f'(2) that by (metis fun_upd_other)
  ultimately show ?thesis using f' on_file_close [of g] by (intro exI [of _ f'] exI [of _ w']) auto
qed

text \<open>A bare name, in a directory that has nothing or a file of that name.\<close>

lemma TextFile_of_bare:
  assumes "fs_wf (files w)" and n: "n \<noteq> []" "slash \<notin> set n" "n \<noteq> ''.''" "n \<noteq> ''..''" and "files w (cwd w) = Some Directory"
  shows "(files w (cwd w @ [n]) = None \<longrightarrow> (\<exists>w' e. TextFile_of (Path_of n j) content DEFAULT_TEXT_MODE i w = (Raise e, w')
        \<and> files w' (cwd w @ [n]) = Some Directory))
    \<and> (\<forall>c. files w (cwd w @ [n]) = Some (Regular c) \<longrightarrow> TextFile_of (Path_of n j) content DEFAULT_TEXT_MODE i w = (Terminate, w))"
proof (intro conjI impI allI)
  assume "files w (cwd w @ [n]) = None"
  then obtain w1 where w1: "Path_create_dir w (Path_of n j) = Ret w1" "files w1 (cwd w @ [n]) = Some Directory" "cwd w1 = cwd w"
    using create_dir_bare [OF assms(1) n assms(6), of j] by blast
  have loc: "location w1 n = cwd w @ [n]" using location_bare(1) [OF n, of w1] w1(3) by simp
  have "fstream_open new_fstream n TEXT_RWA w1 = (new_fstream\<lparr>failbit := True\<rparr>, w1)"
    using loc w1(2) location_bare(2) [OF n] n(1) by (simp add: fstream_open_def new_fstream_def mode_defs mode_writes_def Let_def)
  then have "File_of (Path_of n j) i TEXT_RWA w = (log_and_throw ''File::file_open(): Error: Could not open file '', w1)"
    using w1(1) by (simp add: File_of_def File_file_open_def Path_copy_def Path_of_def)
  then show "\<exists>w' e. TextFile_of (Path_of n j) content DEFAULT_TEXT_MODE i w = (Raise e, w') \<and> files w' (cwd w @ [n]) = Some Directory"
    using w1(2) by (simp add: TextFile_of_def DEFAULT_TEXT_MODE_def log_and_throw_def)
next
  fix c
  assume "files w (cwd w @ [n]) = Some (Regular c)"
  then show "TextFile_of (Path_of n j) content DEFAULT_TEXT_MODE i w = (Terminate, w)"
    using create_dir_over_file [OF n] by (simp add: TextFile_of_def File_of_def)
qed

text \<open>
  C15: For a path with a directory part whose directories exist or can be made, the constructor of a text file in the
  default mode creates the file with its directories when it is missing, keeps the content it had and puts the new
  content at its end; besides the file only directories on the way to it are new, and nothing else changes. \<open>read\<close> then
  gives the whole content up to the first null character, the file is closed without an error, and the destructor goes on
  to release the stream with \<open>free\<close>, whose behaviour is undefined. For a bare name the constructor does not work: when
  there is no such file it makes a directory of that name and throws, and when there is one the program ends.
\<close>

theorem text_file_appends:
  assumes "fs_wf (files w)" "writable_place w (pathname p) c"
    and "n \<noteq> []" "slash \<notin> set n" "n \<noteq> ''.''" "n \<noteq> ''..''" "files w (cwd w) = Some Directory"
  shows "(\<exists>f w'. TextFile_of p content DEFAULT_TEXT_MODE i w = (Ret f, w')
        \<and> files w' (location w (pathname p)) = Some (Regular (c @ content))
        \<and> (\<forall>k. k \<noteq> location w (pathname p) \<longrightarrow> files w' k = files w k
             \<or> files w k = None \<and> files w' k = Some Directory \<and> prefix k (location w (path_parent (pathname p))))
        \<and> (\<exists>f' g. TextFile_read f w' = (Ret (takeWhile (\<lambda>x. x \<noteq> NUL) (c @ content), f'), w')
             \<and> File_close f' w' = (Ret g, w') \<and> File_destroy f' w' = (Undef, w')))
    \<and> (files w (cwd w @ [n]) = None \<longrightarrow> (\<exists>w' e. TextFile_of (Path_of n j) content DEFAULT_TEXT_MODE i w = (Raise e, w')
        \<and> files w' (cwd w @ [n]) = Some Directory))
    \<and> (\<forall>d. files w (cwd w @ [n]) = Some (Regular d) \<longrightarrow> TextFile_of (Path_of n j) content DEFAULT_TEXT_MODE i w = (Terminate, w))"
  using TextFile_of_appends [OF assms(1,2), of content i] TextFile_of_bare [OF assms(1,3-7), of j content i] by (rule conjI)

text \<open>The home directory with one file in it.\<close>

definition note_os :: os where
  "note_os = home_os\<lparr>files := (files home_os)([''home'', ''n.txt''] \<mapsto> Regular ''ab'')\<rparr>"

lemma note_path:
  "path_filename ''/home/n.txt'' = ''n.txt''" "path_parent ''/home/n.txt'' = ''/home''" "location note_os ''/home/n.txt'' = [''home'', ''n.txt'']"
  "location note_os ''/home'' = [''home'']"
  by (simp_all add: path_filename_def path_parent_def without_filename_def without_slashes_def location_def path_absolute_def path_names_def step_name_def slash_def)

lemma note_place: "fs_wf (files note_os)" "writable_place note_os ''/home/n.txt'' ''ab''"
proof -
  show "fs_wf (files note_os)" by (auto simp: fs_wf_def note_os_def home_os_def)
  have "files note_os k \<noteq> Some (Regular c)" if "prefix k [''home'']" for k c
    using that by (auto simp: note_os_def home_os_def prefix_Cons)
  then show "writable_place note_os ''/home/n.txt'' ''ab''"
    unfolding writable_place_def note_path by (auto simp: note_os_def)
qed

theorem text_file_appends_witness:
  "(\<exists>f w'. TextFile_of (Path_of ''/home/n.txt'' 1) ''cd'' DEFAULT_TEXT_MODE 2 note_os = (Ret f, w')
     \<and> files w' [''home'', ''n.txt''] = Some (Regular ''abcd''))
   \<and> (\<exists>w' e. TextFile_of (Path_of ''b.txt'' 1) ''cd'' DEFAULT_TEXT_MODE 2 note_os = (Raise e, w') \<and> files w' [''home'', ''b.txt''] = Some Directory)"
proof -
  have p: "writable_place note_os (pathname (Path_of ''/home/n.txt'' 1)) ''ab''" using note_place(2) by (simp add: Path_of_def)
  have n: "''b.txt'' \<noteq> []" "slash \<notin> set ''b.txt''" "''b.txt'' \<noteq> ''.''" "''b.txt'' \<noteq> ''..''" by (simp_all add: slash_def)
  have w: "cwd note_os = [''home'']" "files note_os (cwd note_os) = Some Directory" "files note_os [''home'', ''b.txt''] = None"
    by (simp_all add: note_os_def home_os_def)
  have l: "location note_os (pathname (Path_of ''/home/n.txt'' 1)) = [''home'', ''n.txt'']" using note_path(3) by (simp add: Path_of_def)
  note r = text_file_appends [OF note_place(1) p n w(2), of "''cd''" 2 1]
  have "\<exists>w' e. TextFile_of (Path_of ''b.txt'' 1) ''cd'' DEFAULT_TEXT_MODE 2 note_os = (Raise e, w') \<and> files w' [''home'', ''b.txt''] = Some Directory"
    using r [THEN conjunct2, THEN conjunct1] w(1,3) by simp
  moreover have "\<exists>f w'. TextFile_of (Path_of ''/home/n.txt'' 1) ''cd'' DEFAULT_TEXT_MODE 2 note_os = (Ret f, w')
     \<and> files w' [''home'', ''n.txt''] = Some (Regular (''ab'' @ ''cd''))"
    using r [THEN conjunct1] unfolding l by blast
  ultimately show ?thesis by simp
qed

text \<open>
  Once the file has been closed, \<open>append\<close> opens it in the mode for reading and writing binary data: the text then
  replaces the start of the content. On the stream that the constructor opened it goes to the end.
\<close>

theorem append_after_close:
  assumes "on_file f TEXT_RWA c w"
  shows "(\<exists>f' w'. TextFile_append f s w = (Ret f', w') \<and> files w' (location w (pathname (file_fullpath f))) = Some (Regular (c @ s)))
    \<and> (\<exists>g f' w'. File_close f w = (Ret g, w) \<and> TextFile_append g s w = (Ret f', w')
        \<and> files w' (location w (pathname (file_fullpath f))) = Some (Regular (s @ drop (length s) c)) \<and> is_bin_mode (file_mode f'))"
proof
  show "\<exists>f' w'. TextFile_append f s w = (Ret f', w') \<and> files w' (location w (pathname (file_fullpath f))) = Some (Regular (c @ s))"
    using on_file_write [OF assms, of s] on_file_append [OF assms] by (auto simp: mode_writes_def)
  let ?g = "f\<lparr>file_stream := (file_stream f)\<lparr>opened := None\<rparr>\<rparr>"
  let ?h = "f\<lparr>file_mode := BIN_RW, file_stream := \<lparr>opened = Some (location w (pathname (file_fullpath f)), BIN_RW), stream_pos = 0, failbit = False\<rparr>\<rparr>"
  have keep: "w\<lparr>files := (files w)(location w (pathname (file_fullpath f)) \<mapsto> Regular c)\<rparr> = w"
    using assms by (simp add: on_file_def fun_upd_idem)
  have opn: "File_open ?g DEFAULT_OPEN_MODE w = (?h, w)"
    using assms keep by (simp add: File_open_def File_is_open_def on_file_def fstream_open_def mode_defs DEFAULT_OPEN_MODE_def DEFAULT_BIN_MODE_def Let_def)
  have h: "on_file ?h BIN_RW c w" using assms by (simp add: on_file_def)
  have "TextFile_append ?g s w = TextFile_write ?h s w"
    using opn by (simp add: TextFile_append_def File_is_open_def)
  with on_file_write [OF h, of s] on_file_close(1) [OF assms]
  show "\<exists>g f' w'. File_close f w = (Ret g, w) \<and> TextFile_append g s w = (Ret f', w')
        \<and> files w' (location w (pathname (file_fullpath f))) = Some (Regular (s @ drop (length s) c)) \<and> is_bin_mode (file_mode f')"
    by (auto simp: mode_writes_def is_bin_mode_def)
qed

text \<open>The file of the home directory, opened for appending.\<close>

definition note_file :: File where
  "note_file = \<lparr>mid = 1, file_mode = TEXT_RWA, file_fullpath = Path_of ''/home/n.txt'' NULL_ID,
     file_stream = \<lparr>opened = Some ([''home'', ''n.txt''], TEXT_RWA), stream_pos = 0, failbit = False\<rparr>\<rparr>"

lemma note_on_file: "on_file note_file TEXT_RWA ''ab'' note_os"
  using note_path by (simp add: on_file_def note_file_def Path_of_def) (simp add: note_os_def)

theorem append_after_close_witness:
  "\<exists>g f' w'. File_close note_file note_os = (Ret g, note_os) \<and> TextFile_append g ''c'' note_os = (Ret f', w')
     \<and> files w' [''home'', ''n.txt''] = Some (Regular ''cb'')"
  using append_after_close [OF note_on_file, of "''c''"] note_path(3) by (simp add: note_file_def Path_of_def) blast

text \<open>
  C35: A stream that has failed while it was open ends the program when its file is closed or destroyed, because
  \<open>close\<close> is \<open>noexcept\<close> and throws. A text file opened for reading only and given content to write fails so
  already in its constructor, where the exception of \<open>append\<close> destroys the base; and a stream fails whenever
  \<open>get_char\<close> meets the end of the file. Before the end \<open>get_char\<close> gives the next character and the file is closed without
  an error; the destructor then releases the stream with the wrong function, whose behaviour is undefined.
\<close>

theorem failed_stream_terminates:
  assumes "on_file f m c w" "mode_in m" "is_text_mode (file_mode f)"
    and "fs_wf (files w)" "writable_place w (pathname p) d" "files w (location w (pathname p)) \<noteq> None" "content \<noteq> []"
  shows "(stream_pos (file_stream f) \<ge> length c \<longrightarrow>
       (\<exists>f'. TextFile_get_char f x w = (False, CHR 0xFF, f') \<and> File_destroy f' w = (Terminate, w)))
    \<and> (stream_pos (file_stream f) < length c \<longrightarrow>
       (\<exists>f'. TextFile_get_char f x w = (c ! stream_pos (file_stream f) \<noteq> CHR 0xFF, c ! stream_pos (file_stream f), f')
          \<and> (\<exists>g. File_close f' w = (Ret g, w)) \<and> File_destroy f' w = (Undef, w)))
    \<and> (\<exists>w'. TextFile_of p content TEXT_READ i w = (Terminate, w'))"
proof (intro conjI impI)
  note destroy = File_destroy_def File_close_def File_is_open_def File_fail_def log_and_throw_def
  note char = TextFile_get_char_def fstream_read_def content_at_def Let_def File_is_open_def
  show "\<exists>f'. TextFile_get_char f x w = (False, CHR 0xFF, f') \<and> File_destroy f' w = (Terminate, w)"
    if "length c \<le> stream_pos (file_stream f)"
    using assms(1-3) that by (simp add: char destroy on_file_def)
  show "\<exists>f'. TextFile_get_char f x w = (c ! stream_pos (file_stream f) \<noteq> CHR 0xFF, c ! stream_pos (file_stream f), f')
      \<and> (\<exists>g. File_close f' w = (Ret g, w)) \<and> File_destroy f' w = (Undef, w)" if "stream_pos (file_stream f) < length c"
  proof -
    have "take (Suc 0) (drop (stream_pos (file_stream f)) c) = [c ! stream_pos (file_stream f)]"
      using that by (simp add: take_Suc_conv_app_nth)
    then show ?thesis using assms(1-3) by (simp add: char destroy on_file_def)
  qed
  have place: "path_filename (pathname p) \<noteq> []" "path_parent (pathname p) \<noteq> []" "files w (location w (pathname p)) = Some (Regular d)"
    and reg: "\<forall>k c. prefix k (location w (path_parent (pathname p))) \<longrightarrow> files w k \<noteq> Some (Regular c)"
    using assms(5,6) by (auto simp: writable_place_def)
  obtain w1 where w1: "create_directories w (path_parent (pathname p)) = Ret w1" "cwd w1 = cwd w" "\<forall>k. files w k \<noteq> None \<longrightarrow> files w1 k = files w k"
    using create_directories_props [OF assms(4) place(2) reg] by blast
  have loc: "location w1 (pathname p) = location w (pathname p)" using w1(2) by (simp add: location_def)
  have d: "files w1 (location w (pathname p)) = Some (Regular d)" using w1(3) place(3) by simp
  let ?st = "\<lparr>opened = Some (location w (pathname p), TEXT_READ), stream_pos = 0, failbit = False\<rparr>"
  let ?f = "\<lparr>mid = i, file_mode = TEXT_READ, file_fullpath = Path_of (pathname p) NULL_ID, file_stream = ?st\<rparr>"
  have opn: "fstream_open new_fstream (pathname p) TEXT_READ w1 = (?st, w1)"
    using d loc place(1) by (simp add: fstream_open_def new_fstream_def mode_defs Let_def fun_upd_idem)
  have "File_of p i TEXT_READ w = (Ret ?f, w1)"
    using opn w1(1) place by (simp add: File_of_def File_file_open_def Path_create_dir_def Path_parent_path_def Path_copy_def Path_of_def)
  moreover have f: "on_file ?f TEXT_READ d w1" using d loc place(1) by (simp add: on_file_def Path_of_def)
  moreover have "TextFile_append ?f content w1 = (log_and_throw ''TextFile::write(): Error: Could not write to the file '', w1)"
    using on_file_append [OF f] by (simp add: TextFile_write_def File_is_open_def fstream_write_def File_fail_def mode_writes_def Let_def)
  moreover have "File_exists ?f w1" using on_file_node [OF f] by (simp add: File_exists_def Path_exists_def)
  ultimately show "\<exists>w'. TextFile_of p content TEXT_READ i w = (Terminate, w')"
    using assms(7) on_file_open [OF f] by (simp add: TextFile_of_def log_and_throw_def)
qed

theorem failed_stream_terminates_witness:
  "\<exists>w'. TextFile_of (Path_of ''/home/n.txt'' 1) ''cd'' TEXT_READ 2 note_os = (Terminate, w')"
proof -
  have "mode_in TEXT_RWA" "is_text_mode (file_mode note_file)" by (simp_all add: note_file_def is_text_mode_def is_bin_mode_def)
  moreover have "writable_place note_os (pathname (Path_of ''/home/n.txt'' 1)) ''ab''" using note_place(2) by (simp add: Path_of_def)
  moreover have "files note_os (location note_os (pathname (Path_of ''/home/n.txt'' 1))) \<noteq> None"
    using note_path(3) by (simp add: Path_of_def) (simp add: note_os_def)
  ultimately show ?thesis
    using failed_stream_terminates [OF note_on_file _ _ note_place(1), of "Path_of ''/home/n.txt'' 1" "''ab''" "''cd''" undefined 2] by simp
qed

text \<open>
  \<open>read_line\<close> gives the first line of the file however often it is called, because every call opens a stream of
  its own; it leaves the file as it is.
\<close>

lemma read_line_first:
  "on_file f m c w \<Longrightarrow> is_text_mode (file_mode f) \<Longrightarrow> TextFile_read_line f l w = (c \<noteq> [], takeWhile (\<lambda>x. x \<noteq> CHR 0x0A) c)"
  using on_file_node [of f m c w] on_file_open [of f m c w] by (simp add: TextFile_read_line_def)

text \<open>
  \<open>set_text_mode\<close> leaves an open file in a binary mode and at its start, whatever its position was, because \<open>open\<close> is
  called without a mode and the position is kept in a variable of an inner block.
\<close>

theorem set_text_mode_is_binary:
  assumes "on_file f m c w" "ftell \<noteq> - 1"
  shows "\<exists>f'. set_text_mode strerror f ftell errno w = (Ret f', w) \<and> is_bin_mode (file_mode f') \<and> on_file f' BIN_RW c w
    \<and> stream_pos (file_stream f') = 0 \<and> set_binary_mode strerror f ftell errno w = (Ret f', w)"
proof -
  have keep: "w\<lparr>files := (files w)(location w (pathname (file_fullpath f)) \<mapsto> Regular c)\<rparr> = w"
    using assms(1) by (simp add: on_file_def fun_upd_idem)
  let ?h = "f\<lparr>file_mode := BIN_RW, file_stream := \<lparr>opened = Some (location w (pathname (file_fullpath f)), BIN_RW), stream_pos = 0, failbit = False\<rparr>\<rparr>"
  have "change_mode strerror f mode ftell errno w = (Ret ?h, w)" for mode
    using on_file_open [OF assms(1)] on_file_close(1) [OF assms(1)] assms keep
    by (simp add: change_mode_def File_position_def File_open_def on_file_def File_is_open_def fstream_open_def mode_defs
        DEFAULT_OPEN_MODE_def DEFAULT_BIN_MODE_def Let_def)
  moreover have "on_file ?h BIN_RW c w" using assms(1) by (simp add: on_file_def)
  ultimately show ?thesis
    by (intro exI [of _ ?h]) (simp add: set_text_mode_def set_binary_mode_def is_bin_mode_def)
qed

theorem set_text_mode_is_binary_witness:
  "\<exists>f'. set_text_mode (\<lambda>_. []) note_file 1 0 note_os = (Ret f', note_os) \<and> is_bin_mode (file_mode f')"
  using set_text_mode_is_binary [OF note_on_file, of 1 "\<lambda>_. []" 0] by auto

section \<open>Random names\<close>

lemma CHARS_parts:
  "i < 62 \<Longrightarrow> isalnum (CHARS ! i)" "length CHARS = 62"
proof -
  have "list_all isalnum CHARS" by (simp add: CHARS_def isalnum_def isalpha_def isupper_def islower_def isdigit_def code_def)
  moreover show len: "length CHARS = 62" by (simp add: CHARS_def)
  ultimately show "i < 62 \<Longrightarrow> isalnum (CHARS ! i)" by (simp add: list_all_length)
qed

lemma first_char_loop_found:
  "0 < n \<Longrightarrow> k < n \<Longrightarrow> \<not> isdigit (drawn r (i + k)) \<Longrightarrow> \<exists>j. first_char_loop r n i = Ret (drawn r j, j) \<and> \<not> isdigit (drawn r j)"
proof (induction n arbitrary: i k)
  case (Suc n)
  show ?case
  proof (cases "isdigit (drawn r i)")
    case True
    then obtain k' where k: "k = Suc k'" using Suc.prems(3) by (cases k) auto
    then show ?thesis using Suc.IH [of k' "i + 1"] Suc.prems True by auto
  qed simp
qed simp

lemma first_char_loop_digits:
  "0 < n \<Longrightarrow> \<forall>k < n. isdigit (drawn r (i + k)) \<Longrightarrow>
     first_char_loop r n i = runtime_error ''RandomFileNameGenerator::random_string(): Error: Could not generate a random string after 1000 tries.''"
proof (induction n arbitrary: i)
  case (Suc n)
  have "isdigit (drawn r i)" using Suc.prems(2) by force
  moreover have "\<forall>k < n. isdigit (drawn r (i + 1 + k))" using Suc.prems(2) by (metis Suc_less_eq add.assoc plus_1_eq_Suc)
  ultimately show ?case using Suc.IH [of "i + 1"] by auto
qed simp

text \<open>
  A random text of length at least 1 has that length, only letters and digits and a letter first, when one of
  the first 1000 characters drawn is a letter; otherwise it is the error. So a random file name in the
  default configuration is the prefix, eight such characters, the suffix and \<open>.txt\<close> appended to the
  directory, whatever extension was asked for.
\<close>

theorem random_names:
  assumes "\<forall>i. r i < length CHARS" "0 < len"
  shows "(if \<exists>k < 1000. \<not> isdigit (drawn r k)
     then \<exists>s. random_string r len = Ret s \<and> length s = len \<and> isalpha (hd s) \<and> list_all isalnum s
     else random_string r len = Raise (Runtime_error ''RandomFileNameGenerator::random_string(): Error: Could not generate a random string after 1000 tries.''))
   \<and> ((\<exists>k < 1000. \<not> isdigit (drawn r k)) \<longrightarrow>
        (\<exists>s. length s = 8 \<and> list_all isalnum s \<and> random_file_name RandomFileNameGenerator_default r r' pre suf ext dir
           = Ret (Path_of (path_append (pathname dir) (pre @ s @ suf @ ''.txt'')) NULL_ID)))"
proof -
  have alnum: "isalnum (drawn r k)" for k using assms(1) CHARS_parts by (simp add: drawn_def)
  have found: "\<exists>s. random_string r n = Ret s \<and> length s = n \<and> isalpha (hd s) \<and> list_all isalnum s"
    if k: "\<exists>k < 1000. \<not> isdigit (drawn r k)" and n: "0 < n" for n
  proof -
    obtain j where j: "first_char_loop r 1000 0 = Ret (drawn r j, j)" "\<not> isdigit (drawn r j)"
      using first_char_loop_found [of 1000 _ r 0] k by auto
    have "isalpha (drawn r j)" using alnum [of j] j(2) by (simp add: isalnum_def)
    then show ?thesis using j(1) alnum n by (simp add: random_string_def list_all_iff)
  qed
  have "random_string r len = Raise (Runtime_error ''RandomFileNameGenerator::random_string(): Error: Could not generate a random string after 1000 tries.'')"
    if "\<not> (\<exists>k < 1000. \<not> isdigit (drawn r k))"
    using first_char_loop_digits [of 1000 r 0] that by (simp add: random_string_def runtime_error_def)
  moreover have "\<exists>s. length s = 8 \<and> list_all isalnum s \<and> random_file_name RandomFileNameGenerator_default r r' pre suf ext dir
           = Ret (Path_of (path_append (pathname dir) (pre @ s @ suf @ ''.txt'')) NULL_ID)" if "\<exists>k < 1000. \<not> isdigit (drawn r k)"
    using found [OF that, of DEFAULT_LENGTH]
    by (auto simp: random_file_name_def get_extension_def RandomFileNameGenerator_default_def DEFAULT_LENGTH_def)
  ultimately show ?thesis using found [OF _ assms(2)] by simp
qed

theorem random_names_witness:
  "\<exists>s. random_string (\<lambda>i. (i * 7 + 3) mod 62) 4 = Ret s \<and> length s = 4 \<and> isalpha (hd s)"
proof -
  have "\<forall>i::nat. (i * 7 + 3) mod 62 < length CHARS" by (simp add: CHARS_parts)
  moreover have "\<not> isdigit (drawn (\<lambda>i. (i * 7 + 3) mod 62) 1)" by (simp add: drawn_def CHARS_def isdigit_def code_def)
  then have "\<exists>k < 1000. \<not> isdigit (drawn (\<lambda>i. (i * 7 + 3) mod 62) k)" by (intro exI [of _ 1]) simp
  ultimately show ?thesis using random_names [of "\<lambda>i. (i * 7 + 3) mod 62" 4 "\<lambda>_. 0" "[]" "[]" "[]" Path_default] by auto
qed

end
