(* ===== verification/Log.thy ===== *)
theory Log
  imports File
begin

text \<open>
  log.hpp: the log of the library, a stream in a variable of the library with two flags. The stream is that of
  theory File. \<open>LOG\<close> writes the number of the source line, the message and a line feed. The stream and the flags are static
  variables of the header, so that every translation unit has a logger of its own; the state here is that of one of them, and
  the calls are those made from it.
\<close>

record logger =
  log_on :: bool
  initialized :: bool
  log_stream :: fstream

definition initial_logger :: logger where
  "initial_logger = \<lparr>log_on = True, initialized = False, log_stream = new_fstream\<rparr>"

definition DEFAULT_LOG_FILE_OPEN_MODE :: OpenMode where
  "DEFAULT_LOG_FILE_OPEN_MODE = no_mode\<lparr>mode_out := True, mode_app := True\<rparr>"

definition default_log_file_name :: string where "default_log_file_name = ''./log.txt''"

text \<open>That the file cannot be opened is only told on the error output.\<close>

definition open_log_file :: "string \<Rightarrow> OpenMode \<Rightarrow> logger \<Rightarrow> os \<Rightarrow> logger \<times> os" where
  "open_log_file full_path mode lg w =
     (if \<not> initialized lg then
        (case fstream_open (log_stream lg) full_path mode w of (st, w) \<Rightarrow> (lg\<lparr>log_stream := st, initialized := True\<rparr>, w))
      else if opened (log_stream lg) = None then
        (case fstream_open (log_stream lg) full_path mode w of (st, w) \<Rightarrow> (lg\<lparr>log_stream := st\<rparr>, w))
      else (lg, w))"

definition enable_log :: "logger \<Rightarrow> os \<Rightarrow> logger \<times> os" where
  "enable_log lg w =
     (case (if \<not> initialized lg \<or> opened (log_stream lg) = None
            then open_log_file default_log_file_name DEFAULT_LOG_FILE_OPEN_MODE lg w else (lg, w)) of
        (lg, w) \<Rightarrow> (lg\<lparr>log_on := True\<rparr>, w))"

text \<open>Closing a stream that is not open is an error of the stream.\<close>

definition disable_log :: "logger \<Rightarrow> os \<Rightarrow> logger \<times> os" where
  "disable_log lg w =
     (let st = log_stream lg; st = (if opened st = None then st\<lparr>failbit := True\<rparr> else st\<lparr>opened := None\<rparr>) in
      (lg\<lparr>log_stream := st, log_on := False, initialized := False\<rparr>, w))"

definition LOG :: "nat \<Rightarrow> string \<Rightarrow> logger \<Rightarrow> os \<Rightarrow> logger \<times> os" where
  "LOG line msg lg w =
     (if log_on lg then
        (case fstream_write (log_stream lg) (show_nat line @ msg @ [CHR 0x0A]) w of (st, w) \<Rightarrow> (lg\<lparr>log_stream := st\<rparr>, w))
      else (lg, w))"

definition log_throw :: "nat \<Rightarrow> string \<Rightarrow> logger \<Rightarrow> os \<Rightarrow> unit outcome \<times> logger \<times> os" where
  "log_throw line error_msg lg w = (Raise (Runtime_error error_msg), LOG line error_msg lg w)"

section \<open>What is in the log\<close>

text \<open>Sequences of calls, and the text that they should add to the log: that of the messages while it is enabled.\<close>

datatype log_op = Enable | Disable | Log nat string

fun log_step :: "log_op \<Rightarrow> logger \<times> os \<Rightarrow> logger \<times> os" where
  "log_step Enable (lg, w) = enable_log lg w"
| "log_step Disable (lg, w) = disable_log lg w"
| "log_step (Log line msg) (lg, w) = LOG line msg lg w"

fun logged :: "bool \<Rightarrow> log_op list \<Rightarrow> string" where
  "logged b [] = []"
| "logged b (Enable # ops) = logged True ops"
| "logged b (Disable # ops) = logged False ops"
| "logged b (Log line msg # ops) = (if b then show_nat line @ msg @ [CHR 0x0A] else []) @ logged b ops"

definition log_place :: "os \<Rightarrow> string list \<Rightarrow> bool" where
  "log_place w loc \<longleftrightarrow> location w default_log_file_name = loc \<and> loc \<noteq> [] \<and> files w (butlast loc) = Some Directory \<and> files w loc \<noteq> Some Directory"

definition log_inv :: "bool \<Rightarrow> string list \<Rightarrow> logger \<Rightarrow> bool" where
  "log_inv b loc lg \<longleftrightarrow>
     (if b then log_on lg \<and> initialized lg \<and> opened (log_stream lg) = Some (loc, DEFAULT_LOG_FILE_OPEN_MODE) \<and> \<not> failbit (log_stream lg)
      else opened (log_stream lg) = None)"

lemma log_mode [simp]:
  "mode_out DEFAULT_LOG_FILE_OPEN_MODE" "mode_app DEFAULT_LOG_FILE_OPEN_MODE" "\<not> mode_in DEFAULT_LOG_FILE_OPEN_MODE"
  "\<not> mode_trunc DEFAULT_LOG_FILE_OPEN_MODE" "\<not> mode_ate DEFAULT_LOG_FILE_OPEN_MODE"
  by (simp_all add: DEFAULT_LOG_FILE_OPEN_MODE_def no_mode_def)

lemma log_filename [simp]: "path_filename default_log_file_name = ''log.txt''"
  by (simp add: default_log_file_name_def path_filename_def slash_def)

lemma butlast_neq: "loc \<noteq> [] \<Longrightarrow> butlast loc \<noteq> loc"
  by (metis append_butlast_last_id append_self_conv not_Cons_self2)

text \<open>Opening the closed log, with what the file held before.\<close>

lemma open_log:
  assumes "log_place w loc" "opened st = None"
  shows "\<exists>w'. fstream_open st default_log_file_name DEFAULT_LOG_FILE_OPEN_MODE w
      = (\<lparr>opened = Some (loc, DEFAULT_LOG_FILE_OPEN_MODE), stream_pos = 0, failbit = False\<rparr>, w')
    \<and> w' = w\<lparr>files := (files w)(loc \<mapsto> Regular (content_at w loc))\<rparr>"
proof (cases "files w loc")
  case None
  then show ?thesis using assms by (simp add: fstream_open_def log_place_def mode_defs content_at_def Let_def)
next
  case (Some n)
  then obtain c where "n = Regular c" using assms(1) by (cases n) (auto simp: log_place_def)
  then show ?thesis using Some assms by (simp add: fstream_open_def log_place_def mode_defs content_at_def Let_def)
qed

lemma log_step_effect:
  assumes "log_inv b loc lg" "log_place w loc" "log_step op (lg, w) = (lg', w')"
  shows "log_inv (case op of Enable \<Rightarrow> True | Disable \<Rightarrow> False | Log _ _ \<Rightarrow> b) loc lg' \<and> log_place w' loc
    \<and> content_at w' loc = content_at w loc @ logged b [op] \<and> (\<forall>k. k \<noteq> loc \<longrightarrow> files w' k = files w k)"
proof (cases op)
  case Enable
  have keep: "log_place (w\<lparr>files := (files w)(loc \<mapsto> Regular c)\<rparr>) loc" for c
    using assms(2) butlast_neq [of loc] by (auto simp: log_place_def)
  show ?thesis
  proof (cases b)
    case True
    then show ?thesis using Enable assms by (auto simp: log_inv_def enable_log_def)
  next
    case False
    then have "opened (log_stream lg) = None" using assms(1) by (simp add: log_inv_def)
    from open_log [OF assms(2) this] this Enable assms(3) keep show ?thesis
      by (auto simp: enable_log_def open_log_file_def log_inv_def content_at_def split: if_splits)
  qed
next
  case Disable
  then show ?thesis using assms by (auto simp: disable_log_def log_inv_def Let_def)
next
  case (Log line msg)
  have keep: "log_place (w\<lparr>files := (files w)(loc \<mapsto> Regular c)\<rparr>) loc" for c
    using assms(2) butlast_neq [of loc] by (auto simp: log_place_def)
  show ?thesis
  proof (cases b)
    case True
    then show ?thesis using Log assms keep by (auto simp: LOG_def log_inv_def fstream_write_def mode_writes_def content_at_def Let_def)
  next
    case False
    then show ?thesis using Log assms by (auto simp: LOG_def log_inv_def fstream_write_def Let_def split: if_splits)
  qed
qed

text \<open>
  C16: Whatever calls are made, the log file has at its end exactly the lines logged since \<open>enable_log\<close> was called last
  and before \<open>disable_log\<close>, in order; messages logged before the first \<open>enable_log\<close> are lost although \<open>log_on\<close> is
  true from the start. No other file changes.
\<close>

theorem log_contents:
  assumes "log_place w loc"
  shows "fold log_step ops (initial_logger, w) = (lg, w') \<Longrightarrow>
     content_at w' loc = content_at w loc @ logged False ops \<and> (\<forall>k. k \<noteq> loc \<longrightarrow> files w' k = files w k)"
proof -
  assume run: "fold log_step ops (initial_logger, w) = (lg, w')"
  have "content_at w2 loc = content_at w1 loc @ logged b ops \<and> (\<forall>k. k \<noteq> loc \<longrightarrow> files w2 k = files w1 k)"
    if "log_inv b loc l1" "log_place w1 loc" "fold log_step ops (l1, w1) = (l2, w2)" for b l1 w1 l2 w2
    using that
  proof (induction ops arbitrary: b l1 w1)
    case (Cons op ops)
    obtain l w where s: "log_step op (l1, w1) = (l, w)" by fastforce
    let ?b = "case op of Enable \<Rightarrow> True | Disable \<Rightarrow> False | Log _ _ \<Rightarrow> b"
    note e = log_step_effect [OF Cons.prems(1,2) s]
    have "fold log_step ops (l, w) = (l2, w2)" using Cons.prems(3) s by simp
    then have "content_at w2 loc = content_at w loc @ logged ?b ops \<and> (\<forall>k. k \<noteq> loc \<longrightarrow> files w2 k = files w k)"
      using Cons.IH e by blast
    moreover have "logged b (op # ops) = logged b [op] @ logged ?b ops" by (cases op) auto
    ultimately show ?case using e by simp
  qed simp
  moreover have "log_inv False loc initial_logger" by (simp add: log_inv_def initial_logger_def new_fstream_def)
  ultimately show ?thesis using assms run by blast
qed

theorem log_contents_witness:
  "content_at (snd (fold log_step [Log 1 ''lost'', Enable, Log 2 ''kept'', Disable, Log 3 ''off'', Enable, Log 4 ''end''] (initial_logger, home_os)))
     [''home'', ''log.txt''] = ''2kept'' @ [CHR 0x0A] @ ''4end'' @ [CHR 0x0A]"
proof -
  let ?ops = "[Log 1 ''lost'', Enable, Log 2 ''kept'', Disable, Log 3 ''off'', Enable, Log 4 ''end'']"
  have place: "log_place home_os [''home'', ''log.txt'']"
    by (simp add: log_place_def location_def default_log_file_name_def path_names_def path_absolute_def slash_def home_os_def step_name_def)
  obtain lg w' where r: "fold log_step ?ops (initial_logger, home_os) = (lg, w')" by (meson surj_pair)
  have "show_nat 2 = ''2''" "show_nat 4 = ''4''" by code_simp+
  with log_contents [OF place r] show ?thesis unfolding r by (simp add: content_at_def) (simp add: home_os_def)
qed

end
