(* ===== verification/Constraint.thy ===== *)
theory Constraint
  imports Objects
begin

text \<open>
  constraint.hpp: operands, composite constraints, constraints on ranges and on texts. What a constraint checks is a
  function from the arguments of \<open>ok\<close> to a truth value; a composite holds the functions of the two constraints that it
  refers to. Texts are checked with \<open>std::regex_search\<close>, which is modelled for patterns of characters and character
  classes with repetition and anchors; its answers for other patterns are an argument.
\<close>

section \<open>Operands\<close>

definition NotOperand_call :: "('a \<Rightarrow> bool) \<Rightarrow> 'a \<Rightarrow> bool" where "NotOperand_call ok args = (\<not> ok args)"

definition AndOperand_call :: "('a \<Rightarrow> bool) \<Rightarrow> ('a \<Rightarrow> bool) \<Rightarrow> 'a \<Rightarrow> bool" where
  "AndOperand_call left right args = (left args \<and> right args)"

definition OrOperand_call :: "('a \<Rightarrow> bool) \<Rightarrow> ('a \<Rightarrow> bool) \<Rightarrow> 'a \<Rightarrow> bool" where
  "OrOperand_call left right args = (left args \<or> right args)"

definition XorOperand_call :: "('a \<Rightarrow> bool) \<Rightarrow> ('a \<Rightarrow> bool) \<Rightarrow> 'a \<Rightarrow> bool" where
  "XorOperand_call left right args = (left args \<noteq> right args)"

section \<open>Constraints\<close>

record Constraint = Object +
  cname :: string

definition Constraint_of :: "int64 \<Rightarrow> string \<Rightarrow> Constraint" where "Constraint_of aid aname = \<lparr>mid = aid, cname = aname\<rparr>"

definition Constraint_set_name :: "'a Constraint_scheme \<Rightarrow> string \<Rightarrow> 'a Constraint_scheme" where
  "Constraint_set_name c aname = c\<lparr>cname := aname\<rparr>"

definition Constraint_initialize :: "'a Constraint_scheme \<Rightarrow> int64 \<Rightarrow> string \<Rightarrow> 'a Constraint_scheme \<times> bool" where
  "Constraint_initialize c aid aname = (c\<lparr>mid := aid, cname := aname\<rparr>, True)"

datatype OpType = AndOperand | OrOperand | XorOperand

record 'a CompositeConstraint = Constraint +
  left_ok :: "'a \<Rightarrow> bool"
  right_ok :: "'a \<Rightarrow> bool"
  op_type :: OpType

definition CompositeConstraint_of :: "('a \<Rightarrow> bool) \<Rightarrow> ('a \<Rightarrow> bool) \<Rightarrow> OpType \<Rightarrow> int64 \<Rightarrow> string \<Rightarrow> 'a CompositeConstraint" where
  "CompositeConstraint_of aleft aright aop aid aname = \<lparr>mid = aid, cname = aname, left_ok = aleft, right_ok = aright, op_type = aop\<rparr>"

definition CompositeConstraint_ok :: "'a CompositeConstraint \<Rightarrow> 'a \<Rightarrow> bool" where
  "CompositeConstraint_ok c args =
     (case op_type c of
        AndOperand \<Rightarrow> AndOperand_call (left_ok c) (right_ok c) args
      | OrOperand \<Rightarrow> OrOperand_call (left_ok c) (right_ok c) args
      | XorOperand \<Rightarrow> XorOperand_call (left_ok c) (right_ok c) args)"

definition constraint_or :: "('a \<Rightarrow> bool) \<Rightarrow> ('a \<Rightarrow> bool) \<Rightarrow> 'a CompositeConstraint" where
  "constraint_or left right = CompositeConstraint_of left right OrOperand NULL_ID []"

record 'a RangeConstraint = Constraint +
  mmin :: 'a
  mmax :: 'a

definition RangeConstraint_of :: "'a \<Rightarrow> 'a \<Rightarrow> int64 \<Rightarrow> string \<Rightarrow> 'a RangeConstraint" where
  "RangeConstraint_of amin amax aid aname = \<lparr>mid = aid, cname = aname, mmin = amin, mmax = amax\<rparr>"

definition RangeConstraint_of_value :: "'a \<Rightarrow> int64 \<Rightarrow> string \<Rightarrow> 'a RangeConstraint" where
  "RangeConstraint_of_value avalue aid aname = \<lparr>mid = aid, cname = aname, mmin = avalue, mmax = avalue\<rparr>"

definition RangeConstraint_ok :: "'a::ord RangeConstraint \<Rightarrow> 'a \<Rightarrow> bool" where
  "RangeConstraint_ok c t \<longleftrightarrow> t \<ge> mmin c \<and> t \<le> mmax c"

section \<open>Regular expressions\<close>

text \<open>A character or a class as a list of ranges, once, any number of times or at least once.\<close>

datatype quantifier = One | Star | Plus

type_synonym rx_item = "(char \<times> char) list \<times> quantifier"

definition in_class :: "(char \<times> char) list \<Rightarrow> char \<Rightarrow> bool" where
  "in_class cls c \<longleftrightarrow> list_ex (\<lambda>(a, b). code a \<le> code c \<and> code c \<le> code b) cls"

text \<open>Matching at the start of a text; the flag says that the match has to reach its end.\<close>

function rx_match :: "bool \<Rightarrow> rx_item list \<Rightarrow> string \<Rightarrow> bool" where
  "rx_match e [] s \<longleftrightarrow> e \<longrightarrow> s = []"
| "rx_match e ((cls, One) # is) s \<longleftrightarrow> (case s of [] \<Rightarrow> False | c # s' \<Rightarrow> in_class cls c \<and> rx_match e is s')"
| "rx_match e ((cls, Star) # is) s \<longleftrightarrow>
     rx_match e is s \<or> (case s of [] \<Rightarrow> False | c # s' \<Rightarrow> in_class cls c \<and> rx_match e ((cls, Star) # is) s')"
| "rx_match e ((cls, Plus) # is) s \<longleftrightarrow> (case s of [] \<Rightarrow> False | c # s' \<Rightarrow> in_class cls c \<and> rx_match e ((cls, Star) # is) s')"
  by pat_completeness auto
termination by (relation "measures [\<lambda>(e, is, s). length s, \<lambda>(e, is, s). length is]") auto

definition special :: "char \<Rightarrow> bool" where "special c \<longleftrightarrow> c \<in> set ''^$.*+?()[]{}|'' \<or> c = CHR 0x5C"

text \<open>
  The ranges of a class up to its closing bracket, and the rest of the pattern. A class with a special character, such as
  \<open>[^a]\<close>, or with a range whose ends are in the wrong order is one of the other patterns.
\<close>

fun parse_class :: "string \<Rightarrow> ((char \<times> char) list \<times> string) option" where
  "parse_class [] = None"
| "parse_class (a # m # b # r) =
     (if a = CHR '']'' then Some ([], m # b # r)
      else if special a then None
      else if m = CHR ''-'' \<and> b \<noteq> CHR '']'' then
        (if special b \<or> code b < code a then None else map_option (map_prod (Cons (a, b)) id) (parse_class r))
      else map_option (map_prod (Cons (a, a)) id) (parse_class (m # b # r)))"
| "parse_class (a # r) =
     (if a = CHR '']'' then Some ([], r) else if special a then None else map_option (map_prod (Cons (a, a)) id) (parse_class r))"

lemma parse_class_length: "parse_class s = Some (cls, r) \<Longrightarrow> length r < length s"
proof (induction s arbitrary: cls r rule: parse_class.induct)
  case (2 a m b t)
  then show ?case by (auto split: if_splits)
qed (auto split: if_splits)

definition parse_quantifier :: "string \<Rightarrow> quantifier \<times> string" where
  "parse_quantifier s =
     (case s of [] \<Rightarrow> (One, []) | c # r \<Rightarrow> if c = CHR ''*'' then (Star, r) else if c = CHR ''+'' then (Plus, r) else (One, s))"

lemma parse_quantifier_length: "parse_quantifier s = (q, r) \<Longrightarrow> length r \<le> length s"
  by (auto simp: parse_quantifier_def split: list.splits if_splits)

text \<open>The items of a pattern, and whether it ends in \<open>$\<close>.\<close>

function parse_items :: "string \<Rightarrow> (rx_item list \<times> bool) option" where
  "parse_items [] = Some ([], False)"
| "parse_items (c # s) =
     (if c = CHR ''$'' then if s = [] then Some ([], True) else None
      else if c = CHR ''['' then
        (case parse_class s of
           None \<Rightarrow> None
         | Some (cls, r) \<Rightarrow> if cls = [] then None else (case parse_quantifier r of (q, r') \<Rightarrow> map_option (map_prod (Cons (cls, q)) id) (parse_items r')))
      else if special c then None
      else (case parse_quantifier s of (q, r') \<Rightarrow> map_option (map_prod (Cons ([(c, c)], q)) id) (parse_items r')))"
  by pat_completeness auto
termination
proof (relation "measure length")
  show "(r', c # s) \<in> measure length" if "parse_class s = Some x" "(cls, r) = x" "(q, r') = parse_quantifier r" for c s x cls r q r'
    using parse_class_length [of s cls r] parse_quantifier_length [of r q r'] that by simp
  show "(r', c # s) \<in> measure length" if "(q, r') = parse_quantifier s" for c s q r'
    using parse_quantifier_length [of s q r'] that by simp
qed simp

definition regex_search :: "(string \<Rightarrow> string \<Rightarrow> bool) \<Rightarrow> string \<Rightarrow> string \<Rightarrow> bool" where
  "regex_search other pattern s =
     (let start = (pattern \<noteq> [] \<and> hd pattern = CHR ''^''); p = (if start then tl pattern else pattern) in
      case parse_items p of
        None \<Rightarrow> other pattern s
      | Some (is, e) \<Rightarrow> if start then rx_match e is s else list_ex (rx_match e is) (suffixes s))"

section \<open>Constraints on texts\<close>

definition ONLY_DIGITS_REGEX :: string where "ONLY_DIGITS_REGEX = ''^[0-9]*$''"
definition AT_LEAST_ONE_DIGIT_REGEX :: string where "AT_LEAST_ONE_DIGIT_REGEX = ''^[0-9]+$''"
definition ONLY_LETTERS_REGEX :: string where "ONLY_LETTERS_REGEX = ''^[a-zA-Z]*$''"
definition ONLY_LETTERS_AND_DIGITS_REGEX :: string where "ONLY_LETTERS_AND_DIGITS_REGEX = ''^[a-zA-Z0-9]*$''"
definition ONLY_LETTERS_AND_DIGITS_AND_UNDERSCORES_REGEX :: string where
  "ONLY_LETTERS_AND_DIGITS_AND_UNDERSCORES_REGEX = ''^[a-zA-Z0-9_]*$''"

record StringConstraint = Constraint +
  regex :: string

definition StringConstraint_of :: "string \<Rightarrow> int64 \<Rightarrow> string \<Rightarrow> StringConstraint" where
  "StringConstraint_of aregex aid aname = \<lparr>mid = aid, cname = aname, regex = aregex\<rparr>"

definition StringConstraint_ok :: "(string \<Rightarrow> string \<Rightarrow> bool) \<Rightarrow> StringConstraint \<Rightarrow> string \<Rightarrow> bool" where
  "StringConstraint_ok other c s = regex_search other (regex c) s"

section \<open>Meaning of the constraints\<close>

lemma rx_star_end: "rx_match True [(cls, Star)] s \<longleftrightarrow> list_all (in_class cls) s"
  by (induction s) auto

lemma rx_plus_end: "rx_match True [(cls, Plus)] s \<longleftrightarrow> s \<noteq> [] \<and> list_all (in_class cls) s"
  by (cases s) (simp_all add: rx_star_end del: rx_match.simps(3))

lemma in_class_chars: "in_class (map (\<lambda>c. (c, c)) cs) x \<longleftrightarrow> x \<in> set cs"
  by (auto simp: in_class_def list_ex_iff code_def)

lemma rx_word: "rx_match e (map (\<lambda>c. ([(c, c)], One)) w) s \<longleftrightarrow> (if e then s = w else prefix w s)"
proof (induction w arbitrary: s)
  case (Cons c w)
  have "in_class [(c, c)] x \<longleftrightarrow> x = c" for x using in_class_chars [of "[c]"] by auto
  then show ?case using Cons by (cases s) auto
qed simp

lemma parse_word:
  "list_all (\<lambda>c. \<not> special c) w \<Longrightarrow> parse_items w = Some (map (\<lambda>c. ([(c, c)], One)) w, False)"
  "list_all (\<lambda>c. \<not> special c) w \<Longrightarrow> parse_items (w @ ''$'') = Some (map (\<lambda>c. ([(c, c)], One)) w, True)"
proof -
  have q: "parse_quantifier (w @ t) = (One, w @ t)" if "list_all (\<lambda>c. \<not> special c) w" "t = [] \<or> t = ''$''" for w t
    using that by (cases w) (auto simp: parse_quantifier_def special_def)
  have plain: "c \<noteq> CHR ''$'' \<and> c \<noteq> CHR ''[''" if "\<not> special c" for c using that by (auto simp: special_def)
  have "parse_items (w @ t) = Some (map (\<lambda>c. ([(c, c)], One)) w, t \<noteq> [])"
    if "list_all (\<lambda>c. \<not> special c) w" "t = [] \<or> t = ''$''" for w t
    using that
  proof (induction w)
    case (Cons c w)
    have l: "list_all (\<lambda>c. \<not> special c) w" "\<not> special c" using Cons.prems by simp_all
    then show ?case using Cons.IH [OF l(1) Cons.prems(2)] plain [of c] q [OF l(1) Cons.prems(2)] by simp
  qed auto
  from this [of w "[]"] this [of w "''$''"]
  show "list_all (\<lambda>c. \<not> special c) w \<Longrightarrow> parse_items w = Some (map (\<lambda>c. ([(c, c)], One)) w, False)"
    "list_all (\<lambda>c. \<not> special c) w \<Longrightarrow> parse_items (w @ ''$'') = Some (map (\<lambda>c. ([(c, c)], One)) w, True)"
    by simp_all
qed

lemma in_classes:
  "in_class [(CHR ''0'', CHR ''9'')] = isdigit"
  "in_class [(CHR ''a'', CHR ''z''), (CHR ''A'', CHR ''Z'')] = isalpha"
  "in_class [(CHR ''a'', CHR ''z''), (CHR ''A'', CHR ''Z''), (CHR ''0'', CHR ''9'')] = isalnum"
  "in_class [(CHR ''a'', CHR ''z''), (CHR ''A'', CHR ''Z''), (CHR ''0'', CHR ''9''), (CHR ''_'', CHR ''_'')] = (\<lambda>c. isalnum c \<or> c = CHR ''_'')"
proof -
  have "of_char c = (of_char CHR ''_'' :: nat) \<longleftrightarrow> c = CHR ''_''" for c by (rule of_char_eq_iff)
  then have "of_char c = (95::nat) \<longleftrightarrow> c = CHR ''_''" for c by simp
  then have "95 \<le> (of_char c :: nat) \<and> (of_char c :: nat) \<le> 95 \<longleftrightarrow> c = CHR ''_''" for c by (metis order_antisym order_refl)
  then show "in_class [(CHR ''0'', CHR ''9'')] = isdigit"
    "in_class [(CHR ''a'', CHR ''z''), (CHR ''A'', CHR ''Z'')] = isalpha"
    "in_class [(CHR ''a'', CHR ''z''), (CHR ''A'', CHR ''Z''), (CHR ''0'', CHR ''9'')] = isalnum"
    "in_class [(CHR ''a'', CHR ''z''), (CHR ''A'', CHR ''Z''), (CHR ''0'', CHR ''9''), (CHR ''_'', CHR ''_'')] = (\<lambda>c. isalnum c \<or> c = CHR ''_'')"
    by (auto simp: fun_eq_iff in_class_def isdigit_def isalpha_def isalnum_def isupper_def islower_def code_def)
qed

lemma parse_constants:
  "parse_items (tl ONLY_DIGITS_REGEX) = Some ([([(CHR ''0'', CHR ''9'')], Star)], True)"
  "parse_items (tl AT_LEAST_ONE_DIGIT_REGEX) = Some ([([(CHR ''0'', CHR ''9'')], Plus)], True)"
  "parse_items (tl ONLY_LETTERS_REGEX) = Some ([([(CHR ''a'', CHR ''z''), (CHR ''A'', CHR ''Z'')], Star)], True)"
  "parse_items (tl ONLY_LETTERS_AND_DIGITS_REGEX) = Some ([([(CHR ''a'', CHR ''z''), (CHR ''A'', CHR ''Z''), (CHR ''0'', CHR ''9'')], Star)], True)"
  "parse_items (tl ONLY_LETTERS_AND_DIGITS_AND_UNDERSCORES_REGEX) =
     Some ([([(CHR ''a'', CHR ''z''), (CHR ''A'', CHR ''Z''), (CHR ''0'', CHR ''9''), (CHR ''_'', CHR ''_'')], Star)], True)"
  by (simp_all add: ONLY_DIGITS_REGEX_def AT_LEAST_ONE_DIGIT_REGEX_def ONLY_LETTERS_REGEX_def ONLY_LETTERS_AND_DIGITS_REGEX_def
      ONLY_LETTERS_AND_DIGITS_AND_UNDERSCORES_REGEX_def parse_quantifier_def special_def code_def)

lemma search_anchored:
  "hd p = CHR ''^'' \<Longrightarrow> p \<noteq> [] \<Longrightarrow> parse_items (tl p) = Some (is, e) \<Longrightarrow> regex_search other p s = rx_match e is s"
  by (simp add: regex_search_def)

lemma constants_anchored:
  "hd ONLY_DIGITS_REGEX = CHR ''^''" "ONLY_DIGITS_REGEX \<noteq> []"
  "hd AT_LEAST_ONE_DIGIT_REGEX = CHR ''^''" "AT_LEAST_ONE_DIGIT_REGEX \<noteq> []"
  "hd ONLY_LETTERS_REGEX = CHR ''^''" "ONLY_LETTERS_REGEX \<noteq> []"
  "hd ONLY_LETTERS_AND_DIGITS_REGEX = CHR ''^''" "ONLY_LETTERS_AND_DIGITS_REGEX \<noteq> []"
  "hd ONLY_LETTERS_AND_DIGITS_AND_UNDERSCORES_REGEX = CHR ''^''" "ONLY_LETTERS_AND_DIGITS_AND_UNDERSCORES_REGEX \<noteq> []"
  by (simp_all add: ONLY_DIGITS_REGEX_def AT_LEAST_ONE_DIGIT_REGEX_def ONLY_LETTERS_REGEX_def ONLY_LETTERS_AND_DIGITS_REGEX_def
      ONLY_LETTERS_AND_DIGITS_AND_UNDERSCORES_REGEX_def)

lemma search_constants:
  "regex_search other ONLY_DIGITS_REGEX s \<longleftrightarrow> list_all isdigit s"
  "regex_search other AT_LEAST_ONE_DIGIT_REGEX s \<longleftrightarrow> s \<noteq> [] \<and> list_all isdigit s"
  "regex_search other ONLY_LETTERS_REGEX s \<longleftrightarrow> list_all isalpha s"
  "regex_search other ONLY_LETTERS_AND_DIGITS_REGEX s \<longleftrightarrow> list_all isalnum s"
  "regex_search other ONLY_LETTERS_AND_DIGITS_AND_UNDERSCORES_REGEX s \<longleftrightarrow> list_all (\<lambda>c. isalnum c \<or> c = CHR ''_'') s"
  by (simp_all add: search_anchored [OF constants_anchored(1,2) parse_constants(1)] search_anchored [OF constants_anchored(3,4) parse_constants(2)]
      search_anchored [OF constants_anchored(5,6) parse_constants(3)] search_anchored [OF constants_anchored(7,8) parse_constants(4)]
      search_anchored [OF constants_anchored(9,10) parse_constants(5)] rx_star_end rx_plus_end in_classes del: rx_match.simps)

text \<open>
  C33: The predefined constraints on texts accept exactly the texts of digits, of at least one digit, of letters, of letters
  and digits, and of these and underscores. A pattern without special characters accepts the texts that contain it,
  and only the text itself when it is anchored at both ends.
\<close>

theorem text_constraints:
  "(StringConstraint_ok other (StringConstraint_of ONLY_DIGITS_REGEX i n) s \<longleftrightarrow> list_all isdigit s)
   \<and> (StringConstraint_ok other (StringConstraint_of AT_LEAST_ONE_DIGIT_REGEX i n) s \<longleftrightarrow> s \<noteq> [] \<and> list_all isdigit s)
   \<and> (StringConstraint_ok other (StringConstraint_of ONLY_LETTERS_REGEX i n) s \<longleftrightarrow> list_all isalpha s)
   \<and> (StringConstraint_ok other (StringConstraint_of ONLY_LETTERS_AND_DIGITS_REGEX i n) s \<longleftrightarrow> list_all isalnum s)
   \<and> (StringConstraint_ok other (StringConstraint_of ONLY_LETTERS_AND_DIGITS_AND_UNDERSCORES_REGEX i n) s
        \<longleftrightarrow> list_all (\<lambda>c. isalnum c \<or> c = CHR ''_'') s)
   \<and> (list_all (\<lambda>c. \<not> special c) w \<longrightarrow>
        (StringConstraint_ok other (StringConstraint_of (''^'' @ w @ ''$'') i n) s \<longleftrightarrow> s = w)
        \<and> (StringConstraint_ok other (StringConstraint_of w i n) s \<longleftrightarrow> sublist w s))"
proof -
  have anch: "regex_search other (''^'' @ w @ ''$'') s \<longleftrightarrow> s = w" if "list_all (\<lambda>c. \<not> special c) w"
    using search_anchored [of "''^'' @ w @ ''$''"] parse_word(2) [OF that] rx_word [of True w s] by simp
  have "regex_search other w s \<longleftrightarrow> sublist w s" if w: "list_all (\<lambda>c. \<not> special c) w"
  proof -
    have "\<not> (w \<noteq> [] \<and> hd w = CHR ''^'')" using w by (cases w) (auto simp: special_def)
    then have "regex_search other w s \<longleftrightarrow> list_ex (prefix w) (suffixes s)"
      using parse_word(1) [OF w] rx_word [of False w] by (auto simp: regex_search_def Let_def list_ex_iff)
    then show ?thesis by (auto simp: list_ex_iff sublist_altdef')
  qed
  with anch show ?thesis by (simp add: StringConstraint_ok_def StringConstraint_of_def search_constants)
qed

theorem text_constraints_witness:
  "StringConstraint_ok (\<lambda>_ _. False) (StringConstraint_of (''^'' @ ''bola'' @ ''$'') 1 []) ''bola''
   \<and> \<not> StringConstraint_ok (\<lambda>_ _. False) (StringConstraint_of (''^'' @ ''bola'' @ ''$'') 1 []) '' bola''"
proof -
  have "list_all (\<lambda>c. \<not> special c) ''bola''" by (simp add: special_def)
  then show ?thesis
    using text_constraints [of "\<lambda>_ _. False" 1 "[]" "''bola''" "''bola''"] text_constraints [of "\<lambda>_ _. False" 1 "[]" "'' bola''" "''bola''"] by auto
qed

text \<open>
  A constraint composed of ranges by \<open>||\<close>, however deeply, accepts exactly the values in one of the ranges; for an empty
  range (least above greatest) there are none. The operands are conjunction, disjunction and exclusive disjunction.
\<close>

fun or_of_ranges :: "('a::linorder \<times> 'a) list \<Rightarrow> 'a \<Rightarrow> bool" where
  "or_of_ranges [] = (\<lambda>_. False)"
| "or_of_ranges [(a, b)] = RangeConstraint_ok (RangeConstraint_of a b NULL_ID [])"
| "or_of_ranges ((a, b) # rs) = CompositeConstraint_ok (constraint_or (RangeConstraint_ok (RangeConstraint_of a b NULL_ID [])) (or_of_ranges rs))"

lemma or_of_ranges_iff: "or_of_ranges rs x \<longleftrightarrow> (\<exists>(a, b) \<in> set rs. x \<in> {a..b})"
  by (induction rs rule: or_of_ranges.induct)
    (auto simp: RangeConstraint_ok_def RangeConstraint_of_def CompositeConstraint_ok_def constraint_or_def CompositeConstraint_of_def OrOperand_call_def)

end
