(* ===== verification/Stop_Watch.thy ===== *)
theory Stop_Watch
  imports Objects
begin

text \<open>
  stop\_watch.hpp: measuring time. The time of the steady clock, in nanoseconds since its epoch, is an argument of the
  functions that read it; the resolution is the number of nanoseconds of one unit.
\<close>

text \<open>Integer division of C++, which rounds towards zero.\<close>

definition cdiv :: "int \<Rightarrow> int \<Rightarrow> int" where "cdiv a b = sgn a * sgn b * (\<bar>a\<bar> div \<bar>b\<bar>)"

record StopWatch = Object +
  mstart :: int
  mlast :: int
  mmark :: int
  mrunning :: bool

definition ZERO :: int where "ZERO = 0"
definition NS_H :: int where "NS_H = 3600000000000"
definition NS_M :: int where "NS_M = 60000000000"
definition NS_S :: int where "NS_S = 1000000000"
definition NS_MS :: int where "NS_MS = 1000000"
definition MICRO_SECOND :: int where "MICRO_SECOND = 1000"

definition StopWatch_of :: "bool \<Rightarrow> int \<Rightarrow> StopWatch" where
  "StopWatch_of start_now now =
     \<lparr>mid = NULL_ID, mstart = (if start_now then now else ZERO), mlast = ZERO, mmark = ZERO, mrunning = start_now\<rparr>"

definition watch_start :: "StopWatch \<Rightarrow> int \<Rightarrow> StopWatch" where
  "watch_start sw now = sw\<lparr>mstart := now, mrunning := True\<rparr>"

definition watch_reset :: "StopWatch \<Rightarrow> int \<Rightarrow> StopWatch" where
  "watch_reset sw now = sw\<lparr>mstart := now, mlast := ZERO, mrunning := True\<rparr>"

definition watch_stop :: "StopWatch \<Rightarrow> int \<Rightarrow> StopWatch" where
  "watch_stop sw now = sw\<lparr>mlast := now, mrunning := False\<rparr>"

definition elapsed :: "int \<Rightarrow> StopWatch \<Rightarrow> int \<Rightarrow> int" where
  "elapsed res sw now = cdiv (if mrunning sw then now - mstart sw else mlast sw - mstart sw) res"

definition watch_mark :: "StopWatch \<Rightarrow> int \<Rightarrow> StopWatch" where "watch_mark sw now = sw\<lparr>mmark := now\<rparr>"

definition elapsed_since_mark :: "int \<Rightarrow> StopWatch \<Rightarrow> int \<Rightarrow> int" where
  "elapsed_since_mark res sw now = cdiv (if mrunning sw then now - mmark sw else mlast sw - mmark sw) res"

definition watch_now :: "int \<Rightarrow> int \<Rightarrow> int" where "watch_now res now = cdiv (now - ZERO) res"

text \<open>The first part of the function splits the time, the second one prints the parts.\<close>

definition split_elapsed :: "int \<Rightarrow> int \<times> int \<times> int \<times> int \<times> int \<times> int" where
  "split_elapsed elapsed_nanoseconds =
     (let e = elapsed_nanoseconds;
          hours = cdiv e NS_H; e = e - hours * NS_H;
          minutes = cdiv e NS_M; e = e - minutes * NS_M;
          seconds = cdiv e NS_S; e = e - seconds * NS_S;
          milliseconds = cdiv e NS_MS; e = e - milliseconds * NS_MS;
          microseconds = cdiv e MICRO_SECOND; e = e - microseconds * MICRO_SECOND
      in (hours, minutes, seconds, milliseconds, microseconds, e))"

definition elapsed_formatted :: "int \<Rightarrow> string outcome" where
  "elapsed_formatted elapsed_nanoseconds =
     (case split_elapsed elapsed_nanoseconds of (hours, minutes, seconds, milliseconds, microseconds, e) \<Rightarrow>
        bind_outcome (pad_left0 hours 2) (\<lambda>h.
        bind_outcome (pad_left0 minutes 2) (\<lambda>m.
        bind_outcome (pad_left0 seconds 2) (\<lambda>s.
        bind_outcome (pad_left0 milliseconds 3) (\<lambda>ms.
        bind_outcome (pad_left0 microseconds 3) (\<lambda>us.
        bind_outcome (pad_left0 e 3) (\<lambda>ns.
          Ret (h @ '':'' @ m @ '':'' @ s @ ''.'' @ ms @ ''.'' @ us @ ''.'' @ ns))))))))"

definition watch_elapsed_formatted :: "int \<Rightarrow> StopWatch \<Rightarrow> int \<Rightarrow> string outcome" where
  "watch_elapsed_formatted res sw now = elapsed_formatted (elapsed res sw now)"

definition elapsed_since_mark_formatted :: "int \<Rightarrow> StopWatch \<Rightarrow> int \<Rightarrow> string outcome" where
  "elapsed_since_mark_formatted res sw now = elapsed_formatted (elapsed_since_mark res sw now)"

section \<open>Measuring\<close>

lemma cdiv_nonneg [simp]: "0 \<le> a \<Longrightarrow> 0 < b \<Longrightarrow> cdiv a b = a div b"
  by (cases "a = 0") (simp_all add: cdiv_def)

text \<open>
  A watch that runs shows the time since it was started, in whole units; after it was stopped it shows the time from
  start to stop whenever it is asked. The time since a mark is counted to the stop, so for a mark that is set after
  the stop it is negative, as it is in a watch that was made without starting it.
\<close>

theorem stop_watch_time:
  assumes "0 < res" "t0 \<le> t1" "t1 \<le> t"
  shows "elapsed res (watch_start sw t0) t = (t - t0) div res
    \<and> elapsed res (watch_reset sw t0) t = (t - t0) div res
    \<and> elapsed res (watch_stop (watch_start sw t0) t1) t = (t1 - t0) div res
    \<and> elapsed_since_mark res (watch_stop (watch_mark (watch_start sw t0) t1) t) t' = (t - t1) div res
    \<and> elapsed_since_mark res (watch_mark (watch_stop (watch_start sw t0) t1) t) t' = - ((t - t1) div res)
    \<and> elapsed res (StopWatch_of False t0) t = 0"
proof -
  have "cdiv (t1 - t) res = - ((t - t1) div res)" using assms by (cases "t = t1") (simp_all add: cdiv_def)
  then show ?thesis using assms
    by (simp add: elapsed_def elapsed_since_mark_def watch_start_def watch_reset_def watch_stop_def watch_mark_def StopWatch_of_def cdiv_def [of 0])
qed

theorem stop_watch_time_witness:
  "elapsed 1000 (watch_stop (watch_start (StopWatch_of False 0) 500) 7700) 9000 = 7"
  using stop_watch_time [of 1000 500 7700 9000 "StopWatch_of False 0" 0] by simp

section \<open>Printing\<close>

lemma pad_left0_fixed:
  assumes "0 \<le> k" "k < 10 ^ unat n" "0 < sint n" "n \<noteq> 0"
  shows "\<exists>t. pad_left0 k n = Ret t \<and> length t = unat n \<and> read_nat t = nat k"
proof -
  have "nat k < 10 ^ unat n" using assms(1,2) by (metis nat_less_iff of_nat_numeral of_nat_power)
  moreover have "0 < unat n" using assms(4) by (intro gr0I) (simp add: unsigned_eq_0_iff)
  ultimately have "length (show_nat (nat k)) \<le> unat n" by (metis show_nat_length)
  then show ?thesis using pad_left0_text [OF assms(1,3)] by simp
qed

lemma split_elapsed_sum:
  assumes "0 \<le> t" "split_elapsed t = (h, m, s, ms, us, ns)"
  shows "t = ((((h * 60 + m) * 60 + s) * 1000 + ms) * 1000 + us) * 1000 + ns
    \<and> 0 \<le> h \<and> 0 \<le> m \<and> m < 60 \<and> 0 \<le> s \<and> s < 60 \<and> 0 \<le> ms \<and> ms < 1000 \<and> 0 \<le> us \<and> us < 1000 \<and> 0 \<le> ns \<and> ns < 1000"
proof -
  have rem: "a - a div b * b = a mod b" for a b :: int by (simp add: minus_div_mult_eq_mod)
  define e1 where "e1 = t mod NS_H"
  define e2 where "e2 = e1 mod NS_M"
  define e3 where "e3 = e2 mod NS_S"
  define e4 where "e4 = e3 mod NS_MS"
  note ns = NS_H_def NS_M_def NS_S_def NS_MS_def MICRO_SECOND_def
  have e: "0 \<le> e1" "e1 < NS_H" "0 \<le> e2" "e2 < NS_M" "0 \<le> e3" "e3 < NS_S" "0 \<le> e4" "e4 < NS_MS"
    by (simp_all add: e1_def e2_def e3_def e4_def ns)
  have c: "cdiv t NS_H = t div NS_H" "cdiv e1 NS_M = e1 div NS_M" "cdiv e2 NS_S = e2 div NS_S" "cdiv e3 NS_MS = e3 div NS_MS"
      "cdiv e4 MICRO_SECOND = e4 div MICRO_SECOND"
    using assms(1) e(1,3,5,7) by (simp_all add: ns)
  have r: "t - t div NS_H * NS_H = e1" "e1 - e1 div NS_M * NS_M = e2" "e2 - e2 div NS_S * NS_S = e3" "e3 - e3 div NS_MS * NS_MS = e4"
      "e4 - e4 div MICRO_SECOND * MICRO_SECOND = e4 mod MICRO_SECOND"
    unfolding e1_def e2_def e3_def e4_def by (rule rem)+
  have "(h, m, s, ms, us, ns) = (t div NS_H, e1 div NS_M, e2 div NS_S, e3 div NS_MS, e4 div MICRO_SECOND, e4 mod MICRO_SECOND)"
    unfolding assms(2) [symmetric] split_elapsed_def Let_def c r by (rule refl)
  then have v: "h = t div NS_H" "m = e1 div NS_M" "s = e2 div NS_S" "ms = e3 div NS_MS" "us = e4 div MICRO_SECOND" "ns = e4 mod MICRO_SECOND" by simp_all
  have "t = h * NS_H + e1" "e1 = m * NS_M + e2" "e2 = s * NS_S + e3" "e3 = ms * NS_MS + e4" "e4 = us * MICRO_SECOND + ns"
    unfolding v e1_def e2_def e3_def e4_def by simp_all
  then have "t = ((((h * 60 + m) * 60 + s) * 1000 + ms) * 1000 + us) * 1000 + ns" by (simp add: ns)
  moreover have "0 \<le> h" using v(1) assms(1) by (simp add: ns)
  moreover have "0 \<le> m \<and> m < 60" using v(2) e(1,2) by (simp add: ns) linarith
  moreover have "0 \<le> s \<and> s < 60" using v(3) e(3,4) by (simp add: ns) linarith
  moreover have "0 \<le> ms \<and> ms < 1000" using v(4) e(5,6) by (simp add: ns) linarith
  moreover have "0 \<le> us \<and> us < 1000" using v(5) e(7,8) by (simp add: ns) linarith
  moreover have "0 \<le> ns \<and> ns < 1000" using v(6) by (simp add: MICRO_SECOND_def)
  ultimately show ?thesis by simp
qed

lemma elapsed_text_nonneg:
  assumes "0 \<le> t"
  shows "\<exists>h m s ms us ns. elapsed_formatted t = Ret (h @ '':'' @ m @ '':'' @ s @ ''.'' @ ms @ ''.'' @ us @ ''.'' @ ns)
    \<and> 2 \<le> length h \<and> length m = 2 \<and> length s = 2 \<and> length ms = 3 \<and> length us = 3 \<and> length ns = 3
    \<and> read_nat m < 60 \<and> read_nat s < 60
    \<and> ((((int (read_nat h) * 60 + int (read_nat m)) * 60 + int (read_nat s)) * 1000 + int (read_nat ms)) * 1000 + int (read_nat us)) * 1000
        + int (read_nat ns) = t"
proof -
  obtain h m s ms us ns where sp: "split_elapsed t = (h, m, s, ms, us, ns)" by (metis prod_cases6)
  note v = split_elapsed_sum [OF assms sp]
  have n: "0 < sint (2 :: 32 word)" "unat (2 :: 32 word) = 2" "0 < sint (3 :: 32 word)" "unat (3 :: 32 word) = 3" "(2::32 word) \<noteq> 0" "(3::32 word) \<noteq> 0"
    by simp_all
  have two: "\<exists>t. pad_left0 k 2 = Ret t \<and> length t = 2 \<and> read_nat t = nat k" if "0 \<le> k" "k < 60" for k
    using pad_left0_fixed [OF that(1) _ n(1,5)] that n(2) by simp
  have three: "\<exists>t. pad_left0 k 3 = Ret t \<and> length t = 3 \<and> read_nat t = nat k" if "0 \<le> k" "k < 1000" for k
    using pad_left0_fixed [OF that(1) _ n(3,6)] that n(4) by simp
  obtain th where th: "pad_left0 h 2 = Ret th" "2 \<le> length th" "read_nat th = nat h"
    using pad_left0_text [OF _ n(1), of h] v n(2) by auto
  obtain tm where tm: "pad_left0 m 2 = Ret tm" "length tm = 2" "read_nat tm = nat m" using two v by blast
  obtain ts where ts: "pad_left0 s 2 = Ret ts" "length ts = 2" "read_nat ts = nat s" using two v by blast
  obtain tms where tms: "pad_left0 ms 3 = Ret tms" "length tms = 3" "read_nat tms = nat ms" using three v by blast
  obtain tus where tus: "pad_left0 us 3 = Ret tus" "length tus = 3" "read_nat tus = nat us" using three v by blast
  obtain tns where tns: "pad_left0 ns 3 = Ret tns" "length tns = 3" "read_nat tns = nat ns" using three v by blast
  have "elapsed_formatted t = Ret (th @ '':'' @ tm @ '':'' @ ts @ ''.'' @ tms @ ''.'' @ tus @ ''.'' @ tns)"
    using th(1) tm(1) ts(1) tms(1) tus(1) tns(1) by (simp add: elapsed_formatted_def sp)
  then show ?thesis using th tm ts tms tus tns v by fastforce
qed

text \<open>A negative time is split into the negated parts of its absolute value, and a negative part is printed with two minus signs.\<close>

lemma split_elapsed_uminus:
  "split_elapsed t = (h, m, s, ms, us, ns) \<Longrightarrow> split_elapsed (- t) = (- h, - m, - s, - ms, - us, - ns)"
proof -
  have neg: "cdiv (- a) b = - cdiv a b" for a b by (simp add: cdiv_def sgn_minus)
  have sub: "- a - - q * b = - (a - q * b)" for a q b :: int by simp
  show "split_elapsed t = (h, m, s, ms, us, ns) \<Longrightarrow> split_elapsed (- t) = (- h, - m, - s, - ms, - us, - ns)"
    unfolding split_elapsed_def Let_def neg sub by auto
qed

lemma pad_left0_negative: "k < 0 \<Longrightarrow> 0 < sint n \<Longrightarrow> \<exists>u v. pad_left0 k n = Ret (u @ ''--'' @ v)"
  using pad_left0_any [of n k] by (auto simp: to_string_def show_int_def Let_def)

lemma elapsed_text_negative:
  assumes "0 < t"
  shows "\<exists>u v. elapsed_formatted (- t) = Ret (u @ ''--'' @ v)"
proof -
  obtain h m s ms us ns where sp: "split_elapsed t = (h, m, s, ms, us, ns)" by (metis prod_cases6)
  note v = split_elapsed_sum [OF less_imp_le [OF assms] sp]
  have n: "0 < sint (2 :: 32 word)" "0 < sint (3 :: 32 word)" by simp_all
  obtain a b c d e f where p: "pad_left0 (- h) 2 = Ret a" "pad_left0 (- m) 2 = Ret b" "pad_left0 (- s) 2 = Ret c"
      "pad_left0 (- ms) 3 = Ret d" "pad_left0 (- us) 3 = Ret e" "pad_left0 (- ns) 3 = Ret f"
    using pad_left0_any n by blast
  let ?has = "\<lambda>x. \<exists>u v. x = u @ ''--'' @ v"
  have eq: "elapsed_formatted (- t) = Ret (a @ '':'' @ b @ '':'' @ c @ ''.'' @ d @ ''.'' @ e @ ''.'' @ f)"
    using p by (simp add: elapsed_formatted_def split_elapsed_uminus [OF sp])
  have "0 < h \<or> 0 < m \<or> 0 < s \<or> 0 < ms \<or> 0 < us \<or> 0 < ns" using v assms by auto
  then have "?has a \<or> ?has b \<or> ?has c \<or> ?has d \<or> ?has e \<or> ?has f"
    using p pad_left0_negative [of "- h" 2] pad_left0_negative [of "- m" 2] pad_left0_negative [of "- s" 2]
      pad_left0_negative [of "- ms" 3] pad_left0_negative [of "- us" 3] pad_left0_negative [of "- ns" 3] n by auto
  then have "?has (a @ '':'' @ b @ '':'' @ c @ ''.'' @ d @ ''.'' @ e @ ''.'' @ f)"
    unfolding sublist_def [symmetric] by (simp only: sublist_append) blast
  with eq show ?thesis by auto
qed

text \<open>
  C34: The text of a time that is not negative has two digits or more for the hours (more from 100 hours on), two for minutes
  and seconds and three each for milli-, micro- and nanoseconds, with the separators \<open>:\<close> and \<open>.\<close>, and the numbers read
  from it are that time; it has two fields more than the comment of the function says. The text of a negative time,
  which a watch shows when it is marked after it was stopped, contains two minus signs in a row.
\<close>

theorem elapsed_text:
  "(0 \<le> t \<longrightarrow> (\<exists>h m s ms us ns. elapsed_formatted t = Ret (h @ '':'' @ m @ '':'' @ s @ ''.'' @ ms @ ''.'' @ us @ ''.'' @ ns)
    \<and> 2 \<le> length h \<and> length m = 2 \<and> length s = 2 \<and> length ms = 3 \<and> length us = 3 \<and> length ns = 3
    \<and> read_nat m < 60 \<and> read_nat s < 60
    \<and> ((((int (read_nat h) * 60 + int (read_nat m)) * 60 + int (read_nat s)) * 1000 + int (read_nat ms)) * 1000 + int (read_nat us)) * 1000
        + int (read_nat ns) = t))
   \<and> (t < 0 \<longrightarrow> (\<exists>u v. elapsed_formatted t = Ret (u @ ''--'' @ v)))"
proof (intro conjI impI)
  assume "t < 0"
  then show "\<exists>u v. elapsed_formatted t = Ret (u @ ''--'' @ v)" using elapsed_text_negative [of "- t"] by simp
qed (rule elapsed_text_nonneg)

theorem elapsed_text_witness:
  "(\<exists>t. elapsed_formatted 3725000000042 = Ret t \<and> 18 \<le> length t) \<and> (\<exists>u v. elapsed_formatted (- 1) = Ret (u @ ''--'' @ v))"
proof -
  have "(0 :: int) \<le> 3725000000042" "(- 1 :: int) < 0" by simp_all
  then show ?thesis using elapsed_text [of 3725000000042] elapsed_text [of "- 1"] by auto
qed

end
