(* ===== verification/Data_Layout.thy ===== *)
theory Data_Layout
  imports Cpp_Std
begin

text \<open>
  data.hpp: the macros that check at compile time that a structure has no padding, and the class that prints
  its layout. A structure is given by what the compiler knows of it: offset and size of each member, its own
  size and alignment, and three type traits. A macro that does not expand to valid code is \<open>None\<close>.
\<close>

section \<open>Structures\<close>

record layout =
  member_offset :: "string \<Rightarrow> nat option"
  member_size :: "string \<Rightarrow> nat"
  size_of :: nat
  align_of :: nat
  standard_layout :: bool
  trivially_copyable :: bool
  unique_representations :: bool

definition MEMBER_OFFSET :: "layout \<Rightarrow> string \<Rightarrow> nat" where "MEMBER_OFFSET T m = the (member_offset T m)"

definition MEMBER_SIZE :: "layout \<Rightarrow> string \<Rightarrow> nat" where "MEMBER_SIZE T m = member_size T m"

definition END_OF_MEMBER :: "layout \<Rightarrow> string \<Rightarrow> nat" where "END_OF_MEMBER T m = MEMBER_OFFSET T m + MEMBER_SIZE T m"

definition TAIL_PAD_ONLY_N :: "layout \<Rightarrow> string \<Rightarrow> nat" where
  "TAIL_PAD_ONLY_N T m = (align_of T - END_OF_MEMBER T m mod align_of T) mod align_of T"

definition TAIL_DELTA_N :: "layout \<Rightarrow> string \<Rightarrow> nat" where
  "TAIL_DELTA_N T m = size_of T - END_OF_MEMBER T m"

definition ASSERT_NO_INTERNAL_PADDING :: "layout \<Rightarrow> string \<Rightarrow> string \<Rightarrow> bool" where
  "ASSERT_NO_INTERNAL_PADDING T m1 m2 \<longleftrightarrow> MEMBER_OFFSET T m2 = END_OF_MEMBER T m1"

definition ASSERT_NO_TAIL_PADDING :: "layout \<Rightarrow> string \<Rightarrow> bool" where
  "ASSERT_NO_TAIL_PADDING T m \<longleftrightarrow> TAIL_PAD_ONLY_N T m = 0"

section \<open>Macros with a variable number of members\<close>

datatype token = Num nat | Name string

text \<open>
  The eleventh argument of the helper macro: the number of members, up to ten of them. No argument at all is one
  empty argument.
\<close>

definition COUNT_ARGS :: "string list \<Rightarrow> token" where
  "COUNT_ARGS args = (map Name (if args = [] then [[]] else args) @ map Num [10, 9, 8, 7, 6, 5, 4, 3, 2, 1]) ! 10"

text \<open>Concatenating the name of a family of macros with a token gives a macro for the numbers 1 to 10 only.\<close>

fun selects :: "token \<Rightarrow> string list \<Rightarrow> bool" where
  "selects (Num k) args \<longleftrightarrow> 1 \<le> k \<and> k \<le> 10 \<and> length args = k"
| "selects (Name n) args \<longleftrightarrow> False"

fun FOR_EACH_SIZEOF :: "layout \<Rightarrow> string list \<Rightarrow> nat" where
  "FOR_EACH_SIZEOF T [] = 0"
| "FOR_EACH_SIZEOF T [m] = MEMBER_SIZE T m"
| "FOR_EACH_SIZEOF T (m # ms) = MEMBER_SIZE T m + FOR_EACH_SIZEOF T ms"

definition EXPECTED_SIZE_OF_MEMBERS :: "layout \<Rightarrow> string list \<Rightarrow> nat option" where
  "EXPECTED_SIZE_OF_MEMBERS T ms = (if selects (COUNT_ARGS ms) ms then Some (FOR_EACH_SIZEOF T ms) else None)"

fun internal_padding_checks :: "layout \<Rightarrow> string list \<Rightarrow> bool" where
  "internal_padding_checks T (m1 # m2 # ms) \<longleftrightarrow> ASSERT_NO_INTERNAL_PADDING T m1 m2 \<and> internal_padding_checks T (m2 # ms)"
| "internal_padding_checks T ms \<longleftrightarrow> True"

definition VERIFY_NO_INTERNAL_PADDING :: "layout \<Rightarrow> string list \<Rightarrow> bool option" where
  "VERIFY_NO_INTERNAL_PADDING T ms = (if selects (COUNT_ARGS ms) ms then Some (internal_padding_checks T ms) else None)"

definition LAST :: "string list \<Rightarrow> string option" where
  "LAST ms = (if selects (COUNT_ARGS ms) ms then Some (last ms) else None)"

definition VERIFY_DATA_STRUCT_TRAITS_ONLY :: "layout \<Rightarrow> bool" where
  "VERIFY_DATA_STRUCT_TRAITS_ONLY T \<longleftrightarrow> standard_layout T \<and> trivially_copyable T \<and> unique_representations T"

definition VERIFY_DATA_STRUCT_SIZE_ONLY :: "layout \<Rightarrow> string list \<Rightarrow> bool option" where
  "VERIFY_DATA_STRUCT_SIZE_ONLY T ms = map_option (\<lambda>n. size_of T = n) (EXPECTED_SIZE_OF_MEMBERS T ms)"

text \<open>A member that the structure does not have is an error; the stride of an array is always the size.\<close>

definition VERIFY_DATA_STRUCT :: "layout \<Rightarrow> string list \<Rightarrow> bool option" where
  "VERIFY_DATA_STRUCT T ms =
     (if \<forall>m \<in> set ms. member_offset T m \<noteq> None then
        (case (VERIFY_DATA_STRUCT_SIZE_ONLY T ms, VERIFY_NO_INTERNAL_PADDING T ms, LAST ms) of
           (Some a, Some b, Some m) \<Rightarrow> Some (a \<and> VERIFY_DATA_STRUCT_TRAITS_ONLY T \<and> b \<and> ASSERT_NO_TAIL_PADDING T m)
         | _ \<Rightarrow> None)
      else None)"

section \<open>Printing a layout\<close>

record StructLayoutDumper =
  prev_end :: "64 word"
  prev_name :: string
  is_first :: bool
  printed :: "string list"

definition new_dumper :: "layout \<Rightarrow> string \<Rightarrow> StructLayoutDumper" where
  "new_dumper T name =
     \<lparr>prev_end = 0, prev_name = [], is_first = True,
      printed = [''Structure Layout: '' @ name, ''  Size: '' @ show_nat (size_of T) @ '' bytes'', ''  Alignment: '' @ show_nat (align_of T) @ '' bytes'']\<rparr>"

definition padding_line :: "64 word \<Rightarrow> string \<Rightarrow> string \<Rightarrow> string" where
  "padding_line padding before after =
     ''  >>> INTERNAL PADDING: '' @ show_nat (unat padding) @ '' bytes between '' @ before @ '' and '' @ after @ '' <<<''"

definition member_line :: "string \<Rightarrow> 64 word \<Rightarrow> 64 word \<Rightarrow> string" where
  "member_line name offset sz =
     ''  '' @ name @ '': offset='' @ show_nat (unat offset) @ '', size='' @ show_nat (unat sz) @ '', ends='' @ show_nat (unat (offset + sz))"

definition add_member :: "StructLayoutDumper \<Rightarrow> string \<Rightarrow> 64 word \<Rightarrow> 64 word \<Rightarrow> StructLayoutDumper" where
  "add_member d name offset sz =
     d\<lparr>printed := printed d
         @ (if \<not> is_first d \<and> offset - prev_end d > 0 then [padding_line (offset - prev_end d) (prev_name d) name] else [])
         @ [member_line name offset sz],
       prev_end := offset + sz, prev_name := name, is_first := False\<rparr>"

definition dumper_destroy :: "layout \<Rightarrow> StructLayoutDumper \<Rightarrow> string list" where
  "dumper_destroy T d =
     (let tail_pad = (of_nat (align_of T) - prev_end d mod of_nat (align_of T)) mod of_nat (align_of T) :: 64 word;
          tail_delta = of_nat (size_of T) - prev_end d in
      printed d @ (if tail_pad > 0 \<or> tail_delta > 0
        then [''  >>> TAIL PADDING: alignment-based='' @ show_nat (unat tail_pad) @ '' bytes, total delta='' @ show_nat (unat tail_delta) @ '' bytes <<<'']
        else []))"

text \<open>
  The macro that visits the members relies on a name that is not defined and expands itself only once, so
  it gives valid code for one member only.
\<close>

definition DUMP_STRUCT_LAYOUT :: "layout \<Rightarrow> string \<Rightarrow> string list \<Rightarrow> string list option" where
  "DUMP_STRUCT_LAYOUT T name ms =
     (case ms of
        [m] \<Rightarrow> Some (dumper_destroy T (add_member (new_dumper T name) m (of_nat (MEMBER_OFFSET T m)) (of_nat (MEMBER_SIZE T m))))
      | _ \<Rightarrow> None)"

section \<open>What the checks guarantee\<close>

text \<open>What every compiler guarantees: members lie inside the structure, its size is a multiple of its alignment.\<close>

definition layout_wf :: "layout \<Rightarrow> bool" where
  "layout_wf T \<longleftrightarrow> 0 < align_of T \<and> align_of T dvd size_of T
     \<and> (\<forall>m. member_offset T m \<noteq> None \<longrightarrow> END_OF_MEMBER T m \<le> size_of T)"

text \<open>The members lie one after the other from a given position to another.\<close>

fun tiles :: "layout \<Rightarrow> nat \<Rightarrow> string list \<Rightarrow> nat \<Rightarrow> bool" where
  "tiles T i [] j \<longleftrightarrow> i = j"
| "tiles T i (m # ms) j \<longleftrightarrow> MEMBER_OFFSET T m = i \<and> tiles T (END_OF_MEMBER T m) ms j"

lemma count_args_selects: "selects (COUNT_ARGS ms) ms \<longleftrightarrow> 1 \<le> length ms \<and> length ms \<le> 10"
proof (cases "length ms \<le> 10")
  case True
  have "map Num [10, 9, 8, 7, 6, 5, 4, 3, 2, 1] ! (10 - length ms) = Num (length ms)" if "length ms \<noteq> 0"
  proof -
    have "n = 1 \<or> n = 2 \<or> n = 3 \<or> n = 4 \<or> n = 5 \<or> n = 6 \<or> n = 7 \<or> n = 8 \<or> n = 9 \<or> n = 10" if "n \<le> 10" "n \<noteq> 0" for n :: nat
      using that by presburger
    from this [OF True that] show ?thesis by (elim disjE) simp_all
  qed
  then show ?thesis using True by (cases "length ms = 0") (auto simp: COUNT_ARGS_def nth_append)
next
  case False
  then show ?thesis by (simp add: COUNT_ARGS_def nth_append)
qed

lemma for_each_sizeof: "FOR_EACH_SIZEOF T ms = sum_list (map (MEMBER_SIZE T) ms)"
  by (induction T ms rule: FOR_EACH_SIZEOF.induct) auto

lemma checks_tiles:
  "internal_padding_checks T (m # ms) \<longleftrightarrow> tiles T (MEMBER_OFFSET T m) (m # ms) (MEMBER_OFFSET T m + sum_list (map (MEMBER_SIZE T) (m # ms)))"
proof (induction ms arbitrary: m)
  case Nil
  then show ?case by (simp add: END_OF_MEMBER_def)
next
  case (Cons m' ms)
  let ?s = "sum_list (map (MEMBER_SIZE T) (m' # ms))"
  have "internal_padding_checks T (m # m' # ms) \<longleftrightarrow>
      MEMBER_OFFSET T m' = END_OF_MEMBER T m \<and> tiles T (MEMBER_OFFSET T m') (m' # ms) (MEMBER_OFFSET T m' + ?s)"
    using Cons.IH [of m'] by (simp only: internal_padding_checks.simps ASSERT_NO_INTERNAL_PADDING_def)
  also have "\<dots> \<longleftrightarrow> MEMBER_OFFSET T m' = END_OF_MEMBER T m \<and> tiles T (END_OF_MEMBER T m) (m' # ms) (END_OF_MEMBER T m + ?s)"
    by (rule conj_cong [OF refl]) simp
  also have "\<dots> \<longleftrightarrow> tiles T (END_OF_MEMBER T m) (m' # ms) (END_OF_MEMBER T m + ?s)" by auto
  finally show ?case by (simp add: END_OF_MEMBER_def add.assoc)
qed

lemma tiles_sum: "tiles T i ms j \<Longrightarrow> j = i + sum_list (map (MEMBER_SIZE T) ms)"
proof (induction ms arbitrary: i)
  case (Cons m ms)
  then have "j = END_OF_MEMBER T m + sum_list (map (MEMBER_SIZE T) ms)" "MEMBER_OFFSET T m = i" by auto
  then show ?case by (simp add: END_OF_MEMBER_def)
qed simp

lemma tiles_last: "tiles T i ms j \<Longrightarrow> ms \<noteq> [] \<Longrightarrow> END_OF_MEMBER T (last ms) = j"
  by (induction ms arbitrary: i) (auto split: if_splits)

text \<open>The verification holds exactly for the structures that their members fill.\<close>

lemma verify_iff_tiles:
  assumes "layout_wf T"
  shows "VERIFY_DATA_STRUCT T ms = Some True \<longleftrightarrow>
     1 \<le> length ms \<and> length ms \<le> 10 \<and> (\<forall>m \<in> set ms. member_offset T m \<noteq> None) \<and> VERIFY_DATA_STRUCT_TRAITS_ONLY T \<and> tiles T 0 ms (size_of T)"
proof (cases "1 \<le> length ms \<and> length ms \<le> 10 \<and> (\<forall>m \<in> set ms. member_offset T m \<noteq> None)")
  case True
  then obtain m ms' where ms: "ms = m # ms'" by (cases ms) auto
  let ?sum = "sum_list (map (MEMBER_SIZE T) ms)"
  have "member_offset T (last ms) \<noteq> None" using True ms by (metis last_in_set list.distinct(1))
  then have ends: "END_OF_MEMBER T (last ms) \<le> size_of T" using assms by (simp add: layout_wf_def)
  have "size_of T = ?sum \<and> internal_padding_checks T ms \<and> ASSERT_NO_TAIL_PADDING T (last ms) \<longleftrightarrow> tiles T 0 ms (size_of T)"
  proof
    assume a: "size_of T = ?sum \<and> internal_padding_checks T ms \<and> ASSERT_NO_TAIL_PADDING T (last ms)"
    then have t: "tiles T (MEMBER_OFFSET T m) ms (MEMBER_OFFSET T m + ?sum)" using checks_tiles [of T m ms'] ms by simp
    then have "MEMBER_OFFSET T m + ?sum \<le> size_of T" using tiles_last [OF t] ends ms by simp
    then have "MEMBER_OFFSET T m = 0" using a by simp
    then show "tiles T 0 ms (size_of T)" using t a by simp
  next
    assume t: "tiles T 0 ms (size_of T)"
    then have off: "MEMBER_OFFSET T m = 0" "size_of T = ?sum" using ms tiles_sum [OF t] by auto
    then have "internal_padding_checks T ms" using t checks_tiles [of T m ms'] ms by simp
    moreover have "END_OF_MEMBER T (last ms) = size_of T" using tiles_last [OF t] ms by simp
    then have "ASSERT_NO_TAIL_PADDING T (last ms)" using assms by (simp add: ASSERT_NO_TAIL_PADDING_def TAIL_PAD_ONLY_N_def layout_wf_def)
    ultimately show "size_of T = ?sum \<and> internal_padding_checks T ms \<and> ASSERT_NO_TAIL_PADDING T (last ms)" using off(2) by simp
  qed
  then show ?thesis using True
    by (auto simp: VERIFY_DATA_STRUCT_def VERIFY_DATA_STRUCT_SIZE_ONLY_def EXPECTED_SIZE_OF_MEMBERS_def VERIFY_NO_INTERNAL_PADDING_def LAST_def
        count_args_selects for_each_sizeof)
next
  case False
  then show ?thesis
    by (auto simp: VERIFY_DATA_STRUCT_def VERIFY_DATA_STRUCT_SIZE_ONLY_def EXPECTED_SIZE_OF_MEMBERS_def VERIFY_NO_INTERNAL_PADDING_def LAST_def
        count_args_selects split: if_splits)
qed

text \<open>The bytes of a member in an object.\<close>

definition member_bytes :: "layout \<Rightarrow> string \<Rightarrow> 'b list \<Rightarrow> 'b list" where
  "member_bytes T m x = take (MEMBER_SIZE T m) (drop (MEMBER_OFFSET T m) x)"

lemma tiles_bytes:
  "tiles T i ms (length x) \<Longrightarrow> i \<le> length x \<Longrightarrow> concat (map (\<lambda>m. member_bytes T m x) ms) = drop i x"
proof (induction ms arbitrary: i)
  case (Cons m ms)
  have off: "MEMBER_OFFSET T m = i" and t: "tiles T (i + MEMBER_SIZE T m) ms (length x)" using Cons.prems(1) by (auto simp: END_OF_MEMBER_def)
  have "i + MEMBER_SIZE T m \<le> length x" using tiles_sum [OF t] by simp
  from Cons.IH [OF t this] off show ?case
    by (simp add: member_bytes_def) (metis add.commute append_take_drop_id drop_drop)
qed simp

text \<open>
  C17: \<open>VERIFY_DATA_STRUCT\<close> accepts a list of members exactly when it has one to ten members of the structure, the structure
  consists of them in this order with nothing between, before or after them, and it is standard-layout, trivially
  copyable and has unique object representations. Two objects of an accepted structure have equal bytes if and only if
  all listed members have equal bytes. A list of no or of more than ten members never compiles.
\<close>

theorem verified_structs_have_no_padding:
  assumes "layout_wf T"
  shows "(VERIFY_DATA_STRUCT T ms = Some True \<longleftrightarrow>
      1 \<le> length ms \<and> length ms \<le> 10 \<and> (\<forall>m \<in> set ms. member_offset T m \<noteq> None) \<and> VERIFY_DATA_STRUCT_TRAITS_ONLY T \<and> tiles T 0 ms (size_of T))
    \<and> (VERIFY_DATA_STRUCT T ms = Some True \<longrightarrow> length x = size_of T \<longrightarrow> length y = size_of T \<longrightarrow>
        (x = y \<longleftrightarrow> (\<forall>m \<in> set ms. member_bytes T m x = member_bytes T m y)))
    \<and> (ms = [] \<or> length ms > 10 \<longrightarrow> VERIFY_DATA_STRUCT T ms = None)"
proof (intro conjI impI)
  show "VERIFY_DATA_STRUCT T ms = Some True \<longleftrightarrow>
      1 \<le> length ms \<and> length ms \<le> 10 \<and> (\<forall>m \<in> set ms. member_offset T m \<noteq> None) \<and> VERIFY_DATA_STRUCT_TRAITS_ONLY T \<and> tiles T 0 ms (size_of T)"
    by (rule verify_iff_tiles [OF assms])
  assume v: "VERIFY_DATA_STRUCT T ms = Some True" and l: "length x = size_of T" "length y = size_of T"
  have "tiles T 0 ms (size_of T)" using v verify_iff_tiles [OF assms] by blast
  then have "concat (map (\<lambda>m. member_bytes T m x) ms) = x" "concat (map (\<lambda>m. member_bytes T m y) ms) = y"
    using tiles_bytes [of T 0 ms x] tiles_bytes [of T 0 ms y] l by simp_all
  then show "x = y \<longleftrightarrow> (\<forall>m \<in> set ms. member_bytes T m x = member_bytes T m y)" by (metis (mono_tags, lifting) map_cong)
next
  assume "ms = [] \<or> length ms > 10"
  then have "\<not> selects (COUNT_ARGS ms) ms" by (auto simp: count_args_selects)
  then show "VERIFY_DATA_STRUCT T ms = None"
    by (simp add: VERIFY_DATA_STRUCT_def VERIFY_DATA_STRUCT_SIZE_ONLY_def EXPECTED_SIZE_OF_MEMBERS_def)
qed

text \<open>A structure of an integer of 8 bytes and two of 4 bytes.\<close>

definition sample_layout :: layout where
  "sample_layout = \<lparr>member_offset = [''a'' \<mapsto> 0, ''b'' \<mapsto> 8, ''c'' \<mapsto> 12], member_size = (\<lambda>m. if m = ''a'' then 8 else 4),
     size_of = 16, align_of = 8, standard_layout = True, trivially_copyable = True, unique_representations = True\<rparr>"

lemma sample_layout_wf: "layout_wf sample_layout"
  by (auto simp: layout_wf_def sample_layout_def END_OF_MEMBER_def MEMBER_OFFSET_def MEMBER_SIZE_def split: if_splits)

text \<open>
  The structure that the comment of the macro gives as an example, two numbers of type \<open>double\<close> and two of type \<open>int\<close>. Its members
  fill it, but a \<open>double\<close> has no unique representations (there are two zeros), so the macro refuses its own example.
\<close>

definition usage_layout :: layout where
  "usage_layout = \<lparr>member_offset = [''a'' \<mapsto> 0, ''b'' \<mapsto> 8, ''c'' \<mapsto> 16, ''d'' \<mapsto> 20],
     member_size = (\<lambda>m. if m = ''a'' \<or> m = ''b'' then 8 else 4), size_of = 24, align_of = 8,
     standard_layout = True, trivially_copyable = True, unique_representations = False\<rparr>"

lemma usage_layout_wf: "layout_wf usage_layout"
  by (auto simp: layout_wf_def usage_layout_def END_OF_MEMBER_def MEMBER_OFFSET_def MEMBER_SIZE_def split: if_splits)

theorem verified_structs_have_no_padding_witness:
  "VERIFY_DATA_STRUCT sample_layout [''a'', ''b'', ''c''] = Some True \<and> VERIFY_DATA_STRUCT sample_layout [''a'', ''b''] \<noteq> Some True
   \<and> tiles usage_layout 0 [''a'', ''b'', ''c'', ''d''] 24 \<and> VERIFY_DATA_STRUCT usage_layout [''a'', ''b'', ''c'', ''d''] \<noteq> Some True"
  using verified_structs_have_no_padding [OF sample_layout_wf, of "[''a'', ''b'', ''c'']" "[]" "[]"]
    verified_structs_have_no_padding [OF sample_layout_wf, of "[''a'', ''b'']" "[]" "[]"]
    verified_structs_have_no_padding [OF usage_layout_wf, of "[''a'', ''b'', ''c'', ''d'']" "[]" "[]"]
  by (simp add: VERIFY_DATA_STRUCT_TRAITS_ONLY_def sample_layout_def usage_layout_def END_OF_MEMBER_def MEMBER_OFFSET_def MEMBER_SIZE_def)

text \<open>A dump of a verified structure's members in order shows no padding.\<close>

definition dump_members :: "layout \<Rightarrow> StructLayoutDumper \<Rightarrow> string list \<Rightarrow> StructLayoutDumper" where
  "dump_members T d ms = foldl (\<lambda>d m. add_member d m (of_nat (MEMBER_OFFSET T m)) (of_nat (MEMBER_SIZE T m))) d ms"

lemma dump_tiles:
  assumes "tiles T i ms j" "is_first d \<or> prev_end d = of_nat i"
  shows "printed (dump_members T d ms) = printed d @ map (\<lambda>m. member_line m (of_nat (MEMBER_OFFSET T m)) (of_nat (MEMBER_SIZE T m))) ms
    \<and> (ms \<noteq> [] \<longrightarrow> prev_end (dump_members T d ms) = of_nat j)"
  using assms
proof (induction ms arbitrary: i d)
  case (Cons m ms)
  let ?d = "add_member d m (of_nat (MEMBER_OFFSET T m)) (of_nat (MEMBER_SIZE T m))"
  have t: "tiles T (END_OF_MEMBER T m) ms j" and off: "MEMBER_OFFSET T m = i" using Cons.prems(1) by auto
  have e: "prev_end ?d = of_nat (END_OF_MEMBER T m)" by (simp add: add_member_def END_OF_MEMBER_def)
  have p: "printed ?d = printed d @ [member_line m (of_nat (MEMBER_OFFSET T m)) (of_nat (MEMBER_SIZE T m))]"
    using Cons.prems(2) off by (auto simp: add_member_def)
  have "dump_members T d (m # ms) = dump_members T ?d ms" by (simp add: dump_members_def)
  moreover have "ms = [] \<longrightarrow> prev_end (dump_members T ?d ms) = of_nat j" using t e by (cases ms) (simp_all add: dump_members_def)
  ultimately show ?case using Cons.IH [OF t, of ?d] e p by auto
qed (simp add: dump_members_def)

end
