(* ===== verification/System.thy ===== *)
theory System
  imports Path Result
begin

unbundle bit_operations_syntax

text \<open>
  mac\_address.hpp, system.hpp, sysinfo.hpp and what the platform headers compute from the answers of the operating
  system: names of files, network addresses, the number of threads of the machine, the home directory and the
  path of the executable. What the system answers is an argument.
\<close>

section \<open>Network addresses\<close>

type_synonym MacAddress = int64

text \<open>\<open>%02x\<close> of a number below 256.\<close>

definition hex_digit :: "nat \<Rightarrow> char" where "hex_digit n = ''0123456789abcdef'' ! (n mod 16)"

definition hex2 :: "nat \<Rightarrow> string" where "hex2 n = [hex_digit (n div 16), hex_digit n]"

definition mac_byte :: "MacAddress \<Rightarrow> nat \<Rightarrow> nat" where
  "mac_byte mac shift = unat (signed_drop_bit shift mac AND 0xff)"

definition MacAddress_string :: "MacAddress \<Rightarrow> string" where
  "MacAddress_string mac =
     hex2 (mac_byte mac 40) @ '':'' @ hex2 (mac_byte mac 32) @ '':'' @ hex2 (mac_byte mac 24) @ '':''
     @ hex2 (mac_byte mac 16) @ '':'' @ hex2 (mac_byte mac 8) @ '':'' @ hex2 (unat (mac AND 0xff))"

text \<open>
  Linux: the six bytes of the address are copied to the start of the integer, whose other bytes are whatever they
  were; then only the lower 48 bits are kept. An interface is given by the answers for its flags and its address.
\<close>

record linux_interface =
  flags_read :: bool
  loopback :: bool
  address_read :: bool
  hwaddr :: "byte list"

definition linux_mac :: "byte list \<Rightarrow> byte list \<Rightarrow> MacAddress" where
  "linux_mac garbage address = (bytes_word (take 6 address @ garbage)) AND 0xFFFFFFFFFFFF"

fun linux_mac_addresses :: "byte list \<Rightarrow> linux_interface list \<Rightarrow> MacAddress list" where
  "linux_mac_addresses garbage [] = []"
| "linux_mac_addresses garbage (it # its) =
     (if flags_read it \<and> \<not> loopback it \<and> address_read it then [linux_mac garbage (hwaddr it)] else []) @ linux_mac_addresses garbage its"

text \<open>macOS: an entry of the list has a kind and an address.\<close>

definition macos_mac :: "byte list \<Rightarrow> MacAddress" where
  "macos_mac mac =
     push_bit 40 (ucast (mac ! 0)) OR push_bit 32 (ucast (mac ! 1)) OR push_bit 24 (ucast (mac ! 2))
     OR push_bit 16 (ucast (mac ! 3)) OR push_bit 8 (ucast (mac ! 4)) OR ucast (mac ! 5)"

fun macos_mac_addresses :: "(bool \<times> byte list) list \<Rightarrow> MacAddress list" where
  "macos_mac_addresses [] = []"
| "macos_mac_addresses ((is_ifinfo, mac) # entries) =
     (if is_ifinfo \<and> length mac = 6 \<and> list_ex (\<lambda>b. b \<noteq> 0) mac then [macos_mac mac] else []) @ macos_mac_addresses entries"

text \<open>
  Windows: the address is printed with colons between the bytes, and the text is read as one hexadecimal number, which
  ends at the first colon. \<open>%X\<close> prints capital letters.
\<close>

definition HEX2 :: "nat \<Rightarrow> string" where
  "HEX2 n = [''0123456789ABCDEF'' ! (n div 16 mod 16), ''0123456789ABCDEF'' ! (n mod 16)]"

definition hex_value :: "char \<Rightarrow> nat option" where
  "hex_value c =
     (if isdigit c then Some (code c - 48)
      else if 65 \<le> code c \<and> code c \<le> 70 then Some (code c - 55)
      else if 97 \<le> code c \<and> code c \<le> 102 then Some (code c - 87)
      else None)"

fun read_hex :: "nat \<Rightarrow> string \<Rightarrow> nat" where
  "read_hex acc [] = acc"
| "read_hex acc (c # s) = (case hex_value c of None \<Rightarrow> acc | Some d \<Rightarrow> read_hex (16 * acc + d) s)"

definition windows_mac :: "byte list \<Rightarrow> MacAddress" where
  "windows_mac Address =
     (let mac_addr = HEX2 (unat (Address ! 0)) @ '':'' @ HEX2 (unat (Address ! 1)) @ '':'' @ HEX2 (unat (Address ! 2)) @ '':''
        @ HEX2 (unat (Address ! 3)) @ '':'' @ HEX2 (unat (Address ! 4)) @ '':'' @ HEX2 (unat (Address ! 5))
      in word_of_nat (read_hex 0 mac_addr))"

text \<open>
  The first call tells the size that the list needs; the second one is made whether or not the first one gave the
  list. An adapter without address bytes cannot occur; the list has at least one entry when the call succeeds.
\<close>

definition windows_mac_addresses :: "bool \<Rightarrow> bool \<Rightarrow> bool \<Rightarrow> byte list list option \<Rightarrow> MacAddress list" where
  "windows_mac_addresses malloc1 buffer_overflow malloc2 adapters =
     (if \<not> malloc1 then []
      else if buffer_overflow \<and> \<not> malloc2 then []
      else case adapters of None \<Rightarrow> [] | Some addresses \<Rightarrow> map windows_mac addresses)"

section \<open>Names\<close>

definition DEFAULT_MAX_NAME_LENGTH :: nat where "DEFAULT_MAX_NAME_LENGTH = 255"
definition DEFAULT_MAX_PATH :: nat where "DEFAULT_MAX_PATH = 260"

definition is_name_valid_common :: "string \<Rightarrow> bool" where
  "is_name_valid_common name \<longleftrightarrow> name \<noteq> [] \<and> name ! 0 \<noteq> CHR ''.'' \<and> length name \<le> DEFAULT_MAX_NAME_LENGTH"

definition linux_path_separator :: char where "linux_path_separator = CHR ''/''"
definition linux_max_name_length :: nat where "linux_max_name_length = 255"
definition linux_max_path :: nat where "linux_max_path = 4096"
definition linux_os_name :: string where "linux_os_name = ''Linux''"

definition macos_path_separator :: char where "macos_path_separator = CHR ''/''"
definition macos_max_name_length :: nat where "macos_max_name_length = 255"
definition macos_max_path :: nat where "macos_max_path = 1024"
definition macos_os_name :: string where "macos_os_name = ''macOS''"

definition windows_path_separator :: char where "windows_path_separator = CHR 0x5C"
definition windows_max_name_length :: nat where "windows_max_name_length = 255"
definition windows_max_path :: nat where "windows_max_path = 1024"
definition windows_os_name :: string where "windows_os_name = ''Windows''"

definition endianess_name :: "std_endian \<Rightarrow> string" where
  "endianess_name native = (if native = little then ''Little Endian'' else ''Big Endian'')"

definition endianess :: "std_endian \<Rightarrow> std_endian" where "endianess native = (if native = little then little else big)"

definition is_valid_file_name :: "char \<Rightarrow> string \<Rightarrow> bool" where
  "is_valid_file_name path_separator file_name \<longleftrightarrow>
     is_name_valid_common file_name \<and> find_char file_name path_separator 0 = None \<and> find_char file_name NUL 0 = None"

definition is_valid_path :: "string \<Rightarrow> bool" where
  "is_valid_path path_name \<longleftrightarrow> is_name_valid_common path_name \<and> find_char path_name NUL 0 = None"

text \<open>The first line of \<open>/proc/cpuinfo\<close> that starts with \<open>processor\<close>.\<close>

fun linux_cpu_id :: "string list \<Rightarrow> string" where
  "linux_cpu_id [] = []"
| "linux_cpu_id (line # lines) = (if take 9 line = ''processor'' then line else linux_cpu_id lines)"

text \<open>The answers of \<open>sysctlbyname\<close>, up to their null; the registers that \<open>__cpuid\<close> sets.\<close>

definition macos_cpu_id :: "string option \<Rightarrow> string option \<Rightarrow> string" where
  "macos_cpu_id brand_string hw_model =
     (case brand_string of
        Some buf \<Rightarrow> takeWhile (\<lambda>c. c \<noteq> NUL) buf
      | None \<Rightarrow> (case hw_model of Some buf \<Rightarrow> takeWhile (\<lambda>c. c \<noteq> NUL) buf | None \<Rightarrow> []))"

definition windows_cpu_id :: "32 word list \<Rightarrow> string" where
  "windows_cpu_id cpuid_regs = show_int (sint (cpuid_regs ! 1)) @ show_int (sint (cpuid_regs ! 3))"

section \<open>Number of threads\<close>

text \<open>
  The times measured for 1, 2, ... threads and the comparison of two of them are arguments. The loop starts at one
  thread and ends at twice the number of threads that the system tells.
\<close>

function estimate_loop :: "('t \<Rightarrow> 't \<Rightarrow> bool) \<Rightarrow> (nat \<Rightarrow> 't) \<Rightarrow> nat \<Rightarrow> nat \<Rightarrow> nat" where
  "estimate_loop degraded timing max_threads num_threads =
     (if num_threads \<le> max_threads then
        if num_threads > 1 \<and> degraded (timing num_threads) (timing (num_threads - 1)) then num_threads
        else estimate_loop degraded timing max_threads (num_threads + 1)
      else max_threads)"
  by pat_completeness auto
termination by (relation "measure (\<lambda>(d, t, m, n). Suc m - n)") auto

declare estimate_loop.simps [simp del]

definition estimate_cpu_threads :: "('t \<Rightarrow> 't \<Rightarrow> bool) \<Rightarrow> nat \<Rightarrow> (nat \<Rightarrow> 't) \<Rightarrow> nat" where
  "estimate_cpu_threads degraded hardware_concurrency timing = estimate_loop degraded timing (hardware_concurrency * 2) 1"

text \<open>The loop that looks for the most common of the sorted numbers; the state is mode, count and greatest count.\<close>

fun mode_loop :: "nat list \<Rightarrow> nat \<Rightarrow> nat \<Rightarrow> nat \<Rightarrow> nat \<Rightarrow> nat" where
  "mode_loop [] prev mode count max_count = (if count > max_count then prev else mode)"
| "mode_loop (r # rs) prev mode count max_count =
     (if r = prev then mode_loop rs r mode (count + 1) max_count
      else if count > max_count then mode_loop rs r prev 1 count
      else mode_loop rs r mode 1 max_count)"

definition cpu_threads :: "('t \<Rightarrow> 't \<Rightarrow> bool) \<Rightarrow> nat \<Rightarrow> (nat \<Rightarrow> nat \<Rightarrow> 't) \<Rightarrow> nat \<Rightarrow> nat outcome" where
  "cpu_threads degraded hardware_concurrency timing n =
     (if hardware_concurrency > 0 then Ret hardware_concurrency
      else case sort (map (\<lambda>i. estimate_cpu_threads degraded hardware_concurrency (timing i)) [0..<n]) of
        [] \<Rightarrow> Undef
      | r # rs \<Rightarrow> Ret (mode_loop rs r r 1 1))"

section \<open>Home directory and executable\<close>

definition linux_get_user_home :: "string option \<Rightarrow> string option \<Rightarrow> Path" where
  "linux_get_user_home home pw_dir =
     (case home of
        Some homeDir \<Rightarrow> Path_of homeDir NULL_ID
      | None \<Rightarrow> (case pw_dir of Some d \<Rightarrow> Path_of d NULL_ID | None \<Rightarrow> Path_of [] NULL_ID))"

definition linux_get_exe_full_path :: "string option \<Rightarrow> (string \<Rightarrow> string option) \<Rightarrow> string result outcome" where
  "linux_get_exe_full_path readlink realpath =
     (case readlink of
        None \<Rightarrow> result_of_message [] ''Error getting executable path''
      | Some link \<Rightarrow>
          (case realpath (take (MAX_PATH - 1) link) of
             None \<Rightarrow> result_of_message [] ''Error resolving executable path''
           | Some resolved \<Rightarrow> Ret (result_ok resolved)))"

definition macos_get_user_home :: "string option \<Rightarrow> Path" where
  "macos_get_user_home home = (case home of Some homeDir \<Rightarrow> Path_of homeDir NULL_ID | None \<Rightarrow> Path_of [] NULL_ID)"

text \<open>On Windows the path is a wide text; the answer is that of \<open>SHGetFolderPathW\<close>.\<close>

definition windows_get_user_home :: "bool \<Rightarrow> 16 word list option \<Rightarrow> 16 word list outcome" where
  "windows_get_user_home use_exceptions profile =
     (case profile of
        Some path \<Rightarrow> Ret (takeWhile (\<lambda>c. c \<noteq> 0) path)
      | None \<Rightarrow> if use_exceptions then Raise (Runtime_error ''get_user_home_windows: Failed to get user home directory.'') else Ret [])"

text \<open>The size of the buffer is what the first call asks for.\<close>

definition macos_get_exe_full_path :: "nat \<Rightarrow> (nat \<Rightarrow> string option) \<Rightarrow> (string \<Rightarrow> string option) \<Rightarrow> string result outcome" where
  "macos_get_exe_full_path sz NSGetExecutablePath realpath =
     (case NSGetExecutablePath sz of
        None \<Rightarrow> result_of_message [] ''Error getting executable path''
      | Some buf \<Rightarrow>
          (case realpath buf of
             None \<Rightarrow> result_of_message [] ''Error resolving executable path''
           | Some resolved_path \<Rightarrow> Ret (result_ok resolved_path)))"

section \<open>What the addresses show\<close>

definition colons :: "byte list \<Rightarrow> string" where
  "colons bs = hex2 (unat (bs ! 0)) @ '':'' @ hex2 (unat (bs ! 1)) @ '':'' @ hex2 (unat (bs ! 2)) @ '':''
     @ hex2 (unat (bs ! 3)) @ '':'' @ hex2 (unat (bs ! 4)) @ '':'' @ hex2 (unat (bs ! 5))"

text \<open>The text is that of the six lower bytes, the most significant first.\<close>

lemma signed_byte:
  fixes w :: "64 word"
  assumes "n \<le> 56"
  shows "signed_drop_bit n w AND 0xff = drop_bit n w AND 0xff"
proof -
  have m: "(0xff :: 64 word) = mask 8" by (simp add: mask_eq_exp_minus_1)
  show ?thesis unfolding m by (rule bit_word_eqI) (use assms in \<open>auto simp: bit_simps\<close>)
qed

lemma unat_mask: "unat ((w :: 64 word) AND mask n) = unat w mod 2 ^ n"
  by (simp only: take_bit_eq_mask [symmetric] unsigned_take_bit_eq) (simp only: take_bit_eq_mod)

lemma byte_of_word: "unat (drop_bit n (w :: 64 word) AND 0xff) = unat w div 2 ^ n mod 256"
proof -
  have m: "(0xff :: 64 word) = mask 8" by (simp add: mask_eq_exp_minus_1)
  have "unat (drop_bit n w) = unat w div 2 ^ n" by (metis unat_drop_bit_eq drop_bit_eq_div)
  then show ?thesis unfolding m unat_mask by simp
qed

lemma MacAddress_string_bytes:
  "MacAddress_string mac = colons (map (\<lambda>n. word_of_nat (unat mac div 2 ^ n)) [40, 32, 24, 16, 8, 0])"
proof -
  have "unat (word_of_nat n :: byte) = n mod 256" for n by (simp add: unat_of_nat)
  moreover have "unat (mac AND 0xff) = unat mac mod 256" using byte_of_word [of 0 mac] by simp
  moreover have "unat (ucast mac :: byte) = unat mac mod 256" by (simp add: unsigned_ucast_eq take_bit_eq_mod)
  ultimately show ?thesis by (simp add: MacAddress_string_def colons_def mac_byte_def signed_byte byte_of_word)
qed

text \<open>The bytes of a number in base 256.\<close>

lemma nat_of_bytes_div: "k < length bs \<Longrightarrow> nat_of_bytes bs div 256 ^ k mod 256 = unat (bs ! k)"
proof (induction bs arbitrary: k)
  case (Cons b bs)
  have b: "unat b < 256" using unat_byte_less by blast
  show ?case
  proof (cases k)
    case 0
    then show ?thesis using b by simp
  next
    case (Suc j)
    have "(unat b + 256 * nat_of_bytes bs) div 256 = nat_of_bytes bs" using b by simp
    then have "(unat b + 256 * nat_of_bytes bs) div 256 ^ k = nat_of_bytes bs div 256 ^ j"
      unfolding Suc power_Suc by (simp add: div_mult2_eq)
    then show ?thesis using Cons Suc by simp
  qed
qed simp

lemma six_cases: "length (a :: 'a list) = 6 \<Longrightarrow> \<exists>b0 b1 b2 b3 b4 b5. a = [b0, b1, b2, b3, b4, b5]"
  by (auto simp: length_Suc_conv numeral_eq_Suc)

text \<open>The number whose bytes are given, the least significant first.\<close>

lemma mac_of_bytes:
  assumes "length bs = 6" "unat mac = nat_of_bytes bs"
  shows "MacAddress_string mac = colons (rev bs)"
proof -
  have "word_of_nat (unat mac div 2 ^ (8 * k)) = bs ! k" if "k < 6" for k
  proof -
    have "unat (word_of_nat (unat mac div 2 ^ (8 * k)) :: byte) = nat_of_bytes bs div 256 ^ k mod 256"
      by (simp add: assms(2) unat_of_nat power_mult)
    also have "\<dots> = unat (bs ! k)" using nat_of_bytes_div that assms(1) by simp
    finally show ?thesis by (simp add: word_unat_eq_iff)
  qed
  from this [of 5] this [of 4] this [of 3] this [of 2] this [of 1] this [of 0] six_cases [OF assms(1)]
  show ?thesis by (auto simp: MacAddress_string_bytes)
qed

lemma linux_mac_unat:
  assumes "length address = 6" "length garbage = 2"
  shows "unat (linux_mac garbage address) = nat_of_bytes address"
proof -
  have m: "(0xFFFFFFFFFFFF :: 64 word) = mask 48" by (simp add: mask_eq_exp_minus_1)
  have app: "nat_of_bytes (xs @ ys) = nat_of_bytes xs + 256 ^ length xs * nat_of_bytes ys" for xs ys
    by (induction xs) (simp_all add: algebra_simps)
  have lt: "nat_of_bytes address < 256 ^ 6" using nat_of_bytes_less [of address] assms(1) by simp
  have "nat_of_bytes (address @ garbage) < 2 ^ 64" using nat_of_bytes_less [of "address @ garbage"] assms by simp
  then have "unat (linux_mac garbage address) = nat_of_bytes (address @ garbage) mod 2 ^ 48"
    unfolding linux_mac_def m unat_mask by (simp add: assms(1) bytes_word_def unat_of_nat)
  also have "\<dots> = nat_of_bytes address mod 2 ^ 48" unfolding app by (simp add: assms(1))
  finally show ?thesis using lt by simp
qed

lemma macos_mac_unat:
  assumes "length mac = 6"
  shows "unat (macos_mac mac) = nat_of_bytes (rev mac)"
proof -
  obtain b0 b1 b2 b3 b4 b5 where a: "mac = [b0, b1, b2, b3, b4, b5]" using six_cases [OF assms] by blast
  have step: "unat (push_bit n (ucast (b :: byte)) OR (w :: 64 word)) = unat b * 2 ^ n + unat w" if w: "unat w < 2 ^ n" and n: "n \<le> 40" for b w n
  proof -
    have b: "unat b < 2 ^ 8" using unat_byte_less [of b] by simp
    have "unat (push_bit n (ucast b :: 64 word)) = unat b * 2 ^ n"
    proof -
      have "unat b * 2 ^ n < 2 ^ 8 * 2 ^ n" using b by simp
      also have "\<dots> \<le> 2 ^ 8 * 2 ^ 40" using n by (intro mult_left_mono power_increasing) auto
      finally have lt: "push_bit n (unat b) < 2 ^ LENGTH(64)" by (simp add: push_bit_eq_mult)
      have u: "unat (ucast b :: 64 word) = unat b" using b by (simp add: unsigned_ucast_eq take_bit_nat_eq_self)
      have "unat (push_bit n (ucast b :: 64 word)) = take_bit LENGTH(64) (push_bit n (unat b))"
        unfolding u [symmetric] by (rule unsigned_push_bit_eq)
      also have "\<dots> = push_bit n (unat b)" using lt by (rule take_bit_nat_eq_self)
      finally show ?thesis by (simp only: push_bit_eq_mult)
    qed
    moreover have "push_bit n (ucast b) AND w = 0"
    proof (rule bit_word_eqI)
      fix i assume "i < LENGTH(64)"
      have "\<not> bit w i" if "n \<le> i"
      proof -
        have "unat w div 2 ^ i = 0" using w that by (meson div_less less_le_trans one_le_numeral power_increasing)
        then have "\<not> bit (unat w) i" unfolding bit_iff_odd by simp
        then show ?thesis by (simp add: bit_unsigned_iff)
      qed
      then show "bit (push_bit n (ucast b) AND w) i = bit (0 :: 64 word) i" by (auto simp: bit_simps)
    qed
    moreover have "unat b * 2 ^ n + unat w < 2 ^ LENGTH(64)"
    proof -
      have "unat b * 2 ^ n + unat w < (unat b + 1) * 2 ^ n" using w by simp
      also have "\<dots> \<le> 2 ^ 8 * 2 ^ n" using b by (intro mult_right_mono) auto
      also have "\<dots> \<le> 2 ^ 8 * 2 ^ 40" using n by (intro mult_left_mono power_increasing) auto
      finally show ?thesis by simp
    qed
    ultimately show ?thesis using word_plus_and_or [of "push_bit n (ucast b)" w] unat_add_lem [of "push_bit n (ucast b)" w] by simp
  qed
  have b: "unat x < 256" for x :: byte using unat_byte_less by blast
  have u: "unat (ucast x :: 64 word) = unat x" for x :: byte using b [of x] by (simp add: unsigned_ucast_eq take_bit_nat_eq_self)
  define w5 :: "64 word" where "w5 = ucast b5"
  define w4 where "w4 = push_bit 8 (ucast b4) OR w5"
  define w3 where "w3 = push_bit 16 (ucast b3) OR w4"
  define w2 where "w2 = push_bit 24 (ucast b2) OR w3"
  define w1 where "w1 = push_bit 32 (ucast b1) OR w2"
  have 5: "unat w5 = unat b5" by (simp add: w5_def u)
  have 4: "unat w4 = unat b4 * 2 ^ 8 + unat w5" unfolding w4_def using 5 b [of b5] by (intro step) auto
  have 3: "unat w3 = unat b3 * 2 ^ 16 + unat w4" unfolding w3_def using 4 5 b [of b5] b [of b4] by (intro step) auto
  have 2: "unat w2 = unat b2 * 2 ^ 24 + unat w3" unfolding w2_def using 3 4 5 b [of b5] b [of b4] b [of b3] by (intro step) auto
  have 1: "unat w1 = unat b1 * 2 ^ 32 + unat w2" unfolding w1_def using 2 3 4 5 b [of b5] b [of b4] b [of b3] b [of b2] by (intro step) auto
  have "unat (push_bit 40 (ucast b0) OR w1) = unat b0 * 2 ^ 40 + unat w1"
    using 1 2 3 4 5 b [of b5] b [of b4] b [of b3] b [of b2] b [of b1] by (intro step) auto
  moreover have "macos_mac mac = push_bit 40 (ucast b0) OR w1"
    by (simp add: macos_mac_def a w1_def w2_def w3_def w4_def w5_def)
  ultimately show ?thesis by (simp add: a 1 2 3 4 5)
qed

text \<open>The text of a byte starts with its two digits, and reading stops at the colon.\<close>

lemma read_HEX2: "n < 256 \<Longrightarrow> read_hex 0 (HEX2 n @ CHR '':'' # s) = n"
proof -
  assume n: "n < 256"
  have digit: "hex_value (''0123456789ABCDEF'' ! d) = Some d" if "d < 16" for d
  proof -
    have "d \<in> set [0..<16]" using that by simp
    then show ?thesis by (auto simp: upt_rec hex_value_def isdigit_def code_def)
  qed
  have "hex_value CHR '':'' = None" by (simp add: hex_value_def isdigit_def code_def)
  then show ?thesis using digit [of "n div 16 mod 16"] digit [of "n mod 16"] n by (simp add: HEX2_def)
qed

text \<open>
  The text of the address that macOS gives has the bytes of the hardware address in their order. On Linux, with
  the least significant byte first in memory, it has them in reverse; on Windows only the first byte is
  left, as the last one of the text.
\<close>

theorem mac_texts:
  assumes "length address = 6" "length garbage = 2"
  shows "MacAddress_string (macos_mac address) = colons address
    \<and> MacAddress_string (linux_mac garbage address) = colons (rev address)
    \<and> MacAddress_string (windows_mac address) = colons [0, 0, 0, 0, 0, address ! 0]"
proof -
  have "unat (windows_mac address) = nat_of_bytes [address ! 0, 0, 0, 0, 0, 0]"
  proof -
    have b: "unat (address ! 0) < 256" using unat_byte_less by blast
    then show ?thesis using read_HEX2 [OF b] by (simp add: windows_mac_def Let_def unsigned_ucast_eq take_bit_nat_eq_self)
  qed
  then show ?thesis
    using mac_of_bytes [of "rev address" "macos_mac address"] mac_of_bytes [of address "linux_mac garbage address"]
      mac_of_bytes [of "[address ! 0, 0, 0, 0, 0, 0]" "windows_mac address"] macos_mac_unat [OF assms(1)] linux_mac_unat [OF assms] assms(1)
    by simp
qed

theorem mac_texts_witness:
  "MacAddress_string (linux_mac [0, 0] [1, 2, 3, 4, 5, 6]) = colons [6, 5, 4, 3, 2, 1]"
  using mac_texts [of "[1, 2, 3, 4, 5, 6]" "[0, 0]"] by simp

section \<open>Counting threads\<close>

text \<open>A value of a list that occurs at least as often as every other, the least of these.\<close>

definition is_mode :: "nat list \<Rightarrow> nat \<Rightarrow> bool" where
  "is_mode xs m \<longleftrightarrow> m \<in> set xs \<and> (\<forall>x \<in> set xs. count_list xs x \<le> count_list xs m \<and> (count_list xs x = count_list xs m \<longrightarrow> m \<le> x))"

lemma count_replicate [simp]: "count_list (replicate n y) x = (if x = y then n else 0)"
  by (induction n) auto

text \<open>Before the run of \<open>prev\<close> lie the numbers \<open>ps\<close>, with the mode found in them.\<close>

lemma end_of_run:
  assumes "\<forall>x \<in> set ps. x < prev" "0 < n"
    and "if ps = [] then mode = prev \<and> mc = 1 else is_mode ps mode \<and> mc = count_list ps mode"
  shows "is_mode (ps @ replicate n prev) (if n > mc then prev else mode)
    \<and> (if n > mc then n else mc) = count_list (ps @ replicate n prev) (if n > mc then prev else mode)"
proof (cases "ps = []")
  case True
  then show ?thesis using assms(2,3) by (auto simp: is_mode_def)
next
  case False
  let ?l = "ps @ replicate n prev"
  have prev: "count_list ?l prev = n" "prev \<notin> set ps" using assms(1) by (auto simp: count_list_0_iff)
  have cnt: "count_list ?l x = count_list ps x" if "x \<in> set ps" for x using assms(1) that by auto
  have m: "is_mode ps mode" "mc = count_list ps mode" using assms(3) False by auto
  then have mode: "mode \<in> set ps" "mode < prev" using assms(1) by (auto simp: is_mode_def)
  show ?thesis
  proof (cases "n > mc")
    case True
    have "count_list ?l x < n" if "x \<in> set ps" for x using m that True cnt [OF that] by (force simp: is_mode_def)
    then show ?thesis using True assms(2) prev by (fastforce simp: is_mode_def)
  next
    case less: False
    then show ?thesis using m mode cnt prev by (auto simp: is_mode_def)
  qed
qed

lemma mode_loop_mode:
  assumes "\<forall>x \<in> set ps. x < prev" "sorted (prev # rs)" "0 < n"
    and "if ps = [] then mode = prev \<and> mc = 1 else is_mode ps mode \<and> mc = count_list ps mode"
  shows "is_mode (ps @ replicate n prev @ rs) (mode_loop rs prev mode n mc)"
  using assms
proof (induction rs arbitrary: ps prev mode n mc)
  case Nil
  then show ?case using end_of_run [OF Nil.prems(1,3,4)] by simp
next
  case (Cons r rs)
  show ?case
  proof (cases "r = prev")
    case True
    have "is_mode (ps @ replicate (n + 1) prev @ rs) (mode_loop rs prev mode (n + 1) mc)"
      using Cons.IH [of ps prev "n + 1" mode mc] Cons.prems by simp
    moreover have "replicate (n + 1) prev @ rs = replicate n prev @ prev # rs" by (induction n) auto
    ultimately show ?thesis using True by (simp only: mode_loop.simps simp_thms if_True)
  next
    case False
    then have r: "prev < r" "sorted (r # rs)" using Cons.prems(2) by auto
    have "\<forall>x \<in> set (ps @ replicate n prev). x < r" using Cons.prems(1) r(1) by force
    then show ?thesis
      using Cons.IH [of "ps @ replicate n prev" r 1 "if n > mc then prev else mode" "if n > mc then n else mc"] end_of_run [OF Cons.prems(1,3,4)]
        r(2) Cons.prems(3) False
      by (cases "n > mc") auto
  qed
qed

lemma mode_of_sorted: "sorted (r # rs) \<Longrightarrow> is_mode (r # rs) (mode_loop rs r r 1 1)"
  using mode_loop_mode [of "[]" r rs 1 r 1] by simp

lemma estimate_bounds: "1 \<le> k \<Longrightarrow> estimate_loop degraded timing m k \<le> m"
  by (induction degraded timing m k rule: estimate_loop.induct) (subst estimate_loop.simps, auto)

text \<open>
  The number of threads is the one that the system tells when it tells one. When it tells 0, the answer should be
  the most common of \<open>n\<close> estimates; but each estimate tries at most twice the number that the system tells, so all
  of them are 0, and so is the answer. For no estimate the behaviour is undefined.
\<close>

theorem cpu_threads_answer:
  "cpu_threads degraded hc timing n =
     (if hc > 0 then Ret hc else if n = 0 then Undef else Ret 0)"
proof -
  have zero: "estimate_cpu_threads degraded 0 t = 0" for t
    using estimate_bounds [of 1 degraded t 0] by (simp add: estimate_cpu_threads_def)
  let ?l = "sort (map (\<lambda>i. estimate_cpu_threads degraded 0 (timing i)) [0..<n])"
  have l: "set ?l \<subseteq> {0}" "length ?l = n" using zero by auto
  show ?thesis
  proof (cases ?l)
    case Nil
    then have "n = 0" using l(2) by simp
    then show ?thesis using Nil by (simp add: cpu_threads_def)
  next
    case (Cons r rs)
    have "sorted (r # rs)" using Cons by (metis sorted_sort)
    then have "mode_loop rs r r 1 1 \<in> set (r # rs)" using mode_of_sorted by (auto simp only: is_mode_def)
    then have "mode_loop rs r r 1 1 = 0" using l(1) Cons by auto
    then show ?thesis using Cons l(2) by (auto simp: cpu_threads_def)
  qed
qed

text \<open>
  A name is valid when it is a text of 1 to 255 characters that does not start with a dot and has no null character
  and, for a file, no separator. The length of a name is also asked of a path.
\<close>

lemma valid_names:
  "is_valid_file_name sep name \<longleftrightarrow> name \<noteq> [] \<and> hd name \<noteq> CHR ''.'' \<and> length name \<le> 255 \<and> sep \<notin> set name \<and> NUL \<notin> set name"
  "is_valid_path name \<longleftrightarrow> name \<noteq> [] \<and> hd name \<noteq> CHR ''.'' \<and> length name \<le> 255 \<and> NUL \<notin> set name"
  by (auto simp: is_valid_file_name_def is_valid_path_def is_name_valid_common_def DEFAULT_MAX_NAME_LENGTH_def hd_conv_nth find_char_None)

end
