(* ===== verification/Unicode.thy ===== *)
theory Unicode
  imports CString
begin

text \<open>
  The encoding forms UTF-8 and UTF-16 of the Unicode standard, which icu\_util.hpp asks ICU to convert between, and
  decoders that replace what is ill-formed by U+FFFD, as ICU's converters do. The decoders are the instance of
  ICU on which the theorems of theory Wide\_String are evaluated.
\<close>

section \<open>Encoding forms\<close>

definition is_scalar :: "nat \<Rightarrow> bool" where
  "is_scalar n \<longleftrightarrow> n < 0xD800 \<or> 0xE000 \<le> n \<and> n < 0x110000"

definition REPLACEMENT :: nat where "REPLACEMENT = 0xFFFD"

definition utf8_of :: "nat \<Rightarrow> nat list" where
  "utf8_of n =
     (if n < 0x80 then [n]
      else if n < 0x800 then [0xC0 + n div 64, 0x80 + n mod 64]
      else if n < 0x10000 then [0xE0 + n div 4096, 0x80 + n div 64 mod 64, 0x80 + n mod 64]
      else [0xF0 + n div 262144, 0x80 + n div 4096 mod 64, 0x80 + n div 64 mod 64, 0x80 + n mod 64])"

definition utf16_of :: "nat \<Rightarrow> nat list" where
  "utf16_of n = (if n < 0x10000 then [n] else [0xD800 + (n - 0x10000) div 1024, 0xDC00 + (n - 0x10000) mod 1024])"

definition utf8_text :: "nat list \<Rightarrow> string" where "utf8_text cps = map char_of (concat (map utf8_of cps))"

definition utf16_text :: "nat list \<Rightarrow> 16 word list" where "utf16_text cps = map word_of_nat (concat (map utf16_of cps))"

section \<open>Decoders\<close>

text \<open>The number of bytes after a lead byte and the lead byte's bits.\<close>

definition trailing :: "nat \<Rightarrow> nat \<times> nat" where
  "trailing b = (if b < 0xC0 then (0, b) else if b < 0xE0 then (1, b - 0xC0) else if b < 0xF0 then (2, b - 0xE0) else (3, b - 0xF0))"

text \<open>A sequence is well-formed when it is the encoding of the scalar value that its bits give.\<close>

definition utf8_next :: "nat \<Rightarrow> nat list \<Rightarrow> nat \<times> nat list" where
  "utf8_next b bs =
     (let (n, lead) = trailing b; cp = foldl (\<lambda>a c. a * 64 + (c - 0x80)) lead (take n bs) in
      if is_scalar cp \<and> utf8_of cp = b # take n bs then (cp, drop n bs) else (REPLACEMENT, bs))"

function utf8_decode :: "nat list \<Rightarrow> nat list" where
  "utf8_decode [] = []"
| "utf8_decode (b # bs) = (case utf8_next b bs of (cp, r) \<Rightarrow> cp # utf8_decode r)"
  by pat_completeness auto
termination
  by (relation "measure length") (auto simp: utf8_next_def Let_def split: prod.splits if_splits)

definition is_lead :: "nat \<Rightarrow> bool" where "is_lead u \<longleftrightarrow> 0xD800 \<le> u \<and> u < 0xDC00"

definition is_trail :: "nat \<Rightarrow> bool" where "is_trail u \<longleftrightarrow> 0xDC00 \<le> u \<and> u < 0xE000"

definition lone :: "nat \<Rightarrow> nat" where "lone u = (if is_scalar u then u else REPLACEMENT)"

fun utf16_decode :: "nat list \<Rightarrow> nat list" where
  "utf16_decode [] = []"
| "utf16_decode [u] = [lone u]"
| "utf16_decode (u # v # r) =
     (if is_lead u \<and> is_trail v then (0x10000 + (u - 0xD800) * 1024 + (v - 0xDC00)) # utf16_decode r
      else lone u # utf16_decode (v # r))"

definition utf8_to_utf16 :: "string \<Rightarrow> 16 word list" where "utf8_to_utf16 s = utf16_text (utf8_decode (map code s))"

definition utf16_to_chars :: "16 word list \<Rightarrow> string" where "utf16_to_chars us = utf8_text (utf16_decode (map unat us))"

section \<open>Decoding what was encoded\<close>

lemma utf8_of_bytes: "is_scalar n \<Longrightarrow> b \<in> set (utf8_of n) \<Longrightarrow> b < 256"
  by (auto simp: utf8_of_def is_scalar_def split: if_splits)

lemma utf16_of_units: "is_scalar n \<Longrightarrow> u \<in> set (utf16_of n) \<Longrightarrow> u < 65536"
  by (auto simp: utf16_of_def is_scalar_def split: if_splits)

lemma digits64: "(n div 4096 * 64 + n div 64 mod 64) * 64 + n mod 64 = (n :: nat)"
  "((n div 262144 * 64 + n div 4096 mod 64) * 64 + n div 64 mod 64) * 64 + n mod 64 = n"
proof -
  have d: "n div 4096 = n div 64 div 64" "n div 262144 = n div 64 div 64 div 64" by (simp_all add: div_mult2_eq [symmetric])
  show "(n div 4096 * 64 + n div 64 mod 64) * 64 + n mod 64 = n"
    "((n div 262144 * 64 + n div 4096 mod 64) * 64 + n div 64 mod 64) * 64 + n mod 64 = n"
    unfolding d by (simp_all only: div_mult_mod_eq)
qed

lemma utf8_next_sequence:
  assumes "is_scalar n" "utf8_of n = b # t" "trailing b = (length t, lead)" "foldl (\<lambda>a c. a * 64 + (c - 0x80)) lead t = n"
  shows "utf8_next b (t @ r) = (n, r)"
  using assms by (simp add: utf8_next_def)

lemma utf8_next_encoded:
  assumes "is_scalar n"
  shows "\<exists>b t. utf8_of n = b # t \<and> utf8_next b (t @ r) = (n, r)"
proof -
  consider "n < 0x80" | "0x80 \<le> n" "n < 0x800" | "0x800 \<le> n" "n < 0x10000" | "0x10000 \<le> n" "n < 0x110000"
    using assms unfolding is_scalar_def by linarith
  then have "\<exists>b t lead. utf8_of n = b # t \<and> trailing b = (length t, lead) \<and> foldl (\<lambda>a c. a * 64 + (c - 0x80)) lead t = n"
  proof cases
    case 1
    then show ?thesis by (simp add: utf8_of_def trailing_def)
  next
    case 2
    have "n div 64 < 32" using 2 by simp
    then show ?thesis using 2 by (simp add: utf8_of_def trailing_def)
  next
    case 3
    have "n div 4096 < 16" using 3 by simp
    then show ?thesis using 3 digits64(1) [of n] by (simp add: utf8_of_def trailing_def algebra_simps)
  next
    case 4
    have "n div 262144 < 8" using 4 by simp
    then show ?thesis using 4 digits64(2) [of n] by (simp add: utf8_of_def trailing_def algebra_simps)
  qed
  then show ?thesis using utf8_next_sequence [OF assms] by blast
qed

lemma utf8_decode_encoded: "list_all is_scalar cps \<Longrightarrow> utf8_decode (concat (map utf8_of cps)) = cps"
proof (induction cps)
  case (Cons n cps)
  obtain b t where "utf8_of n = b # t" "utf8_next b (t @ concat (map utf8_of cps)) = (n, concat (map utf8_of cps))"
    using utf8_next_encoded Cons.prems by force
  then show ?case using Cons by simp
qed simp

lemma utf16_decode_encoded: "list_all is_scalar cps \<Longrightarrow> utf16_decode (concat (map utf16_of cps)) = cps"
proof (induction cps)
  case (Cons n cps)
  show ?case
  proof (cases "n < 0x10000")
    case True
    then have "\<not> is_lead n" "lone n = n" using Cons.prems by (auto simp: is_lead_def is_scalar_def lone_def)
    then show ?thesis using True Cons by (cases "concat (map utf16_of cps)") (auto simp: utf16_of_def [of n])
  next
    case False
    let ?m = "n - 0x10000"
    have "?m div 1024 < 1024" "?m mod 1024 < 1024" using Cons.prems by (auto simp: is_scalar_def)
    moreover have "0x10000 + ?m div 1024 * 1024 + ?m mod 1024 = n" using False by simp
    ultimately show ?thesis using False Cons by (simp add: utf16_of_def [of n] is_lead_def is_trail_def)
  qed
qed simp

lemma map_code_chars: "list_all (\<lambda>b. b < 256) bs \<Longrightarrow> map code (map char_of bs) = bs"
  by (induction bs) auto

lemma map_unat_words: "list_all (\<lambda>u. u < 65536) us \<Longrightarrow> map unat (map word_of_nat us :: 16 word list) = us"
  by (induction us) (auto simp: unat_of_nat)

lemma codes_utf8_text: "list_all is_scalar cps \<Longrightarrow> map code (utf8_text cps) = concat (map utf8_of cps)"
  unfolding utf8_text_def by (rule map_code_chars) (auto simp: list_all_iff dest: utf8_of_bytes)

lemma units_utf16_text: "list_all is_scalar cps \<Longrightarrow> map unat (utf16_text cps) = concat (map utf16_of cps)"
  unfolding utf16_text_def by (rule map_unat_words) (auto simp: list_all_iff dest: utf16_of_units)

text \<open>The decoders convert between the two forms of every sequence of scalar values.\<close>

lemma conversions_of_scalars:
  assumes "list_all is_scalar cps"
  shows "utf8_to_utf16 (utf8_text cps) = utf16_text cps" "utf16_to_chars (utf16_text cps) = utf8_text cps"
  using assms by (simp_all add: utf8_to_utf16_def utf16_to_chars_def codes_utf8_text units_utf16_text utf8_decode_encoded utf16_decode_encoded)

section \<open>What is decoded\<close>

lemma replacement_scalar: "is_scalar REPLACEMENT" "REPLACEMENT \<noteq> 0" by (simp_all add: is_scalar_def REPLACEMENT_def)

lemma utf8_next_props:
  assumes "utf8_next b bs = (cp, r)"
  shows "is_scalar cp" "b \<noteq> 0 \<Longrightarrow> cp \<noteq> 0" "set r \<subseteq> set bs"
proof -
  have "cp = REPLACEMENT \<and> r = bs \<or> (\<exists>n. is_scalar cp \<and> utf8_of cp = b # take n bs \<and> r = drop n bs)"
    using assms by (auto simp: utf8_next_def Let_def split: prod.splits if_splits)
  moreover have "cp \<noteq> 0" if "b \<noteq> 0" "utf8_of cp = b # t" for t
    using that by (metis list.inject utf8_of_def zero_less_numeral)
  ultimately show "is_scalar cp" "b \<noteq> 0 \<Longrightarrow> cp \<noteq> 0" "set r \<subseteq> set bs"
    using replacement_scalar by (auto dest: in_set_dropD)
qed

lemma utf8_decode_scalars:
  "list_all is_scalar (utf8_decode bs) \<and> (0 \<notin> set bs \<longrightarrow> 0 \<notin> set (utf8_decode bs))"
proof (induction bs rule: utf8_decode.induct)
  case (2 b bs)
  obtain cp r where n: "utf8_next b bs = (cp, r)" by fastforce
  have "list_all is_scalar (utf8_decode r) \<and> (0 \<notin> set r \<longrightarrow> 0 \<notin> set (utf8_decode r))" using 2 n by metis
  then show ?case using utf8_next_props [OF n] n by auto
qed simp

lemma code_zero [simp]: "code c = 0 \<longleftrightarrow> c = NUL"
proof -
  have "code NUL = 0" by (simp add: NUL_def code_def)
  then show ?thesis using code_inject [of c NUL] by metis
qed

lemma no_zero_units:
  assumes "list_all is_scalar cps" "0 \<notin> set cps"
  shows "0 \<notin> set (utf16_text cps)"
proof -
  have "0 \<notin> set (concat (map utf16_of cps))" using assms(2) by (auto simp: utf16_of_def split: if_splits)
  then have "0 \<notin> unat ` set (utf16_text cps)" using units_utf16_text [OF assms(1)] by (metis list.set_map)
  then show ?thesis by (metis image_eqI unat_0)
qed

lemma utf8_to_utf16_no_nul: "NUL \<notin> set s \<Longrightarrow> 0 \<notin> set (utf8_to_utf16 s)"
  unfolding utf8_to_utf16_def using utf8_decode_scalars [of "map code s"]
  by (intro no_zero_units) (auto simp: code_zero)

lemma utf16_decode_empty: "utf16_decode us = [] \<longleftrightarrow> us = []"
  by (induction us rule: utf16_decode.induct) auto

lemma utf8_of_nonempty: "utf8_of n \<noteq> []" by (simp add: utf8_of_def)

lemma utf16_to_chars_empty: "utf16_to_chars us = [] \<longleftrightarrow> us = []"
  unfolding utf16_to_chars_def utf8_text_def
  by (cases "utf16_decode (map unat us)") (use utf16_decode_empty [of "map unat us"] in \<open>auto simp: utf8_of_nonempty\<close>)

end
