(* ===== verification/Io_Util.thy ===== *)
theory Io_Util
  imports File Result
begin

unbundle bit_operations_syntax

text \<open>
  io\_util.hpp and the functions on files and binary data of the platform headers: macos/io\_util\_macos.hpp, whose
  functions the other platforms repeat, and the comparison of time stamps of windows/io\_util\_windows.hpp. The
  functions that use C streams take what \<open>fopen\<close>, \<open>fwrite\<close>, \<open>ftell\<close> and \<open>fread\<close> answer as arguments, as theory
  Binary\_Buffer does; those that use C++ streams act on the file system of theory Path.
\<close>

section \<open>Saving and loading bytes\<close>

text \<open>\<open>buffer.size () - offset\<close> wraps for an offset past the end, and bytes outside the buffer are written.\<close>

definition save_to_file :: "bool \<Rightarrow> (nat \<Rightarrow> nat) \<Rightarrow> byte list \<Rightarrow> nat \<Rightarrow> Bool result outcome \<times> byte list" where
  "save_to_file fopen fwrite buf offset =
     (if \<not> fopen then (result_of_message Bool_default ''Failed to open file for writing'', [])
      else if offset > length buf then (Undef, [])
      else let n = length buf - offset; written = fwrite n in
        (if written \<noteq> n then result_of_message Bool_default ''Failed to write all bytes to disk'' else Ret (result_ok (Bool_of_int T)),
         take written (drop offset buf)))"

definition load_from_file :: "byte list option \<Rightarrow> int \<Rightarrow> (nat \<Rightarrow> nat) \<Rightarrow> byte list \<Rightarrow> Bool result outcome \<times> byte list" where
  "load_from_file file ftell fread buf =
     (case file of
        None \<Rightarrow> (result_of_message Bool_default ''Failed to open file for reading'', buf)
      | Some content \<Rightarrow>
          if ftell < 0 then (result_of_message Bool_default ''Could not determine file size'', buf)
          else
            let file_size = nat ftell;
                buf = take file_size buf @ replicate (file_size - length buf) 0;
                read_bytes = fread file_size;
                buf = take read_bytes content @ drop read_bytes buf
            in (if read_bytes \<noteq> file_size then result_of_message Bool_default ''Read mismatch: read less bytes than expected''
                else Ret (result_ok (Bool_of_int T)), buf))"

definition load_object_from_file :: "byte list option \<Rightarrow> int \<Rightarrow> (nat \<Rightarrow> nat) \<Rightarrow> byte list \<Rightarrow> Bool result outcome \<times> byte list" where
  "load_object_from_file file ftell fread out_span =
     (case file of
        None \<Rightarrow> (result_of_message Bool_default ''Failed to open file for reading'', out_span)
      | Some content \<Rightarrow>
          if ftell < 0 then (result_of_message Bool_default ''Could not determine file size'', out_span)
          else if length out_span < nat ftell then (result_of_message Bool_default ''Output span is too small to hold file contents'', out_span)
          else
            let file_size = nat ftell;
                read_bytes = fread file_size;
                out_span = take read_bytes content @ drop read_bytes out_span
            in (if read_bytes \<noteq> file_size then result_of_message Bool_default ''Read mismatch: read less bytes than expected''
                else Ret (result_ok (Bool_of_int T)), out_span))"

section \<open>Files as texts\<close>

definition IN_BINARY :: OpenMode where "IN_BINARY = no_mode\<lparr>mode_in := True, mode_binary := True\<rparr>"

text \<open>The position at the end of a directory, which can be opened for reading, depends on the file system.\<close>

definition macos_read_file :: "nat \<Rightarrow> string \<Rightarrow> os \<Rightarrow> string outcome" where
  "macos_read_file dir_end filename w =
     (case fstream_open new_fstream filename IN_BINARY w of
        (st, w) \<Rightarrow>
          if opened st = None then log_and_throw (''macos_read_file: Error opening file: '' @ filename)
          else
            let file_size = (if files w (location w filename) = Some Directory then dir_end else length (content_at w (location w filename))) in
            (case fstream_read st file_size w of
               (st, s) \<Rightarrow>
                 if failbit st then log_and_throw (''macos_read_file: Error reading file: '' @ filename) else Ret s))"

definition create_empty_file :: "string \<Rightarrow> os \<Rightarrow> unit outcome \<times> os" where
  "create_empty_file file_full_path w =
     (case fstream_open new_fstream file_full_path TEXT_WRITE w of
        (st, w) \<Rightarrow>
          (if opened st = None then Raise (Runtime_error (''create_file: It was not possible to create file.'' @ file_full_path)) else Ret (), w))"

text \<open>The lines that \<open>std::getline\<close> gives; a final line feed does not start another line.\<close>

function getlines :: "string \<Rightarrow> string list" where
  "getlines s = (if s = [] then [] else takeWhile (\<lambda>c. c \<noteq> CHR 0x0A) s # getlines (tl (dropWhile (\<lambda>c. c \<noteq> CHR 0x0A) s)))"
  by pat_completeness auto
termination
proof (relation "measure length")
  fix s :: string assume s: "s \<noteq> []"
  have "length (dropWhile (\<lambda>c. c \<noteq> CHR 0x0A) s) \<le> length s" by (rule length_dropWhile_le)
  then have "length (dropWhile (\<lambda>c. c \<noteq> CHR 0x0A) s) - 1 < length s" using s by (metis diff_less length_greater_0_conv less_imp_diff_less less_one nat_less_le)
  then show "(tl (dropWhile (\<lambda>c. c \<noteq> CHR 0x0A) s), s) \<in> measure length" by (simp only: in_measure length_tl)
qed simp

declare getlines.simps [simp del]

text \<open>
  The handler is called with the lines and their numbers; the result is the list of the calls and the number of
  lines. A file that cannot be opened has no lines.
\<close>

definition read_file_lines :: "string \<Rightarrow> os \<Rightarrow> (nat \<times> string) list \<times> nat" where
  "read_file_lines fname w =
     (case fstream_open new_fstream fname TEXT_READ w of
        (st, w) \<Rightarrow>
          if opened st = None then ([], 0)
          else let ls = getlines (content_at w (location w fname)) in (zip [0..<length ls] ls, length ls))"

definition file_exists :: "string \<Rightarrow> os \<Rightarrow> bool" where "file_exists filename w \<longleftrightarrow> node_at w filename \<noteq> None"

text \<open>The size of a directory is an argument.\<close>

definition get_file_size :: "int \<Rightarrow> string \<Rightarrow> os \<Rightarrow> int" where
  "get_file_size dir_size file_name w =
     (case node_at w file_name of None \<Rightarrow> - 1 | Some (Regular c) \<Rightarrow> int (length c) | Some Directory \<Rightarrow> dir_size)"

section \<open>Binary data\<close>

text \<open>
  Objects are the lists of their bytes. A size larger than that of the object reads or writes outside it. The byte
  order given is not used.
\<close>

definition binary_write_sized :: "std_endian \<Rightarrow> byte list \<Rightarrow> byte list \<Rightarrow> nat \<Rightarrow> byte list outcome" where
  "binary_write_sized native os t sz =
     (if sz > length t then Undef else Ret (os @ memory_bytes native (word_of_nat sz :: 64 word) @ take sz t))"

definition binary_write :: "byte list \<Rightarrow> byte list \<Rightarrow> byte list" where "binary_write os t = os @ t"

definition binary_write_string :: "std_endian \<Rightarrow> byte list \<Rightarrow> string \<Rightarrow> byte list" where
  "binary_write_string native os s =
     foldl (\<lambda>os c. binary_write os [byte_of_char c]) (binary_write os (memory_bytes native (word_of_nat (length s) :: 64 word))) s"

definition bytes_size :: "std_endian \<Rightarrow> byte list \<Rightarrow> nat" where
  "bytes_size native bs = unat (bytes_word (if native = big then rev bs else bs) :: 64 word)"

text \<open>
  The size stored in the stream replaces the one that the caller gave; it decides how many bytes of the object are
  overwritten. A stream with fewer bytes than asked for gives what it has.
\<close>

definition binary_read_sized :: "std_endian \<Rightarrow> byte list \<Rightarrow> byte list \<Rightarrow> (byte list \<times> byte list) outcome" where
  "binary_read_sized native is t =
     (if length is < 8 then Undef
      else let sz = bytes_size native (take 8 is); got = take sz (drop 8 is) in
        if length got > length t then Undef else Ret (got @ drop (length got) t, drop (8 + length got) is))"

definition binary_read :: "byte list \<Rightarrow> byte list \<Rightarrow> byte list \<times> byte list" where
  "binary_read is t = (take (length t) is @ drop (length is) t, drop (length t) is)"

text \<open>
  The characters are read over the string object itself and not into its buffer, so that any character destroys it. With
  fewer than eight bytes the size is not set.
\<close>

definition binary_read_string :: "std_endian \<Rightarrow> byte list \<Rightarrow> (string \<times> byte list) outcome" where
  "binary_read_string native is =
     (if length is < 8 then Undef
      else let sz = bytes_size native (take 8 is); got = take sz (drop 8 is) in
        if got \<noteq> [] then Undef else Ret ([], drop 8 is))"

text \<open>The bytes of an unsigned number from its least significant one.\<close>

definition number_chars :: "'w::len word \<Rightarrow> string" where
  "number_chars byte = map (\<lambda>i. char_of_byte (ucast (drop_bit (i * 8) byte))) [0..<LENGTH('w) div 8]"

definition binary_to_string :: "'w::len word list \<Rightarrow> string" where
  "binary_to_string data = foldl (\<lambda>out byte. out @ number_chars byte) [] data"

definition chars_number :: "string \<Rightarrow> 'w::len word" where
  "chars_number cs = foldl (\<lambda>byte j. byte OR push_bit (j * 8) (ucast (byte_of_char (cs ! j)))) 0 [0..<LENGTH('w) div 8]"

text \<open>
  The last number may lack characters: the one after the end of a string is the null character, the others are
  outside of it.
\<close>

function string_to_binary :: "nat \<Rightarrow> string \<Rightarrow> 'w::len word list outcome" where
  "string_to_binary width cs =
     (if cs = [] \<or> width = 0 then Ret []
      else if length cs + 1 < width then Undef
      else map_out (Cons (chars_number (cs @ [NUL]))) (string_to_binary width (drop width cs)))"
  by pat_completeness auto
termination by (relation "measure (\<lambda>(n, cs). length cs)") auto

declare string_to_binary.simps [simp del]

section \<open>Time stamps\<close>

record ftime =
  ft_year :: nat
  ft_month :: nat
  ft_day :: nat
  ft_hour :: nat
  ft_min :: nat
  ft_tsec :: nat

definition ftime_eq :: "ftime \<Rightarrow> ftime \<Rightarrow> bool" where
  "ftime_eq left right \<longleftrightarrow>
     ft_year left = ft_year right \<and> ft_month left = ft_month right \<and> ft_day left = ft_day right
     \<and> ft_hour left = ft_hour right \<and> ft_min left = ft_min right \<and> ft_tsec left = ft_tsec right"

definition ftime_neq :: "ftime \<Rightarrow> ftime \<Rightarrow> bool" where "ftime_neq left right \<longleftrightarrow> \<not> ftime_eq left right"

definition ftime_less :: "ftime \<Rightarrow> ftime \<Rightarrow> bool" where
  "ftime_less left right =
     (let less = ft_year left < ft_year right in
      if \<not> less then
        let less = ft_month left < ft_month right in
        if \<not> less then
          let less = ft_day left < ft_day right in
          if \<not> less then
            let less = ft_hour left < ft_hour right in
            if \<not> less then
              let less = ft_min left < ft_min right in
              if \<not> less then ft_tsec left < ft_tsec right else less
            else less
          else less
        else less
      else less)"

section \<open>What is kept\<close>

text \<open>
  What is saved is loaded again, from the offset on; an object takes a file that is not larger than itself and keeps
  its bytes after the file's end.
\<close>

lemma save_load:
  assumes "offset \<le> length buf"
  shows "save_to_file True id buf offset = (Ret (result_ok (Bool_of_int T)), drop offset buf)"
    "load_from_file (Some c) (int (length c)) id old = (Ret (result_ok (Bool_of_int T)), c)"
    "length c \<le> length span \<Longrightarrow> load_object_from_file (Some c) (int (length c)) id span = (Ret (result_ok (Bool_of_int T)), c @ drop (length c) span)"
  using assms by (simp_all add: save_to_file_def load_from_file_def load_object_from_file_def Let_def)

text \<open>The lines of a text are its fields between line feeds, without an empty one at the end.\<close>

lemma getlines_fields:
  "getlines s = (let fs = String_Util.fields CHR 0x0A s in if last fs = [] then butlast fs else fs)"
proof (induction s rule: getlines.induct)
  case (1 s)
  show ?case
  proof (cases "s = []")
    case True
    then show ?thesis by (simp add: getlines.simps)
  next
    case False
    let ?f = "takeWhile (\<lambda>c. c \<noteq> CHR 0x0A) s" and ?r = "dropWhile (\<lambda>c. c \<noteq> CHR 0x0A) s"
    have s: "s = ?f @ ?r" by simp
    have nf: "CHR 0x0A \<notin> set ?f" by (auto dest: set_takeWhileD)
    have g: "getlines s = ?f # getlines (tl ?r)" using False by (simp add: getlines.simps [of s])
    show ?thesis
    proof (cases ?r)
      case Nil
      then have "s = ?f" using s by (metis append_Nil2)
      moreover have "String_Util.fields CHR 0x0A ?f = [?f]" using nf False \<open>s = ?f\<close> by (simp add: fields_single)
      ultimately show ?thesis using g Nil False by (simp add: getlines.simps [of "[]"])
    next
      case (Cons c r)
      then have "c = CHR 0x0A" by (metis (mono_tags, lifting) dropWhile_eq_Cons_conv)
      then have "String_Util.fields CHR 0x0A s = ?f # String_Util.fields CHR 0x0A r"
        using s Cons fields_append [OF nf, of r] by metis
      moreover have "getlines r = (let fs = String_Util.fields CHR 0x0A r in if last fs = [] then butlast fs else fs)"
        using 1 False Cons by simp
      ultimately show ?thesis using g Cons fields_nonempty [of "CHR 0x0A" r] by (simp add: Let_def)
    qed
  qed
qed

text \<open>Numbers and their bytes.\<close>

lemma chars_number_bit:
  "bit (chars_number cs :: 'w::len word) n \<longleftrightarrow>
     n < LENGTH('w) \<and> n div 8 < LENGTH('w) div 8 \<and> bit (byte_of_char (cs ! (n div 8))) (n mod 8)"
proof -
  have "bit (foldl (\<lambda>byte j. byte OR push_bit (j * 8) (ucast (byte_of_char (cs ! j)))) (0 :: 'w word) [0..<k]) n \<longleftrightarrow>
      n < LENGTH('w) \<and> n div 8 < k \<and> bit (byte_of_char (cs ! (n div 8))) (n mod 8)" for k
  proof (induction k)
    case (Suc k)
    have "bit (push_bit (k * 8) (ucast b) :: 'w word) n \<longleftrightarrow> n < LENGTH('w) \<and> n div 8 = k \<and> bit b (n mod 8)" for b :: byte
    proof (cases "n div 8 = k")
      case True
      have "n - k * 8 = n mod 8" "k * 8 \<le> n" using True by (auto simp: minus_div_mult_eq_mod [symmetric])
      then show ?thesis using True by (auto simp: bit_simps)
    next
      case False
      have "\<not> bit b (n - k * 8)" if "k * 8 \<le> n"
      proof -
        have "8 \<le> n - k * 8" using False that by presburger
        then show ?thesis using bit_imp_le_length [of b "n - k * 8"] by auto
      qed
      then show ?thesis using False by (auto simp: bit_simps)
    qed
    with Suc show ?case by (auto simp: bit_simps less_Suc_eq)
  qed simp
  then show ?thesis by (simp add: chars_number_def)
qed

lemma chars_number_inverse:
  assumes "8 dvd LENGTH('w::len)"
  shows "chars_number (number_chars (v :: 'w word) @ t) = v"
proof (rule bit_word_eqI)
  fix n assume n: "n < LENGTH('w)"
  have k: "n div 8 < LENGTH('w) div 8" using n assms by (metis dvd_div_mult_self less_mult_imp_div_less)
  have "(number_chars v @ t) ! (n div 8) = char_of_byte (ucast (drop_bit (n div 8 * 8) v))"
    using k by (simp add: number_chars_def nth_append)
  then have "bit (chars_number (number_chars v @ t) :: 'w word) n \<longleftrightarrow> bit (ucast (drop_bit (n div 8 * 8) v) :: byte) (n mod 8)"
    using n k by (simp add: chars_number_bit)
  also have "\<dots> \<longleftrightarrow> bit v n" by (simp add: bit_simps)
  finally show "bit (chars_number (number_chars v @ t) :: 'w word) n = bit v n" .
qed

lemma binary_to_string_concat: "binary_to_string data = concat (map number_chars data)"
proof -
  have "foldl (\<lambda>out byte. out @ number_chars byte) acc data = acc @ concat (map number_chars data)" for acc
    by (induction data arbitrary: acc) auto
  then show ?thesis by (simp add: binary_to_string_def)
qed

text \<open>
  Unsigned numbers of whole bytes are turned into a string and back without a change, for every list of numbers. A
  text that \<open>binary_write\<close> has written is read by \<open>binary_read\<close> only when it is empty: otherwise its characters are
  read over the string object. The size comes first, then the characters.
\<close>

theorem binary_strings:
  assumes "8 dvd LENGTH('w::len)"
  shows "string_to_binary (LENGTH('w) div 8) (binary_to_string (data :: 'w word list)) = Ret data
    \<and> (length s < 2 ^ 64 \<longrightarrow>
        binary_write_string native [] s = memory_bytes native (word_of_nat (length s) :: 64 word) @ map byte_of_char s
      \<and> binary_read_string native (binary_write_string native [] s @ tail) = (if s = [] then Ret ([], tail) else Undef))"
proof (intro conjI impI)
  let ?k = "LENGTH('w) div 8"
  have k: "?k \<noteq> 0" using assms len_gt_0 [where 'a = 'w] by (metis dvd_div_eq_0_iff less_numeral_extra(3))
  have len: "length (number_chars (v :: 'w word)) = ?k" for v by (simp add: number_chars_def)
  show "string_to_binary ?k (binary_to_string data) = Ret data"
    unfolding binary_to_string_concat
  proof (induction data)
    case Nil
    then show ?case by (simp add: string_to_binary.simps)
  next
    case (Cons v data)
    have "number_chars v \<noteq> []" using len [of v] k by auto
    then show ?case using Cons k len [of v] by (simp add: string_to_binary.simps [of ?k "number_chars v @ _"] chars_number_inverse [OF assms])
  qed
  assume s: "length s < 2 ^ 64"
  have app: "foldl (\<lambda>os c. binary_write os [byte_of_char c]) os s = os @ map byte_of_char s" for os
    by (induction s arbitrary: os) (auto simp: binary_write_def)
  show w: "binary_write_string native [] s = memory_bytes native (word_of_nat (length s) :: 64 word) @ map byte_of_char s"
    unfolding binary_write_string_def app by (simp add: binary_write_def)
  have l: "length (memory_bytes native (w :: 64 word)) = 8" for w by (simp add: memory_bytes_def length_word_bytes)
  have "bytes_size native (memory_bytes native (word_of_nat (length s) :: 64 word)) = length s"
    using s by (simp add: bytes_size_def memory_bytes_def bytes_word_bytes unat_of_nat)
  then show "binary_read_string native (binary_write_string native [] s @ tail) = (if s = [] then Ret ([], tail) else Undef)"
    unfolding w by (auto simp: binary_read_string_def Let_def l)
qed

theorem binary_strings_witness:
  "string_to_binary 2 (binary_to_string [258, 65535 :: 16 word]) = Ret [258, 65535 :: 16 word]
   \<and> binary_read_string little (binary_write_string little [] ''ab'') = Undef"
proof -
  have "8 dvd LENGTH(16)" "length ''ab'' < 2 ^ 64" by simp_all
  then show ?thesis using binary_strings [where 'w = 16, of "[258, 65535]" "''ab''" little "[]"] by auto
qed

text \<open>
  The order of time stamps is not one: of two stamps with years and months in opposite order each is less than the
  other.
\<close>

lemma ftime_less_not_asym:
  "ft_year a < ft_year b \<Longrightarrow> ft_month b < ft_month a \<Longrightarrow> ftime_less a b \<and> ftime_less b a"
  by (simp add: ftime_less_def)

end
