(* ===== verification/Wide_String.thy ===== *)
theory Wide_String
  imports Unicode Io_Util
begin

text \<open>
  The conversions between narrow and wide strings: the functions of icu\_util.hpp that use ICU's converters, the
  functions of s.hpp that call them, and the functions of windows/io\_util\_windows.hpp that need a wide file name. ICU is
  an argument, the record \<open>icu_conv\<close> of what its functions answer; the locale \<open>icu_converters\<close> states their documented
  behaviour. A wide string is the list of its \<open>wchar_t\<close>, which have 16 bits on Windows and 32 elsewhere.
\<close>

section \<open>ICU's converters\<close>

datatype UErrorCode = U_STRING_NOT_TERMINATED_WARNING | U_ZERO_ERROR | U_ILLEGAL_ARGUMENT_ERROR | U_BUFFER_OVERFLOW_ERROR | U_other_error nat

fun U_FAILURE :: "UErrorCode \<Rightarrow> bool" where
  "U_FAILURE U_STRING_NOT_TERMINATED_WARNING = False"
| "U_FAILURE U_ZERO_ERROR = False"
| "U_FAILURE _ = True"

text \<open>
  A converter is the name it was opened with, \<open>NULL\<close> is \<open>None\<close>. The conversions take the capacity of the destination
  and the error code; they answer with the length of the whole result, the units that they wrote and the new error
  code.
\<close>

record 'w icu_conv =
  ucnv_open :: "string \<Rightarrow> UErrorCode \<Rightarrow> string option \<times> UErrorCode"
  conv_toUChars :: "string option \<Rightarrow> int \<Rightarrow> string \<Rightarrow> UErrorCode \<Rightarrow> int \<times> 16 word list \<times> UErrorCode"
  ucnv_fromUChars :: "string option \<Rightarrow> int \<Rightarrow> 16 word list \<Rightarrow> UErrorCode \<Rightarrow> int \<times> string \<times> UErrorCode"
  u_strToWCS :: "int \<Rightarrow> 16 word list \<Rightarrow> UErrorCode \<Rightarrow> 'w list \<times> UErrorCode"

section \<open>icu\_util.hpp\<close>

definition BUFFER_SIZE :: nat where "BUFFER_SIZE = 1024"

text \<open>A null-terminated string is the list of the characters before the null character.\<close>

definition convert_utf8_to_uchar :: "('w, 'z) icu_conv_scheme \<Rightarrow> string \<Rightarrow> int \<Rightarrow> 16 word list outcome" where
  "convert_utf8_to_uchar u src destCapacity =
     (case conv_toUChars u None 0 src U_ZERO_ERROR of
        (destLen, _, _) \<Rightarrow>
          if destLen \<le> destCapacity then
            (case conv_toUChars u None destLen src U_ZERO_ERROR of
               (_, dest, status) \<Rightarrow>
                 if U_FAILURE status then Raise (Thrown_string ''convert_utf8_to_uchar: Failed to convert error message'')
                 else Ret dest)
          else Raise (Thrown_string (''convert_utf8_to_uchar: destination buffer is too small. Required size = ''
                 @ show_int destLen @ '' but it was '' @ show_int destCapacity)))"

definition char_ptr_to_uchar_ptr :: "('w, 'z) icu_conv_scheme \<Rightarrow> string \<Rightarrow> 16 word list outcome" where
  "char_ptr_to_uchar_ptr u msg =
     (if length msg > BUFFER_SIZE then
        Raise (Thrown_string (''char_ptr_to_uchar_ptr: Message is too big to be converted to UChar string. Max. size = '' @ show_nat BUFFER_SIZE))
      else convert_utf8_to_uchar u msg (int BUFFER_SIZE))"

text \<open>
  The source of \<open>u_strToWCS\<close> is read up to its null; without one it is read past its end. The converted text stays in a
  local array: the caller's text is not changed.
\<close>

definition utf8_char_ptr_to_wchar_t_ptr :: "('w, 'z) icu_conv_scheme \<Rightarrow> string \<Rightarrow> 'w list \<Rightarrow> 'w list outcome" where
  "utf8_char_ptr_to_wchar_t_ptr u msg out =
     bind_outcome (convert_utf8_to_uchar u msg (int BUFFER_SIZE)) (\<lambda>uMsg.
       if 0 \<notin> set uMsg then Undef
       else case u_strToWCS u (int BUFFER_SIZE) (takeWhile (\<lambda>c. c \<noteq> 0) uMsg) U_ZERO_ERROR of
         (wcharMsg, status) \<Rightarrow>
           if U_FAILURE status then Raise (Thrown_string ''char_ptr_to_wchar_ptr: Error converting UChar to wchar_t'') else Ret out)"

text \<open>
  Errors are only printed. After an error \<open>u_strToWCS\<close> leaves its destination alone, and the result is made from an array
  that was never set; it is also read past its end when the text fills it.
\<close>

definition icu_to_wstring :: "('w::zero, 'z) icu_conv_scheme \<Rightarrow> string \<Rightarrow> 'w list outcome" where
  "icu_to_wstring u s =
     (case ucnv_open u ''utf-8'' U_ZERO_ERROR of
        (conv, status) \<Rightarrow>
      case conv_toUChars u conv 0 (takeWhile (\<lambda>c. c \<noteq> NUL) s) status of
        (destLen, _, _) \<Rightarrow>
          if destLen < 0 then Raise (Runtime_error ''std::bad_array_new_length'')
          else
            (case conv_toUChars u conv destLen (takeWhile (\<lambda>c. c \<noteq> NUL) s) U_ZERO_ERROR of
               (_, dest, status) \<Rightarrow>
                 if U_FAILURE status then Undef
                 else if 0 \<notin> set dest then Undef
                 else
                   (case u_strToWCS u (int BUFFER_SIZE) (takeWhile (\<lambda>c. c \<noteq> 0) dest) status of
                      (wcharMsg, status) \<Rightarrow>
                        if 0 \<notin> set wcharMsg then Undef else Ret (takeWhile (\<lambda>c. c \<noteq> 0) wcharMsg))))"

text \<open>
  The pointer to the wide characters is used as one to 16-bit units: the first \<open>len\<close> units of the memory that the
  characters take.
\<close>

definition uchars :: "std_endian \<Rightarrow> 'w::len word \<Rightarrow> 16 word list" where
  "uchars native c =
     (let us = map (\<lambda>i. ucast (drop_bit (16 * i) c)) [0..<LENGTH('w) div 16] in if native = big then rev us else us)"

definition uchar_view :: "std_endian \<Rightarrow> 'w::len word list \<Rightarrow> 16 word list" where
  "uchar_view native s = take (length s) (concat (map (uchars native) s))"

definition utf16_to_utf8 :: "('w::len word, 'z) icu_conv_scheme \<Rightarrow> std_endian \<Rightarrow> 'w word list \<Rightarrow> string outcome" where
  "utf16_to_utf8 u native s =
     (case ucnv_open u ''utf-8'' U_ZERO_ERROR of
        (conv, status) \<Rightarrow>
          if U_FAILURE status then Raise (Thrown_string ''pd::icu_util::utf16_to_utf8: Error getting converter.'')
          else
            let source = uchar_view native s in
            if length s > max_int32_t then
              Raise (Thrown_string ''pd::icu_util::utf16_to_utf8: Error converting string. Buffer size is too big.'')
            else
              (case ucnv_fromUChars u conv 0 source status of
                 (destLen, _, _) \<Rightarrow>
                   if destLen + 1 > int max_int32_t then Undef
                   else
                     (case ucnv_fromUChars u conv (destLen + 1) source U_ZERO_ERROR of
                        (_, dest, status) \<Rightarrow>
                          if U_FAILURE status then Raise (Thrown_string ''pd::icu_util::utf16_to_utf8: Error converting string.'')
                          else Ret (take (nat destLen) dest))))"

text \<open>The error code of the call that only measures is not cleared before it is tested.\<close>

definition utf32_to_utf8 :: "('w::len word, 'z) icu_conv_scheme \<Rightarrow> std_endian \<Rightarrow> 'w word list \<Rightarrow> string outcome" where
  "utf32_to_utf8 u native s =
     (case ucnv_open u ''UTF-8'' U_ZERO_ERROR of
        (convToUTF8, status) \<Rightarrow>
          if U_FAILURE status then Raise (Thrown_string ''1. pd::icu_util::utf32_to_utf8: Failed to open UTF-8 converter.'')
          else
            (case ucnv_open u ''UTF-32'' status of
               (convFromUTF32, status) \<Rightarrow>
                 if U_FAILURE status then Raise (Thrown_string ''2. pd::icu_util::utf32_to_utf8: Failed to open UTF-32 converter.'')
                 else if length s > max_int32_t then
                   Raise (Thrown_string ''pd::icu_util::utf32_to_utf8: Error converting string. Buffer size is too big.'')
                 else
                   let source = uchar_view native s in
                   (case ucnv_fromUChars u convToUTF8 0 source status of
                      (utf8Length, _, status) \<Rightarrow>
                        if U_FAILURE status then
                          Raise (Thrown_string ''pd::icu_util::utf32_to_utf8: Failed to calculate buffer size for UTF-8 string.'')
                        else if utf8Length + 1 > int max_int32_t then Undef
                        else
                          (case ucnv_fromUChars u convToUTF8 (utf8Length + 1) source U_ZERO_ERROR of
                             (_, utf8String, status) \<Rightarrow>
                               if U_FAILURE status then
                                 Raise (Thrown_string ''pd::icu_util::to_string: Failed to convert string from UTF-32 to UTF-8.'')
                               else Ret (take (nat utf8Length) utf8String)))))"

definition remove_accents_wide :: "icu_text \<Rightarrow> ('w::len word, 'z) icu_conv_scheme \<Rightarrow> bool \<Rightarrow> std_endian \<Rightarrow> 'w word list \<Rightarrow> 'w word list outcome" where
  "remove_accents_wide t u windows native s =
     bind_outcome (if windows then utf16_to_utf8 u native s else utf32_to_utf8 u native s) (\<lambda>s8.
     bind_outcome (remove_accents t s8) (icu_to_wstring u))"

section \<open>s.hpp\<close>

definition to_wstring :: "('w::len word, 'z) icu_conv_scheme \<Rightarrow> string \<Rightarrow> 'w word list outcome" where
  "to_wstring u s = icu_to_wstring u s"

definition wstring_to_string :: "('w::len word, 'z) icu_conv_scheme \<Rightarrow> bool \<Rightarrow> std_endian \<Rightarrow> 'w word list \<Rightarrow> string outcome" where
  "wstring_to_string u windows native s = (if windows then utf16_to_utf8 u native s else utf32_to_utf8 u native s)"

section \<open>Windows\<close>

text \<open>The answers of the system are arguments. The parameter \<open>s\<close> is overwritten with a new string and stays as it was for the caller.\<close>

definition windows_read_file ::
    "('w::len word, 'z) icu_conv_scheme \<Rightarrow> ('w word list \<Rightarrow> 'h) \<Rightarrow> ('h \<Rightarrow> nat) \<Rightarrow> ('h \<Rightarrow> 'm option) \<Rightarrow> ('m \<Rightarrow> nat \<Rightarrow> string option)
      \<Rightarrow> string \<Rightarrow> string outcome" where
  "windows_read_file u CreateFileW GetFileSize CreateFileMapping MapViewOfFile filename =
     bind_outcome (to_wstring u filename) (\<lambda>fname.
       let file = CreateFileW fname; file_size = GetFileSize file in
       case CreateFileMapping file of
         None \<Rightarrow> log_and_throw (''windows_read_file: Error mapping file: '' @ filename)
       | Some file_mapping \<Rightarrow>
           (case MapViewOfFile file_mapping file_size of
              None \<Rightarrow> log_and_throw (''windows_read_file: Error mapping view of file: '' @ filename)
            | Some addr \<Rightarrow> if length addr < file_size then Undef else Ret (take file_size addr)))"

definition windows_get_file_size :: "(string \<Rightarrow> 'h option) \<Rightarrow> ('h \<Rightarrow> int option) \<Rightarrow> string \<Rightarrow> int" where
  "windows_get_file_size CreateFile GetFileSizeEx file_name =
     (case CreateFile file_name of None \<Rightarrow> - 1 | Some hFile \<Rightarrow> (case GetFileSizeEx hFile of None \<Rightarrow> - 1 | Some file_size \<Rightarrow> file_size))"

definition windows_get_exe_full_path :: "string option \<Rightarrow> string result outcome" where
  "windows_get_exe_full_path GetModuleFileNameA =
     (case GetModuleFileNameA of
        None \<Rightarrow> result_of_message [] ''Error getting executable path''
      | Some buf \<Rightarrow> Ret (result_ok (takeWhile (\<lambda>c. c \<noteq> NUL) buf)))"

text \<open>Without a file the time stamp is not set.\<close>

definition fileTimestamp :: "ftime option \<Rightarrow> ftime outcome" where
  "fileTimestamp file = (case file of None \<Rightarrow> Undef | Some ft \<Rightarrow> Ret ft)"

definition fileTimestampString :: "ftime option \<Rightarrow> string" where
  "fileTimestampString file =
     (case file of
        None \<Rightarrow> []
      | Some ft \<Rightarrow> show_nat (ft_year ft + 1980) @ ''-'' @ show_nat (ft_month ft) @ ''-'' @ show_nat (ft_day ft) @ '' ''
          @ show_nat (ft_hour ft) @ ''h'' @ show_nat (ft_min ft))"

section \<open>The documented behaviour of the converters\<close>

text \<open>
  How ICU hands over a result of which only a part may fit: with a null when there is room for it, with a warning when
  the text fills the destination, with an error when it does not fit; the length is always that of the whole result.
\<close>

definition handed_over :: "'a \<Rightarrow> int \<Rightarrow> 'a list \<Rightarrow> int \<times> 'a list \<times> UErrorCode" where
  "handed_over z capacity xs =
     (int (length xs), if int (length xs) < capacity then xs @ [z] else take (nat capacity) xs,
      if int (length xs) < capacity then U_ZERO_ERROR
      else if int (length xs) = capacity then U_STRING_NOT_TERMINATED_WARNING else U_BUFFER_OVERFLOW_ERROR)"

lemma uchar_view_empty: "16 \<le> LENGTH('w) \<Longrightarrow> uchar_view native (s :: 'w::len word list) = [] \<longleftrightarrow> s = []"
  by (cases s) (auto simp: uchar_view_def uchars_def Let_def)

locale icu_converters =
  fixes u :: "('w::len word, 'z) icu_conv_scheme" and utf16 :: "string \<Rightarrow> 16 word list" and utf8 :: "16 word list \<Rightarrow> string"
  assumes opens: "n \<in> {''utf-8'', ''UTF-8'', ''UTF-32''} \<Longrightarrow> ucnv_open u n U_ZERO_ERROR = (Some n, U_ZERO_ERROR)"
    and null_converter: "conv_toUChars u None capacity s U_ZERO_ERROR = (0, [], U_ILLEGAL_ARGUMENT_ERROR)"
    and to_uchars: "0 \<le> capacity \<Longrightarrow> length (utf16 s) \<le> max_int32_t \<Longrightarrow>
        conv_toUChars u (Some ''utf-8'') capacity s U_ZERO_ERROR = handed_over 0 capacity (utf16 s)"
    and from_uchars: "n \<in> {''utf-8'', ''UTF-8''} \<Longrightarrow> 0 \<le> capacity \<Longrightarrow> length (utf8 us) \<le> max_int32_t \<Longrightarrow>
        ucnv_fromUChars u (Some n) capacity us U_ZERO_ERROR = handed_over NUL capacity (utf8 us)"
    and scalars: "list_all is_scalar cps \<Longrightarrow> utf16 (utf8_text cps) = utf16_text cps"
        "list_all is_scalar cps \<Longrightarrow> utf8 (utf16_text cps) = utf8_text cps"
    and no_null: "NUL \<notin> set s \<Longrightarrow> 0 \<notin> set (utf16 s)"
    and nothing_dropped: "utf8 us = [] \<longleftrightarrow> us = []"
begin

text \<open>Without a converter every conversion fails.\<close>

lemma convert_fails: "\<exists>msg. convert_utf8_to_uchar u src capacity = Raise (Thrown_string msg)"
  by (simp add: convert_utf8_to_uchar_def null_converter)

text \<open>The text in UTF-16 has exactly the size of its array, which therefore has no null.\<close>

lemma to_wstring_undefined:
  assumes "length (utf16 (takeWhile (\<lambda>c. c \<noteq> NUL) s)) \<le> max_int32_t"
  shows "icu_to_wstring u s = Undef"
proof -
  have "NUL \<notin> set (takeWhile (\<lambda>c. c \<noteq> NUL) s)" by (auto dest: set_takeWhileD)
  then show ?thesis using assms no_null by (simp add: icu_to_wstring_def opens to_uchars handed_over_def)
qed

lemma utf16_converted:
  assumes "length s \<le> max_int32_t" "length (utf8 (uchar_view native s)) < max_int32_t"
  shows "utf16_to_utf8 u native s = Ret (utf8 (uchar_view native s))"
  using assms by (simp add: utf16_to_utf8_def opens from_uchars handed_over_def Let_def)

lemma utf32_converted:
  assumes "length s \<le> max_int32_t" "length (utf8 (uchar_view native s)) < max_int32_t" "16 \<le> LENGTH('w)"
  shows "utf32_to_utf8 u native s =
     (if s = [] then Ret []
      else Raise (Thrown_string ''pd::icu_util::utf32_to_utf8: Failed to calculate buffer size for UTF-8 string.''))"
proof -
  have e: "utf8 (uchar_view native s) = [] \<longleftrightarrow> s = []"
    using nothing_dropped uchar_view_empty [OF assms(3)] by blast
  show ?thesis
  proof (cases "s = []")
    case True
    then show ?thesis using e assms by (simp add: utf32_to_utf8_def opens from_uchars handed_over_def Let_def)
  next
    case False
    then have "utf8 (uchar_view native s) \<noteq> []" using e by simp
    then show ?thesis using False assms by (simp add: utf32_to_utf8_def opens from_uchars handed_over_def Let_def)
  qed
qed

end

text \<open>The decoders of theory Unicode behind the interface of ICU.\<close>

definition ref_conv :: "'w::len word icu_conv" where
  "ref_conv =
     \<lparr>ucnv_open = (\<lambda>n status. if U_FAILURE status then (None, status) else (Some n, status)),
      conv_toUChars = (\<lambda>conv capacity s status.
        if U_FAILURE status then (0, [], status)
        else if conv = None \<or> capacity < 0 then (0, [], U_ILLEGAL_ARGUMENT_ERROR)
        else handed_over 0 capacity (utf8_to_utf16 s)),
      ucnv_fromUChars = (\<lambda>conv capacity us status.
        if U_FAILURE status then (0, [], status)
        else if conv = None \<or> capacity < 0 then (0, [], U_ILLEGAL_ARGUMENT_ERROR)
        else handed_over NUL capacity (utf16_to_chars us)),
      u_strToWCS = (\<lambda>capacity us status.
        if U_FAILURE status then ([], status) else snd (handed_over 0 capacity (map ucast us)))\<rparr>"

interpretation ref_conv: icu_converters ref_conv utf8_to_utf16 utf16_to_chars
  by unfold_locales
    (auto simp: ref_conv_def conversions_of_scalars utf8_to_utf16_no_nul utf16_to_chars_empty)

section \<open>Narrow and wide strings\<close>

lemma uchar_view_16: "uchar_view native (s :: 16 word list) = s"
proof -
  have "uchars native (c :: 16 word) = [c]" for c by (simp add: uchars_def Let_def)
  then have "concat (map (uchars native) s) = s" by (induction s) auto
  then show ?thesis by (simp add: uchar_view_def)
qed

lemma utf16_shorter: "length (utf16_text cps) \<le> length (utf8_text cps)"
proof (induction cps)
  case (Cons n cps)
  have "length (utf16_of n) \<le> length (utf8_of n)" by (simp add: utf16_of_def utf8_of_def)
  with Cons show ?case by (simp add: utf16_text_def utf8_text_def)
qed (simp add: utf16_text_def)

text \<open>
  C38: Where wide characters have 16 bits, a wide string that holds the UTF-16 form of a sequence of Unicode scalar
  values is converted to the UTF-8 form of the same values. Elsewhere a wide string is converted only when it is empty:
  the measuring call reports, as documented, that its buffer of size zero is too small, and this is taken for a
  failure.
\<close>

theorem wide_to_narrow:
  assumes "icu_converters (u :: (16 word, 'z) icu_conv_scheme) utf16 utf8" "icu_converters (v :: (32 word, 'z) icu_conv_scheme) utf16 utf8"
    and "list_all is_scalar cps" "length (utf8_text cps) < max_int32_t"
    and "length s \<le> max_int32_t" "length (utf8 (uchar_view native s)) < max_int32_t"
  shows "wstring_to_string u True native (utf16_text cps) = Ret (utf8_text cps)
    \<and> wstring_to_string v False native s =
        (if s = [] then Ret []
         else Raise (Thrown_string ''pd::icu_util::utf32_to_utf8: Failed to calculate buffer size for UTF-8 string.''))"
proof
  have "utf16_to_utf8 u native (utf16_text cps) = Ret (utf8 (uchar_view native (utf16_text cps)))"
    using assms(3,4) utf16_shorter [of cps]
    by (intro icu_converters.utf16_converted [OF assms(1)]) (simp_all add: uchar_view_16 icu_converters.scalars [OF assms(1)])
  then show "wstring_to_string u True native (utf16_text cps) = Ret (utf8_text cps)"
    using assms(3) by (simp add: wstring_to_string_def uchar_view_16 icu_converters.scalars [OF assms(1)])
  show "wstring_to_string v False native s =
      (if s = [] then Ret []
       else Raise (Thrown_string ''pd::icu_util::utf32_to_utf8: Failed to calculate buffer size for UTF-8 string.''))"
    unfolding wstring_to_string_def using icu_converters.utf32_converted [OF assms(2,5,6)] by simp
qed

theorem wide_to_narrow_witness:
  "wstring_to_string (ref_conv :: 16 word icu_conv) True little (utf16_text [0x41, 0xE9, 0x1F600]) = Ret (utf8_text [0x41, 0xE9, 0x1F600])
   \<and> wstring_to_string (ref_conv :: 32 word icu_conv) False little [0x41] =
       Raise (Thrown_string ''pd::icu_util::utf32_to_utf8: Failed to calculate buffer size for UTF-8 string.'')"
proof -
  have "list_all is_scalar [0x41, 0xE9, 0x1F600]" by (simp add: is_scalar_def)
  moreover have "length (utf8_text [0x41, 0xE9, 0x1F600]) < max_int32_t" by (simp add: utf8_text_def utf8_of_def max_int32_t_def)
  moreover have "length [0x41 :: 32 word] \<le> max_int32_t" by (simp add: max_int32_t_def)
  moreover have "uchar_view little [0x41 :: 32 word] = [0x41]" by code_simp
  then have "length (utf16_to_chars (uchar_view little [0x41 :: 32 word])) < max_int32_t"
    by (simp add: utf16_to_chars_def lone_def is_scalar_def utf8_text_def utf8_of_def max_int32_t_def)
  ultimately show ?thesis
    using wide_to_narrow [OF ref_conv.icu_converters_axioms ref_conv.icu_converters_axioms, of "[0x41, 0xE9, 0x1F600]" "[0x41]" little]
    by simp
qed

text \<open>
  The conversion of a narrow string to a wide one has undefined behaviour for every text whose UTF-16 form has a
  length that fits 32 bits: the array that takes this form has no room for the null up to which it is read. The other
  conversions use no converter, and fail. So reading a file on Windows, which needs its name as a wide string, has
  undefined behaviour too.
\<close>

theorem narrow_to_wide:
  assumes "icu_converters (u :: ('w::len word, 'z) icu_conv_scheme) utf16 utf8"
    and "length (utf16 (takeWhile (\<lambda>c. c \<noteq> NUL) s)) \<le> max_int32_t"
  shows "to_wstring u s = Undef \<and> windows_read_file u f g h m s = Undef
    \<and> (\<exists>msg. char_ptr_to_uchar_ptr u s = Raise (Thrown_string msg))
    \<and> (\<exists>msg. utf8_char_ptr_to_wchar_t_ptr u s out = Raise (Thrown_string msg))"
proof -
  have "to_wstring u s = Undef"
    unfolding to_wstring_def by (rule icu_converters.to_wstring_undefined [OF assms])
  moreover obtain msg where "convert_utf8_to_uchar u s (int BUFFER_SIZE) = Raise (Thrown_string msg)"
    using icu_converters.convert_fails [OF assms(1)] by blast
  ultimately show ?thesis
    by (simp add: windows_read_file_def char_ptr_to_uchar_ptr_def utf8_char_ptr_to_wchar_t_ptr_def)
qed

theorem narrow_to_wide_witness: "to_wstring (ref_conv :: 32 word icu_conv) ''ab'' = Undef"
proof -
  have "length (utf8_to_utf16 (takeWhile (\<lambda>c. c \<noteq> NUL) ''ab'')) \<le> max_int32_t"
    by (simp add: utf8_to_utf16_def NUL_def code_def utf8_next_def trailing_def is_scalar_def utf8_of_def utf16_text_def utf16_of_def max_int32_t_def)
  then show ?thesis using narrow_to_wide [OF ref_conv.icu_converters_axioms] by blast
qed

end
