(* ===== verification/Binary64.thy ===== *)
theory Binary64
  imports Complex_Main Cpp_Std
begin

text \<open>
  The arithmetic of \<open>double\<close> as IEEE 754 defines it for the binary64 format: every operation gives the exact result, rounded to
  the nearest number of 53 binary digits, to the even one of two that are equally near; below \<open>2 ^ (- 1022)\<close> the numbers are the
  multiples of \<open>2 ^ (- 1074)\<close>, and from \<open>2 ^ 1024\<close> on the result is infinite. A zero has no sign here; the sign would only show in
  a division by zero. Operations are not contracted.
\<close>

datatype double_value = NaN | Infinity bool | Finite real

section \<open>Rounding\<close>

text \<open>To the nearest integer, and to the even one when two are equally near.\<close>

definition nearest_even :: "real \<Rightarrow> int" where
  "nearest_even y =
     (let f = \<lfloor>y\<rfloor> in if y - of_int f < 1 / 2 then f else if 1 / 2 < y - of_int f then f + 1 else if even f then f else f + 1)"

text \<open>The exponent of the last digit of a number.\<close>

definition last_digit :: "real \<Rightarrow> int" where "last_digit x = max (\<lfloor>log 2 \<bar>x\<bar>\<rfloor> - 52) (- 1074)"

definition rounded :: "real \<Rightarrow> real" where
  "rounded x = of_int (nearest_even (x / 2 powr of_int (last_digit x))) * 2 powr of_int (last_digit x)"

definition round64 :: "real \<Rightarrow> double_value" where
  "round64 x = (if \<bar>rounded x\<bar> < 2 ^ 1024 then Finite (rounded x) else Infinity (0 < x))"

lemma nearest_even_error: "\<bar>of_int (nearest_even y) - y\<bar> \<le> 1 / 2"
  using floor_correct [of y] by (auto simp: nearest_even_def Let_def abs_le_iff)

lemma nearest_even_near: "\<bar>y - of_int m\<bar> < 1 / 2 \<Longrightarrow> nearest_even y = m"
  using nearest_even_error [of y] by linarith

lemma nearest_even_int [simp]: "nearest_even (of_int m) = m"
  by (rule nearest_even_near) simp

lemma rounded_zero [simp]: "rounded 0 = 0"
  using nearest_even_int [of 0] by (simp add: rounded_def)

text \<open>Half of the last digit is at most the \<open>2 ^ (- 53)\<close>-th part of a number, or \<open>2 ^ (- 1075)\<close>.\<close>

lemma last_digit_bound:
  assumes "x \<noteq> 0"
  shows "2 powr of_int (last_digit x) \<le> 2 * (\<bar>x\<bar> / 2 ^ 53 + 1 / 2 ^ 1075)"
proof -
  have "2 powr of_int \<lfloor>log 2 \<bar>x\<bar>\<rfloor> \<le> 2 powr log 2 \<bar>x\<bar>" by simp
  also have "\<dots> = \<bar>x\<bar>" using assms by simp
  finally have "2 powr of_int (\<lfloor>log 2 \<bar>x\<bar>\<rfloor> - 52) \<le> \<bar>x\<bar> / 2 ^ 52" by (simp add: powr_diff divide_right_mono)
  moreover have "2 powr of_int (- 1074 :: int) = (1 / 2 ^ 1074 :: real)" by (simp add: powr_minus powr_numeral inverse_eq_divide)
  ultimately show ?thesis by (auto simp: last_digit_def max_def)
qed

lemma rounded_error: "\<bar>rounded x - x\<bar> \<le> \<bar>x\<bar> / 2 ^ 53 + 1 / 2 ^ 1075"
proof (cases "x = 0")
  case False
  let ?u = "2 powr of_int (last_digit x) :: real"
  have "rounded x - x = (of_int (nearest_even (x / ?u)) - x / ?u) * ?u" by (simp add: rounded_def field_simps)
  then have "\<bar>rounded x - x\<bar> = \<bar>of_int (nearest_even (x / ?u)) - x / ?u\<bar> * ?u" by (simp add: abs_mult)
  also have "\<dots> \<le> 1 / 2 * ?u" by (intro mult_right_mono nearest_even_error) simp
  also have "\<dots> \<le> \<bar>x\<bar> / 2 ^ 53 + 1 / 2 ^ 1075" using last_digit_bound [OF False] by simp
  finally show ?thesis .
qed simp

lemma round64_rounded:
  assumes "\<bar>x\<bar> \<le> 2 ^ 200"
  shows "round64 x = Finite (rounded x)"
proof -
  have "\<bar>rounded x\<bar> \<le> \<bar>x\<bar> + (\<bar>x\<bar> / 2 ^ 53 + 1 / 2 ^ 1075)" using rounded_error [of x] by linarith
  also have "\<dots> \<le> 2 ^ 200 + (2 ^ 200 / 2 ^ 53 + 1 / 2 ^ 1075)" using assms by (intro add_mono divide_right_mono) simp_all
  also have "\<dots> < 2 ^ 1024" by (simp add: field_simps)
  finally show ?thesis by (simp add: round64_def)
qed

lemma nearest_even_tie: "nearest_even (of_int f + 1 / 2) = (if even f then f else f + 1)"
proof -
  have "\<lfloor>of_int f + 1 / 2 :: real\<rfloor> = f" by linarith
  then show ?thesis by (simp add: nearest_even_def)
qed

text \<open>A number below two whose first digit is known.\<close>

lemma round64_small:
  assumes "1 \<le> \<bar>x\<bar> * 2 ^ j" "\<bar>x\<bar> * 2 ^ j < 2" "j \<le> 1022" "nearest_even (x * 2 ^ (52 + j)) = m"
  shows "round64 x = Finite (of_int m / 2 ^ (52 + j))"
proof -
  have p: "2 powr (- real n) = (1 / 2 ^ n :: real)" for n by (simp add: powr_minus powr_realpow inverse_eq_divide)
  have "0 < \<bar>x\<bar>" using assms(1) by (cases "x = 0") auto
  moreover have "2 powr real_of_int (- int j) \<le> \<bar>x\<bar>" using assms(1) by (simp add: p field_simps)
  moreover have "\<bar>x\<bar> < 2 powr real_of_int (- int j + 1)" using assms(2) by (simp add: powr_diff powr_realpow field_simps)
  ultimately have "\<lfloor>log 2 \<bar>x\<bar>\<rfloor> = - int j" by (subst floor_log_eq_powr_iff) simp_all
  then have "last_digit x = - int (52 + j)" using assms(3) by (simp add: last_digit_def)
  then have e: "2 powr real_of_int (last_digit x) = (1 / 2 ^ (52 + j) :: real)" using p [of "52 + j"] by simp
  have "\<bar>x\<bar> * 1 \<le> \<bar>x\<bar> * 2 ^ j" by (intro mult_left_mono) simp_all
  also have "\<dots> \<le> 2 ^ 200" using assms(2) by simp
  finally have "round64 x = Finite (rounded x)" by (intro round64_rounded) simp
  also have "rounded x = of_int m / 2 ^ (52 + j)" unfolding rounded_def e using assms(4) by simp
  finally show ?thesis .
qed

lemma round64_near:
  assumes "1 \<le> \<bar>x\<bar> * 2 ^ j" "\<bar>x\<bar> * 2 ^ j < 2" "j \<le> 1022" "\<bar>x * 2 ^ (52 + j) - of_int m\<bar> < 1 / 2" "y = of_int m / 2 ^ (52 + j)"
  shows "round64 x = Finite y"
  unfolding assms(5) by (rule round64_small [OF assms(1-3) nearest_even_near [OF assms(4)]])

text \<open>Integers of at most 53 digits are numbers of the format.\<close>

lemma rounded_multiple:
  assumes "x = of_int m * 2 powr of_int (last_digit x)"
  shows "rounded x = x"
proof -
  have "x / 2 powr of_int (last_digit x) = of_int m" using assms by (metis nonzero_mult_div_cancel_right powr_eq_0_iff zero_neq_numeral)
  then show ?thesis using assms by (simp add: rounded_def)
qed

lemma rounded_int:
  assumes "\<bar>i\<bar> \<le> 2 ^ 53"
  shows "rounded (of_int i) = of_int i"
proof (cases "i = 0")
  case False
  have "1 \<le> \<bar>i\<bar>" using False by simp
  then have pos: "1 \<le> \<bar>real_of_int i\<bar>" by linarith
  then have "0 \<le> log 2 \<bar>real_of_int i\<bar>" by simp
  then have e: "last_digit (of_int i) = \<lfloor>log 2 \<bar>real_of_int i\<bar>\<rfloor> - 52" by (simp add: last_digit_def)
  have "\<bar>real_of_int i\<bar> \<le> 2 ^ 53" using assms by (metis of_int_abs of_int_le_iff of_int_numeral of_int_power)
  show ?thesis
  proof (cases "\<bar>i\<bar> = 2 ^ 53")
    case True
    then have "\<bar>real_of_int i\<bar> = 2 ^ 53" by (metis of_int_abs of_int_numeral of_int_power)
    then have "last_digit (of_int i) = 1" using e log_pow_cancel [of 2 53] by simp
    moreover have "i = sgn i * 2 ^ 52 * 2" using True by (simp add: sgn_if abs_if split: if_splits)
    then have "real_of_int i = of_int (sgn i * 2 ^ 52) * 2" by (metis of_int_mult of_int_numeral)
    ultimately show ?thesis by (intro rounded_multiple [of _ "sgn i * 2 ^ 52"]) (simp only: of_int_1 powr_one zero_le_numeral)
  next
    case False
    then have "\<bar>i\<bar> < 2 ^ 53" using assms by simp
    then have "\<bar>real_of_int i\<bar> < 2 ^ 53" by (metis of_int_abs of_int_less_iff of_int_numeral of_int_power)
    then have "log 2 \<bar>real_of_int i\<bar> < 53" using pos by (subst log_less_iff) (simp_all add: powr_numeral)
    then have "last_digit (of_int i) \<le> 0" unfolding e by linarith
    then obtain n where n: "last_digit (of_int i) = - int n" by (metis minus_minus neg_0_le_iff_le nonneg_int_cases)
    show ?thesis
      by (rule rounded_multiple [of _ "i * 2 ^ n"]) (simp add: n powr_minus powr_realpow)
  qed
qed simp

lemma round64_int: "\<bar>i\<bar> \<le> 2 ^ 53 \<Longrightarrow> round64 (of_int i) = Finite (of_int i)"
proof -
  assume i: "\<bar>i\<bar> \<le> 2 ^ 53"
  then have "\<bar>real_of_int i\<bar> \<le> 2 ^ 53" by (metis of_int_abs of_int_le_iff of_int_numeral of_int_power)
  also have "\<dots> \<le> 2 ^ 200" by simp
  finally show ?thesis using round64_rounded rounded_int [OF i] by simp
qed

section \<open>Operations\<close>

fun double_add :: "double_value \<Rightarrow> double_value \<Rightarrow> double_value" where
  "double_add (Finite x) (Finite y) = round64 (x + y)"
| "double_add (Infinity a) (Infinity b) = (if a = b then Infinity a else NaN)"
| "double_add (Infinity a) (Finite y) = Infinity a"
| "double_add (Finite x) (Infinity b) = Infinity b"
| "double_add _ _ = NaN"

fun double_neg :: "double_value \<Rightarrow> double_value" where
  "double_neg (Finite x) = Finite (- x)"
| "double_neg (Infinity a) = Infinity (\<not> a)"
| "double_neg NaN = NaN"

fun double_mul :: "double_value \<Rightarrow> double_value \<Rightarrow> double_value" where
  "double_mul (Finite x) (Finite y) = round64 (x * y)"
| "double_mul (Infinity a) (Infinity b) = Infinity (a = b)"
| "double_mul (Infinity a) (Finite y) = (if y = 0 then NaN else Infinity (a = (0 < y)))"
| "double_mul (Finite x) (Infinity b) = (if x = 0 then NaN else Infinity ((0 < x) = b))"
| "double_mul _ _ = NaN"

fun double_div :: "double_value \<Rightarrow> double_value \<Rightarrow> double_value" where
  "double_div (Finite x) (Finite y) = (if y = 0 then (if x = 0 then NaN else Infinity (0 < x)) else round64 (x / y))"
| "double_div (Infinity a) (Finite y) = Infinity (a = (0 \<le> y))"
| "double_div (Finite x) (Infinity b) = Finite 0"
| "double_div _ _ = NaN"

fun double_sqrt :: "double_value \<Rightarrow> double_value" where
  "double_sqrt (Finite x) = (if x < 0 then NaN else round64 (sqrt x))"
| "double_sqrt (Infinity a) = (if a then Infinity a else NaN)"
| "double_sqrt NaN = NaN"

fun double_lt :: "double_value \<Rightarrow> double_value \<Rightarrow> bool" where
  "double_lt (Finite x) (Finite y) \<longleftrightarrow> x < y"
| "double_lt (Infinity a) (Infinity b) \<longleftrightarrow> \<not> a \<and> b"
| "double_lt (Infinity a) (Finite y) \<longleftrightarrow> \<not> a"
| "double_lt (Finite x) (Infinity b) \<longleftrightarrow> b"
| "double_lt _ _ \<longleftrightarrow> False"

definition double_eq :: "double_value \<Rightarrow> double_value \<Rightarrow> bool" where
  "double_eq x y \<longleftrightarrow> x \<noteq> NaN \<and> x = y"

end
