(* ===== verification/Statistic.thy ===== *)
theory Statistic
  imports Binary64 Bytes
begin

text \<open>
  statistic.hpp: the standard deviation of a collection of numbers in one pass. The arithmetic of \<open>double\<close> is an
  argument, the record \<open>float_ops\<close> of theory Bytes with the conversions and the square root; the theorem is about the arithmetic
  of theory Binary64.
\<close>

record 'd math_ops = "'d float_ops" +
  double_zero :: 'd
  double_of_size :: "64 word \<Rightarrow> 'd"
  math_sqrt :: "'d \<Rightarrow> 'd"
  quiet_NaN :: 'd

record 'd Accumulator =
  sum_x :: 'd
  sum_x2 :: 'd
  acc_n :: "64 word"

definition Accumulator_new :: "('d, 'z) math_ops_scheme \<Rightarrow> 'd Accumulator" where
  "Accumulator_new fp = \<lparr>sum_x = double_zero fp, sum_x2 = double_zero fp, acc_n = 0\<rparr>"

text \<open>The function given to \<open>std::accumulate\<close>; \<open>to_double\<close> is the conversion of the elements.\<close>

definition accumulate_value :: "('d, 'z) math_ops_scheme \<Rightarrow> ('v \<Rightarrow> 'd) \<Rightarrow> 'd Accumulator \<Rightarrow> 'v \<Rightarrow> 'd Accumulator" where
  "accumulate_value fp to_double acc x =
     (let dx = to_double x;
          acc = acc\<lparr>sum_x := fadd fp (sum_x acc) dx\<rparr>;
          acc = acc\<lparr>sum_x2 := fadd fp (sum_x2 acc) (fmul fp dx dx)\<rparr>
      in acc\<lparr>acc_n := acc_n acc + 1\<rparr>)"

definition standard_deviation :: "('d, 'z) math_ops_scheme \<Rightarrow> ('v \<Rightarrow> 'd) \<Rightarrow> 'v list \<Rightarrow> 'd" where
  "standard_deviation fp to_double xs =
     (let result = foldl (accumulate_value fp to_double) (Accumulator_new fp) xs in
      if acc_n result = 0 then quiet_NaN fp
      else
        let mean = fdiv fp (sum_x result) (double_of_size fp (acc_n result));
            variance = fsub fp (fdiv fp (sum_x2 result) (double_of_size fp (acc_n result))) (fmul fp mean mean)
        in math_sqrt fp variance)"

section \<open>The numbers of the machine\<close>

definition double_ops :: "double_value math_ops" where
  "double_ops =
     \<lparr>fadd = double_add, fsub = (\<lambda>x y. double_add x (double_neg y)), fmul = double_mul, fdiv = double_div, feq = double_eq, flt = double_lt,
      double_zero = Finite 0, double_of_size = (\<lambda>n. round64 (real (unat n))), math_sqrt = double_sqrt, quiet_NaN = NaN\<rparr>"

text \<open>The conversion of integers.\<close>

definition double_of_int :: "int \<Rightarrow> double_value" where "double_of_int i = round64 (of_int i)"

section \<open>Mean and variance\<close>

definition mean_of :: "real list \<Rightarrow> real" where "mean_of xs = sum_list xs / real (length xs)"

text \<open>The mean of the squared distances to the mean.\<close>

definition variance_of :: "real list \<Rightarrow> real" where
  "variance_of xs = mean_of (map (\<lambda>x. (x - mean_of xs)\<^sup>2) xs)"

lemma variance_of_squares:
  assumes "xs \<noteq> []"
  shows "variance_of xs = (\<Sum>x\<leftarrow>xs. x * x) / real (length xs) - mean_of xs * mean_of xs"
proof -
  let ?m = "mean_of xs"
  have "(\<Sum>x\<leftarrow>ys. (x - m)\<^sup>2) = (\<Sum>x\<leftarrow>ys. x * x) - 2 * m * sum_list ys + real (length ys) * (m * m)" for ys :: "real list" and m
    by (induction ys) (auto simp: power2_eq_square algebra_simps)
  then have "variance_of xs = ((\<Sum>x\<leftarrow>xs. x * x) - 2 * ?m * sum_list xs + real (length xs) * (?m * ?m)) / real (length xs)"
    by (simp add: variance_of_def mean_of_def [of "map _ xs"])
  also have "\<dots> = (\<Sum>x\<leftarrow>xs. x * x) / real (length xs) - 2 * ?m * ?m + ?m * ?m"
    using assms by (simp add: mean_of_def add_divide_distrib diff_divide_distrib)
  finally show ?thesis by simp
qed

lemma variance_of_nonneg: "0 \<le> variance_of xs"
  by (auto simp: variance_of_def mean_of_def intro!: divide_nonneg_nonneg sum_list_nonneg)

lemma variance_of_zero: "xs \<noteq> [] \<Longrightarrow> variance_of xs = 0 \<longleftrightarrow> (\<forall>x \<in> set xs. x = mean_of xs)"
proof -
  assume "xs \<noteq> []"
  then have "variance_of xs = 0 \<longleftrightarrow> (\<Sum>x\<leftarrow>xs. (x - mean_of xs)\<^sup>2) = 0" by (simp add: variance_of_def mean_of_def [of "map _ xs"])
  also have "\<dots> \<longleftrightarrow> (\<forall>y \<in> set (map (\<lambda>x. (x - mean_of xs)\<^sup>2) xs). y = 0)" by (rule sum_list_nonneg_eq_0_iff) auto
  finally show ?thesis by simp
qed

section \<open>Sums of integers\<close>

lemma abs_le_square: "\<bar>i\<bar> \<le> i * i" for i :: int
  using mult_left_mono [of 1 "\<bar>i\<bar>" "\<bar>i\<bar>"] by (cases "i = 0") simp_all

lemma accumulate_int:
  assumes "sum_x acc = Finite (of_int s)" "sum_x2 acc = Finite (of_int q)" "\<bar>s\<bar> \<le> q" "q + x * x \<le> 2 ^ 53"
  shows "accumulate_value double_ops double_of_int acc x =
     \<lparr>sum_x = Finite (of_int (s + x)), sum_x2 = Finite (of_int (q + x * x)), acc_n = acc_n acc + 1\<rparr>"
proof -
  have b: "\<bar>x\<bar> \<le> 2 ^ 53" "\<bar>s + x\<bar> \<le> 2 ^ 53" "\<bar>x * x\<bar> \<le> 2 ^ 53" "\<bar>q + x * x\<bar> \<le> 2 ^ 53"
    using assms(3,4) abs_le_square [of x] by linarith+
  show ?thesis
    using assms(1,2) round64_int [OF b(1)] round64_int [OF b(2)] round64_int [OF b(3)] round64_int [OF b(4)]
    by (simp add: accumulate_value_def double_ops_def double_of_int_def Let_def)
qed

lemma accumulated_ints:
  assumes "sum_x acc = Finite (of_int s)" "sum_x2 acc = Finite (of_int q)" "\<bar>s\<bar> \<le> q" "q + (\<Sum>x\<leftarrow>xs. x * x) \<le> 2 ^ 53"
  shows "foldl (accumulate_value double_ops double_of_int) acc xs =
     \<lparr>sum_x = Finite (of_int (s + sum_list xs)), sum_x2 = Finite (of_int (q + (\<Sum>x\<leftarrow>xs. x * x))),
      acc_n = acc_n acc + word_of_nat (length xs)\<rparr>"
  using assms
proof (induction xs arbitrary: acc s q)
  case (Cons x xs)
  have "0 \<le> (\<Sum>x\<leftarrow>xs. x * x)" by (intro sum_list_nonneg) auto
  with Cons.prems have step: "accumulate_value double_ops double_of_int acc x =
     \<lparr>sum_x = Finite (of_int (s + x)), sum_x2 = Finite (of_int (q + x * x)), acc_n = acc_n acc + 1\<rparr>"
    by (intro accumulate_int) simp_all
  have "\<bar>s + x\<bar> \<le> q + x * x" using Cons.prems(3) abs_le_square [of x] by linarith
  with Cons.prems(4) show ?case
    unfolding foldl_Cons step by (subst Cons.IH [of _ "s + x" "q + x * x"]) (simp_all add: algebra_simps)
qed simp

text \<open>What is computed from the sums.\<close>

definition variance64 :: "real \<Rightarrow> real \<Rightarrow> real" where
  "variance64 q \<mu> = rounded (rounded q - rounded (rounded \<mu> * rounded \<mu>))"

definition square_sum :: "int list \<Rightarrow> int" where "square_sum xs = (\<Sum>x\<leftarrow>xs. x * x)"

section \<open>The error of the variance\<close>

text \<open>The errors of the products and of the difference, over a bound \<open>u\<close> of the relative error and a bound \<open>h\<close> of the rest.\<close>

lemma square_error:
  fixes q r m \<mu> u h :: real
  assumes "\<mu> * \<mu> \<le> q" "\<bar>m - \<mu>\<bar> \<le> u * \<bar>\<mu>\<bar> + h" "0 \<le> u" "2 * u \<le> 1" "0 \<le> h" "h * \<bar>\<mu>\<bar> \<le> u * u * q" "h * h \<le> u * u * q"
  shows "\<bar>m * m - \<mu> * \<mu>\<bar> \<le> 2 * (u * q) + 5 * (u * u * q)"
proof -
  let ?r = "\<bar>\<mu>\<bar>" and ?d = "u * \<bar>\<mu>\<bar> + h"
  have d: "0 \<le> ?d" using assms(3,5) by simp
  have "\<bar>m * m - \<mu> * \<mu>\<bar> = \<bar>m - \<mu>\<bar> * \<bar>m + \<mu>\<bar>" by (simp flip: abs_mult add: algebra_simps)
  also have "\<dots> \<le> ?d * (2 * ?r + ?d)" using assms(2) d by (intro mult_mono) linarith+
  also have "\<dots> = 2 * (u * (?r * ?r)) + 2 * (h * ?r) + u * u * (?r * ?r) + 2 * u * (h * ?r) + h * h" by (simp add: algebra_simps)
  finally have e: "\<bar>m * m - \<mu> * \<mu>\<bar> \<le> 2 * (u * (?r * ?r)) + 2 * (h * ?r) + u * u * (?r * ?r) + 2 * u * (h * ?r) + h * h" .
  have "u * (?r * ?r) \<le> u * q" "u * u * (?r * ?r) \<le> u * u * q" using assms(1,3) by (simp_all add: mult_left_mono)
  moreover have "2 * u * (h * ?r) \<le> 1 * (u * u * q)" using mult_mono [OF assms(4,6)] assms(5) by simp
  ultimately show ?thesis using e assms(6,7) by linarith
qed

lemma difference_error:
  fixes q a m \<mu> p v u h :: real
  assumes "\<bar>a - q\<bar> \<le> u * q + h" "\<bar>m * m - \<mu> * \<mu>\<bar> \<le> 2 * (u * q) + 5 * (u * u * q)" "\<bar>p - m * m\<bar> \<le> u * (m * m) + h"
    "\<bar>v - (a - p)\<bar> \<le> u * \<bar>a - p\<bar> + h" "\<mu> * \<mu> \<le> q" "0 \<le> u" "16 * u \<le> 1" "h \<le> u * u * q"
  shows "\<bar>v - (q - \<mu> * \<mu>)\<bar> \<le> 6 * (u * q)"
proof -
  let ?T = "u * q" and ?W = "u * u * q"
  have q: "0 \<le> q" using assms(5) by (smt (verit) zero_le_square)
  have W: "0 \<le> ?W" using q assms(6) by simp
  have uW: "u * ?W \<le> ?W / 16" using mult_right_mono [OF assms(7) W] by simp
  have WT: "16 * ?W \<le> ?T" using mult_right_mono [OF assms(7), of "u * q"] q assms(6) by (simp add: algebra_simps)
  have "m * m \<le> q + 2 * ?T + 5 * ?W" using assms(2,5) by linarith
  from mult_left_mono [OF this assms(6)] have "u * (m * m) \<le> ?T + 2 * ?W + 5 * (u * ?W)" by (simp add: algebra_simps)
  with assms(3,8) uW W have p: "\<bar>p - m * m\<bar> \<le> ?T + 4 * ?W" by linarith
  with assms(1,2,8) have ap: "\<bar>a - p - (q - \<mu> * \<mu>)\<bar> \<le> 4 * ?T + 10 * ?W" by linarith
  with assms(5) have "\<bar>a - p\<bar> \<le> q + 4 * ?T + 10 * ?W" using zero_le_square [of \<mu>] by linarith
  from mult_left_mono [OF this assms(6)] have "u * \<bar>a - p\<bar> \<le> ?T + 4 * ?W + 10 * (u * ?W)" by (simp add: algebra_simps)
  with assms(4,8) uW W have "\<bar>v - (a - p)\<bar> \<le> ?T + 6 * ?W" by linarith
  with ap WT show ?thesis by linarith
qed

lemma variance64_error:
  assumes "\<mu> * \<mu> \<le> q" "1 / 2 ^ 53 \<le> q" "\<bar>\<mu>\<bar> \<le> 2 ^ 53"
  shows "\<bar>variance64 q \<mu> - (q - \<mu> * \<mu>)\<bar> \<le> 6 / 2 ^ 53 * q"
proof -
  let ?u = "1 / 2 ^ 53 :: real" and ?h = "1 / 2 ^ 1075 :: real"
  have u: "0 \<le> ?u" "2 * ?u \<le> 1" "16 * ?u \<le> 1" "0 \<le> ?h" by simp_all
  have err: "\<bar>rounded x - x\<bar> \<le> ?u * \<bar>x\<bar> + ?h" for x using rounded_error [of x] by simp
  have "?u * ?u * ?u \<le> ?u * ?u * q" using assms(2) by (intro mult_left_mono) simp_all
  moreover have "?h * 2 ^ 53 \<le> ?u * ?u * ?u" "?h * ?h \<le> ?u * ?u * ?u" "?h \<le> ?u * ?u * ?u" by (simp_all add: field_simps)
  moreover have "?h * \<bar>\<mu>\<bar> \<le> ?h * 2 ^ 53" using assms(3) by (intro mult_left_mono) simp_all
  ultimately have h: "?h * \<bar>\<mu>\<bar> \<le> ?u * ?u * q" "?h * ?h \<le> ?u * ?u * q" "?h \<le> ?u * ?u * q" by linarith+
  have "0 \<le> q" using assms(2) by (smt (verit) u(1))
  then have a: "\<bar>rounded q - q\<bar> \<le> ?u * q + ?h" using err [of q] by simp
  have p: "\<bar>rounded (rounded \<mu> * rounded \<mu>) - rounded \<mu> * rounded \<mu>\<bar> \<le> ?u * (rounded \<mu> * rounded \<mu>) + ?h"
    using err [of "rounded \<mu> * rounded \<mu>"] by (simp add: abs_mult_self_eq)
  have "\<bar>variance64 q \<mu> - (q - \<mu> * \<mu>)\<bar> \<le> 6 * (?u * q)"
    unfolding variance64_def
    by (rule difference_error [OF a square_error [OF assms(1) err u(1,2,4) h(1,2)] p err assms(1) u(1,3) h(3)])
  then show ?thesis by simp
qed

section \<open>The function on integers\<close>

lemma rounded_le: "\<bar>rounded x\<bar> \<le> 2 * \<bar>x\<bar> + 1"
proof -
  have "\<bar>x\<bar> / 2 ^ 53 \<le> \<bar>x\<bar>" "1 / 2 ^ 1075 \<le> (1 :: real)" by (simp_all add: field_simps)
  then show ?thesis using rounded_error [of x] by linarith
qed

text \<open>None of the operations on numbers of this size is out of range.\<close>

lemma variance_parts:
  assumes "\<bar>q\<bar> \<le> 2 ^ 53" "\<bar>\<mu>\<bar> \<le> 2 ^ 53"
  shows "\<bar>rounded q\<bar> \<le> 2 ^ 55" "\<bar>rounded \<mu> * rounded \<mu>\<bar> \<le> 2 ^ 110" "\<bar>rounded (rounded \<mu> * rounded \<mu>)\<bar> \<le> 2 ^ 112"
    "\<bar>variance64 q \<mu>\<bar> \<le> 2 ^ 115"
proof -
  have m: "\<bar>rounded \<mu>\<bar> \<le> 2 ^ 55" using rounded_le [of \<mu>] assms by simp
  then have "\<bar>rounded \<mu> * rounded \<mu>\<bar> \<le> 2 ^ 55 * 2 ^ 55" unfolding abs_mult by (intro mult_mono) simp_all
  then show mm: "\<bar>rounded \<mu> * rounded \<mu>\<bar> \<le> 2 ^ 110" by simp
  show q: "\<bar>rounded q\<bar> \<le> 2 ^ 55" using rounded_le [of q] assms by simp
  show p: "\<bar>rounded (rounded \<mu> * rounded \<mu>)\<bar> \<le> 2 ^ 112" using mm rounded_le [of "rounded \<mu> * rounded \<mu>"] by simp
  have "\<bar>rounded q - rounded (rounded \<mu> * rounded \<mu>)\<bar> \<le> 2 ^ 55 + 2 ^ 112"
    using abs_triangle_ineq4 [of "rounded q" "rounded (rounded \<mu> * rounded \<mu>)"] q p by linarith
  then show "\<bar>variance64 q \<mu>\<bar> \<le> 2 ^ 115"
    unfolding variance64_def using rounded_le [of "rounded q - rounded (rounded \<mu> * rounded \<mu>)"] by simp
qed

lemma double_variance:
  assumes "\<bar>q\<bar> \<le> 2 ^ 53" "\<bar>\<mu>\<bar> \<le> 2 ^ 53"
  shows "double_add (round64 q) (double_neg (double_mul (round64 \<mu>) (round64 \<mu>))) = Finite (variance64 q \<mu>)"
proof -
  note parts = variance_parts [OF assms]
  have "round64 q = Finite (rounded q)" "round64 \<mu> = Finite (rounded \<mu>)"
    using assms by (intro round64_rounded; simp)+
  moreover have "round64 (rounded \<mu> * rounded \<mu>) = Finite (rounded (rounded \<mu> * rounded \<mu>))"
    using parts(2) by (intro round64_rounded) simp
  moreover have "round64 (rounded q - rounded (rounded \<mu> * rounded \<mu>)) = Finite (variance64 q \<mu>)"
    unfolding variance64_def using parts(1,3) by (intro round64_rounded) simp
  ultimately show ?thesis by simp
qed

lemma sqrt_finite:
  assumes "\<bar>x\<bar> \<le> 2 ^ 115"
  shows "\<exists>d. round64 (sqrt x) = Finite d"
proof -
  have "\<bar>sqrt x\<bar> = sqrt \<bar>x\<bar>" by (cases "0 \<le> x") (simp_all add: real_sqrt_minus)
  also have "\<dots> \<le> sqrt ((2 ^ 200)\<^sup>2)" using assms by (intro real_sqrt_le_mono) simp
  finally have "\<bar>sqrt x\<bar> \<le> 2 ^ 200" by simp
  then show ?thesis using round64_rounded by blast
qed

lemma sum_le_squares: "\<bar>sum_list xs\<bar> \<le> square_sum xs"
  unfolding square_sum_def
proof (induction xs)
  case (Cons x xs)
  then show ?case using abs_le_square [of x] by simp
qed simp

lemma quotient_bound:
  assumes "\<bar>i\<bar> \<le> 2 ^ 53" "0 < (n :: nat)"
  shows "\<bar>real_of_int i / real n\<bar> \<le> 2 ^ 53"
proof -
  have "\<bar>real_of_int i / real n\<bar> \<le> \<bar>real_of_int i\<bar> / 1" unfolding abs_divide using assms(2) by (intro divide_left_mono) simp_all
  also have "\<dots> \<le> 2 ^ 53" using assms(1) by (metis div_by_1 of_int_abs of_int_le_iff of_int_numeral of_int_power)
  finally show ?thesis .
qed

lemma quotients:
  assumes "xs \<noteq> []" "square_sum xs \<le> 2 ^ 53"
  shows "\<bar>square_sum xs / real (length xs)\<bar> \<le> 2 ^ 53" "\<bar>of_int (sum_list xs) / real (length xs)\<bar> \<le> 2 ^ 53"
proof -
  have "\<bar>square_sum xs\<bar> \<le> 2 ^ 53" "\<bar>sum_list xs\<bar> \<le> 2 ^ 53" using sum_le_squares [of xs] assms(2) by linarith+
  then show "\<bar>square_sum xs / real (length xs)\<bar> \<le> 2 ^ 53" "\<bar>of_int (sum_list xs) / real (length xs)\<bar> \<le> 2 ^ 53"
    using assms(1) by (intro quotient_bound; simp)+
qed

lemma standard_deviation_ints:
  assumes "xs \<noteq> []" "square_sum xs \<le> 2 ^ 53" "length xs \<le> 2 ^ 53"
  shows "standard_deviation double_ops double_of_int xs =
     double_sqrt (Finite (variance64 (square_sum xs / real (length xs)) (of_int (sum_list xs) / real (length xs))))"
proof -
  have n: "unat (word_of_nat (length xs) :: 64 word) = length xs" using assms(3) by (simp add: unat_of_nat)
  then have r: "unsigned (word_of_nat (length xs) :: 64 word) = real (length xs)" using of_nat_unat by metis
  from n have z: "(word_of_nat (length xs) :: 64 word) \<noteq> 0" using assms(1) by (metis length_0_conv unat_0)
  have sums: "foldl (accumulate_value double_ops double_of_int) (Accumulator_new double_ops) xs =
      \<lparr>sum_x = Finite (of_int (sum_list xs)), sum_x2 = Finite (of_int (square_sum xs)), acc_n = word_of_nat (length xs)\<rparr>"
    using assms(2) by (subst accumulated_ints [of _ 0 0]) (simp_all add: Accumulator_new_def double_ops_def square_sum_def)
  have size: "double_of_size double_ops (word_of_nat (length xs)) = Finite (real (length xs))"
    using round64_int [of "int (length xs)"] assms(3) r by (simp add: double_ops_def)
  from double_variance [OF quotients [OF assms(1,2)]] show ?thesis
    unfolding standard_deviation_def sums Let_def using z size assms(1) by (simp add: double_ops_def)
qed

text \<open>Over the integers a variance that is not zero is not small.\<close>

lemma variance_of_ints:
  assumes "xs \<noteq> []"
  shows "variance_of (map real_of_int xs) = square_sum xs / real (length xs) - of_int (sum_list xs) / real (length xs) * (of_int (sum_list xs) / real (length xs))"
proof -
  have "sum_list (map real_of_int xs) = of_int (sum_list xs)" by (rule sum_list_of_int)
  moreover have "(\<Sum>x\<leftarrow>map real_of_int xs. x * x) = square_sum xs" unfolding square_sum_def by (induction xs) simp_all
  ultimately show ?thesis using variance_of_squares [of "map real_of_int xs"] assms by (simp add: mean_of_def)
qed

lemma variance_of_ints_bound:
  assumes "xs \<noteq> []" "variance_of (map real_of_int xs) \<noteq> 0"
  shows "1 \<le> variance_of (map real_of_int xs) * (real (length xs) * real (length xs))"
proof -
  let ?n = "real (length xs)" and ?i = "int (length xs) * square_sum xs - sum_list xs * sum_list xs"
  have n: "?n \<noteq> 0" using assms(1) by simp
  have i: "variance_of (map real_of_int xs) * (?n * ?n) = of_int ?i"
    using n unfolding variance_of_ints [OF assms(1)] by (simp add: field_simps)
  have "0 \<le> variance_of (map real_of_int xs) * (?n * ?n)" using variance_of_nonneg by (intro mult_nonneg_nonneg) simp_all
  moreover have "variance_of (map real_of_int xs) * (?n * ?n) \<noteq> 0" using assms(2) n by simp
  ultimately show ?thesis unfolding i of_int_0_le_iff of_int_eq_0_iff of_int_1_le_iff by linarith
qed

lemma variance64_equal:
  assumes "xs \<noteq> []" "square_sum xs \<le> 2 ^ 53" "\<forall>x \<in> set xs. x = c"
  shows "variance64 (square_sum xs / real (length xs)) (of_int (sum_list xs) / real (length xs)) = 0"
proof -
  have r: "xs = replicate (length xs) c" using assms(3) by (simp add: replicate_length_same)
  have s: "sum_list xs = int (length xs) * c" "square_sum xs = int (length xs) * (c * c)"
    by (subst r, simp add: sum_list_replicate square_sum_def)+
  have "1 * (c * c) \<le> int (length xs) * (c * c)" using assms(1) by (intro mult_right_mono) (simp_all add: Suc_le_eq)
  then have "\<bar>c * c\<bar> \<le> 2 ^ 53" "\<bar>c\<bar> \<le> 2 ^ 53" using assms(2) s(2) abs_le_square [of c] by linarith+
  then have "rounded (real_of_int c) = c" "rounded (real_of_int c * real_of_int c) = real_of_int c * real_of_int c"
    using rounded_int [of c] rounded_int [of "c * c"] by simp_all
  then show ?thesis using assms(1) by (simp add: variance64_def s)
qed

lemma variance64_ints:
  assumes "xs \<noteq> []" "square_sum xs \<le> 2 ^ 53" "length xs \<le> 2 ^ 53"
  shows "\<bar>variance64 (square_sum xs / real (length xs)) (of_int (sum_list xs) / real (length xs)) - variance_of (map real_of_int xs)\<bar>
     \<le> 6 / 2 ^ 53 * (square_sum xs / real (length xs))"
proof (cases "square_sum xs = 0")
  case True
  have "\<forall>x \<in> set xs. x = 0" using True unfolding square_sum_def by (subst (asm) sum_list_nonneg_eq_0_iff) auto
  then have "variance64 (square_sum xs / real (length xs)) (of_int (sum_list xs) / real (length xs)) = 0" by (rule variance64_equal [OF assms(1,2)])
  moreover have "sum_list xs = 0" using sum_le_squares [of xs] True by simp
  ultimately show ?thesis using True by (simp add: variance_of_ints [OF assms(1)])
next
  case False
  then have s: "1 \<le> square_sum xs" using sum_le_squares [of xs] by linarith
  have n: "0 < real (length xs)" "real (length xs) \<le> 2 ^ 53" using assms(1,3) by (simp_all flip: of_nat_le_iff)
  have "1 / 2 ^ 53 \<le> 1 / real (length xs)" using n by (intro divide_left_mono) simp_all
  also have "\<dots> \<le> square_sum xs / real (length xs)" using s n by (intro divide_right_mono) simp_all
  finally have q: "1 / 2 ^ 53 \<le> square_sum xs / real (length xs)" .
  from variance64_error [OF _ q quotients(2) [OF assms(1,2)]] show ?thesis
    using variance_of_nonneg [of "map real_of_int xs"] assms(1) unfolding variance_of_ints [OF assms(1)] by simp
qed

lemma variance64_nonneg:
  assumes "xs \<noteq> []" "square_sum xs \<le> 2 ^ 53" "length xs \<le> 2 ^ 53" "6 * int (length xs) * square_sum xs \<le> 2 ^ 53"
  shows "0 \<le> variance64 (square_sum xs / real (length xs)) (of_int (sum_list xs) / real (length xs))"
proof (cases "variance_of (map real_of_int xs) = 0")
  case True
  then have "\<forall>x \<in> set xs. real_of_int x = mean_of (map real_of_int xs)" using variance_of_zero assms(1) by auto
  moreover have "hd xs \<in> set xs" using assms(1) by simp
  ultimately have "\<forall>x \<in> set xs. x = hd xs" by (metis of_int_eq_iff)
  from variance64_equal [OF assms(1,2) this] show ?thesis by simp
next
  case False
  let ?n = "real (length xs)" and ?q = "square_sum xs / real (length xs)"
  have n: "0 < ?n * ?n" using assms(1) by simp
  have "of_int (6 * int (length xs) * square_sum xs) \<le> (2 ^ 53 :: real)"
    using assms(4) by (metis of_int_le_iff of_int_numeral of_int_power)
  then have "6 / 2 ^ 53 * ?q * (?n * ?n) \<le> 1" using n by (simp add: field_simps)
  also have "\<dots> \<le> variance_of (map real_of_int xs) * (?n * ?n)" by (rule variance_of_ints_bound [OF assms(1) False])
  finally have "6 / 2 ^ 53 * ?q \<le> variance_of (map real_of_int xs)" using n by (simp only: mult_le_cancel_right_pos)
  then show ?thesis using variance64_ints [OF assms(1-3)] by linarith
qed

section \<open>Three times one tenth\<close>

lemma tenth_steps:
  "round64 (1 / 10) = Finite (7205759403792794 / 2 ^ 56)"
  "round64 (7205759403792794 / 2 ^ 56) = Finite (7205759403792794 / 2 ^ 56)"
  "round64 (7205759403792794 / 2 ^ 56 + 7205759403792794 / 2 ^ 56) = Finite (7205759403792794 / 2 ^ 55)"
  "round64 (7205759403792794 / 2 ^ 55 + 7205759403792794 / 2 ^ 56) = Finite (5404319552844596 / 2 ^ 54)"
  "round64 (7205759403792794 / 2 ^ 56 * (7205759403792794 / 2 ^ 56)) = Finite (5764607523034236 / 2 ^ 59)"
  "round64 (5764607523034236 / 2 ^ 59) = Finite (5764607523034236 / 2 ^ 59)"
  "round64 (5764607523034236 / 2 ^ 59 + 5764607523034236 / 2 ^ 59) = Finite (5764607523034236 / 2 ^ 58)"
  "round64 (5764607523034236 / 2 ^ 58 + 5764607523034236 / 2 ^ 59) = Finite (8646911284551354 / 2 ^ 58)"
  "round64 (5404319552844596 / 2 ^ 54 / 3) = Finite (7205759403792795 / 2 ^ 56)"
  "round64 (8646911284551354 / 2 ^ 58 / 3) = Finite (5764607523034236 / 2 ^ 59)"
  "round64 (7205759403792795 / 2 ^ 56 * (7205759403792795 / 2 ^ 56)) = Finite (5764607523034237 / 2 ^ 59)"
  "round64 (5764607523034236 / 2 ^ 59 - 5764607523034237 / 2 ^ 59) = Finite (- (4503599627370496 / 2 ^ 111))"
  subgoal by (rule round64_near [of _ 4 7205759403792794]) simp_all
  subgoal by (rule round64_near [of _ 4 7205759403792794]) simp_all
  subgoal by (rule round64_near [of _ 3 7205759403792794]) simp_all
  subgoal
    using round64_small [of "7205759403792794 / 2 ^ 55 + 7205759403792794 / 2 ^ 56" 2 5404319552844596] nearest_even_tie [of 5404319552844595]
    by simp
  subgoal by (rule round64_near [of _ 7 5764607523034236]) simp_all
  subgoal by (rule round64_near [of _ 7 5764607523034236]) simp_all
  subgoal by (rule round64_near [of _ 6 5764607523034236]) simp_all
  subgoal by (rule round64_near [of _ 6 8646911284551354]) simp_all
  subgoal by (rule round64_near [of _ 4 7205759403792795]) simp_all
  subgoal by (rule round64_near [of _ 7 5764607523034236]) simp_all
  subgoal by (rule round64_near [of _ 7 5764607523034237]) simp_all
  subgoal by (rule round64_near [of _ 59 "- 4503599627370496"]) simp_all
  done

lemma three_negative:
  assumes "round64 t = Finite t" "round64 (t + t) = Finite s2" "round64 (s2 + t) = Finite s3"
    "round64 (t * t) = Finite w" "round64 w = Finite w" "round64 (w + w) = Finite w2" "round64 (w2 + w) = Finite w3"
    "round64 (s3 / 3) = Finite m" "round64 (w3 / 3) = Finite a" "round64 (m * m) = Finite p" "round64 (a - p) = Finite v" "v < 0"
  shows "standard_deviation double_ops id (replicate 3 (Finite t)) = NaN"
proof -
  have "round64 3 = Finite 3" using round64_int [of 3] by simp
  moreover have "replicate 3 (Finite t) = [Finite t, Finite t, Finite t]" by (simp add: numeral_3_eq_3)
  ultimately show ?thesis
    using assms by (simp add: standard_deviation_def accumulate_value_def Accumulator_new_def double_ops_def Let_def)
qed

lemma standard_deviation_tenths: "standard_deviation double_ops id (replicate 3 (round64 (1 / 10))) = NaN"
  unfolding tenth_steps(1) by (rule three_negative [OF tenth_steps(2-12)]) simp

section \<open>The standard deviation\<close>

text \<open>
  C39: For integers whose squares add up to at most \<open>2 ^ 53\<close>, in the arithmetic of \<open>double\<close>: the sums are exact, and the function gives
  the rounded square root of a number that differs from the mean of the squared distances to the mean by at most six times the
  \<open>2 ^ 53\<close>-th part of the mean of the squares. When that number is negative the result is not a number; it is not negative when
  the sum of the squares times the count is at most a sixth of \<open>2 ^ 53\<close>. Equal integers give zero, and no number at all gives not a
  number. Equal numbers that are not integers may give not a number: three times 0.1 does.
\<close>

theorem standard_deviation_double:
  assumes "square_sum xs \<le> 2 ^ 53" "length xs \<le> 2 ^ 53"
  shows "standard_deviation double_ops double_of_int [] = NaN
    \<and> (xs \<noteq> [] \<longrightarrow> (\<exists>v. standard_deviation double_ops double_of_int xs = (if v < 0 then NaN else round64 (sqrt v))
        \<and> \<bar>v - variance_of (map real_of_int xs)\<bar> \<le> 6 / 2 ^ 53 * (of_int (square_sum xs) / real (length xs))))
    \<and> (xs \<noteq> [] \<and> 6 * int (length xs) * square_sum xs \<le> 2 ^ 53 \<longrightarrow> (\<exists>d. standard_deviation double_ops double_of_int xs = Finite d))
    \<and> (xs \<noteq> [] \<and> (\<forall>x \<in> set xs. \<forall>y \<in> set xs. x = y) \<longrightarrow> standard_deviation double_ops double_of_int xs = Finite 0)
    \<and> standard_deviation double_ops id (replicate 3 (round64 (1 / 10))) = NaN"
proof (intro conjI impI; (elim conjE)?)
  let ?n = "real (length xs)" and ?q = "of_int (square_sum xs) / real (length xs)"
  let ?v = "variance64 ?q (of_int (sum_list xs) / ?n)" and ?var = "variance_of (map real_of_int xs)"
  show "standard_deviation double_ops double_of_int [] = NaN"
    by (simp add: standard_deviation_def Accumulator_new_def double_ops_def)
  show "standard_deviation double_ops id (replicate 3 (round64 (1 / 10))) = NaN" by (rule standard_deviation_tenths)
  assume ne: "xs \<noteq> []"
  note sd = standard_deviation_ints [OF ne assms] and err = variance64_ints [OF ne assms]
  show "\<exists>v. standard_deviation double_ops double_of_int xs = (if v < 0 then NaN else round64 (sqrt v)) \<and> \<bar>v - ?var\<bar> \<le> 6 / 2 ^ 53 * ?q"
    using sd err by (intro exI [of _ ?v]) simp
  show zero: "standard_deviation double_ops double_of_int xs = Finite 0" if "\<forall>x \<in> set xs. \<forall>y \<in> set xs. x = y"
  proof -
    have "\<forall>x \<in> set xs. x = hd xs" using that ne by simp
    then have "?v = 0" by (intro variance64_equal [OF ne assms(1)])
    then show ?thesis using sd round64_int [of 0] by simp
  qed
  show "\<exists>d. standard_deviation double_ops double_of_int xs = Finite d" if few: "6 * int (length xs) * square_sum xs \<le> 2 ^ 53"
  proof -
    have "0 \<le> ?v" by (rule variance64_nonneg [OF ne assms few])
    then show ?thesis using sd sqrt_finite [OF variance_parts(4) [OF quotients [OF ne assms(1)]]] by simp
  qed
qed

text \<open>One and three give a standard deviation of one.\<close>

theorem standard_deviation_double_witness:
  "(\<exists>v. standard_deviation double_ops double_of_int [1, 3, 1, 3] = (if v < 0 then NaN else round64 (sqrt v)) \<and> \<bar>v - 1\<bar> \<le> 30 / 2 ^ 53)
   \<and> (\<exists>d. standard_deviation double_ops double_of_int [1, 3, 1, 3] = Finite d)
   \<and> standard_deviation double_ops double_of_int [7, 7, 7] = Finite 0"
proof -
  have "square_sum [1, 3, 1, 3] \<le> 2 ^ 53" "length [1, 3, 1, 3 :: int] \<le> 2 ^ 53" by (simp_all add: square_sum_def)
  note a = standard_deviation_double [OF this]
  have "square_sum [7, 7, 7] \<le> 2 ^ 53" "length [7, 7, 7 :: int] \<le> 2 ^ 53" by (simp_all add: square_sum_def)
  note b = standard_deviation_double [OF this]
  have "variance_of (map real_of_int [1, 3, 1, 3]) = 1" by (simp add: variance_of_def mean_of_def)
  then show ?thesis using a b by (simp add: square_sum_def)
qed

end
