(* ===== verification/Random_Util.thy ===== *)
theory Random_Util
  imports Bytes
begin

unbundle bit_operations_syntax

text \<open>
  random\_util.hpp. The engine \<open>std::mt19937_64\<close> is the one that the C++ standard defines. How \<open>std::uniform_int_distribution\<close>
  uses an engine is left to the library: it is an argument, and the locale \<open>uniform_int\<close> says what the standard promises.
  The clock and the functions \<open>rand\<close> and \<open>srand\<close> are arguments too.
\<close>

section \<open>The Mersenne twister of the standard library\<close>

text \<open>The state is the window of the last 312 numbers.\<close>

definition mt_next :: "64 word \<Rightarrow> nat \<Rightarrow> 64 word" where
  "mt_next x i = 6364136223846793005 * (x XOR drop_bit 62 x) + word_of_nat i"

fun mt_fill :: "nat \<Rightarrow> nat \<Rightarrow> 64 word \<Rightarrow> 64 word list" where
  "mt_fill 0 i x = []"
| "mt_fill (Suc k) i x = x # mt_fill k (Suc i) (mt_next x (Suc i))"

definition mt19937_64 :: "64 word \<Rightarrow> 64 word list" where "mt19937_64 value = mt_fill 312 0 value"

definition mt_temper :: "64 word \<Rightarrow> 64 word" where
  "mt_temper x =
     (let z = x XOR (drop_bit 29 x AND 0x5555555555555555);
          z = z XOR (push_bit 17 z AND 0x71d67fffeda60000);
          z = z XOR (push_bit 37 z AND 0xfff7eee000000000)
      in z XOR drop_bit 43 z)"

definition mt_call :: "64 word list \<Rightarrow> 64 word \<times> 64 word list" where
  "mt_call st =
     (let y = (st ! 0 AND 0xFFFFFFFF80000000) OR (st ! 1 AND 0x7FFFFFFF);
          x = st ! 156 XOR drop_bit 1 y XOR (if bit y 0 then 0xb5026f5aa96619e9 else 0)
      in (mt_temper x, tl st @ [x]))"

section \<open>Generators\<close>

text \<open>A distribution draws a number between two bounds from a generator, a function on the generator's state.\<close>

type_synonym 'g dist = "('g \<Rightarrow> 64 word \<times> 'g) \<Rightarrow> 64 word \<Rightarrow> 64 word \<Rightarrow> 'g \<Rightarrow> 64 word \<times> 'g"

definition seed :: "int \<Rightarrow> 64 word" where "seed clock = word_of_int clock"

record CustomRandomGenerator =
  m_engine :: "64 word list"

definition CustomRandomGenerator_of :: "64 word \<Rightarrow> CustomRandomGenerator" where
  "CustomRandomGenerator_of s = \<lparr>m_engine = mt19937_64 s\<rparr>"

definition generator_min :: "64 word" where "generator_min = 0"

definition generator_max :: "64 word" where "generator_max = - 1"

definition CustomRandomGenerator_call :: "64 word list dist \<Rightarrow> CustomRandomGenerator \<Rightarrow> 64 word \<times> CustomRandomGenerator" where
  "CustomRandomGenerator_call m_dist g =
     (case m_dist mt_call generator_min generator_max (m_engine g) of (v, e) \<Rightarrow> (v, g\<lparr>m_engine := e\<rparr>))"

text \<open>The static generator is made by the first call; each call gives a copy of it.\<close>

definition get_generator :: "int \<Rightarrow> CustomRandomGenerator option \<Rightarrow> CustomRandomGenerator \<times> CustomRandomGenerator option" where
  "get_generator clock random_generator =
     (let g = (case random_generator of None \<Rightarrow> CustomRandomGenerator_of (seed clock) | Some g \<Rightarrow> g) in (g, Some g))"

record Random =
  mseed :: "64 word"
  mmin :: "64 word"
  mmax :: "64 word"
  mgenerator :: CustomRandomGenerator

text \<open>A distribution must not be made with its bounds in the wrong order.\<close>

definition Random_of :: "int \<Rightarrow> 64 word \<Rightarrow> 64 word \<Rightarrow> Random outcome" where
  "Random_of clock min_value max_value =
     (if min_value > max_value then Undef
      else Ret \<lparr>mseed = seed clock, mmin = min_value, mmax = max_value, mgenerator = CustomRandomGenerator_of (seed clock)\<rparr>)"

definition Random_call :: "64 word list dist \<Rightarrow> CustomRandomGenerator dist \<Rightarrow> Random \<Rightarrow> 64 word \<times> Random" where
  "Random_call m_dist mdistribution r =
     (case mdistribution (CustomRandomGenerator_call m_dist) (mmin r) (mmax r) (mgenerator r) of
        (v, g) \<Rightarrow> (v, r\<lparr>mgenerator := g\<rparr>))"

section \<open>Numbers from rand\<close>

record CRandom =
  crandom_min :: int
  crandom_max :: int

text \<open>The constructor seeds the generator that all parts of the program share.\<close>

definition CRandom_of :: "(32 word \<Rightarrow> 's) \<Rightarrow> int \<Rightarrow> int \<Rightarrow> int \<Rightarrow> CRandom \<times> 's" where
  "CRandom_of srand clock min_value max_value = (\<lparr>crandom_min = min_value, crandom_max = max_value\<rparr>, srand (ucast (seed clock)))"

text \<open>The value of an \<open>int\<close> expression; overflow is undefined.\<close>

definition int_value :: "int \<Rightarrow> int outcome" where
  "int_value i = (if - (2 ^ 31) \<le> i \<and> i < 2 ^ 31 then Ret i else Undef)"

text \<open>The remainder has the sign of the dividend.\<close>

definition c_rem :: "int \<Rightarrow> int \<Rightarrow> int" where "c_rem a b = sgn a * (\<bar>a\<bar> mod \<bar>b\<bar>)"

definition CRandom_get :: "('s \<Rightarrow> int \<times> 's) \<Rightarrow> CRandom \<Rightarrow> 's \<Rightarrow> int outcome \<times> 's" where
  "CRandom_get rand c st =
     (case rand st of
        (r, st) \<Rightarrow>
          (bind_outcome (int_value (crandom_max c - crandom_min c)) (\<lambda>d.
           bind_outcome (int_value (d + 1)) (\<lambda>d.
           if d = 0 then Undef else int_value (c_rem r d + crandom_min c))), st))"

definition get_min :: "CRandom \<Rightarrow> int" where "get_min c = crandom_min c"

definition get_max :: "CRandom \<Rightarrow> int" where "get_max c = crandom_max c"

definition set_min :: "CRandom \<Rightarrow> int \<Rightarrow> CRandom" where "set_min c min_value = c\<lparr>crandom_min := min_value\<rparr>"

definition set_max :: "CRandom \<Rightarrow> int \<Rightarrow> CRandom" where "set_max c max_value = c\<lparr>crandom_max := max_value\<rparr>"

section \<open>What is drawn\<close>

text \<open>What the standard promises of a distribution: its numbers are between the bounds.\<close>

locale uniform_int =
  fixes dist :: "'g dist"
  assumes in_bounds: "a \<le> b \<Longrightarrow> a \<le> fst (dist gen a b g) \<and> fst (dist gen a b g) \<le> b"

text \<open>Reduction to the width of the interval.\<close>

definition modulo_dist :: "'g dist" where
  "modulo_dist gen a b g = (case gen g of (x, g) \<Rightarrow> (if b - a = - 1 then x else a + x mod (b - a + 1), g))"

lemma word_mod_bounds:
  fixes a b x :: "64 word"
  assumes "a \<le> b" "b - a \<noteq> - 1"
  shows "a \<le> a + x mod (b - a + 1)" "a + x mod (b - a + 1) \<le> b"
proof -
  have d: "unat (b - a + 1) = unat b - unat a + 1"
  proof -
    have "1 + (b - a) \<noteq> 0" using assms(2) by (metis add.commute eq_neg_iff_add_eq_0)
    then have "unat (1 + (b - a)) = Suc (unat (b - a))" by (rule unatSuc)
    moreover have "unat (b - a) = unat b - unat a" using assms(1) by (rule unat_sub)
    ultimately show ?thesis by (simp only: add.commute [of _ 1] plus_1_eq_Suc)
  qed
  have "unat (x mod (b - a + 1)) \<le> unat b - unat a"
    using d by (metis Suc_eq_plus1 less_Suc_eq_le mod_less_divisor unat_mod_distrib zero_less_Suc)
  moreover have "unat a \<le> unat b" using assms(1) by (simp only: word_le_nat_alt)
  ultimately have le: "unat a + unat (x mod (b - a + 1)) \<le> unat b" by simp
  then have "unat a + unat (x mod (b - a + 1)) < 2 ^ LENGTH(64)" using unsigned_less [of b, where 'a = nat] by linarith
  then have "unat (a + x mod (b - a + 1)) = unat a + unat (x mod (b - a + 1))" by (simp only: unat_add_lem)
  then show "a \<le> a + x mod (b - a + 1)" "a + x mod (b - a + 1) \<le> b" using le by (simp_all only: word_le_nat_alt)
qed

interpretation modulo: uniform_int modulo_dist
proof
  fix a b :: "64 word" and gen :: "'a \<Rightarrow> 64 word \<times> 'a" and g
  assume ab: "a \<le> b"
  obtain x g' where g: "gen g = (x, g')" by fastforce
  have "a = 0 \<and> b = - 1" if "b - a = - 1"
  proof -
    have "b = a - 1" using that by (simp add: algebra_simps)
    moreover have "a = 0"
    proof (rule ccontr)
      assume a: "a \<noteq> 0"
      then have "unat (a - 1) = unat a - 1" by (rule unat_minus_one)
      then show False using ab calculation a by (simp add: word_le_nat_alt unat_eq_zero)
    qed
    ultimately show ?thesis by simp
  qed
  then show "a \<le> fst (modulo_dist gen a b g) \<and> fst (modulo_dist gen a b g) \<le> b"
    using word_mod_bounds [OF ab, of x] by (auto simp: modulo_dist_def g)
qed

text \<open>The numbers that a generator gives one after the other.\<close>

fun draws :: "64 word list dist \<Rightarrow> CustomRandomGenerator dist \<Rightarrow> nat \<Rightarrow> Random \<Rightarrow> 64 word list" where
  "draws m_dist mdistribution 0 r = []"
| "draws m_dist mdistribution (Suc n) r =
     (case Random_call m_dist mdistribution r of (v, r) \<Rightarrow> v # draws m_dist mdistribution n r)"

text \<open>
  Every number of a \<open>Random\<close> is between its bounds, as many as are drawn, and the seed alone decides which they are:
  two objects made in the same tick of the clock draw the same numbers. With bounds in the wrong order the object must
  not be made.
\<close>

theorem random_draws:
  assumes "uniform_int mdistribution"
  shows "(case Random_of clock lo hi of
      Ret r \<Rightarrow> lo \<le> hi \<and> length (draws m_dist mdistribution n r) = n
        \<and> (\<forall>v \<in> set (draws m_dist mdistribution n r). lo \<le> v \<and> v \<le> hi)
        \<and> (\<forall>clock'. seed clock' = seed clock \<longrightarrow> Random_of clock' lo hi = Ret r)
    | out \<Rightarrow> hi < lo \<and> out = Undef)"
proof -
  have "length (draws m_dist mdistribution n r) = n \<and> (\<forall>v \<in> set (draws m_dist mdistribution n r). mmin r \<le> v \<and> v \<le> mmax r)"
    if "mmin r \<le> mmax r" for r :: Random
    using that
  proof (induction n arbitrary: r)
    case (Suc n)
    obtain v g where d: "mdistribution (CustomRandomGenerator_call m_dist) (mmin r) (mmax r) (mgenerator r) = (v, g)" by fastforce
    have "mmin r \<le> v \<and> v \<le> mmax r" using uniform_int.in_bounds [OF assms Suc.prems] d by (metis fst_conv)
    then show ?case using Suc.IH [of "r\<lparr>mgenerator := g\<rparr>"] Suc.prems by (simp add: Random_call_def d)
  qed simp
  note drawn = this
  show ?thesis
  proof (cases "lo \<le> hi")
    case True
    define r where "r = \<lparr>mseed = seed clock, mmin = lo, mmax = hi, mgenerator = CustomRandomGenerator_of (seed clock)\<rparr>"
    have "Random_of clock' lo hi = Ret r" if "seed clock' = seed clock" for clock'
      using True by (simp only: Random_of_def r_def that not_less [symmetric] if_False)
    moreover have "mmin r = lo" "mmax r = hi" by (simp_all add: r_def)
    ultimately show ?thesis using True drawn [of r] by simp
  qed (simp add: Random_of_def not_le)
qed

theorem random_draws_witness:
  "\<exists>r. Random_of 7 10 19 = Ret r \<and> length (draws modulo_dist modulo_dist 3 r) = 3
     \<and> (\<forall>v \<in> set (draws modulo_dist modulo_dist 3 r). 10 \<le> v \<and> v \<le> 19)"
proof -
  have "Random_of 7 10 19 = Ret \<lparr>mseed = seed 7, mmin = 10, mmax = 19, mgenerator = CustomRandomGenerator_of (seed 7)\<rparr>"
    by (simp add: Random_of_def)
  then show ?thesis using random_draws [OF modulo.uniform_int_axioms, where clock = 7 and lo = 10 and hi = 19 and m_dist = modulo_dist and n = 3] by simp
qed

text \<open>
  A copy of the static generator starts where the static generator starts: every caller of \<open>get_generator\<close> gets the same
  numbers, however many the others have drawn.
\<close>

lemma generator_copies:
  "get_generator clock st = (g, st') \<Longrightarrow> get_generator clock' st' = (g, st')"
  by (auto simp: get_generator_def Let_def)

text \<open>
  A number from \<open>rand\<close> is brought between the bounds, and each number between them can come out. When the width of the
  interval does not fit an \<open>int\<close> the behaviour is undefined. With the bounds in the wrong order the number is never
  between them.
\<close>

theorem crandom_numbers:
  assumes "lo \<in> {- (2 ^ 31)..<2 ^ 31}" "hi \<in> {- (2 ^ 31)..<2 ^ 31}" "\<forall>st. 0 \<le> fst (rand st)"
  shows "(lo \<le> hi \<and> hi - lo < 2 ^ 31 - 1 \<longrightarrow>
      (\<exists>v. fst (CRandom_get rand \<lparr>crandom_min = lo, crandom_max = hi\<rparr> st) = Ret v \<and> lo \<le> v \<and> v \<le> hi)
      \<and> (\<forall>v. lo \<le> v \<and> v \<le> hi \<longrightarrow> (fst (rand st) = v - lo \<longrightarrow> fst (CRandom_get rand \<lparr>crandom_min = lo, crandom_max = hi\<rparr> st) = Ret v)))
    \<and> (2 ^ 31 - 1 \<le> hi - lo \<longrightarrow> fst (CRandom_get rand \<lparr>crandom_min = lo, crandom_max = hi\<rparr> st) = Undef)
    \<and> (hi < lo \<longrightarrow> (\<forall>v. fst (CRandom_get rand \<lparr>crandom_min = lo, crandom_max = hi\<rparr> st) = Ret v \<longrightarrow> hi < v))"
proof -
  obtain r st' where r: "rand st = (r, st')" by fastforce
  then have "0 \<le> r" using assms(3) by (metis fst_conv)
  then have rem: "c_rem r d = r mod \<bar>d\<bar>" for d by (auto simp: c_rem_def sgn_if)
  let ?d = "hi - lo + 1"
  let ?get = "fst (CRandom_get rand \<lparr>crandom_min = lo, crandom_max = hi\<rparr> st)"
  have inside: "?get = Ret (r mod ?d + lo)" "lo \<le> r mod ?d + lo" "r mod ?d + lo \<le> hi" if "lo \<le> hi" "hi - lo < 2 ^ 31 - 1"
  proof -
    have "0 < ?d" using that by simp
    then have m: "0 \<le> r mod ?d" "r mod ?d < ?d" by (rule pos_mod_sign, rule pos_mod_bound)
    then show "lo \<le> r mod ?d + lo" "r mod ?d + lo \<le> hi" by auto
    then show "?get = Ret (r mod ?d + lo)" using that assms(1,2) m by (simp add: CRandom_get_def r int_value_def rem)
  qed
  have wide: "?get = Undef" if "2 ^ 31 - 1 \<le> hi - lo"
    using that by (auto simp: CRandom_get_def r int_value_def rem)
  have wrong: "hi < v" if "hi < lo" "?get = Ret v" for v
  proof -
    have "?d \<noteq> 0" "v = r mod \<bar>?d\<bar> + lo"
      using that(2) by (auto simp: CRandom_get_def r int_value_def rem split: if_splits)
    moreover have "0 \<le> r mod \<bar>?d\<bar>" using \<open>?d \<noteq> 0\<close> by (intro pos_mod_sign) simp
    ultimately show ?thesis using that(1) by linarith
  qed
  show ?thesis using inside wide wrong by (auto simp: r)
qed

theorem crandom_numbers_witness:
  "fst (CRandom_get (\<lambda>st. (\<bar>st\<bar>, st + 1)) \<lparr>crandom_min = - 3, crandom_max = 3\<rparr> (5 :: int)) = Ret 2"
proof -
  have "(- 3 :: int) \<in> {- (2 ^ 31)..<2 ^ 31}" "(3 :: int) \<in> {- (2 ^ 31)..<2 ^ 31}" "\<forall>st :: int. 0 \<le> fst ((\<lambda>st. (\<bar>st\<bar>, st + 1)) st)" by simp_all
  from crandom_numbers [OF this, of 5] show ?thesis by simp
qed

end
