(* ===== verification/Span_Util.thy ===== *)
theory Span_Util
  imports Bytes
begin

text \<open>
  span\_util.hpp and the function of bytes\_util.hpp that has a definition: the bytes of objects and of containers, and objects
  from bytes. The templates are functions of the type, which has the traits their constraints ask for; \<open>None\<close> stands for a call whose
  constraint does not hold, which does not compile.
\<close>

section \<open>Types and their representations\<close>

text \<open>
  An integer of some bytes, a number of type \<open>double\<close>, unused bytes, a structure of parts that follow each other in memory, and
  a class with a copy constructor of its own. An object is the list of its bytes.
\<close>

datatype ctype = Integer nat | Floating | Unused nat | Struct "ctype list" | Managed ctype

fun obj_size :: "ctype \<Rightarrow> nat" where
  "obj_size (Integer n) = n"
| "obj_size Floating = 8"
| "obj_size (Unused n) = n"
| "obj_size (Struct tys) = sum_list (map obj_size tys)"
| "obj_size (Managed ty) = obj_size ty"

fun is_trivially_copyable :: "ctype \<Rightarrow> bool" where
  "is_trivially_copyable (Struct tys) \<longleftrightarrow> list_all is_trivially_copyable tys"
| "is_trivially_copyable (Managed ty) \<longleftrightarrow> False"
| "is_trivially_copyable _ \<longleftrightarrow> True"

fun has_unique_object_representations :: "ctype \<Rightarrow> bool" where
  "has_unique_object_representations (Integer n) \<longleftrightarrow> True"
| "has_unique_object_representations Floating \<longleftrightarrow> False"
| "has_unique_object_representations (Unused n) \<longleftrightarrow> n = 0"
| "has_unique_object_representations (Struct tys) \<longleftrightarrow> list_all has_unique_object_representations tys"
| "has_unique_object_representations (Managed ty) \<longleftrightarrow> False"

text \<open>
  The bytes that stand for the value of an object: unused bytes do not belong to the value, and the two zeros of type
  \<open>double\<close> are equal. Objects of the same value have the same such bytes.
\<close>

definition negative_zero :: "std_endian \<Rightarrow> byte list" where
  "negative_zero native = (if native = big then 0x80 # replicate 7 0 else replicate 7 0 @ [0x80])"

fun value_bytes :: "std_endian \<Rightarrow> ctype \<Rightarrow> byte list \<Rightarrow> byte list"
  and parts_bytes :: "std_endian \<Rightarrow> ctype list \<Rightarrow> byte list \<Rightarrow> byte list" where
  "value_bytes native (Integer n) x = x"
| "value_bytes native Floating x = (if x = negative_zero native then replicate 8 0 else x)"
| "value_bytes native (Unused n) x = replicate n 0"
| "value_bytes native (Struct tys) x = parts_bytes native tys x"
| "value_bytes native (Managed ty) x = value_bytes native ty x"
| "parts_bytes native [] x = []"
| "parts_bytes native (ty # tys) x = value_bytes native ty (take (obj_size ty) x) @ parts_bytes native tys (drop (obj_size ty) x)"

section \<open>The functions\<close>

definition MemcmpSafe :: "ctype \<Rightarrow> bool" where
  "MemcmpSafe ty \<longleftrightarrow> is_trivially_copyable ty \<and> has_unique_object_representations ty"

definition WireSafe :: "ctype \<Rightarrow> bool" where
  "WireSafe ty \<longleftrightarrow> is_trivially_copyable ty \<and> has_unique_object_representations ty"

text \<open>The memory from a pointer on.\<close>

definition bytes_of :: "ctype \<Rightarrow> byte list \<Rightarrow> byte list option" where
  "bytes_of ty ptr = (if WireSafe ty then Some (take (obj_size ty) ptr) else None)"

record contiguous =
  first_byte :: "byte list"
  elem_count :: nat

definition ccbytes :: "ctype \<Rightarrow> contiguous \<Rightarrow> byte list option" where
  "ccbytes ty c = (if MemcmpSafe ty then Some (take (elem_count c * obj_size ty) (first_byte c)) else None)"

text \<open>The copy reads the size of the object, however many bytes there are.\<close>

definition bytes_to_type :: "ctype \<Rightarrow> byte list \<Rightarrow> byte list outcome option" where
  "bytes_to_type ty bs =
     (if is_trivially_copyable ty then Some (if length bs < obj_size ty then Undef else Ret (take (obj_size ty) bs)) else None)"

section \<open>Unique representations\<close>

lemma unique_value_bytes:
  "has_unique_object_representations ty \<Longrightarrow> length x = obj_size ty \<Longrightarrow> value_bytes native ty x = x"
  "list_all has_unique_object_representations tys \<Longrightarrow> length x = sum_list (map obj_size tys) \<Longrightarrow> parts_bytes native tys x = x"
  by (induction native ty x and native tys x rule: value_bytes_parts_bytes.induct) auto

text \<open>An object of a type without unique representations has the value of another one.\<close>

definition ambiguous :: "std_endian \<Rightarrow> ctype \<Rightarrow> bool" where
  "ambiguous native ty \<longleftrightarrow> (\<exists>x y. length x = obj_size ty \<and> length y = obj_size ty \<and> x \<noteq> y \<and> value_bytes native ty x = value_bytes native ty y)"

lemma ambiguous_parts:
  assumes "\<exists>ty \<in> set tys. ambiguous native ty"
  shows "\<exists>x y. length x = sum_list (map obj_size tys) \<and> length y = sum_list (map obj_size tys) \<and> x \<noteq> y
     \<and> parts_bytes native tys x = parts_bytes native tys y"
  using assms
proof (induction tys)
  case (Cons ty tys)
  show ?case
  proof (cases "ambiguous native ty")
    case True
    then obtain x y where xy: "length x = obj_size ty" "length y = obj_size ty" "x \<noteq> y" "value_bytes native ty x = value_bytes native ty y"
      by (auto simp: ambiguous_def)
    let ?r = "replicate (sum_list (map obj_size tys)) 0"
    show ?thesis using xy by (intro exI [of _ "x @ ?r"] exI [of _ "y @ ?r"]) simp
  next
    case False
    then obtain x y where xy: "length x = sum_list (map obj_size tys)" "length y = sum_list (map obj_size tys)" "x \<noteq> y"
      "parts_bytes native tys x = parts_bytes native tys y"
      using Cons by auto
    let ?r = "replicate (obj_size ty) 0"
    show ?thesis using xy by (intro exI [of _ "?r @ x"] exI [of _ "?r @ y"]) simp
  qed
qed simp

lemma zero_neq_numeral_byte: "(0x80 :: byte) \<noteq> 0"
  by simp

lemma not_unique_ambiguous: "is_trivially_copyable ty \<Longrightarrow> \<not> has_unique_object_representations ty \<Longrightarrow> ambiguous native ty"
proof (induction ty)
  case Floating
  have "0x80 \<in> set (negative_zero native)" by (simp add: negative_zero_def)
  then have "negative_zero native \<noteq> replicate 8 0" by (metis in_set_replicate zero_neq_numeral_byte)
  moreover have "length (negative_zero native) = 8" by (simp add: negative_zero_def)
  ultimately show ?case unfolding ambiguous_def by (intro exI [of _ "negative_zero native"] exI [of _ "replicate 8 0"]) simp
next
  case (Unused n)
  then have "replicate n (0 :: byte) \<noteq> replicate n 1" by (cases n) simp_all
  then show ?case unfolding ambiguous_def by (intro exI [of _ "replicate n 0"] exI [of _ "replicate n 1"]) simp
next
  case (Struct tys)
  then have "\<exists>ty \<in> set tys. ambiguous native ty" by (auto simp: list_all_iff)
  from ambiguous_parts [OF this] show ?case by (simp add: ambiguous_def)
qed simp_all

section \<open>Containers\<close>

definition contiguous_wf :: "ctype \<Rightarrow> contiguous \<Rightarrow> bool" where "contiguous_wf ty c \<longleftrightarrow> elem_count c * obj_size ty \<le> length (first_byte c)"

definition elements :: "ctype \<Rightarrow> contiguous \<Rightarrow> byte list list" where
  "elements ty c = map (\<lambda>i. take (obj_size ty) (drop (i * obj_size ty) (first_byte c))) [0..<elem_count c]"

lemma chunk_fits: "i < n \<Longrightarrow> n * s \<le> m \<Longrightarrow> i * s + s \<le> (m :: nat)"
  by (metis add.commute le_trans mult_Suc mult_le_mono1 Suc_leI)

lemma concat_chunks: "n * s \<le> length xs \<Longrightarrow> concat (map (\<lambda>i. take s (drop (i * s) xs)) [0..<n]) = take (n * s) xs"
proof (induction n)
  case (Suc n)
  have "concat (map (\<lambda>i. take s (drop (i * s) xs)) [0..<Suc n]) = take (n * s) xs @ take s (drop (n * s) xs)" using Suc by simp
  also have "\<dots> = take (n * s + s) xs" by (simp add: take_add)
  finally show ?case by (simp add: add.commute)
qed simp

lemma element_length: "contiguous_wf ty c \<Longrightarrow> x \<in> set (elements ty c) \<Longrightarrow> length x = obj_size ty"
  using chunk_fits [of _ "elem_count c" "obj_size ty" "length (first_byte c)"] by (fastforce simp: elements_def contiguous_wf_def)

lemma concat_elements: "contiguous_wf ty c \<Longrightarrow> concat (elements ty c) = take (elem_count c * obj_size ty) (first_byte c)"
  unfolding elements_def contiguous_wf_def by (rule concat_chunks)

lemma concat_same_length:
  assumes "0 < k" "\<forall>x \<in> set xs. length x = k" "\<forall>y \<in> set ys. length y = k" "concat xs = concat ys"
  shows "xs = ys"
  using assms(2-4)
proof (induction xs arbitrary: ys)
  case Nil
  then show ?case using assms(1) by (cases ys) auto
next
  case (Cons x xs)
  have "ys \<noteq> []" using Cons.prems assms(1) by auto
  then obtain y ys' where ys: "ys = y # ys'" by (cases ys) simp_all
  have "x @ concat xs = y @ concat ys'" "length x = length y" using Cons.prems ys by simp_all
  then have "x = y" "concat xs = concat ys'" by (simp_all add: append_eq_append_conv)
  moreover have "xs = ys'" by (rule Cons.IH) (use Cons.prems ys calculation(2) in simp_all)
  ultimately show ?case using ys by simp
qed

lemma elements_equal:
  assumes "MemcmpSafe ty" "0 < obj_size ty" "contiguous_wf ty c" "contiguous_wf ty d"
  shows "ccbytes ty c = ccbytes ty d \<longleftrightarrow> map (value_bytes native ty) (elements ty c) = map (value_bytes native ty) (elements ty d)"
proof -
  have same: "map (value_bytes native ty) (elements ty e) = elements ty e" if "contiguous_wf ty e" for e
    using assms(1) element_length [OF that] by (intro map_idI unique_value_bytes(1)) (simp_all add: MemcmpSafe_def)
  have "ccbytes ty c = ccbytes ty d \<longleftrightarrow> concat (elements ty c) = concat (elements ty d)"
    using assms(1) concat_elements [OF assms(3)] concat_elements [OF assms(4)] by (simp add: ccbytes_def)
  also have "\<dots> \<longleftrightarrow> elements ty c = elements ty d"
  proof
    assume e: "concat (elements ty c) = concat (elements ty d)"
    show "elements ty c = elements ty d"
      by (rule concat_same_length [OF assms(2) _ _ e]) (use element_length [OF assms(3)] element_length [OF assms(4)] in simp_all)
  qed simp
  finally show ?thesis unfolding same [OF assms(3)] same [OF assms(4)] .
qed

text \<open>
  C40: The bytes of a container are given only when its elements are trivially copyable and have unique object
  representations. Then they are as many as the elements take, two containers have the same bytes exactly when their elements have
  the same values, and each element is read back from the bytes at its place. A trivially copyable type that is refused has two
  objects of the same value with different bytes, so comparing bytes would not compare values. An object is copied from bytes for
  every trivially copyable type; fewer bytes than the object has are read past their end.
\<close>

theorem container_bytes:
  assumes "0 < obj_size ty" "contiguous_wf ty c" "contiguous_wf ty d"
  shows "(ccbytes ty c \<noteq> None \<longleftrightarrow> is_trivially_copyable ty \<and> has_unique_object_representations ty)
    \<and> (\<forall>b. ccbytes ty c = Some b \<longrightarrow> length b = elem_count c * obj_size ty
        \<and> (ccbytes ty d = Some b \<longleftrightarrow> map (value_bytes native ty) (elements ty c) = map (value_bytes native ty) (elements ty d))
        \<and> (\<forall>i < elem_count c. bytes_to_type ty (drop (i * obj_size ty) b) = Some (Ret (elements ty c ! i))
             \<and> bytes_of ty (drop (i * obj_size ty) b) = Some (elements ty c ! i)))
    \<and> (ccbytes ty c = None \<and> is_trivially_copyable ty \<longrightarrow>
        (\<exists>x y. length x = obj_size ty \<and> length y = obj_size ty \<and> x \<noteq> y \<and> value_bytes native ty x = value_bytes native ty y))
    \<and> (is_trivially_copyable ty \<longrightarrow> (\<forall>x r. length x = obj_size ty \<longrightarrow> bytes_to_type ty (x @ r) = Some (Ret x))
        \<and> (\<forall>bs. length bs < obj_size ty \<longrightarrow> bytes_to_type ty bs = Some Undef))
    \<and> (\<not> is_trivially_copyable ty \<longrightarrow> bytes_to_type ty bs = None)"
proof (intro conjI allI impI; (elim conjE)?)
  show "ccbytes ty c \<noteq> None \<longleftrightarrow> is_trivially_copyable ty \<and> has_unique_object_representations ty" by (simp add: ccbytes_def MemcmpSafe_def)
next
  fix b assume "ccbytes ty c = Some b"
  then have safe: "MemcmpSafe ty" and b: "b = take (elem_count c * obj_size ty) (first_byte c)" by (auto simp: ccbytes_def split: if_splits)
  show l: "length b = elem_count c * obj_size ty" using assms(2) by (simp add: b contiguous_wf_def)
  show "ccbytes ty d = Some b \<longleftrightarrow> map (value_bytes native ty) (elements ty c) = map (value_bytes native ty) (elements ty d)"
    using elements_equal [OF safe assms, of native] \<open>ccbytes ty c = Some b\<close> by metis
  fix i assume i: "i < elem_count c"
  then have fits: "i * obj_size ty + obj_size ty \<le> elem_count c * obj_size ty" by (rule chunk_fits) simp
  then have e: "take (obj_size ty) (drop (i * obj_size ty) b) = elements ty c ! i" using i by (simp add: b elements_def drop_take)
  then show "bytes_of ty (drop (i * obj_size ty) b) = Some (elements ty c ! i)" using safe by (simp add: bytes_of_def WireSafe_def MemcmpSafe_def)
  show "bytes_to_type ty (drop (i * obj_size ty) b) = Some (Ret (elements ty c ! i))"
    using safe e fits l by (simp add: bytes_to_type_def MemcmpSafe_def)
next
  assume "ccbytes ty c = None" "is_trivially_copyable ty"
  then show "\<exists>x y. length x = obj_size ty \<and> length y = obj_size ty \<and> x \<noteq> y \<and> value_bytes native ty x = value_bytes native ty y"
    using not_unique_ambiguous [of ty native] by (simp add: ccbytes_def MemcmpSafe_def ambiguous_def split: if_splits)
qed (simp_all add: bytes_to_type_def)

text \<open>Two integers of two bytes in a structure; a structure with unused bytes; and numbers of type \<open>double\<close>.\<close>

theorem container_bytes_witness:
  "ccbytes (Struct [Integer 2, Integer 2]) \<lparr>first_byte = [1, 2, 3, 4, 5, 6, 7, 8, 9], elem_count = 2\<rparr> = Some [1, 2, 3, 4, 5, 6, 7, 8]
   \<and> bytes_to_type (Struct [Integer 2, Integer 2]) (drop 4 [1, 2, 3, 4, 5, 6, 7, 8]) = Some (Ret [5, 6, 7, 8])
   \<and> ccbytes (Struct [Integer 1, Unused 3, Integer 4]) \<lparr>first_byte = [], elem_count = 0\<rparr> = None
   \<and> ccbytes Floating \<lparr>first_byte = [], elem_count = 0\<rparr> = None"
proof (intro conjI)
  let ?t = "Struct [Integer 2, Integer 2]" and ?c = "\<lparr>first_byte = [1, 2, 3, 4, 5, 6, 7, 8, 9], elem_count = 2\<rparr> :: contiguous"
  show b: "ccbytes ?t ?c = Some [1, 2, 3, 4, 5, 6, 7, 8]" by code_simp
  have "0 < obj_size ?t" "contiguous_wf ?t ?c" by (simp_all add: contiguous_wf_def)
  note t = container_bytes [OF this this(2)]
  have "elements ?t ?c ! 1 = [5, 6, 7, 8]" by code_simp
  then show "bytes_to_type ?t (drop 4 [1, 2, 3, 4, 5, 6, 7, 8]) = Some (Ret [5, 6, 7, 8])"
    using conjunct1 [OF conjunct2 [OF t], rule_format, OF b, THEN conjunct2, THEN conjunct2, rule_format, of 1] by simp
  let ?e = "\<lparr>first_byte = [], elem_count = 0\<rparr> :: contiguous"
  have w: "contiguous_wf ty ?e" for ty by (simp add: contiguous_wf_def)
  show "ccbytes (Struct [Integer 1, Unused 3, Integer 4]) ?e = None"
    using container_bytes [OF _ w w, of "Struct [Integer 1, Unused 3, Integer 4]"] by simp
  show "ccbytes Floating ?e = None" using container_bytes [OF _ w w, of Floating] by simp
qed

end
