(* ===== verification/CString_Type.thy ===== *)
theory CString_Type
  imports CString
begin

text \<open>
  The type of fixed-size strings: which arrays a program makes with the constructors and the members of cs.hpp that write
  a terminator, and that all of them are null-terminated arrays of \<open>MAX\<close> characters, so that none of the members reads
  outside. The members that write characters as they are given, \<open>fill\<close>, \<open>copy\<close> with both flags off, the references of
  \<open>operator[]\<close> and \<open>at\<close> and the assignment of an array, are treated apart: when they keep this and when they do not.
\<close>

section \<open>The strings a program makes\<close>

inductive cs_made :: "cs_type \<Rightarrow> cs \<Rightarrow> bool" for t where
  made_default: "cs_made t (cs_default t)"
| made_of_string: "cs_of_string t s = Ret a \<Longrightarrow> cs_made t a"
| made_of_cstr: "cs_of_cstr t s = Ret a \<Longrightarrow> cs_made t a"
| made_assign_string: "cs_made t d \<Longrightarrow> cs_assign_string t s d = Ret a \<Longrightarrow> cs_made t a"
| made_assign_cstr: "cs_made t d \<Longrightarrow> cs_assign_cstr t s d = Ret a \<Longrightarrow> cs_made t a"
| made_assign: "cs_made t d \<Longrightarrow> cs_assign t other d = Ret a \<Longrightarrow> cs_made t a"
| made_append: "cs_made t d \<Longrightarrow> cs_append t d other = Ret a \<Longrightarrow> cs_made t a"
| made_plus: "cs_made t d \<Longrightarrow> cs_plus t d other = Ret a \<Longrightarrow> cs_made t a"
| made_string_plus: "t = CS 0 (n + 1) \<Longrightarrow> string_plus_cs n lhs rhs = Ret a \<Longrightarrow> cs_made t a"
| made_fill_null: "cs_made t (cs_fill_null t)"
| made_copy: "cs_made t d \<Longrightarrow> add_null \<or> fill_null \<Longrightarrow> cs_copy t s n add_null fill_null d = Ret a \<Longrightarrow> cs_made t a"
| made_read: "cs_made t d \<Longrightarrow> cs_read t is d = Ret (is', a) \<Longrightarrow> cs_made t a"

section \<open>They are well-formed\<close>

lemma cs_copy_cstr_ok: "cs_copy_cstr t s d = Ret a \<Longrightarrow> cs_ok t a"
  by (auto simp: cs_copy_cstr_def outcome_simps intro: cs_copy_ok)

lemma cs_append_ok:
  assumes "cs_ok t d" "cs_append t d other = Ret a"
  shows "cs_ok t a"
proof -
  have d: "cs_length d = Ret (length (cs_str d))" "length d = cs_max t" "length (cs_str d) < cs_max t"
    using assms(1) by (simp_all add: cs_ok_less) (simp add: cs_ok_def)
  obtain n where n: "cs_length other = Ret n" using assms(2) d(1) by (auto simp: cs_append_def outcome_simps)
  then have "n < length other" by (auto simp: cs_length_def find_index_Some split: option.splits)
  then show ?thesis
    using assms(2) d n
    by (auto simp: cs_append_def Let_def cs_ok_def in_set_conv_nth intro!: exI [of _ "length (cs_str d) + n"] split: if_splits)
qed

lemma string_plus_cs_ok:
  assumes "string_plus_cs n lhs rhs = Ret a"
  shows "cs_ok (CS 0 (n + 1)) a"
proof -
  obtain r where r: "cs_length rhs = Ret r" "\<not> n < length lhs + r + 1"
      "a = lhs @ take r rhs @ drop (length lhs + r) (cs_default (CS 0 (n + 1)))"
    using assms by (auto simp: string_plus_cs_def outcome_simps Let_def split: if_splits)
  have "r < length rhs" using r(1) by (auto simp: cs_length_def find_index_Some split: option.splits)
  moreover have "drop (length lhs + r) (cs_default (CS 0 (n + 1))) = replicate (n + 1 - (length lhs + r)) NUL"
    by (simp add: cs_default_def cs_fill_null_def cs_fill_def CS_def del: replicate_Suc)
  ultimately show ?thesis using r(2) unfolding r(3) by (auto simp: cs_ok_def CS_def)
qed

lemma cs_copy_flags_ok:
  assumes "cs_ok t d" "add_null \<or> fill_null" "cs_copy t s n add_null fill_null d = Ret a"
  shows "cs_ok t a"
proof -
  have n: "n < cs_max t" "n \<le> length s" "length d = cs_max t"
    using assms(1,3) by (auto simp: cs_copy_def cs_ok_def split: if_splits)
  let ?d = "take n s @ drop n (if fill_null then cs_fill_null t else d)"
  have a: "a = (if add_null then ?d[n := NUL] else ?d)" using assms(3) n by (auto simp: cs_copy_def Let_def split: if_splits)
  have l: "length ?d = cs_max t" using n by (simp add: cs_fill_null_def cs_fill_def)
  show ?thesis
  proof (cases add_null)
    case True
    then show ?thesis using a l n(1) by (auto simp: cs_ok_def intro: set_update_memI)
  next
    case False
    then show ?thesis using a l n assms(2) by (auto simp: cs_ok_def cs_fill_null_def cs_fill_def)
  qed
qed

lemma cs_made_ok: "cs_made t a \<Longrightarrow> 0 < cs_max t \<Longrightarrow> cs_ok t a"
proof (induction rule: cs_made.induct)
  case (made_assign_string d s a)
  then show ?case by (auto simp: cs_assign_string_def outcome_simps intro: cs_copy_string_ok)
next
  case (made_read d "is" is' a)
  then show ?case by (auto simp: cs_read_def outcome_simps intro: cs_copy_string_ok split: prod.splits)
next
  case (made_assign d other a)
  then show ?case by (auto simp: cs_assign_def outcome_simps intro: cs_copy_ok)
next
  case (made_append d other a)
  then show ?case by (blast intro: cs_append_ok)
next
  case (made_plus d other a)
  then show ?case by (auto simp: cs_plus_def intro: cs_append_ok)
next
  case (made_copy d add_null fill_null s n a)
  then show ?case by (blast intro: cs_copy_flags_ok)
next
  case (made_string_plus n lhs rhs a)
  then show ?case using string_plus_cs_ok by simp
next
  case made_fill_null
  then show ?case using cs_ok_default [of t] by (simp add: cs_default_def)
qed (auto simp: cs_ok_default cs_of_string_ok cs_of_cstr_def cs_assign_cstr_def intro: cs_copy_cstr_ok)

lemma cs_length_Undef: "cs_length a = Undef \<longleftrightarrow> NUL \<notin> set a"
proof (cases "find_index (\<lambda>c. c = NUL) a")
  case None
  then show ?thesis using find_index_None [of "\<lambda>c. c = NUL" a] by (auto simp: cs_length_def)
next
  case (Some n)
  then show ?thesis using find_index_None [of "\<lambda>c. c = NUL" a] by (auto simp: cs_length_def)
qed

text \<open>
  C8: Every string that a program makes by default, from a text, by assigning a text or a string, by \<open>copy\<close> unless both its
  flags are off, by \<open>+=\<close> and \<open>+\<close> and by reading has \<open>MAX\<close> characters, one of them null, so its length and its text are
  defined and the text is shorter than \<open>MAX\<close>. Comparing two of them is defined when \<open>std::tolower\<close> is for their
  characters, or the type is case-sensitive. The members that write what they are given keep this exactly when a null
  character remains: \<open>fill\<close> for the null character only, an assigned array when it has one, an assignment through \<open>[]\<close> or
  \<open>at\<close> when it writes one or does not hit the only one, \<open>copy\<close> with both flags off when one is copied or lies behind.
  Otherwise the length is undefined.
\<close>

theorem cs_type_kept:
  assumes "cs_made t a" "cs_made t b" "0 < cs_max t"
  shows "length a = cs_max t \<and> NUL \<in> set a
    \<and> (\<exists>s. cs_to_string a = Ret s \<and> cs_length a = Ret (length s) \<and> length s < cs_max t)
    \<and> (comparable t (cs_str a) \<and> comparable t (cs_str b) \<longrightarrow> (\<exists>r. cs_eq u t a b = Ret r))
    \<and> (comparable t a \<and> comparable t b \<longrightarrow> (\<exists>r. cs_less u t a b = Ret r))
    \<and> (cs_length (cs_fill t c) = Undef \<longleftrightarrow> c \<noteq> NUL)
    \<and> (length arr = cs_max t \<longrightarrow> (cs_length (cs_assign_array t arr a) = Undef \<longleftrightarrow> NUL \<notin> set arr))
    \<and> (i < cs_max t \<longrightarrow> (\<exists>a'. cs_put a i c = Ret a'
         \<and> (cs_length a' = Undef \<longleftrightarrow> c \<noteq> NUL \<and> (\<forall>j<cs_max t. j \<noteq> i \<longrightarrow> a ! j \<noteq> NUL))))
    \<and> (\<forall>a'. cs_copy t s n False False a = Ret a' \<longrightarrow>
         (cs_length a' = Undef \<longleftrightarrow> NUL \<notin> set (take n s) \<and> NUL \<notin> set (drop n a)))"
proof (intro conjI impI allI)
  have ok: "cs_ok t a" "cs_ok t b" using cs_made_ok assms by blast+
  then have len: "length a = cs_max t" by (simp add: cs_ok_def)
  then show "length a = cs_max t" .
  show "NUL \<in> set a" using ok(1) by (simp add: cs_ok_def)
  show "\<exists>s. cs_to_string a = Ret s \<and> cs_length a = Ret (length s) \<and> length s < cs_max t"
    using ok(1) cs_ok_less [OF ok(1)] by auto
  show "\<exists>r. cs_eq u t a b = Ret r" if "comparable t (cs_str a) \<and> comparable t (cs_str b)"
    using cs_eq_canon [OF ok] that by blast
  show "\<exists>r. cs_less u t a b = Ret r" if "comparable t a \<and> comparable t b" using cs_less_Ret [OF ok] that by blast
  show "cs_length (cs_fill t c) = Undef \<longleftrightarrow> c \<noteq> NUL" using assms(3) by (auto simp: cs_length_Undef cs_fill_def)
  show "cs_length (cs_assign_array t arr a) = Undef \<longleftrightarrow> NUL \<notin> set arr" if "length arr = cs_max t"
    using that by (simp add: cs_length_Undef cs_assign_array_def)
  show "\<exists>a'. cs_put a i c = Ret a' \<and> (cs_length a' = Undef \<longleftrightarrow> c \<noteq> NUL \<and> (\<forall>j<cs_max t. j \<noteq> i \<longrightarrow> a ! j \<noteq> NUL))"
    if "i < cs_max t"
    using that len by (auto simp: cs_put_def cs_length_Undef in_set_conv_nth nth_list_update)
  show "cs_length a' = Undef \<longleftrightarrow> NUL \<notin> set (take n s) \<and> NUL \<notin> set (drop n a)" if "cs_copy t s n False False a = Ret a'" for a'
    using that by (auto simp: cs_length_Undef cs_copy_def Let_def split: if_splits)
qed

theorem cs_type_kept_witness:
  "\<forall>u. \<exists>a. cs_of_string (CS 0 20) ''Ana'' = Ret a \<and> length a = 20 \<and> (\<exists>r. cs_eq u (CS 0 20) a a = Ret r)
    \<and> cs_length (cs_fill (CS 0 20) CHR ''x'') = Undef"
proof -
  obtain a where a: "cs_of_string (CS 0 20) ''Ana'' = Ret a" "cs_str a = ''Ana''"
    using cs_of_string_Ret [of "''Ana''" "CS 0 20"] by (auto simp: CS_def NUL_def)
  then have made: "cs_made (CS 0 20) a" by (blast intro: made_of_string)
  have c: "comparable (CS 0 20) ''Ana''" "CHR ''x'' \<noteq> NUL" "0 < cs_max (CS 0 20)" "cs_max (CS 0 20) = 20" by code_simp+
  show ?thesis using cs_type_kept [OF made made c(3), where c = "CHR ''x''"] a c by metis
qed

end
