(* ===== verification/Factory_Service.thy ===== *)
theory Factory_Service
  imports Factory
begin

text \<open>
  Service of the pool of factory.hpp over many requests: theory Factory shows what one call does; here any number of
  clients ask one after the other.
\<close>

text \<open>Requests with their arguments, each by a call of \<open>get\<close>; \<open>None\<close> when a call does not return an object.\<close>

fun serve :: "('args \<Rightarrow> 'o) \<Rightarrow> ('args \<Rightarrow> 'o \<Rightarrow> 'o) \<Rightarrow> 'args list \<Rightarrow> 'o PoolFactory \<Rightarrow> (nat list \<times> 'o PoolFactory) option" where
  "serve mk ini [] f = Some ([], f)"
| "serve mk ini (args # requests) f =
     (case PoolFactory_get mk ini args f of
        Some (Ret (i, f)) \<Rightarrow> map_option (\<lambda>(is, f). (i # is, f)) (serve mk ini requests f)
      | _ \<Rightarrow> None)"

text \<open>One call on a reachable state: it returns, the pool grows by at most one refill and keeps the refill size.\<close>

lemma served_once:
  assumes "pool_reachable mk ini (f, held)" "0 < refill_size f" "length (pool f) + refill_size f < size_max"
  obtains i f' where "PoolFactory_get mk ini args f = Some (Ret (i, f'))" "pool_reachable mk ini (f', i # held)"
    "length (pool f') \<le> length (pool f) + refill_size f" "refill_size f' = refill_size f"
proof -
  have "\<exists>i f'. PoolFactory_get mk ini args f = Some (Ret (i, f')) \<and> length (pool f') \<le> length (pool f) + refill_size f
      \<and> refill_size f' = refill_size f"
    using pool_reachable_inv [OF assms(1)]
  proof (cases rule: PoolFactory_get_cases [where mk = mk and ini = ini and args = args])
    case (free i)
    then show ?thesis by (simp add: hand_out_def)
  next
    case (refill i)
    then show ?thesis by (simp add: hand_out_def pool_add_def new_slots_def)
  qed (use assms(2) in simp)
  then obtain i f' where get: "PoolFactory_get mk ini args f = Some (Ret (i, f'))"
      "length (pool f') \<le> length (pool f) + refill_size f" "refill_size f' = refill_size f" by blast
  moreover have "pool_step mk ini (f, held) (f', i # held)"
    using get(1,2) assms(3) by (intro pool_step.get) auto
  ultimately show thesis using that pool_reachable.step [OF assms(1)] by blast
qed

text \<open>
  C20: A pool that can be refilled serves any number of requests, one after the other, as long as its size stays in the range
  of \<open>size_t\<close>: every call returns, all objects handed out are different from each other and from those that clients already
  hold, and the pool is in a reachable state again.
\<close>

theorem pool_serves_all:
  assumes "pool_reachable mk ini (f, held)" "0 < refill_size f" "length (pool f) + length requests * refill_size f < size_max"
  shows "\<exists>is f'. serve mk ini requests f = Some (is, f') \<and> length is = length requests \<and> distinct (is @ held)
    \<and> pool_reachable mk ini (f', rev is @ held)"
  using assms
proof (induction requests arbitrary: f held)
  case Nil
  then have "distinct held" using pool_reachable_inv [OF Nil(1)] by (simp add: pool_inv_def)
  then show ?case using Nil by simp
next
  case (Cons args requests)
  obtain i f' where get: "PoolFactory_get mk ini args f = Some (Ret (i, f'))" "pool_reachable mk ini (f', i # held)"
      "length (pool f') \<le> length (pool f) + refill_size f" "refill_size f' = refill_size f"
    by (rule served_once [OF Cons.prems(1,2), of args]) (use Cons.prems(3) in auto)
  obtain "is" f'' where "serve mk ini requests f' = Some (is, f'')" "length is = length requests" "distinct (is @ i # held)"
      "pool_reachable mk ini (f'', rev is @ i # held)"
    using Cons.IH [OF get(2)] get(3,4) Cons.prems(2,3) by auto
  with get(1) show ?case by auto
qed

theorem pool_serves_all_witness:
  "\<exists>is f'. serve (\<lambda>x :: nat. x) (\<lambda>x y. x) [4, 5, 6] (PoolFactory_of (\<lambda>x. x) 0 1 1) = Some (is, f') \<and> length is = 3 \<and> distinct is"
proof -
  have r: "pool_reachable (\<lambda>x :: nat. x) (\<lambda>x y. x) (PoolFactory_of (\<lambda>x. x) 0 1 1, [])"
    by (rule pool_reachable.start) (simp add: size_max_def)
  have "0 < refill_size (PoolFactory_of (\<lambda>x :: nat. x) 0 1 1)"
    "length (pool (PoolFactory_of (\<lambda>x :: nat. x) 0 1 1)) + length [4, 5, 6 :: nat] * refill_size (PoolFactory_of (\<lambda>x :: nat. x) 0 1 1) < size_max"
    by (simp_all add: PoolFactory_of_def fill_pool_def new_slots_def size_max_def)
  from pool_serves_all [OF r this] show ?thesis by auto
qed

end
