(* ===== verification/Path_Resolve.thy ===== *)
theory Path_Resolve
  imports Path
begin

text \<open>
  path.hpp: \<open>absolute\<close> and \<open>canonical\<close> of \<open>Path\<close>, over the file system of theory Path. Both are \<open>noexcept\<close>, so what the standard library
  reports as an error, a path that is empty or, for \<open>canonical\<close>, does not exist, ends the program.
\<close>

section \<open>The functions\<close>

text \<open>The text of a place in the file system.\<close>

definition dir_text :: "string list \<Rightarrow> string" where
  "dir_text ns = (if ns = [] then [slash] else concat (map (\<lambda>n. slash # n) ns))"

definition fs_absolute :: "os \<Rightarrow> string \<Rightarrow> string outcome" where
  "fs_absolute w p =
     (if p = [] then fs_error else if path_absolute p then Ret p else Ret (path_append (dir_text (cwd w)) p))"

definition Path_absolute :: "os \<Rightarrow> Path \<Rightarrow> Path outcome" where
  "Path_absolute w p = noexcept (map_out (\<lambda>q. Path_of q NULL_ID) (fs_absolute w (pathname p)))"

text \<open>Every name of the path but the last has to be found in a directory.\<close>

definition resolves :: "os \<Rightarrow> string \<Rightarrow> bool" where
  "resolves w p \<longleftrightarrow> node_at w p \<noteq> None
     \<and> list_all (\<lambda>i. files w (foldl step_name (if path_absolute p then [] else cwd w) (take i (path_names p))) = Some Directory)
         [0..<length (path_names p)]"

definition fs_canonical :: "os \<Rightarrow> string \<Rightarrow> string outcome" where
  "fs_canonical w p = (if resolves w p then Ret (dir_text (location w p)) else fs_error)"

definition Path_canonical :: "os \<Rightarrow> Path \<Rightarrow> Path outcome" where
  "Path_canonical w p = noexcept (map_out (\<lambda>q. Path_of q NULL_ID) (fs_canonical w (pathname p)))"

section \<open>Places and their texts\<close>

text \<open>The names a directory may have.\<close>

definition names_ok :: "string list \<Rightarrow> bool" where
  "names_ok ns \<longleftrightarrow> list_all (\<lambda>n. n \<noteq> [] \<and> slash \<notin> set n \<and> n \<noteq> ''.'' \<and> n \<noteq> ''..'') ns"

lemma fields_around: "String_Util.fields ch (a @ ch # b) = String_Util.fields ch a @ String_Util.fields ch b"
proof (induction a)
  case (Cons x a)
  obtain f fs where "String_Util.fields ch a = f # fs" using fields_nonempty by (metis list.exhaust)
  with Cons show ?case by auto
qed simp

lemma path_names_append: "path_names (a @ slash # b) = path_names a @ path_names b"
  by (simp add: path_names_def fields_around)

lemma path_names_slash: "path_names (slash # b) = path_names b"
  using path_names_append [of "[]" b] by simp

lemma path_names_dir_text: "names_ok ns \<Longrightarrow> path_names (dir_text ns) = ns"
proof (induction ns rule: rev_induct)
  case Nil
  show ?case using path_names_slash [of "[]"] by (simp add: dir_text_def)
next
  case (snoc n ns)
  then have n: "path_names n = [n]" "names_ok ns" by (auto simp: names_ok_def intro: names_single)
  show ?case
  proof (cases "ns = []")
    case True
    then show ?thesis using n path_names_slash [of n] by (simp add: dir_text_def)
  next
    case False
    then have "dir_text (ns @ [n]) = dir_text ns @ slash # n" by (simp add: dir_text_def)
    then show ?thesis using n snoc.IH by (simp add: path_names_append)
  qed
qed

lemma dir_text_absolute: "path_absolute (dir_text ns)"
  by (cases ns) (simp_all add: dir_text_def path_absolute_def)

lemma foldl_step_name_ok: "names_ok ns \<Longrightarrow> foldl step_name d ns = d @ ns"
  by (induction ns arbitrary: d) (auto simp: names_ok_def step_name_def)

lemma location_dir_text: "names_ok ns \<Longrightarrow> location v (dir_text ns) = ns"
  by (simp add: location_def dir_text_absolute path_names_dir_text foldl_step_name_ok)

lemma fields_without_separator: "n \<in> set (String_Util.fields ch p) \<Longrightarrow> ch \<notin> set n"
proof (induction p arbitrary: n)
  case (Cons x p)
  obtain f fs where "String_Util.fields ch p = f # fs" using fields_nonempty by (metis list.exhaust)
  with Cons show ?case by (auto split: if_splits)
qed simp

lemma path_names_members: "n \<in> set (path_names p) \<Longrightarrow> n \<noteq> [] \<and> slash \<notin> set n"
  by (auto simp: path_names_def dest: fields_without_separator)

lemma names_ok_step: "names_ok d \<Longrightarrow> n \<noteq> [] \<Longrightarrow> slash \<notin> set n \<Longrightarrow> names_ok (step_name d n)"
  by (auto simp: names_ok_def step_name_def list_all_iff dest: in_set_butlastD)

lemma names_ok_steps: "names_ok d \<Longrightarrow> \<forall>n\<in>set ns. n \<noteq> [] \<and> slash \<notin> set n \<Longrightarrow> names_ok (foldl step_name d ns)"
  by (induction ns arbitrary: d) (simp_all add: names_ok_step)

lemma names_ok_location: "names_ok (cwd w) \<Longrightarrow> names_ok (location w p)"
  unfolding location_def using path_names_members [of _ p] by (intro names_ok_steps) (auto simp: names_ok_def)

lemma dir_text_inj: "names_ok a \<Longrightarrow> names_ok b \<Longrightarrow> dir_text a = dir_text b \<longleftrightarrow> a = b"
  by (metis path_names_dir_text)

lemma location_absolute:
  assumes "names_ok (cwd w)" "\<not> path_absolute p"
  shows "location v (path_append (dir_text (cwd w)) p) = location w p"
proof -
  have names: "path_names (path_append (dir_text (cwd w)) p) = cwd w @ path_names p"
  proof (cases "cwd w = []")
    case True
    then show ?thesis using assms(2) path_names_slash [of p] by (simp add: path_append_def dir_text_def filename_empty)
  next
    case False
    then have "last (cwd w) \<noteq> []" "slash \<notin> set (last (cwd w))" using assms(1) by (auto simp: names_ok_def list_all_iff)
    moreover have "last (dir_text (cwd w)) = last (last (cwd w))" "dir_text (cwd w) \<noteq> []"
      using False calculation by (cases "cwd w" rule: rev_cases; simp add: dir_text_def)+
    ultimately have "path_filename (dir_text (cwd w)) \<noteq> []" by (metis filename_empty last_in_set)
    then show ?thesis
      using assms path_names_append [of "dir_text (cwd w)" p] by (simp add: path_append_def path_names_dir_text)
  qed
  have "path_absolute (path_append (dir_text (cwd w)) p)"
    using assms(2) dir_text_absolute [of "cwd w"] by (auto simp: path_append_def path_absolute_def)
  then show ?thesis using assms names by (simp add: location_def foldl_step_name_ok)
qed

section \<open>What they promise\<close>

text \<open>
  C36: \<open>absolute\<close> gives, for every path that is not empty, a path that names the same place from every current directory, and an
  absolute path unchanged. \<open>canonical\<close> gives the text of the place without dots; of two paths that exist it is equal exactly
  when they name the same place. A path that does not exist ends the program.
\<close>

theorem path_resolution:
  assumes "names_ok (cwd w)"
  shows "(pathname p \<noteq> [] \<longrightarrow> (\<exists>a. Path_absolute w p = Ret a \<and> path_absolute (pathname a) \<and> mid a = NULL_ID
       \<and> (\<forall>v. location v (pathname a) = location w (pathname p) \<and> Path_absolute v a = Ret a)))
    \<and> (resolves w (pathname p) \<and> resolves w (pathname q) \<longrightarrow> (\<exists>c d. Path_canonical w p = Ret c \<and> Path_canonical w q = Ret d
       \<and> (\<forall>v. location v (pathname c) = location w (pathname p)) \<and> names_ok (path_names (pathname c))
       \<and> (pathname c = pathname d \<longleftrightarrow> location w (pathname p) = location w (pathname q))))
    \<and> (\<not> resolves w (pathname p) \<longrightarrow> Path_canonical w p = Terminate)
    \<and> Path_absolute w (p\<lparr>pathname := []\<rparr>) = Terminate"
proof (intro conjI impI)
  let ?t = "if path_absolute (pathname p) then pathname p else path_append (dir_text (cwd w)) (pathname p)"
  assume "pathname p \<noteq> []"
  then have r: "Path_absolute w p = Ret (Path_of ?t NULL_ID)" by (simp add: Path_absolute_def fs_absolute_def)
  have t: "path_absolute ?t"
    using dir_text_absolute [of "cwd w"] by (auto simp: path_append_def path_absolute_def)
  have "location v ?t = location w (pathname p)" for v
    using location_absolute [OF assms] by (simp add: location_def)
  with r t show "\<exists>a. Path_absolute w p = Ret a \<and> path_absolute (pathname a) \<and> mid a = NULL_ID
       \<and> (\<forall>v. location v (pathname a) = location w (pathname p) \<and> Path_absolute v a = Ret a)"
    by (intro exI [of _ "Path_of ?t NULL_ID"]) (simp add: Path_of_def Path_absolute_def fs_absolute_def path_absolute_def)
next
  assume "resolves w (pathname p) \<and> resolves w (pathname q)"
  then show "\<exists>c d. Path_canonical w p = Ret c \<and> Path_canonical w q = Ret d
       \<and> (\<forall>v. location v (pathname c) = location w (pathname p)) \<and> names_ok (path_names (pathname c))
       \<and> (pathname c = pathname d \<longleftrightarrow> location w (pathname p) = location w (pathname q))"
    using names_ok_location [OF assms]
    by (simp add: Path_canonical_def fs_canonical_def Path_of_def location_dir_text path_names_dir_text dir_text_inj)
qed (simp_all add: Path_canonical_def fs_canonical_def Path_absolute_def fs_absolute_def fs_error_def)

theorem path_resolution_witness:
  "(\<exists>c. Path_canonical home_os (Path_of ''../home/.'' 1) = Ret c \<and> (\<forall>v. location v (pathname c) = [''home'']))
    \<and> (\<exists>a. Path_absolute home_os (Path_of ''b.txt'' 1) = Ret a \<and> (\<forall>v. location v (pathname a) = [''home'', ''b.txt'']))
    \<and> Path_canonical home_os (Path_of ''b.txt'' 1) = Terminate"
proof -
  let ?h = "Path_of ''../home/.'' 1" and ?b = "Path_of ''b.txt'' 1"
  have ok: "names_ok (cwd home_os)" by code_simp
  have f: "resolves home_os (pathname ?h)" "\<not> resolves home_os (pathname ?b)" "pathname ?b \<noteq> []"
      "location home_os (pathname ?b) = [''home'', ''b.txt'']" "location home_os (pathname ?h) = [''home'']"
    by code_simp+
  show ?thesis using path_resolution [OF ok, of ?b ?b] path_resolution [OF ok, of ?h ?h] f by metis
qed

end
