(* ===== verification/Utilities.thy ===== *)
theory Utilities
  imports Factory CString
begin

text \<open>
  The small headers: memory.hpp, type\_util.hpp, clone\_util.hpp and the function \<open>safe_strerror\<close> of linux/file\_linux.hpp and
  macos/file\_macos.hpp. The arrays that these functions get are arguments with their length, so that going past the end
  is \<open>Undef\<close>.
\<close>

section \<open>Copying memory\<close>

definition memory_copy :: "'a list \<Rightarrow> 'a list \<Rightarrow> nat \<Rightarrow> 'a list outcome" where
  "memory_copy dest src n =
     (if n \<le> length dest \<and> n \<le> length src then Ret (take n src @ drop n dest) else Undef)"

text \<open>\<open>std::strncpy\<close> copies the characters before the null character of its source, at most \<open>n\<close>, and fills with nulls up to \<open>n\<close>.\<close>

definition strncpy :: "string \<Rightarrow> string \<Rightarrow> nat \<Rightarrow> string outcome" where
  "strncpy dest src n =
     (if n \<le> length dest then Ret (take n (takeWhile (\<lambda>c. c \<noteq> NUL) src @ replicate n NUL) @ drop n dest) else Undef)"

text \<open>The message of an error number; \<open>strerror\<close> answers a null pointer or a text.\<close>

definition safe_strerror :: "(int \<Rightarrow> string option) \<Rightarrow> string \<Rightarrow> nat \<Rightarrow> int \<Rightarrow> string outcome" where
  "safe_strerror strerror buf n error_code =
     map_out (\<lambda>b. if n > 0 then b[n - 1 := NUL] else b)
       (strncpy buf (case strerror error_code of None \<Rightarrow> [] | Some m \<Rightarrow> m) n)"

section \<open>Names of types, copies of objects\<close>

text \<open>
  \<open>class_name\<close> erases six characters, the length of \<open>"class "\<close>, from whatever name \<open>typeid\<close> gives: only the names that
  Visual C++ gives begin with \<open>class\<close>.
\<close>

definition typeid_class_name :: "string \<Rightarrow> string" where
  "typeid_class_name typeid_name = drop (length ''class '') typeid_name"

text \<open>\<open>clone\<close> makes a new object from the arguments; the object to be cloned is not used.\<close>

definition clone_object :: "('args \<Rightarrow> 'o) \<Rightarrow> 'o \<Rightarrow> 'args \<Rightarrow> 'o" where
  "clone_object mk other args = NewFactory_get mk args"

section \<open>What they do\<close>

lemma memory_copy_append: "length src = n \<Longrightarrow> n \<le> length dest \<Longrightarrow> memory_copy dest src n = Ret (src @ drop n dest)"
  by (simp add: memory_copy_def)

lemma strncpy_length: "strncpy dest src n = Ret b \<Longrightarrow> length b = length dest"
  by (auto simp: strncpy_def split: if_splits)

lemma cs_to_string_before_nul:
  assumes "NUL \<notin> set xs"
  shows "cs_to_string (xs @ NUL # ys) = Ret xs"
proof -
  have "find_index (\<lambda>c. c = NUL) (xs @ NUL # ys) = Some (length xs)"
    using assms by (induction xs) auto
  then show ?thesis by (simp add: cs_to_string_def cs_length_def)
qed

text \<open>What the caller reads is the message, cut to the size of its array; what the array held before does not matter.\<close>

lemma safe_strerror_text:
  assumes "strerror e = Some m" "NUL \<notin> set m" "0 < n" "n \<le> length buf"
  shows "bind_outcome (safe_strerror strerror buf n e) cs_to_string = Ret (take (n - 1) m)"
proof -
  let ?t = "take n (m @ replicate n NUL)"
  have m: "takeWhile (\<lambda>c. c \<noteq> NUL) m = m" using assms(2) by (auto simp: takeWhile_eq_all_conv)
  have "(?t @ drop n buf)[n - 1 := NUL] = take (n - 1) ?t @ NUL # drop n buf"
    using assms(3,4) by (simp add: list_update_append upd_conv_take_nth_drop) arith
  also have "take (n - 1) ?t = take (n - 1) m @ replicate (n - 1 - length m) NUL"
    using assms(3) by (simp add: min_def)
  finally have b: "safe_strerror strerror buf n e
      = Ret (take (n - 1) m @ replicate (n - 1 - length m) NUL @ NUL # drop n buf)"
    using assms by (simp add: safe_strerror_def strncpy_def m)
  have "NUL \<notin> set (take (n - 1) m)" using assms(2) by (meson in_set_takeD)
  then have "cs_to_string (take (n - 1) m @ NUL # ys) = Ret (take (n - 1) m)" for ys
    by (rule cs_to_string_before_nul)
  moreover have "\<exists>ys. replicate (n - 1 - length m) NUL @ NUL # drop n buf = NUL # ys"
    by (cases "n - 1 - length m") auto
  ultimately show ?thesis unfolding b by auto
qed

text \<open>Visual C++ names a class \<open>class X\<close>; GCC and Clang give the length and the name, of which \<open>class_name\<close> leaves the end.\<close>

lemma class_name_msvc: "typeid_class_name (''class '' @ X) = X"
  by (simp add: typeid_class_name_def)

lemma class_name_gcc: "typeid_class_name ''i'' = []" "typeid_class_name ''6Person'' = ''n''"
  by (simp_all add: typeid_class_name_def)

end
