(* ===== verification/Error_Report.thy ===== *)
theory Error_Report
  imports Utilities Log Wide_String
begin

text \<open>
  How file.hpp reports an error of the C library: the message of the error number, in an array on the stack, and the line
  in the log. Also the conversions of files to texts, which give the id where they are meant to give the path.
\<close>

section \<open>The functions\<close>

text \<open>The array is not initialized: \<open>garbage\<close> is what it holds.\<close>

definition s_io_error_msg :: "(int \<Rightarrow> string option) \<Rightarrow> string \<Rightarrow> int \<Rightarrow> string outcome" where
  "s_io_error_msg strerror garbage error =
     bind_outcome (safe_strerror strerror garbage BUFFER_SIZE error) (\<lambda>msg.
       cs_to_string (msg[BUFFER_SIZE - 1 := NUL]))"

definition error_text :: "string \<Rightarrow> File \<Rightarrow> string \<Rightarrow> string" where
  "error_text error_msg f io_msg = error_msg @ '' in file '' @ Object_to_string (Object.truncate (file_fullpath f)) @ '' '' @ io_msg"

definition log_if_error ::
    "(int \<Rightarrow> string option) \<Rightarrow> string \<Rightarrow> File \<Rightarrow> int \<Rightarrow> string \<Rightarrow> logger \<Rightarrow> os \<Rightarrow> unit outcome \<times> logger \<times> os" where
  "log_if_error strerror garbage f error error_msg lg w =
     (if error \<noteq> 0 then
        (case s_io_error_msg strerror garbage error of
           Ret msg \<Rightarrow> (Ret (), LOG 286 (error_text error_msg f msg) lg w)
         | r \<Rightarrow> (noexcept (map_out (\<lambda>_. ()) r), lg, w))
      else (Ret (), lg, w))"

text \<open>\<open>log_and_throw_if_error\<close> with its line in the log.\<close>

definition log_error_and_throw ::
    "(int \<Rightarrow> string option) \<Rightarrow> string \<Rightarrow> File \<Rightarrow> int \<Rightarrow> string \<Rightarrow> logger \<Rightarrow> os \<Rightarrow> unit outcome \<times> logger \<times> os" where
  "log_error_and_throw strerror garbage f error error_msg lg w =
     (if error \<noteq> 0 then
        (case s_io_error_msg strerror garbage error of
           Ret msg \<Rightarrow> (log_and_throw_if_error (\<lambda>_. msg) f error error_msg, LOG 296 (error_text error_msg f msg) lg w)
         | r \<Rightarrow> (map_out (\<lambda>_. ()) r, lg, w))
      else (Ret (), lg, w))"

definition TextFile_fullpath_to_string :: "File \<Rightarrow> string" where
  "TextFile_fullpath_to_string f = Object_to_string (Object.truncate (file_fullpath f))"

definition TextFile_to_S :: "File \<Rightarrow> string" where
  "TextFile_to_S f = Object_to_string (Object.truncate f)"

definition File_c_str :: "File \<Rightarrow> string" where
  "File_c_str f = pathname (file_fullpath f) @ [NUL]"

section \<open>What is reported\<close>

lemma s_io_error_msg_text:
  assumes "strerror e = Some m" "NUL \<notin> set m" "length garbage = BUFFER_SIZE"
  shows "s_io_error_msg strerror garbage e = Ret (take 1023 m)"
proof -
  obtain b where b: "safe_strerror strerror garbage BUFFER_SIZE e = Ret b" "b[BUFFER_SIZE - 1 := NUL] = b"
    using assms by (auto simp: safe_strerror_def strncpy_def BUFFER_SIZE_def)
  then show ?thesis
    using safe_strerror_text [of strerror e m BUFFER_SIZE garbage] assms(1,2) assms(3) by (simp add: s_io_error_msg_def BUFFER_SIZE_def)
qed

lemma File_of_path_id:
  assumes "File_of p i mode w = (Ret f, w')"
  shows "Object_to_string (Object.truncate (file_fullpath f)) = ''--1''"
proof -
  have "mid (file_fullpath f) = NULL_ID"
    using assms
    by (auto simp: File_of_def File_file_open_def log_and_throw_def Path_copy_def Path_of_def split: outcome.splits prod.splits if_splits)
  then have "Object.truncate (file_fullpath f) = \<lparr>mid = NULL_ID\<rparr>" by (simp add: Object.defs)
  moreover have "Object_to_string \<lparr>mid = NULL_ID\<rparr> = ''--1''" by code_simp
  ultimately show ?thesis by simp
qed

text \<open>
  C37: An error of the C library on a file made by \<open>File\<close> adds one line to the enabled log, and \<open>log_and_throw_if_error\<close> also throws
  its text: the number of the source line, the caller's text, and at most 1023 characters of the library's message, whatever
  the array held before. In place of the path stands \<open>--1\<close>, because \<open>to_string\<close> is that of \<open>Object\<close>, so the file cannot be
  told from the report. Without an error nothing happens, and no other file changes.
\<close>

theorem error_reported:
  assumes f: "File_of p i mode w0 = (Ret f, w1)"
    and log: "log_inv True loc lg" "log_place w loc"
    and msg: "strerror e = Some m" "NUL \<notin> set m" "length garbage = BUFFER_SIZE" "e \<noteq> 0"
  shows "\<exists>lg' w' lg'' w''. log_if_error strerror garbage f e txt lg w = (Ret (), lg', w')
      \<and> content_at w' loc = content_at w loc @ ''286'' @ txt @ '' in file --1 '' @ take 1023 m @ [CHR 0x0A]
      \<and> (\<forall>k. k \<noteq> loc \<longrightarrow> files w' k = files w k)
      \<and> log_error_and_throw strerror garbage f e txt lg w
        = (Raise (Lib_error (txt @ '' in file --1 '' @ take 1023 m)), lg'', w'')
      \<and> content_at w'' loc = content_at w loc @ ''296'' @ txt @ '' in file --1 '' @ take 1023 m @ [CHR 0x0A]
      \<and> (\<forall>k. k \<noteq> loc \<longrightarrow> files w'' k = files w k)
      \<and> log_if_error strerror garbage f 0 txt lg w = (Ret (), lg, w)
      \<and> log_error_and_throw strerror garbage f 0 txt lg w = (Ret (), lg, w)"
proof -
  let ?t = "txt @ '' in file --1 '' @ take 1023 m"
  have s: "s_io_error_msg strerror garbage e = Ret (take 1023 m)" using msg(1-3) by (rule s_io_error_msg_text)
  have t: "error_text txt f (take 1023 m) = ?t" by (simp add: error_text_def File_of_path_id [OF f])
  obtain lg' w' where l1: "LOG 286 ?t lg w = (lg', w')" by fastforce
  obtain lg'' w'' where l2: "LOG 296 ?t lg w = (lg'', w'')" by fastforce
  have "show_nat 286 = ''286''" "show_nat 296 = ''296''" by code_simp+
  with log_step_effect [OF log, of "Log 286 ?t"] log_step_effect [OF log, of "Log 296 ?t"] l1 l2
  have "content_at w' loc = content_at w loc @ ''286'' @ ?t @ [CHR 0x0A]" "\<forall>k. k \<noteq> loc \<longrightarrow> files w' k = files w k"
      "content_at w'' loc = content_at w loc @ ''296'' @ ?t @ [CHR 0x0A]" "\<forall>k. k \<noteq> loc \<longrightarrow> files w'' k = files w k"
    by simp_all
  then show ?thesis
    using s t l1 l2 msg(4) by (simp add: log_if_error_def log_error_and_throw_def log_and_throw_if_error_def File_of_path_id [OF f])
qed

theorem error_reported_witness:
  "\<exists>f w1 lg lg' w'. File_of (Path_of ''/home/data.bin'' 7) 1 BIN_WRITE home_os = (Ret f, w1)
    \<and> log_if_error (\<lambda>_. Some ''Disk full'') (replicate BUFFER_SIZE CHR ''x'') f 28 ''write'' lg home_os = (Ret (), lg', w')
    \<and> content_at w' [''home'', ''log.txt''] = ''286write in file --1 Disk full'' @ [CHR 0x0A]"
proof -
  let ?loc = "[''home'', ''log.txt'']"
  let ?lg = "\<lparr>log_on = True, initialized = True,
    log_stream = \<lparr>opened = Some (?loc, DEFAULT_LOG_FILE_OPEN_MODE), stream_pos = 0, failbit = False\<rparr>\<rparr>"
  obtain f w1 where f: "File_of (Path_of ''/home/data.bin'' 7) 1 BIN_WRITE home_os = (Ret f, w1)"
  proof -
    have "case fst (File_of (Path_of ''/home/data.bin'' 7) 1 BIN_WRITE home_os) of Ret f \<Rightarrow> True | _ \<Rightarrow> False" by code_simp
    then show ?thesis using that by (auto split: outcome.splits) (metis prod.collapse)
  qed
  have log: "log_inv True ?loc ?lg" "log_place home_os ?loc"
    by (simp_all add: log_inv_def log_place_def location_def default_log_file_name_def path_names_def path_absolute_def slash_def
        home_os_def step_name_def)
  have n: "NUL \<notin> set ''Disk full''" by code_simp
  have e: "(28 :: int) \<noteq> 0" by simp
  obtain lg' w' where
      "log_if_error (\<lambda>_. Some ''Disk full'') (replicate BUFFER_SIZE CHR ''x'') f 28 ''write'' ?lg home_os = (Ret (), lg', w')"
      "content_at w' ?loc = content_at home_os ?loc @ ''286'' @ ''write'' @ '' in file --1 '' @ take 1023 ''Disk full'' @ [CHR 0x0A]"
    using error_reported [OF f log, of "\<lambda>_. Some ''Disk full''" 28 "''Disk full''" "replicate BUFFER_SIZE CHR ''x''" "''write''",
        OF refl n length_replicate e] by blast
  moreover have "content_at home_os ?loc = []" by (simp add: content_at_def home_os_def)
  ultimately show ?thesis using f by auto
qed

end
