(* ===== verification/Spec2Isabelle.thy ===== *)
theory Spec2Isabelle
  imports Distance Byte_Order String_Util Array Command Person
    Person_Dao Contact_Dao Visibility_Dao Org_Dao Role_Dao Locale_Dao Search_Dao Audit_Dao
    Log Constraint Stop_Watch Data_Layout System Wide_String
    Statistic Random_Util Span_Util CString_Type Factory_Service
    Path_Resolve Error_Report
begin

text \<open>
  A model of the C++ library pensar and of its contact management, with the theorems that say what the code
  does. The library lives under src/cpp/src, the contact management under src/contact. Everything is
  header code; the model follows the build that the tests use: 64-bit words, \<open>char\<close> signed, the narrow
  character type.

  \<^bold>\<open>The program.\<close> At the bottom are values: fixed-size strings \<open>CS\<close>, text encodings, edit distance, string
  utilities, byte order, arrays, truth values and results, a sorted list. On them stand objects that can
  be written to and read from a binary buffer (\<open>ClassInfo\<close>, \<open>Object\<close>), the factories that make them, the
  generator of their ids, and commands that run and undo. The contact management uses the strings for
  names and addresses, makes \<open>Person\<close> an object, and stores its data in PostgreSQL through data access
  objects, each call in a session borrowed from a pool.

  \<^bold>\<open>How code becomes definitions.\<close> A function that may throw, end the program or have undefined behaviour
  returns an \<open>outcome\<close> (theory Prelude): \<open>Ret\<close>, \<open>Raise\<close> with the exception, or one of the values for undefined
  behaviour and for \<open>std::terminate\<close>. State is passed explicitly: a record per class, returned changed. A
  loop is a recursive function with the loop's variables as arguments; where it may run forever it is a
  \<open>partial_function (option)\<close> and returning is proved, not assumed. Words have their width. What is not under
  src/ is an argument: ICU (records \<open>icu\<close>, \<open>icu_text\<close>, \<open>icu_conv\<close>), floating-point arithmetic (\<open>float_ops\<close>, for \<open>double\<close> instantiated in theory Statistic), what the C
  file functions answer, the bytes that padding holds, the state that commands act on (a type variable),
  and the database server (records \<open>pg\<close> and \<open>server\<close>). Theory Cpp\_Std holds what the sources use of the C++
  standard library.

  \<^bold>\<open>Theories and sources.\<close>
  \<^item> Prelude, Cpp\_Std: outcomes, shared lemmas, \<open>std::string\<close>, character classes, streams, \<open>std::lower_bound\<close>.
  \<^item> Accent, CString: icu\_util.hpp (\<open>remove_accent_char\<close>) and cs.hpp. Construction and conversion are inverse
    for lengths below \<open>MAX\<close>; appending writes past the array when the lengths sum to \<open>MAX\<close>; \<open>operator<\<close> is no
    weak order; \<open>operator==\<close> is an equivalence. CString\_Type: what the constructors, assignments
    of texts and strings, concatenations and reading give is a full array with a null character, so what is called on it later
    is defined; when the members that write what they are given (\<open>fill\<close>, \<open>[]\<close>, arrays, \<open>copy\<close> without its flags) keep this.
  \<^item> Encoding: encoding.hpp and icu\_util.hpp: byte order marks, detection, code points, accents.
  \<^item> Result: bool.hpp and code\_util.hpp.
  \<^item> Sorted\_List: sorted\_list.hpp. Every operation keeps the order of the comparator (interface: the locale of
    strict weak orders) and refines the multiset of elements.
  \<^item> Distance: distance.hpp. The three-row table computes the least cost of an edit script.
  \<^item> Bytes, Byte\_Order, Array: endian.hpp, wire\_int.hpp, wire\_double.hpp, byte\_order.hpp, array.hpp.
  \<^item> String\_Util: s.hpp and algorithm\_util.hpp. Each loop equals a definition without a loop, or is shown not
    to return.
  \<^item> Binary\_Buffer: binary\_buffer.hpp. What is written is read back in order. Persistence: the locale \<open>persistent\<close> of the classes
    that write themselves to a buffer and read themselves back, with what follows for any number of objects and for
    files; Objects, Generator, Command and Person interpret it.
  \<^item> Objects, Factory, Generator: class\_info.hpp, object.hpp, equal.hpp, error.hpp, factory.hpp, generator.hpp.
    Round trips of the binary form, exclusiveness of pooled objects, uniqueness of ids. Factory\_Service: a pool
    that can grow serves every sequence of requests.
  \<^item> Command: command.hpp. Order of running and undoing, well-formedness of the composite, its binary form.
  \<^item> Email, Person: contact.hpp, e-mail.hpp, phone.hpp, date.hpp, person.hpp. The validators accept exactly a
    grammar of addresses; constructors, text and binary forms.
  \<^item> Sql: the statements of contact/data as a datatype, and the locale \<open>sql_server\<close> of the documented behaviour of
    SQL that the code relies on. A small server that executes the statements on lists of rows is an
    interpretation of the locale, so the laws can be met.
  \<^item> Db\_Connection: db\_connection.hpp. A text put into a \<open>SET\<close> statement stays one string constant; the statements of a
    session run under its user and locale and nothing of it remains.
  \<^item> Dao: what the data access objects share. The locales \<open>readable\<close> and \<open>dto\<close> say what a class has to get right for
    its table to be a list of its objects; in them each call is an operation on that list. Person\_Dao,
    Contact\_Dao (with a locale of its own for tables with an owner), Visibility\_Dao, Org\_Dao, Role\_Dao and
    Locale\_Dao interpret them; their properties are refinements of operations on lists: insert appends
    under a new id, find, list and page give exactly the objects asked for in the order asked for, update
    replaces, remove takes out.
  \<^item> Search\_Dao, Audit\_Dao: calls of functions of the server, with the conversion of \<open>double\<close> to \<open>float\<close>, and the
    text of the audit statement, read as the server does, with its constants, quoted identifiers and comments: when the
    filters are its constants, and what a quote or a comment in an argument does.

  \<^item> Path, File: path.hpp and file.hpp over a model of \<open>std::filesystem\<close> and \<open>std::fstream\<close> for POSIX, without links
    and without errors of the device: directories are made, files are written, appended to, read and
    removed; where a failed stream ends the program. The destructor of a file releases its stream with the wrong
    function, which is undefined behaviour. Path\_Resolve: \<open>absolute\<close> and \<open>canonical\<close>.
  \<^item> Log: log.hpp as a state machine over such a stream; the log holds what was logged while it was enabled. Every
    translation unit has a log of its own; the model is that of one.
  \<^item> Utilities, Error\_Report: memory.hpp, type\_util.hpp, clone\_util.hpp, file\_linux.hpp and the messages about errors in file.hpp,
    from the number of the error to the line in the log.
  \<^item> Constraint: constraint.hpp. Regular expressions of characters and character classes are interpreted,
    other patterns are an argument.
  \<^item> Stop\_Watch: stop\_watch.hpp with the time as an argument; the text of a time that is not negative gives the time back.
  \<^item> System: mac\_address.hpp, system.hpp, sysinfo.hpp and the headers of the platforms, with the answers of the
    operating system as arguments: the text of a hardware address and how each platform makes it, the
    estimate of the number of threads.
  \<^item> Io\_Util: io\_util.hpp and the functions of the platforms on files, lines, binary data and time stamps.
  \<^item> Unicode, Wide\_String: the conversions of wide strings of icu\_util.hpp and s.hpp, and the functions of the Windows
    header that use them, over the locale \<open>icu_converters\<close> of the documented behaviour of ICU's converters. Decoders
    of UTF-8 and UTF-16, proved inverse to the encoding forms, are its interpretation.
  \<^item> Binary64, Statistic: the arithmetic of \<open>double\<close> with its rounding, and statistic.hpp, whose one-pass computation is compared
    with the variance over the reals: the error for integers, and numbers for which it is not a number.
  \<^item> Random\_Util, Span\_Util: random\_util.hpp, with the engine of the standard and the promise of a distribution as a
    locale; span\_util.hpp and bytes\_util.hpp, the bytes of containers for types given by their parts and traits.
  \<^item> Data\_Layout: data.hpp. The macros are functions of what the compiler knows of a structure; they accept
    exactly the structures that their members fill and whose type traits hold.
  \<^item> This theory: a program that keeps persons and the generator of ids in a file, over Generator, Person,
    Binary\_Buffer and Persistence.

  \<^bold>\<open>Database laws.\<close> A property about a data access object assumes \<open>sql_server env sv rows\<close>: \<open>rows\<close> reads the tables
  from the server's state, \<open>env\<close> holds what depends on the schema (which values columns keep, which rows the
  constraints admit, the collation, the date). Triggers may write to the tables of the audit log
  (\<open>pg_log\<close>) and a delete may clear references within a table that refers to itself (\<open>pg_self\<close>). The
  functions that the server defines are not interpreted. SOCI is taken as documented: \<open>into\<close> leaves its
  variable alone when there is no row, \<open>row::get\<close> throws on a type that does not match, a boolean column is
  read as an integer.

  \<^bold>\<open>Bounds.\<close> Ids stay below \<open>2 ^ 62\<close> rows in a table, so that a new 64-bit id exists; a count fits an \<open>int\<close> when there
  are fewer than \<open>2 ^ 31\<close> rules. The generator of ids is followed up to the signed overflow, which is
  undefined behaviour. The standard deviation is followed for integers whose squares sum to at most \<open>2 ^ 53\<close>, so that the
  sums are exact.

  \<^bold>\<open>Not modelled.\<close> The headers for iOS and Android are older copies of functions that are modelled for macOS and
  Windows, and include headers that do not exist. In constraint.hpp the members that dispatch to a derived class and
  \<open>operator &&\<close>, in cs.hpp the free \<open>operator+\<close>, in span\_util.hpp \<open>wbytes\<close> do not compile or cannot be chosen when used.
  Concepts have no code to run; country.hpp, language.hpp and locale.hpp are not included by any file. In
  factory.hpp \<open>set_factory\<close> and \<open>get_factory\<close>, in path.hpp \<open>relative\<close> are left out. Much of s.hpp and
  object.hpp is commented out.
\<close>

section \<open>An address book in a file\<close>

text \<open>
  What a program does with the parts when it keeps its persons in a file: the generator of the ids is written first, the
  persons after it. \<open>save_book\<close> and \<open>load_book\<close> are the calls in the order of such a program.
\<close>

definition save_book :: "nat \<Rightarrow> Generator \<Rightarrow> Person list \<Rightarrow> Bool result outcome \<times> byte list" where
  "save_book r g ps = bb_save_to_file True id (foldl Person_write (Generator_write (bb_new r) g) ps)"

definition load_book :: "byte list \<Rightarrow> BinaryBuffer \<Rightarrow> Generator \<Rightarrow> Person list
    \<Rightarrow> Bool result outcome \<times> Generator \<times> Person list \<times> byte list" where
  "load_book content other g olds =
     (case bb_load_from_file (Some content) (int (length content)) id other of (r, bb) \<Rightarrow>
      case Generator_read bb g of (bb, g) \<Rightarrow>
      case read_objects Person_read bb olds of (bb, ps) \<Rightarrow> (r, g, ps, bb_pending bb))"

lemma save_load_book:
  assumes "list_all (\<lambda>p. Person_wf (person_mdata p)) ps" "list_all (\<lambda>p. Person_wf (person_mdata p)) olds" "length olds = length ps"
  shows "\<exists>content. save_book r g ps = (Ret (result_ok (Bool_of_int T)), content)
    \<and> load_book content other old olds = (Ret (result_ok (Bool_of_int T)), g, ps, [])"
proof -
  let ?w = "foldl Person_write (Generator_write (bb_new r) g) ps"
  have g: "bb_inv (Generator_write (bb_new r) g)" "bb_pending (Generator_write (bb_new r) g) = Generator_image g"
      "read_pos (Generator_write (bb_new r) g) = 0"
    using generator.write_put [OF bb_new_inv(1), of r g] generator.write_position [of "bb_new r" g] by simp_all
  have w: "bb_inv ?w" "bb_pending ?w = Generator_image g @ concat (map Person_image ps)" "read_pos ?w = 0"
    using person_object.write_all [OF g(1), of ps] g(2,3) by simp_all
  obtain content bb where s: "bb_save_to_file True id ?w = (Ret (result_ok (Bool_of_int T)), content)"
      "bb_load_from_file (Some content) (int (length content)) id other = (Ret (result_ok (Bool_of_int T)), bb)"
      "bb_inv bb" "bb_pending bb = Generator_image g @ concat (map Person_image ps)"
    using saved_and_loaded [OF w(1,3)] w(2) by metis
  obtain b1 where b1: "Generator_read bb old = (b1, g)" "bb_inv b1" "bb_pending b1 = concat (map Person_image ps) @ []"
    using generator.read_front [OF s(3,4), of old] by auto
  obtain b2 where "read_objects Person_read b1 olds = (b2, ps)" "bb_pending b2 = []"
    using person_object.read_all_front [OF b1(2,3) assms] by auto
  with s b1 show ?thesis by (simp add: save_book_def load_book_def)
qed

lemma take_ids_add:
  "take_ids (m + n) g = Ret (ws, g2)
    \<longleftrightarrow> (\<exists>us g1 vs. take_ids m g = Ret (us, g1) \<and> take_ids n g1 = Ret (vs, g2) \<and> ws = us @ vs)"
  by (induction m arbitrary: g ws) (auto simp: outcome_simps)

text \<open>
  C7: A program that takes ids, saves the generator and its persons, and after a restart loads them into whatever objects
  it has, finds the same persons and the same generator, nothing else in the file, and all ids taken before and
  after the restart are different, as long as they stay in the range of the type.
\<close>

theorem book_survives_restart:
  assumes "list_all (\<lambda>p. Person_wf (person_mdata p)) ps" "list_all (\<lambda>p. Person_wf (person_mdata p)) olds" "length olds = length ps"
    and range: "\<forall>k\<le>m + n. - (2 ^ 63) \<le> sint (gen_mvalue g) + int k * sint (mstep g)
      \<and> sint (gen_mvalue g) + int k * sint (mstep g) < 2 ^ 63" and "mstep g \<noteq> 0"
  shows "\<exists>us vs g1 g2 content. take_ids m g = Ret (us, g1)
    \<and> save_book r g1 ps = (Ret (result_ok (Bool_of_int T)), content)
    \<and> load_book content other old olds = (Ret (result_ok (Bool_of_int T)), g1, ps, [])
    \<and> take_ids n g1 = Ret (vs, g2) \<and> length us = m \<and> length vs = n \<and> distinct (us @ vs)"
proof -
  obtain ws g2 where ws: "take_ids (m + n) g = Ret (ws, g2)" "distinct ws" "length ws = m + n"
    using take_ids_distinct [OF range assms(5)] by blast
  obtain us g1 vs where "take_ids m g = Ret (us, g1)" "take_ids n g1 = Ret (vs, g2)" "ws = us @ vs"
    using ws(1) by (auto simp: take_ids_add)
  moreover have "length us = m" "length vs = n"
    using calculation take_ids_length by blast+
  ultimately show ?thesis using ws(2) save_load_book [OF assms(1-3), of r g1 other old] by auto
qed

theorem book_survives_restart_witness:
  "\<exists>us vs g1 g2 content. take_ids 2 (Generator_of 1 0 1) = Ret (us, g1)
    \<and> save_book 0 g1 [sample_person ''Ana'' [] ''Costa''] = (Ret (result_ok (Bool_of_int T)), content)
    \<and> load_book content (bb_new 0) (Generator_of 7 0 2) [sample_person [] [] []]
        = (Ret (result_ok (Bool_of_int T)), g1, [sample_person ''Ana'' [] ''Costa''], [])
    \<and> take_ids 3 g1 = Ret (vs, g2) \<and> length us = 2 \<and> length vs = 3 \<and> distinct (us @ vs)"
proof -
  have wf: "list_all (\<lambda>p. Person_wf (person_mdata p)) [sample_person ''Ana'' [] ''Costa'']"
      "list_all (\<lambda>p. Person_wf (person_mdata p)) [sample_person [] [] []]"
    by code_simp+
  show ?thesis by (rule book_survives_restart [OF wf]) (simp_all add: Generator_of_def)
qed

end
